(* ===== verification/Pion_Prelude.thy ===== *)
theory Pion_Prelude
  imports Main "HOL-Library.Word" "HOL-Library.Sublist" "HOL-Library.Code_Target_Nat"
begin

text \<open>
  Shared vocabulary of the development: the C and C++ library functions the sources call
  (\<^verbatim>\<open>isspace\<close>, \<^verbatim>\<open>tolower\<close>, \<^verbatim>\<open>strtol\<close>, \<^verbatim>\<open>std::stoul\<close>, \<^verbatim>\<open>std::to_string\<close>,
  \<^verbatim>\<open>std::string::find\<close>, \<^verbatim>\<open>std::search\<close>), the arithmetic of \<^verbatim>\<open>std::size_t\<close>, and the
  generic lemmas the component theories use.

  A \<^verbatim>\<open>std::string\<close> and a byte buffer are a \<^typ>\<open>string\<close>; one \<^typ>\<open>char\<close> is one byte.
  \<^verbatim>\<open>char\<close> is signed (the x86 and x64 ABIs): \<open>char_to_int\<close> is its conversion to
  \<^verbatim>\<open>int\<close>. \<^verbatim>\<open>std::size_t\<close> has 64 bits and is a \<^typ>\<open>nat\<close> whose additions are
  written with \<open>szadd\<close>, which wraps around.
\<close>

named_theorems cstr_simps \<open>unfolding of the C string helpers\<close>

section \<open>Bytes\<close>

definition byte_val :: "char \<Rightarrow> nat" where
  "byte_val c = of_char c"

definition char_to_int :: "char \<Rightarrow> int" where
  "char_to_int c = (if byte_val c < 128 then int (byte_val c) else int (byte_val c) - 256)"

definition byte_char :: "nat \<Rightarrow> char" where
  "byte_char n = char_of n"

lemma byte_val_less [simp]: "byte_val c < 256"
  by (simp add: byte_val_def)

lemma byte_char_val [simp]: "byte_char (byte_val c) = c"
  by (simp add: byte_char_def byte_val_def)

lemma byte_val_char: "byte_val (byte_char n) = n mod 256"
  by (simp add: byte_char_def byte_val_def)

lemma byte_val_char_less [simp]: "n < 256 \<Longrightarrow> byte_val (byte_char n) = n"
  by (simp add: byte_val_char)

lemma byte_val_inj: "byte_val c = byte_val d \<longleftrightarrow> c = d"
  by (metis byte_char_val)

lemma char_to_int_inj: "char_to_int c = char_to_int d \<longleftrightarrow> c = d"
proof
  assume "char_to_int c = char_to_int d"
  then have "byte_val c = byte_val d"
    using byte_val_less [of c] byte_val_less [of d] unfolding char_to_int_def
    by (auto split: if_splits simp del: byte_val_less)
  then show "c = d" by (simp add: byte_val_inj)
qed simp

lemma char_to_int_nonneg_iff: "0 \<le> char_to_int c \<longleftrightarrow> byte_val c < 128"
  using byte_val_less [of c] by (auto simp: char_to_int_def simp del: byte_val_less)

abbreviation CR :: char where "CR \<equiv> CHR 0x0D"
abbreviation LF :: char where "LF \<equiv> CHR 0x0A"
abbreviation TAB :: char where "TAB \<equiv> CHR 0x09"
abbreviation SP :: char where "SP \<equiv> CHR 0x20"
abbreviation NUL :: char where "NUL \<equiv> CHR 0x00"
abbreviation DQUOTE :: char where "DQUOTE \<equiv> CHR 0x22"
abbreviation SQUOTE :: char where "SQUOTE \<equiv> CHR 0x27"
abbreviation BACKSLASH :: char where "BACKSLASH \<equiv> CHR 0x5C"
abbreviation BACKTICK :: char where "BACKTICK \<equiv> CHR 0x60"

section \<open>Character classes of the C locale\<close>

definition isspace :: "char \<Rightarrow> bool" where
  "isspace c = (c = SP \<or> (9 \<le> byte_val c \<and> byte_val c \<le> 13))"

definition tolower :: "char \<Rightarrow> char" where
  "tolower c = (if 65 \<le> byte_val c \<and> byte_val c \<le> 90 then byte_char (byte_val c + 32) else c)"

definition toupper :: "char \<Rightarrow> char" where
  "toupper c = (if 97 \<le> byte_val c \<and> byte_val c \<le> 122 then byte_char (byte_val c - 32) else c)"

text \<open>Two letters fold to the same lower case exactly when they fold to the same upper case.\<close>

lemma tolower_eq_iff_toupper_eq: "tolower c = tolower d \<longleftrightarrow> toupper c = toupper d"
proof -
  have conv: "x = byte_char n \<longleftrightarrow> byte_val x = n" "byte_char n = x \<longleftrightarrow> byte_val x = n"
    if "n < 256" for x n
    using that by (metis byte_char_val byte_val_char_less)+
  show ?thesis
    unfolding tolower_def toupper_def
    by (auto simp: conv byte_val_inj [symmetric] split: if_splits)
qed

section \<open>Digits and numbers\<close>

definition digit_value :: "char \<Rightarrow> nat option" where
  "digit_value c =
     (let n = byte_val c in
      if 48 \<le> n \<and> n \<le> 57 then Some (n - 48)
      else if 97 \<le> n \<and> n \<le> 102 then Some (n - 87)
      else if 65 \<le> n \<and> n \<le> 70 then Some (n - 55)
      else None)"

definition is_base_digit :: "nat \<Rightarrow> char \<Rightarrow> bool" where
  "is_base_digit b c = (case digit_value c of None \<Rightarrow> False | Some d \<Rightarrow> d < b)"

definition digits_value :: "nat \<Rightarrow> string \<Rightarrow> nat" where
  "digits_value b s = foldl (\<lambda>acc c. acc * b + (case digit_value c of None \<Rightarrow> 0 | Some d \<Rightarrow> d)) 0 s"

text \<open>The digit strings of \<^verbatim>\<open>%lx\<close>, \<^verbatim>\<open>%X\<close> and \<^verbatim>\<open>std::to_string\<close>, most significant digit first.\<close>

fun to_base :: "nat \<Rightarrow> nat \<Rightarrow> nat list" where
  "to_base b n = (if b < 2 \<or> n < b then [n] else to_base b (n div b) @ [n mod b])"

declare to_base.simps [simp del]

definition lower_digit :: "nat \<Rightarrow> char" where
  "lower_digit d = (if d < 10 then byte_char (48 + d) else byte_char (87 + d))"

definition upper_digit :: "nat \<Rightarrow> char" where
  "upper_digit d = (if d < 10 then byte_char (48 + d) else byte_char (55 + d))"

definition to_string :: "nat \<Rightarrow> string" where
  "to_string n = map lower_digit (to_base 10 n)"

definition to_hex :: "nat \<Rightarrow> string" where
  "to_hex n = map lower_digit (to_base 16 n)"

lemma to_base_nonempty [simp]: "to_base b n \<noteq> []"
  by (subst to_base.simps) simp

lemma to_base_digits: "2 \<le> b \<Longrightarrow> \<forall>d \<in> set (to_base b n). d < b"
proof (induction b n rule: to_base.induct)
  case (1 b n)
  then show ?case by (cases "n < b") (auto simp: to_base.simps [of b n])
qed

lemma digit_value_lower [simp]: "d < 16 \<Longrightarrow> digit_value (lower_digit d) = Some d"
  by (auto simp: digit_value_def lower_digit_def Let_def)

lemma digit_value_upper [simp]: "d < 16 \<Longrightarrow> digit_value (upper_digit d) = Some d"
  by (auto simp: digit_value_def upper_digit_def Let_def)

lemma digit_value_bound: "digit_value c = Some d \<Longrightarrow> d < 16"
  by (auto simp: digit_value_def Let_def split: if_splits)

lemma digits_value_snoc:
  "digits_value b (s @ [c]) = digits_value b s * b + (case digit_value c of None \<Rightarrow> 0 | Some d \<Rightarrow> d)"
  by (simp add: digits_value_def)

lemma digits_value_to_base:
  assumes "2 \<le> b" and "b \<le> 16"
  shows "digits_value b (map lower_digit (to_base b n)) = n"
  using assms
proof (induction b n rule: to_base.induct)
  case (1 b n)
  show ?case
  proof (cases "n < b")
    case True
    then show ?thesis using 1 by (simp add: to_base.simps [of b n] digits_value_def)
  next
    case False
    then have "n mod b < 16" using 1
      by (metis less_le_trans mod_less_divisor zero_less_numeral)
    with False 1 show ?thesis by (simp add: to_base.simps [of b n] digits_value_snoc)
  qed
qed

lemma digits_value_to_hex [simp]: "digits_value 16 (to_hex n) = n"
  by (simp add: to_hex_def digits_value_to_base)

lemma digits_value_to_string [simp]: "digits_value 10 (to_string n) = n"
  by (simp add: to_string_def digits_value_to_base)

text \<open>
  \<^verbatim>\<open>strtol(s, 0, base)\<close> for bases 10 and 16: leading white space, an optional sign, for base 16
  an optional \<^verbatim>\<open>0x\<close>, the longest run of digits, and saturation at the range of \<^verbatim>\<open>long\<close>. The
  second component says whether a digit was read.
\<close>

definition skip_space :: "string \<Rightarrow> string" where
  "skip_space s = dropWhile isspace s"

definition split_sign :: "string \<Rightarrow> bool \<times> string" where
  "split_sign s = (case s of
       [] \<Rightarrow> (False, [])
     | c # t \<Rightarrow> if c = CHR ''-'' then (True, t) else if c = CHR ''+'' then (False, t) else (False, s))"

definition skip_0x :: "nat \<Rightarrow> string \<Rightarrow> string" where
  "skip_0x b s = (case s of
       a # x # d # t \<Rightarrow>
         if b = 16 \<and> a = CHR ''0'' \<and> (x = CHR ''x'' \<or> x = CHR ''X'') \<and> is_base_digit 16 d
         then d # t else s
     | _ \<Rightarrow> s)"

definition long_max :: int where "long_max = 2 ^ 63 - 1"
definition ulong_max :: nat where "ulong_max = 2 ^ 64 - 1"

definition parse_long :: "nat \<Rightarrow> string \<Rightarrow> bool \<times> bool \<times> nat" where
  "parse_long b s =
     (let (neg, s1) = split_sign (skip_space s);
          ds = takeWhile (is_base_digit b) (skip_0x b s1)
      in (ds \<noteq> [], neg, digits_value b ds))"

definition strtol :: "nat \<Rightarrow> string \<Rightarrow> int" where
  "strtol b s =
     (let (_, neg, v) = parse_long b s
      in if neg then max (- long_max - 1) (- int v) else min long_max (int v))"

text \<open>
  \<^verbatim>\<open>std::stoul\<close> and \<^verbatim>\<open>std::stoi\<close> throw when no digit is read and when the value is out of
  range; the exception is \<^const>\<open>None\<close>. A minus sign makes \<^verbatim>\<open>strtoul\<close> return the negated
  value modulo the word size.
\<close>

definition stoul :: "string \<Rightarrow> nat option" where
  "stoul s =
     (let (ok, neg, v) = parse_long 10 s
      in if \<not> ok \<or> ulong_max < v then None
         else Some (if neg then (2 ^ 64 - v) mod 2 ^ 64 else v))"

definition stoi :: "string \<Rightarrow> int option" where
  "stoi s =
     (let (ok, neg, v) = parse_long 10 s; n = (if neg then - int v else int v)
      in if \<not> ok \<or> n < - (2 ^ 31) \<or> 2 ^ 31 \<le> n then None else Some n)"

section \<open>Substring search\<close>

text \<open>\<^verbatim>\<open>std::string::find\<close>: the first position at which the pattern starts.\<close>

fun find_sub :: "string \<Rightarrow> string \<Rightarrow> nat option" where
  "find_sub pat [] = (if pat = [] then Some 0 else None)"
| "find_sub pat (c # s) = (if prefix pat (c # s) then Some 0 else map_option Suc (find_sub pat s))"

definition find_sub_from :: "string \<Rightarrow> string \<Rightarrow> nat \<Rightarrow> nat option" where
  "find_sub_from pat s start =
     (if length s < start then None else map_option (\<lambda>i. start + i) (find_sub pat (drop start s)))"

lemma find_sub_Some: "find_sub pat s = Some i \<Longrightarrow> i + length pat \<le> length s \<and> take (length pat) (drop i s) = pat"
proof (induction pat s arbitrary: i rule: find_sub.induct)
  case (2 pat c s)
  show ?case
  proof (cases "prefix pat (c # s)")
    case True
    then show ?thesis using "2.prems" prefix_length_le [OF True] by (auto simp: prefix_def)
  next
    case False
    then show ?thesis using 2 by auto
  qed
qed (simp split: if_splits)

lemma find_sub_first: "find_sub pat s = Some i \<Longrightarrow> j < i \<Longrightarrow> \<not> prefix pat (drop j s)"
proof (induction pat s arbitrary: i j rule: find_sub.induct)
  case (2 pat c s)
  then show ?case by (cases j) (auto split: if_splits)
qed (simp split: if_splits)

lemma find_sub_append: "pat \<noteq> [] \<Longrightarrow> find_sub pat (pat @ s) = Some 0"
  by (cases pat) auto

lemma find_sub_single: "find_sub [c] s = (if c \<in> set s then Some (length (takeWhile (\<lambda>x. x \<noteq> c) s)) else None)"
  by (induction s) auto

section \<open>Arithmetic of \<^verbatim>\<open>std::size_t\<close>\<close>

definition szadd :: "nat \<Rightarrow> nat \<Rightarrow> nat" where
  "szadd a b = (a + b) mod 2 ^ 64"

lemma szadd_small [simp]: "a + b < 2 ^ 64 \<Longrightarrow> szadd a b = a + b"
  by (simp add: szadd_def)

lemma szadd_less [simp]: "szadd a b < 2 ^ 64"
  by (simp add: szadd_def)

lemma szadd_assoc: "szadd (szadd a b) c = szadd a (b + c)"
  by (simp add: szadd_def mod_simps add.assoc)

lemma szadd_le: "szadd a b \<le> a + b"
  by (simp add: szadd_def)

section \<open>Lists\<close>

lemma takeWhile_all: "\<forall>x \<in> set xs. P x \<Longrightarrow> takeWhile P xs = xs"
  by (simp add: takeWhile_eq_all_conv)

lemma foldl_append_map: "foldl (\<lambda>acc x. acc @ f x) ys xs = ys @ concat (map f xs)"
  by (induction xs arbitrary: ys) auto

end
