(* ===== verification/Tribool.thy ===== *)
theory Tribool
  imports Pion_Prelude
begin

text \<open>
  The three-valued logic of \<^verbatim>\<open>include/pion/tribool.hpp\<close>, the result type of every parsing
  operation. The overloads on \<^verbatim>\<open>bool\<close> and on the \<^verbatim>\<open>indeterminate\<close> keyword are separate
  definitions, as they are separate functions in the source; \<open>tri_algebra\<close> and
  the lemmas around it show that they agree with the operators on \<^verbatim>\<open>tribool\<close>.
\<close>

datatype tribool = false_value | true_value | indeterminate_value

definition tribool_default :: tribool where
  "tribool_default = false_value"

definition tribool_of_bool :: "bool \<Rightarrow> tribool" where
  "tribool_of_bool b = (if b then true_value else false_value)"

definition safe_bool :: "tribool \<Rightarrow> bool" where
  "safe_bool x = (x = true_value)"

definition indeterminate :: "tribool \<Rightarrow> bool" where
  "indeterminate x = (x = indeterminate_value)"

definition tri_not :: "tribool \<Rightarrow> tribool" where
  "tri_not x = (if x = false_value then tribool_of_bool True
                else if x = true_value then tribool_of_bool False
                else indeterminate_value)"

definition tri_and :: "tribool \<Rightarrow> tribool \<Rightarrow> tribool" where
  "tri_and x y =
     (if safe_bool (tri_not x) \<or> safe_bool (tri_not y) then tribool_of_bool False
      else if safe_bool x \<and> safe_bool y then tribool_of_bool True
      else indeterminate_value)"

definition tri_and_bool :: "tribool \<Rightarrow> bool \<Rightarrow> tribool" where
  "tri_and_bool x y = (if y then x else tribool_of_bool False)"

definition bool_and_tri :: "bool \<Rightarrow> tribool \<Rightarrow> tribool" where
  "bool_and_tri x y = (if x then y else tribool_of_bool False)"

definition tri_and_keyword :: "tribool \<Rightarrow> tribool" where
  "tri_and_keyword x = (if safe_bool (tri_not x) then tribool_of_bool False else indeterminate_value)"

definition tri_or :: "tribool \<Rightarrow> tribool \<Rightarrow> tribool" where
  "tri_or x y =
     (if safe_bool (tri_not x) \<and> safe_bool (tri_not y) then tribool_of_bool False
      else if safe_bool x \<or> safe_bool y then tribool_of_bool True
      else indeterminate_value)"

definition tri_or_bool :: "tribool \<Rightarrow> bool \<Rightarrow> tribool" where
  "tri_or_bool x y = (if y then tribool_of_bool True else x)"

definition bool_or_tri :: "bool \<Rightarrow> tribool \<Rightarrow> tribool" where
  "bool_or_tri x y = (if x then tribool_of_bool True else y)"

definition tri_or_keyword :: "tribool \<Rightarrow> tribool" where
  "tri_or_keyword x = (if safe_bool x then tribool_of_bool True else indeterminate_value)"

definition tri_eq :: "tribool \<Rightarrow> tribool \<Rightarrow> tribool" where
  "tri_eq x y =
     (if indeterminate x \<or> indeterminate y then indeterminate_value
      else tri_or (tri_and x y) (tri_and (tri_not x) (tri_not y)))"

definition tri_eq_bool :: "tribool \<Rightarrow> bool \<Rightarrow> tribool" where
  "tri_eq_bool x y = tri_eq x (tribool_of_bool y)"

definition tri_ne :: "tribool \<Rightarrow> tribool \<Rightarrow> tribool" where
  "tri_ne x y =
     (if indeterminate x \<or> indeterminate y then indeterminate_value
      else tri_not (tri_or (tri_and x y) (tri_and (tri_not x) (tri_not y))))"

definition tri_ne_bool :: "tribool \<Rightarrow> bool \<Rightarrow> tribool" where
  "tri_ne_bool x y = tri_ne x (tribool_of_bool y)"

lemmas tri_defs = tribool_of_bool_def safe_bool_def indeterminate_def tri_not_def tri_and_def
  tri_and_bool_def bool_and_tri_def tri_and_keyword_def tri_or_def tri_or_bool_def bool_or_tri_def
  tri_or_keyword_def tri_eq_def tri_eq_bool_def tri_ne_def tri_ne_bool_def

text \<open>
  The interface the parser's control flow relies on: a strong Kleene algebra in which the two
  classical values are kept apart from the third.
\<close>

locale kleene_logic =
  fixes neg :: "'t \<Rightarrow> 't" and conj :: "'t \<Rightarrow> 't \<Rightarrow> 't" and disj :: "'t \<Rightarrow> 't \<Rightarrow> 't"
    and tt :: 't and ff :: 't
  assumes neg_neg: "neg (neg x) = x"
    and conj_comm: "conj x y = conj y x"
    and conj_assoc: "conj (conj x y) z = conj x (conj y z)"
    and conj_disj: "conj x (disj y z) = disj (conj x y) (conj x z)"
    and conj_unit: "conj tt x = x"
    and conj_zero: "conj ff x = ff"
    and de_morgan: "neg (conj x y) = disj (neg x) (neg y)"
    and neg_tt: "neg tt = ff"
    and kleene: "conj (conj x (neg x)) (disj y (neg y)) = conj x (neg x)"
begin

lemma disj_de_morgan: "neg (disj x y) = conj (neg x) (neg y)"
  using de_morgan [of "neg x" "neg y"] by (metis neg_neg)

lemma disj_comm: "disj x y = disj y x"
  by (metis conj_comm disj_de_morgan neg_neg)

lemma disj_assoc: "disj (disj x y) z = disj x (disj y z)"
  by (metis conj_assoc disj_de_morgan neg_neg)

lemma disj_unit: "disj ff x = x"
  by (metis conj_unit de_morgan neg_neg neg_tt)

lemma disj_zero: "disj tt x = tt"
  by (metis conj_zero disj_de_morgan neg_neg neg_tt)

end

interpretation tri: kleene_logic tri_not tri_and tri_or true_value false_value
proof (unfold_locales, goal_cases)
  case (1 x)
  show ?case by (cases x) (simp_all add: tri_defs)
next
  case (2 x y)
  show ?case by (cases x; cases y) (simp_all add: tri_defs)
next
  case (3 x y z)
  show ?case by (cases x; cases y; cases z) (simp_all add: tri_defs)
next
  case (4 x y z)
  show ?case by (cases x; cases y; cases z) (simp_all add: tri_defs)
next
  case (5 x)
  show ?case by (cases x) (simp_all add: tri_defs)
next
  case (9 x y)
  show ?case by (cases x; cases y) (simp_all add: tri_defs)
qed (simp_all add: tri_defs)

text \<open>
  In a C++ condition \<^verbatim>\<open>rc == true\<close> holds exactly for the true value and \<^verbatim>\<open>rc == false\<close>
  exactly for the false one: the third value satisfies neither.
\<close>

lemma tri_cond_true [simp]: "safe_bool (tri_eq_bool x True) \<longleftrightarrow> x = true_value"
  by (cases x) (simp_all add: tri_defs)

lemma tri_cond_false [simp]: "safe_bool (tri_eq_bool x False) \<longleftrightarrow> x = false_value"
  by (cases x) (simp_all add: tri_defs)

lemma indeterminate_iff [simp]: "indeterminate x \<longleftrightarrow> x = indeterminate_value"
  by (simp add: indeterminate_def)

lemma tri_overloads_agree:
  "tri_and_bool x b = tri_and x (tribool_of_bool b)"
  "bool_and_tri b x = tri_and (tribool_of_bool b) x"
  "tri_and_keyword x = tri_and indeterminate_value x"
  "tri_or_bool x b = tri_or x (tribool_of_bool b)"
  "bool_or_tri b x = tri_or (tribool_of_bool b) x"
  "tri_or_keyword x = tri_or indeterminate_value x"
  by (cases x; cases b; simp add: tri_defs)+

section \<open>Properties\<close>

text \<open>The three-valued logic the parsers return is strong Kleene logic: on the two definite values
  the operators are the Boolean ones, an undecided operand leaves the result undecided exactly when
  the other operand does not settle it, comparison with a Boolean is definite exactly for definite
  values, and the mixed overloads agree with the ones on two tribools.\<close>

theorem tribool_kleene:
  "tri_and (tribool_of_bool a) (tribool_of_bool b) = tribool_of_bool (a \<and> b) \<and>
   tri_or (tribool_of_bool a) (tribool_of_bool b) = tribool_of_bool (a \<or> b) \<and>
   tri_not (tribool_of_bool a) = tribool_of_bool (\<not> a) \<and>
   tri_and_bool x b = tri_and x (tribool_of_bool b) \<and> tri_or_bool x b = tri_or x (tribool_of_bool b) \<and>
   tri_not (tri_and x y) = tri_or (tri_not x) (tri_not y) \<and>
   (indeterminate (tri_and x y) \<longleftrightarrow> (indeterminate x \<or> indeterminate y) \<and> x \<noteq> false_value \<and> y \<noteq> false_value) \<and>
   (indeterminate (tri_or x y) \<longleftrightarrow> (indeterminate x \<or> indeterminate y) \<and> x \<noteq> true_value \<and> y \<noteq> true_value) \<and>
   (safe_bool (tri_eq_bool x b) \<longleftrightarrow> x = tribool_of_bool b)"
  by (cases x; cases y; cases a; cases b) (simp_all add: tri_defs)

end
