(* ===== verification/Algorithm.thy ===== *)
theory Algorithm
  imports Pion_Prelude
begin

unbundle bit_operations_syntax

text \<open>
  \<^verbatim>\<open>struct algorithm\<close> (\<^verbatim>\<open>src/algorithm.cpp\<close>, \<^verbatim>\<open>include/pion/algorithm.hpp\<close>): base64, URL and
  XML encodings, and the big-endian integer conversions. The bit operations are those of the
  source, on \<^verbatim>\<open>int\<close> after the promotion of a signed \<^verbatim>\<open>char\<close>, or on words of the declared width.
  The floating-point conversions are not modelled here.
\<close>

section \<open>Base64\<close>

text \<open>
  \<^verbatim>\<open>decoding_data\<close> has 256 entries, \<^verbatim>\<open>nop\<close> (-1) for the bytes outside the alphabet. The
  source indexes it with a signed \<^verbatim>\<open>char\<close>: a byte of 128 or more is a negative index, a read
  before the table (\<open>Out_of_bounds_read\<close>). The two \<^verbatim>\<open>assert\<close>s are \<open>Assert_failed\<close>.
\<close>

datatype b64_error = Out_of_bounds_read | Assert_failed

definition nop :: int where "nop = - 1"

definition decoding_data :: "int list" where
  "decoding_data = [
    nop, nop, nop, nop, nop, nop, nop, nop, nop, nop, nop, nop, nop, nop, nop, nop,
    nop, nop, nop, nop, nop, nop, nop, nop, nop, nop, nop, nop, nop, nop, nop, nop,
    nop, nop, nop, nop, nop, nop, nop, nop, nop, nop, nop, 62, nop, nop, nop, 63,
    52, 53, 54, 55, 56, 57, 58, 59, 60, 61, nop, nop, nop, nop, nop, nop,
    nop, 0, 1, 2, 3, 4, 5, 6, 7, 8, 9, 10, 11, 12, 13, 14,
    15, 16, 17, 18, 19, 20, 21, 22, 23, 24, 25, nop, nop, nop, nop, nop,
    nop, 26, 27, 28, 29, 30, 31, 32, 33, 34, 35, 36, 37, 38, 39, 40,
    41, 42, 43, 44, 45, 46, 47, 48, 49, 50, 51, nop, nop, nop, nop, nop,
    nop, nop, nop, nop, nop, nop, nop, nop, nop, nop, nop, nop, nop, nop, nop, nop,
    nop, nop, nop, nop, nop, nop, nop, nop, nop, nop, nop, nop, nop, nop, nop, nop,
    nop, nop, nop, nop, nop, nop, nop, nop, nop, nop, nop, nop, nop, nop, nop, nop,
    nop, nop, nop, nop, nop, nop, nop, nop, nop, nop, nop, nop, nop, nop, nop, nop,
    nop, nop, nop, nop, nop, nop, nop, nop, nop, nop, nop, nop, nop, nop, nop, nop,
    nop, nop, nop, nop, nop, nop, nop, nop, nop, nop, nop, nop, nop, nop, nop, nop,
    nop, nop, nop, nop, nop, nop, nop, nop, nop, nop, nop, nop, nop, nop, nop, nop,
    nop, nop, nop, nop, nop, nop, nop, nop, nop, nop, nop, nop, nop, nop, nop, nop]"

definition decode_entry :: "char \<Rightarrow> int option" where
  "decode_entry c = (let i = char_to_int c in if i < 0 then None else Some (decoding_data ! nat i))"

definition int_to_char :: "int \<Rightarrow> char" where
  "int_to_char i = byte_char (nat (i mod 256))"

fun base64_decode_loop :: "string \<Rightarrow> string \<Rightarrow> b64_error + bool \<times> string" where
  "base64_decode_loop [] out = Inr (True, out)"
| "base64_decode_loop (c0 # s0) out =
    (case decode_entry c0 of None \<Rightarrow> Inl Out_of_bounds_read | Some code0 \<Rightarrow>
     if code0 = nop then Inr (False, out) else
     (case s0 of [] \<Rightarrow> Inr (False, out) | c1 # s1 \<Rightarrow>
     (case decode_entry c1 of None \<Rightarrow> Inl Out_of_bounds_read | Some code1 \<Rightarrow>
     if code1 = nop then Inr (False, out) else
     let out1 = out @ [int_to_char (push_bit 2 code0 OR (drop_bit 4 code1 AND 0x3))] in
     (case s1 of [] \<Rightarrow> Inr (True, out1) | c2 # s2 \<Rightarrow>
     if c2 = CHR ''='' then (if code1 AND 0x0f = 0 then Inr (True, out1) else Inl Assert_failed) else
     (case decode_entry c2 of None \<Rightarrow> Inl Out_of_bounds_read | Some code2 \<Rightarrow>
     if code2 = nop then Inr (False, out1) else
     let out2 = out1 @ [int_to_char ((push_bit 4 code1 AND 0xf0) OR (drop_bit 2 code2 AND 0x0f))] in
     (case s2 of [] \<Rightarrow> Inr (True, out2) | c3 # s3 \<Rightarrow>
     if c3 = CHR ''='' then (if code2 AND 0x03 = 0 then Inr (True, out2) else Inl Assert_failed) else
     (case decode_entry c3 of None \<Rightarrow> Inl Out_of_bounds_read | Some code3 \<Rightarrow>
     if code3 = nop then Inr (False, out2) else
     base64_decode_loop s3 (out2 @ [int_to_char ((push_bit 6 code2 AND 0xc0) OR code3)]))))))))"

definition base64_decode :: "string \<Rightarrow> b64_error + bool \<times> string" where
  "base64_decode input = base64_decode_loop input []"

definition encoding_data :: string where
  "encoding_data = ''ABCDEFGHIJKLMNOPQRSTUVWXYZabcdefghijklmnopqrstuvwxyz0123456789+/''"

definition enc6 :: "int \<Rightarrow> char" where
  "enc6 code = encoding_data ! nat code"

fun base64_encode :: "string \<Rightarrow> string" where
  "base64_encode [] = []"
| "base64_encode [a] =
     [enc6 (drop_bit 2 (char_to_int a) AND 0x3f),
      enc6 (push_bit 4 (char_to_int a) AND 0x3f), CHR ''='', CHR ''='']"
| "base64_encode [a, b] =
     [enc6 (drop_bit 2 (char_to_int a) AND 0x3f),
      enc6 ((push_bit 4 (char_to_int a) AND 0x3f) OR (drop_bit 4 (char_to_int b) AND 0x0f)),
      enc6 (push_bit 2 (char_to_int b) AND 0x3f), CHR ''='']"
| "base64_encode (a # b # c # s) =
     [enc6 (drop_bit 2 (char_to_int a) AND 0x3f),
      enc6 ((push_bit 4 (char_to_int a) AND 0x3f) OR (drop_bit 4 (char_to_int b) AND 0x0f)),
      enc6 ((push_bit 2 (char_to_int b) AND 0x3f) OR (drop_bit 6 (char_to_int c) AND 0x03)),
      enc6 (char_to_int c AND 0x3f)] @ base64_encode s"

section \<open>URL encoding\<close>

fun url_decode :: "string \<Rightarrow> string" where
  "url_decode [] = []"
| "url_decode (c # s) =
     (if c = CHR ''+'' then SP # url_decode s
      else if c = CHR ''%'' then
        (case s of
           h1 # h2 # t \<Rightarrow>
             let decoded_char = int_to_char (strtol 16 [h1, h2]) in
             if decoded_char = NUL then CHR ''%'' # url_decode s
             else decoded_char # url_decode t
         | _ \<Rightarrow> CHR ''%'' # url_decode s)
      else c # url_decode s)"

definition url_reserved :: string where
  "url_reserved = [SP, CHR ''$'', CHR ''&'', CHR ''+'', CHR '','', CHR ''/'', CHR '':'',
     CHR '';'', CHR ''='', CHR ''?'', CHR ''@'', DQUOTE, CHR ''<'',
     CHR ''>'', CHR ''#'', CHR ''%'', CHR ''{'', CHR ''}'', CHR ''|'',
     BACKSLASH, CHR ''^'', CHR ''~'', CHR ''['', CHR '']'', BACKTICK]"

definition url_passes :: "char \<Rightarrow> bool" where
  "url_passes c = (c \<notin> set url_reserved \<and> 32 < char_to_int c \<and> char_to_int c < 127)"

definition url_encode_char :: "char \<Rightarrow> string" where
  "url_encode_char c =
     (if url_passes c then [c]
      else [CHR ''%'', upper_digit (byte_val c div 16), upper_digit (byte_val c mod 16)])"

definition url_encode :: "string \<Rightarrow> string" where
  "url_encode str = concat (map url_encode_char str)"

section \<open>XML encoding\<close>

definition UTF8_REPLACEMENT_CHAR :: string where
  "UTF8_REPLACEMENT_CHAR = [byte_char 0xEF, byte_char 0xBF, byte_char 0xBD]"

definition in_range :: "nat \<Rightarrow> nat \<Rightarrow> char \<Rightarrow> bool" where
  "in_range lo hi c = (lo \<le> byte_val c \<and> byte_val c \<le> hi)"

definition utf8_cont :: "char \<Rightarrow> bool" where
  "utf8_cont c = in_range 0x80 0xBF c"

definition xml_escape_char :: "char \<Rightarrow> string" where
  "xml_escape_char c =
     (if c = CHR ''&'' then ''&amp;'' else if c = CHR ''<'' then ''&lt;''
      else if c = CHR ''>'' then ''&gt;'' else if c = DQUOTE then ''&quot;''
      else if c = SQUOTE then ''&apos;'' else [c])"

text \<open>
  A lead byte is copied with its continuation bytes when all of them follow; otherwise it alone
  is replaced. The reads past the last byte see the terminating NUL of \<^verbatim>\<open>c_str()\<close>, which is
  no continuation byte.
\<close>

fun xml_encode :: "string \<Rightarrow> string" where
  "xml_encode [] = []"
| "xml_encode (c # s) =
     (if in_range 0x20 0x7F c \<or> c = TAB \<or> c = LF \<or> c = CR then xml_escape_char c @ xml_encode s
      else if in_range 0xC2 0xDF c then
        (case s of
           c1 # t \<Rightarrow> if utf8_cont c1 then c # c1 # xml_encode t
                     else UTF8_REPLACEMENT_CHAR @ xml_encode s
         | _ \<Rightarrow> UTF8_REPLACEMENT_CHAR @ xml_encode s)
      else if in_range 0xE0 0xEF c then
        (case s of
           c1 # c2 # t \<Rightarrow> if utf8_cont c1 \<and> utf8_cont c2 then c # c1 # c2 # xml_encode t
                     else UTF8_REPLACEMENT_CHAR @ xml_encode s
         | _ \<Rightarrow> UTF8_REPLACEMENT_CHAR @ xml_encode s)
      else if in_range 0xF0 0xF4 c then
        (case s of
           c1 # c2 # c3 # t \<Rightarrow>
             if utf8_cont c1 \<and> utf8_cont c2 \<and> utf8_cont c3 then c # c1 # c2 # c3 # xml_encode t
             else UTF8_REPLACEMENT_CHAR @ xml_encode s
         | _ \<Rightarrow> UTF8_REPLACEMENT_CHAR @ xml_encode s)
      else UTF8_REPLACEMENT_CHAR @ xml_encode s)"

section \<open>Big-endian integers\<close>

text \<open>
  A value of a signed type is the word of its width (\<^const>\<open>sint\<close> reads it); \<^verbatim>\<open>to_int24\<close>
  and \<^verbatim>\<open>from_int24\<close> work on \<^verbatim>\<open>int32_t\<close>, as in the source.
\<close>

type_synonym u8 = "8 word"

definition to_uint8 :: "u8 \<Rightarrow> 8 word" where
  "to_uint8 byte = byte"

definition to_int8 :: "u8 \<Rightarrow> 8 word" where
  "to_int8 byte = byte"

definition to_uint16 :: "u8 \<Rightarrow> u8 \<Rightarrow> 16 word" where
  "to_uint16 high low = push_bit 8 (ucast high) OR ucast low"

definition to_int16 :: "u8 \<Rightarrow> u8 \<Rightarrow> 16 word" where
  "to_int16 high low = push_bit 8 (ucast high) OR ucast low"

definition to_uint24 :: "u8 \<Rightarrow> u8 \<Rightarrow> u8 \<Rightarrow> 32 word" where
  "to_uint24 high mid low = push_bit 16 (ucast high) OR push_bit 8 (ucast mid) OR ucast low"

definition to_int24 :: "u8 \<Rightarrow> u8 \<Rightarrow> u8 \<Rightarrow> 32 word" where
  "to_int24 high mid low = push_bit 16 (ucast high) OR push_bit 8 (ucast mid) OR ucast low"

definition to_uint32 :: "u8 \<Rightarrow> u8 \<Rightarrow> u8 \<Rightarrow> u8 \<Rightarrow> 32 word" where
  "to_uint32 high mid1 mid2 low =
     push_bit 24 (ucast high) OR push_bit 16 (ucast mid1) OR push_bit 8 (ucast mid2) OR ucast low"

definition to_int32 :: "u8 \<Rightarrow> u8 \<Rightarrow> u8 \<Rightarrow> u8 \<Rightarrow> 32 word" where
  "to_int32 high mid1 mid2 low =
     push_bit 24 (ucast high) OR push_bit 16 (ucast mid1) OR push_bit 8 (ucast mid2) OR ucast low"

definition to_uint64 :: "u8 \<Rightarrow> u8 \<Rightarrow> u8 \<Rightarrow> u8 \<Rightarrow> u8 \<Rightarrow> u8 \<Rightarrow> u8 \<Rightarrow> u8 \<Rightarrow> 64 word" where
  "to_uint64 high mid1 mid2 mid3 mid4 mid5 mid6 low =
     push_bit 56 (ucast high) OR push_bit 48 (ucast mid1) OR push_bit 40 (ucast mid2)
     OR push_bit 32 (ucast mid3) OR push_bit 24 (ucast mid4) OR push_bit 16 (ucast mid5)
     OR push_bit 8 (ucast mid6) OR ucast low"

definition to_int64 :: "u8 \<Rightarrow> u8 \<Rightarrow> u8 \<Rightarrow> u8 \<Rightarrow> u8 \<Rightarrow> u8 \<Rightarrow> u8 \<Rightarrow> u8 \<Rightarrow> 64 word" where
  "to_int64 high mid1 mid2 mid3 mid4 mid5 mid6 low =
     push_bit 56 (ucast high) OR push_bit 48 (ucast mid1) OR push_bit 40 (ucast mid2)
     OR push_bit 32 (ucast mid3) OR push_bit 24 (ucast mid4) OR push_bit 16 (ucast mid5)
     OR push_bit 8 (ucast mid6) OR ucast low"

definition from_uint8 :: "8 word \<Rightarrow> u8 list" where
  "from_uint8 n = [n AND 0xFF]"

definition from_int8 :: "8 word \<Rightarrow> u8 list" where
  "from_int8 n = [n AND 0xFF]"

definition from_uint16 :: "16 word \<Rightarrow> u8 list" where
  "from_uint16 n = [ucast (drop_bit 8 n AND 0xFF), ucast (n AND 0xFF)]"

definition from_int16 :: "16 word \<Rightarrow> u8 list" where
  "from_int16 n = [ucast (signed_drop_bit 8 n AND 0xFF), ucast (n AND 0xFF)]"

definition from_uint24 :: "32 word \<Rightarrow> u8 list" where
  "from_uint24 n = [ucast (drop_bit 16 n AND 0xFF), ucast (drop_bit 8 n AND 0xFF), ucast (n AND 0xFF)]"

definition from_int24 :: "32 word \<Rightarrow> u8 list" where
  "from_int24 n = [ucast (signed_drop_bit 16 n AND 0xFF), ucast (signed_drop_bit 8 n AND 0xFF),
     ucast (n AND 0xFF)]"

definition from_uint32 :: "32 word \<Rightarrow> u8 list" where
  "from_uint32 n = [ucast (drop_bit 24 n AND 0xFF), ucast (drop_bit 16 n AND 0xFF),
     ucast (drop_bit 8 n AND 0xFF), ucast (n AND 0xFF)]"

definition from_int32 :: "32 word \<Rightarrow> u8 list" where
  "from_int32 n = [ucast (signed_drop_bit 24 n AND 0xFF), ucast (signed_drop_bit 16 n AND 0xFF),
     ucast (signed_drop_bit 8 n AND 0xFF), ucast (n AND 0xFF)]"

definition from_uint64 :: "64 word \<Rightarrow> u8 list" where
  "from_uint64 n =
     [ucast (drop_bit 56 n AND 0xFF), ucast (drop_bit 48 n AND 0xFF), ucast (drop_bit 40 n AND 0xFF),
      ucast (drop_bit 32 n AND 0xFF), ucast (drop_bit 24 n AND 0xFF), ucast (drop_bit 16 n AND 0xFF),
      ucast (drop_bit 8 n AND 0xFF), ucast (n AND 0xFF)]"

definition from_int64 :: "64 word \<Rightarrow> u8 list" where
  "from_int64 n =
     [ucast (signed_drop_bit 56 n AND 0xFF), ucast (signed_drop_bit 48 n AND 0xFF),
      ucast (signed_drop_bit 40 n AND 0xFF), ucast (signed_drop_bit 32 n AND 0xFF),
      ucast (signed_drop_bit 24 n AND 0xFF), ucast (signed_drop_bit 16 n AND 0xFF),
      ucast (signed_drop_bit 8 n AND 0xFF), ucast (n AND 0xFF)]"

text \<open>
  The overloads on a byte pointer read the first bytes of a buffer; a buffer that is too short
  is an out-of-bounds read, \<^const>\<open>None\<close>.
\<close>

fun buf_uint16 :: "u8 list \<Rightarrow> 16 word option" where
  "buf_uint16 (a # b # _) = Some (to_uint16 a b)"
| "buf_uint16 _ = None"

fun buf_int16 :: "u8 list \<Rightarrow> 16 word option" where
  "buf_int16 (a # b # _) = Some (to_int16 a b)"
| "buf_int16 _ = None"

fun buf_uint24 :: "u8 list \<Rightarrow> 32 word option" where
  "buf_uint24 (a # b # c # _) = Some (to_uint24 a b c)"
| "buf_uint24 _ = None"

fun buf_int24 :: "u8 list \<Rightarrow> 32 word option" where
  "buf_int24 (a # b # c # _) = Some (to_int24 a b c)"
| "buf_int24 _ = None"

fun buf_uint32 :: "u8 list \<Rightarrow> 32 word option" where
  "buf_uint32 (a # b # c # d # _) = Some (to_uint32 a b c d)"
| "buf_uint32 _ = None"

fun buf_int32 :: "u8 list \<Rightarrow> 32 word option" where
  "buf_int32 (a # b # c # d # _) = Some (to_int32 a b c d)"
| "buf_int32 _ = None"

fun buf_uint64 :: "u8 list \<Rightarrow> 64 word option" where
  "buf_uint64 (a # b # c # d # e # f # g # h # _) = Some (to_uint64 a b c d e f g h)"
| "buf_uint64 _ = None"

fun buf_int64 :: "u8 list \<Rightarrow> 64 word option" where
  "buf_int64 (a # b # c # d # e # f # g # h # _) = Some (to_int64 a b c d e f g h)"
| "buf_int64 _ = None"

section \<open>Correctness of base64\<close>

lemma and_mask_int:
  "(x::int) AND 0x3 = x mod 4" "x AND 0xf = x mod 16" "x AND 0x3f = x mod 64"
  using take_bit_eq_mask [of 2 x] take_bit_eq_mask [of 4 x] take_bit_eq_mask [of 6 x]
  by (simp_all add: mask_eq_exp_minus_1 take_bit_eq_mod)

lemma or_low_bits:
  fixes a b :: int
  assumes "0 \<le> b" and "b < 2 ^ n"
  shows "push_bit n a OR b = a * 2 ^ n + b"
proof -
  have "take_bit n b = b" using assms by (simp add: take_bit_int_eq_self)
  then have nb: "\<not> bit b m" if "n \<le> m" for m
    using that by (metis bit_take_bit_iff not_less)
  have "push_bit n a OR b = push_bit n a + b"
    by (rule disjunctive_add [symmetric]) (use nb in \<open>auto simp: bit_simps not_le\<close>)
  then show ?thesis by (simp add: push_bit_eq_mult)
qed

text \<open>
  The shifts, masks and unions of six-bit groups as arithmetic. The rules are confluent: a shift
  becomes a product, a mask a remainder, a union of disjoint bits a sum.
\<close>

lemma b64_arith:
  fixes x y :: int
  shows "x * 16 mod 64 = 16 * (x mod 4)" and "x * 4 mod 64 = 4 * (x mod 16)"
    and "(x * 16) AND 0xf0 = 16 * (x mod 16)" and "(x * 64) AND 0xc0 = 64 * (x mod 4)"
    and "(256 * x + y * 16) AND 0xf0 = 16 * (y mod 16)" and "(256 * x + y * 64) AND 0xc0 = 64 * (y mod 4)"
    and "16 * x OR y mod 16 = 16 * x + y mod 16" and "4 * x OR y mod 4 = 4 * x + y mod 4"
    and "x * 4 OR y mod 4 = 4 * x + y mod 4" and "64 * x OR y mod 64 = 64 * x + y mod 64"
proof -
  show "x * 16 mod 64 = 16 * (x mod 4)" "x * 4 mod 64 = 4 * (x mod 16)"
    using mult_mod_left [of x 4 16] mult_mod_left [of x 16 4] by simp_all
  have shift: "push_bit n z AND push_bit n m = push_bit n (z AND m)" for n and m z :: int
    by (simp add: push_bit_and)
  have m: "(z * 16) AND 0xf0 = 16 * (z mod 16)" "(z * 64) AND 0xc0 = 64 * (z mod 4)" for z :: int
    using shift [of 4 z "0xf"] shift [of 6 z "0x3"] by (simp_all add: and_mask_int push_bit_eq_mult)
  then show "(x * 16) AND 0xf0 = 16 * (x mod 16)" "(x * 64) AND 0xc0 = 64 * (x mod 4)" by blast+
  show "(256 * x + y * 16) AND 0xf0 = 16 * (y mod 16)" "(256 * x + y * 64) AND 0xc0 = 64 * (y mod 4)"
    using m(1) [of "16 * x + y"] m(2) [of "4 * x + y"] by (simp_all add: ring_distribs)
  show "16 * x OR y mod 16 = 16 * x + y mod 16" "4 * x OR y mod 4 = 4 * x + y mod 4"
    "x * 4 OR y mod 4 = 4 * x + y mod 4" "64 * x OR y mod 64 = 64 * x + y mod 64"
    using or_low_bits [of "y mod 16" 4 x] or_low_bits [of "y mod 4" 2 x] or_low_bits [of "y mod 64" 6 x]
    by (simp_all add: push_bit_eq_mult mult.commute)
qed

lemmas b64_bits = and_mask_int b64_arith drop_bit_eq_div push_bit_eq_mult

lemma length_encoding_data [simp]: "length encoding_data = 64"
  by (simp add: encoding_data_def)

lemma decode_alphabet: "map decode_entry encoding_data = map Some [0..63]"
  by (simp add: decode_entry_def char_to_int_def byte_val_def decoding_data_def encoding_data_def
      upto_rec1 [of 0 63] upto_rec1 [of 1 63])

lemma pad_not_in_alphabet: "CHR ''='' \<notin> set encoding_data"
  by (simp add: encoding_data_def)

lemma decode_enc6:
  assumes "0 \<le> n" and "n < 64"
  shows "decode_entry (enc6 n) = Some n" and "enc6 n \<noteq> CHR ''=''" and "n \<noteq> nop"
proof -
  have "decode_entry (enc6 n) = map decode_entry encoding_data ! nat n"
    using assms by (simp add: enc6_def nat_less_iff)
  also have "\<dots> = Some n" using assms by (simp only: decode_alphabet) (simp add: nth_upto nat_less_iff)
  finally show "decode_entry (enc6 n) = Some n" .
  have "enc6 n \<in> set encoding_data" using assms by (simp add: enc6_def nat_less_iff)
  then show "enc6 n \<noteq> CHR ''=''" using pad_not_in_alphabet by metis
  show "n \<noteq> nop" using assms by (simp add: nop_def)
qed

lemma int_to_char_of_char: "i mod 256 = char_to_int c mod 256 \<Longrightarrow> int_to_char i = c"
proof -
  assume "i mod 256 = char_to_int c mod 256"
  moreover have "nat (char_to_int c mod 256) = byte_val c"
    using byte_val_less [of c] by (simp add: char_to_int_def del: byte_val_less)
  ultimately show ?thesis by (simp add: int_to_char_def)
qed

text \<open>The bytes joined from their groups again.\<close>

lemma mod256_split:
  "4 * ((u::int) div 4 mod 64) + u mod 4 = u mod 256"
  "16 * (u div 16 mod 16) + u mod 16 = u mod 256"
  "64 * (u div 64 mod 4) + u mod 64 = u mod 256"
  using zmod_zmult2_eq [of 64 u 4] zmod_zmult2_eq [of 16 u 16] zmod_zmult2_eq [of 4 u 64] by simp_all

lemma b64_join:
  "int_to_char (4 * (char_to_int c div 4 mod 64) + char_to_int c mod 4) = c"
  "int_to_char (16 * (char_to_int c div 16 mod 16) + char_to_int c mod 16) = c"
  "int_to_char (64 * (char_to_int c div 64 mod 4) + char_to_int c mod 64) = c"
  unfolding mod256_split by (rule int_to_char_of_char, simp)+

lemma b64_group_range:
  "0 \<le> (u::int) div 4 mod 64" "u div 4 mod 64 < 64"
  "0 \<le> 16 * (u mod 4) + v div 16 mod 16" "16 * (u mod 4) + v div 16 mod 16 < 64"
  "0 \<le> 4 * (v mod 16) + w div 64 mod 4" "4 * (v mod 16) + w div 64 mod 4 < 64"
  "0 \<le> 16 * (u mod 4)" "16 * (u mod 4) < 64"
  "0 \<le> 4 * (v mod 16)" "4 * (v mod 16) < 64"
  "0 \<le> w mod 64" "w mod 64 < (64::int)"
proof -
  have r: "0 \<le> x mod m \<and> x mod m \<le> m - 1" if "0 < m" for x m :: int
    using that pos_mod_sign [OF that, of x] pos_mod_bound [OF that, of x] by linarith
  have "0 \<le> u mod 4 \<and> u mod 4 \<le> 3" "0 \<le> v mod 16 \<and> v mod 16 \<le> 15"
    "0 \<le> v div 16 mod 16 \<and> v div 16 mod 16 \<le> 15" "0 \<le> w div 64 mod 4 \<and> w div 64 mod 4 \<le> 3"
    using r [of 4 u] r [of 16 v] r [of 16 "v div 16"] r [of 4 "w div 64"] by simp_all
  then show "0 \<le> 16 * (u mod 4) + v div 16 mod 16" "16 * (u mod 4) + v div 16 mod 16 < 64"
    "0 \<le> 4 * (v mod 16) + w div 64 mod 4" "4 * (v mod 16) + w div 64 mod 4 < 64"
    "0 \<le> 16 * (u mod 4)" "16 * (u mod 4) < 64" "0 \<le> 4 * (v mod 16)" "4 * (v mod 16) < 64"
    by linarith+
qed simp_all

lemma base64_decode_loop_encode: "base64_decode_loop (base64_encode s) out = Inr (True, out @ s)"
proof (induction s arbitrary: out rule: base64_encode.induct)
  case (4 a b c s)
  then show ?case by (simp add: b64_bits b64_join b64_group_range decode_enc6)
qed (simp_all add: b64_bits b64_join b64_group_range decode_enc6)

section \<open>Correctness of the URL encoding\<close>

lemma strtol_hex_pair:
  assumes "hi < 16" and "lo < 16"
  shows "strtol 16 [upper_digit hi, upper_digit lo] = int (hi * 16 + lo)"
proof -
  have d: "is_base_digit 16 (upper_digit k)" "\<not> isspace (upper_digit k)"
    "upper_digit k \<noteq> CHR ''-''" "upper_digit k \<noteq> CHR ''+''" if "k < 16" for k
  proof -
    have v: "byte_val (upper_digit k) = (if k < 10 then 48 + k else 55 + k)"
      using that by (simp add: upper_digit_def)
    show "is_base_digit 16 (upper_digit k)" using that by (simp add: is_base_digit_def)
    show "\<not> isspace (upper_digit k)" "upper_digit k \<noteq> CHR ''-''" "upper_digit k \<noteq> CHR ''+''"
      using v by (auto simp: isspace_def byte_val_def split: if_splits)
  qed
  have "skip_0x 16 [upper_digit hi, upper_digit lo] = [upper_digit hi, upper_digit lo]"
    by (simp add: skip_0x_def)
  then have "parse_long 16 [upper_digit hi, upper_digit lo] = (True, False, hi * 16 + lo)"
    using assms d [OF assms(1)] d [OF assms(2)]
    by (simp add: parse_long_def skip_space_def split_sign_def digits_value_def)
  then show ?thesis using assms by (simp add: strtol_def long_max_def)
qed

lemma int_to_char_byte: "n < 256 \<Longrightarrow> int_to_char (int n) = byte_char n"
  by (simp add: int_to_char_def)

lemma url_decode_hex:
  assumes "c \<noteq> NUL"
  shows "url_decode (CHR ''%'' # upper_digit (byte_val c div 16) # upper_digit (byte_val c mod 16) # t)
       = c # url_decode t"
proof -
  have "strtol 16 [upper_digit (byte_val c div 16), upper_digit (byte_val c mod 16)] = int (byte_val c)"
    using byte_val_less [of c]
    by (subst strtol_hex_pair) (simp_all del: byte_val_less)
  then have "int_to_char (strtol 16 [upper_digit (byte_val c div 16), upper_digit (byte_val c mod 16)]) = c"
    by (simp add: int_to_char_byte)
  then show ?thesis using assms by simp
qed

lemma url_passes_plain: "url_passes c \<Longrightarrow> c \<noteq> CHR ''%'' \<and> c \<noteq> CHR ''+''"
  by (auto simp: url_passes_def url_reserved_def)

lemma url_decode_encode_char:
  assumes "c \<noteq> NUL"
  shows "url_decode (url_encode_char c @ t) = c # url_decode t"
  using assms url_passes_plain [of c] url_decode_hex [OF assms, of t]
  by (auto simp: url_encode_char_def simp del: url_decode.simps) (simp add: url_decode.simps)

lemma url_decode_encode_append:
  "NUL \<notin> set s \<Longrightarrow> url_decode (url_encode s @ t) = s @ url_decode t"
  by (induction s) (auto simp: url_encode_def url_decode_encode_char)

definition url_safe_char :: "char \<Rightarrow> bool" where
  "url_safe_char c = (32 < char_to_int c \<and> char_to_int c < 127 \<and> (c = CHR ''%'' \<or> c \<notin> set url_reserved))"

lemma alnum_safe: "byte_val c \<in> {48..57} \<union> {65..70} \<Longrightarrow> url_safe_char c"
  by (auto simp: url_safe_char_def char_to_int_def url_reserved_def byte_val_def)

lemma upper_digit_safe: "d < 16 \<Longrightarrow> url_safe_char (upper_digit d)"
  by (rule alnum_safe) (auto simp: upper_digit_def)

lemma url_encode_safe: "list_all url_safe_char (url_encode s)"
proof (induction s)
  case (Cons c s)
  have "byte_val c div 16 < 16" using byte_val_less [of c] by (simp del: byte_val_less)
  then have "list_all url_safe_char (url_encode_char c)"
    using upper_digit_safe [of "byte_val c div 16"] upper_digit_safe [of "byte_val c mod 16"]
    by (auto simp: url_encode_char_def url_safe_char_def url_passes_def char_to_int_def byte_val_def)
  with Cons show ?case by (simp add: url_encode_def)
qed (simp add: url_encode_def)

section \<open>Correctness of the XML encoding\<close>

definition xml_markup :: "char set" where
  "xml_markup = {CHR ''<'', CHR ''>'', DQUOTE, SQUOTE}"

lemma in_range_not_markup: "in_range lo hi c \<Longrightarrow> 0x80 \<le> lo \<Longrightarrow> c \<notin> xml_markup"
  by (auto simp: in_range_def xml_markup_def byte_val_def)

lemma markup_free_pieces:
  "in_range 0xC2 0xDF c \<Longrightarrow> c \<notin> xml_markup" "in_range 0xE0 0xEF c \<Longrightarrow> c \<notin> xml_markup"
  "in_range 0xF0 0xF4 c \<Longrightarrow> c \<notin> xml_markup" "utf8_cont c \<Longrightarrow> c \<notin> xml_markup"
  "list_all (\<lambda>x. x \<notin> xml_markup) UTF8_REPLACEMENT_CHAR"
  "list_all (\<lambda>x. x \<notin> xml_markup) (xml_escape_char c)"
proof -
  show "list_all (\<lambda>x. x \<notin> xml_markup) UTF8_REPLACEMENT_CHAR"
    by (simp add: UTF8_REPLACEMENT_CHAR_def xml_markup_def byte_val_inj [symmetric])
      (simp add: byte_val_def)
  show "list_all (\<lambda>x. x \<notin> xml_markup) (xml_escape_char c)"
    by (simp add: xml_escape_char_def xml_markup_def)
qed (auto simp: utf8_cont_def dest: in_range_not_markup)

lemma xml_encode_markup_free: "list_all (\<lambda>x. x \<notin> xml_markup) (xml_encode s)"
proof (induction s rule: xml_encode.induct)
  case (2 c s)
  then show ?case
    by (simp add: xml_encode.simps(2) [of c s] markup_free_pieces del: xml_encode.simps(2)
        split: list.splits)
qed simp

section \<open>Correctness of the integer conversions\<close>

text \<open>
  The contract of a pair of conversions: a value is written to a fixed number of bytes and read
  back from the front of any buffer that starts with them.
\<close>

locale byte_codec =
  fixes enc :: "'w \<Rightarrow> u8 list" and dec :: "u8 list \<Rightarrow> 'w option" and width :: nat
  assumes dec_enc: "dec (enc n @ rest) = Some n"
    and enc_length: "length (enc n) = width"
    and dec_short: "length bs < width \<Longrightarrow> dec bs = None"
    and dec_front: "length bs = width \<Longrightarrow> dec (bs @ rest) = dec bs"
    and enc_dec: "length bs = width \<Longrightarrow> dec bs = Some n \<Longrightarrow> enc n = bs"
begin

lemma enc_inj: "enc m = enc n \<Longrightarrow> m = n"
  by (metis append_Nil2 dec_enc option.inject)

lemma dec_total: "width \<le> length bs \<Longrightarrow> (\<exists>n. dec bs = Some n) \<longleftrightarrow> dec (take width bs) \<noteq> None"
  by (metis append_take_drop_id dec_front length_take min_absorb2 not_None_eq)

lemma dec_Some_iff: "width \<le> length bs \<Longrightarrow> dec bs = Some n \<longleftrightarrow> take width bs = enc n"
proof -
  assume w: "width \<le> length bs"
  have front: "dec bs = dec (take width bs)"
    using dec_front [of "take width bs" "drop width bs"] w by simp
  show ?thesis
  proof
    assume "dec bs = Some n"
    with front w enc_dec [of "take width bs" n] show "take width bs = enc n" by simp
  next
    assume "take width bs = enc n"
    then have "bs = enc n @ drop width bs" by (metis append_take_drop_id)
    then show "dec bs = Some n" using dec_enc by metis
  qed
qed

end

lemma word_and_FF: "(x :: 'a::len word) AND 0xFF = take_bit 8 x"
  by (simp add: take_bit_eq_mask mask_eq_exp_minus_1)

lemma byte_bit_high: "8 \<le> k \<Longrightarrow> \<not> bit (w :: u8) k"
  by (auto dest: bit_imp_le_length)

lemma to_from_uint16: "to_uint16 (ucast (drop_bit 8 n AND 0xFF)) (ucast (n AND 0xFF)) = n"
proof (rule bit_word_eqI)
  fix k assume "k < LENGTH(16)"
  then consider "0 \<le> k" "k < 8" | "8 \<le> k" "k < 16" by fastforce
  then show "bit (to_uint16 (ucast (drop_bit 8 n AND 0xFF)) (ucast (n AND 0xFF))) k \<longleftrightarrow> bit n k"
    unfolding to_uint16_def word_and_FF by cases (simp_all add: bit_simps less_diff_conv2)
qed

lemma from_to_uint16: "from_uint16 (to_uint16 a b) = [a, b]"
  unfolding to_uint16_def from_uint16_def word_and_FF
  by (intro list.inject [THEN iffD2] conjI refl; rule bit_word_eqI, simp add: bit_simps byte_bit_high)

interpretation uint16: byte_codec from_uint16 buf_uint16 2
proof (unfold_locales, goal_cases)
  case (1 n rest)
  show ?case by (simp add: from_uint16_def to_from_uint16)
next
  case (3 bs)
  then show ?case by (cases bs rule: buf_uint16.cases) simp_all
next
  case (4 bs rest)
  then show ?case by (cases bs rule: buf_uint16.cases) simp_all
next
  case (5 bs n)
  then show ?case by (cases bs rule: buf_uint16.cases) (auto simp: from_to_uint16)
qed (simp add: from_uint16_def)

lemma to_from_uint32: "to_uint32 (ucast (drop_bit 24 n AND 0xFF)) (ucast (drop_bit 16 n AND 0xFF)) (ucast (drop_bit 8 n AND 0xFF)) (ucast (n AND 0xFF)) = n"
proof (rule bit_word_eqI)
  fix k assume "k < LENGTH(32)"
  then consider "0 \<le> k" "k < 8" | "8 \<le> k" "k < 16" | "16 \<le> k" "k < 24" | "24 \<le> k" "k < 32" by fastforce
  then show "bit (to_uint32 (ucast (drop_bit 24 n AND 0xFF)) (ucast (drop_bit 16 n AND 0xFF)) (ucast (drop_bit 8 n AND 0xFF)) (ucast (n AND 0xFF))) k \<longleftrightarrow> bit n k"
    unfolding to_uint32_def word_and_FF by cases (simp_all add: bit_simps less_diff_conv2)
qed

lemma from_to_uint32: "from_uint32 (to_uint32 a b c d) = [a, b, c, d]"
  unfolding to_uint32_def from_uint32_def word_and_FF
  by (intro list.inject [THEN iffD2] conjI refl; rule bit_word_eqI, simp add: bit_simps byte_bit_high)

interpretation uint32: byte_codec from_uint32 buf_uint32 4
proof (unfold_locales, goal_cases)
  case (1 n rest)
  show ?case by (simp add: from_uint32_def to_from_uint32)
next
  case (3 bs)
  then show ?case by (cases bs rule: buf_uint32.cases) simp_all
next
  case (4 bs rest)
  then show ?case by (cases bs rule: buf_uint32.cases) simp_all
next
  case (5 bs n)
  then show ?case by (cases bs rule: buf_uint32.cases) (auto simp: from_to_uint32)
qed (simp add: from_uint32_def)

lemma to_from_uint64: "to_uint64 (ucast (drop_bit 56 n AND 0xFF)) (ucast (drop_bit 48 n AND 0xFF)) (ucast (drop_bit 40 n AND 0xFF)) (ucast (drop_bit 32 n AND 0xFF)) (ucast (drop_bit 24 n AND 0xFF)) (ucast (drop_bit 16 n AND 0xFF)) (ucast (drop_bit 8 n AND 0xFF)) (ucast (n AND 0xFF)) = n"
proof (rule bit_word_eqI)
  fix k assume "k < LENGTH(64)"
  then consider "0 \<le> k" "k < 8" | "8 \<le> k" "k < 16" | "16 \<le> k" "k < 24" | "24 \<le> k" "k < 32" | "32 \<le> k" "k < 40" | "40 \<le> k" "k < 48" | "48 \<le> k" "k < 56" | "56 \<le> k" "k < 64" by fastforce
  then show "bit (to_uint64 (ucast (drop_bit 56 n AND 0xFF)) (ucast (drop_bit 48 n AND 0xFF)) (ucast (drop_bit 40 n AND 0xFF)) (ucast (drop_bit 32 n AND 0xFF)) (ucast (drop_bit 24 n AND 0xFF)) (ucast (drop_bit 16 n AND 0xFF)) (ucast (drop_bit 8 n AND 0xFF)) (ucast (n AND 0xFF))) k \<longleftrightarrow> bit n k"
    unfolding to_uint64_def word_and_FF by cases (simp_all add: bit_simps less_diff_conv2)
qed

lemma from_to_uint64: "from_uint64 (to_uint64 a b c d e f g h) = [a, b, c, d, e, f, g, h]"
  unfolding to_uint64_def from_uint64_def word_and_FF
  by (intro list.inject [THEN iffD2] conjI refl; rule bit_word_eqI, simp add: bit_simps byte_bit_high)

interpretation uint64: byte_codec from_uint64 buf_uint64 8
proof (unfold_locales, goal_cases)
  case (1 n rest)
  show ?case by (simp add: from_uint64_def to_from_uint64)
next
  case (3 bs)
  then show ?case by (cases bs rule: buf_uint64.cases) simp_all
next
  case (4 bs rest)
  then show ?case by (cases bs rule: buf_uint64.cases) simp_all
next
  case (5 bs n)
  then show ?case by (cases bs rule: buf_uint64.cases) (auto simp: from_to_uint64)
qed (simp add: from_uint64_def)

text \<open>
  The signed conversions write and read the same bytes as the unsigned ones: the arithmetic shift
  differs from the logical one only in bits that the mask removes.
\<close>

lemma signed_byte:
  "k + 8 \<le> LENGTH('a) \<Longrightarrow> take_bit 8 (signed_drop_bit k (x :: 'a::len word)) = take_bit 8 (drop_bit k x)"
  by (rule bit_word_eqI) (auto simp: bit_simps)

lemma from_int16_unsigned: "from_int16 = from_uint16"
  by (rule ext) (simp add: from_int16_def from_uint16_def word_and_FF signed_byte)

lemma buf_int16_unsigned: "buf_int16 = buf_uint16"
proof
  fix bs show "buf_int16 bs = buf_uint16 bs"
    by (cases bs rule: buf_int16.cases) (simp_all add: to_int16_def to_uint16_def)
qed

interpretation int16: byte_codec from_int16 buf_int16 2
  unfolding from_int16_unsigned buf_int16_unsigned by (rule uint16.byte_codec_axioms)

lemma from_int32_unsigned: "from_int32 = from_uint32"
  by (rule ext) (simp add: from_int32_def from_uint32_def word_and_FF signed_byte)

lemma buf_int32_unsigned: "buf_int32 = buf_uint32"
proof
  fix bs show "buf_int32 bs = buf_uint32 bs"
    by (cases bs rule: buf_int32.cases) (simp_all add: to_int32_def to_uint32_def)
qed

interpretation int32: byte_codec from_int32 buf_int32 4
  unfolding from_int32_unsigned buf_int32_unsigned by (rule uint32.byte_codec_axioms)

lemma from_int64_unsigned: "from_int64 = from_uint64"
  by (rule ext) (simp add: from_int64_def from_uint64_def word_and_FF signed_byte)

lemma buf_int64_unsigned: "buf_int64 = buf_uint64"
proof
  fix bs show "buf_int64 bs = buf_uint64 bs"
    by (cases bs rule: buf_int64.cases) (simp_all add: to_int64_def to_uint64_def)
qed

interpretation int64: byte_codec from_int64 buf_int64 8
  unfolding from_int64_unsigned buf_int64_unsigned by (rule uint64.byte_codec_axioms)

text \<open>
  The 24-bit reader does not extend the sign: what \<^verbatim>\<open>to_int24\<close> returns is never negative, and
  writing and reading a value keeps its low 24 bits only.
\<close>

lemma to_int24_from_int24:
  "to_int24 (ucast (signed_drop_bit 16 n AND 0xFF)) (ucast (signed_drop_bit 8 n AND 0xFF)) (ucast (n AND 0xFF))
   = take_bit 24 n"
proof (rule bit_word_eqI)
  fix k assume "k < LENGTH(32)"
  then consider "0 \<le> k" "k < 8" | "8 \<le> k" "k < 16" | "16 \<le> k" "k < 24" | "24 \<le> k" "k < 32" by fastforce
  then show "bit (to_int24 (ucast (signed_drop_bit 16 n AND 0xFF)) (ucast (signed_drop_bit 8 n AND 0xFF))
      (ucast (n AND 0xFF))) k \<longleftrightarrow> bit (take_bit 24 n) k"
    unfolding to_int24_def word_and_FF 
    by cases (simp_all add: signed_byte bit_simps less_diff_conv2)
qed

lemma buf_int24_from: "buf_int24 (from_int24 n @ rest) = Some (take_bit 24 n)"
  by (simp add: from_int24_def to_int24_from_int24)

section \<open>Properties\<close>


text \<open>URL round trip: decoding the encoding of a string without null bytes gives the string back.
  The encoding holds only characters that no query string, header or cookie treats as special.\<close>

theorem url_roundtrip:
  assumes "NUL \<notin> set s"
  shows "url_decode (url_encode s) = s \<and> list_all url_safe_char (url_encode s)"
  using url_decode_encode_append [OF assms, of "[]"] url_encode_safe by simp

theorem url_roundtrip_witness:
  "url_decode (url_encode ''a b&c=%'') = ''a b&c=%'' \<and> url_encode ''a b'' = ''a%20b''"
  using url_roundtrip [of "''a b&c=%''"] by (intro conjI) (simp, code_simp)

text \<open>The XML encoding contains no markup: no angle bracket, no quotation mark and no apostrophe
  of the input survives.\<close>

theorem xml_encode_safe: "set (xml_encode s) \<inter> xml_markup = {}"
  using xml_encode_markup_free [of s] by (auto simp: list_all_iff)

text \<open>The big-endian writers and readers are inverse to each other, for 16, 32 and 64 bits: reading
  what was written, with anything behind it, gives the value back.\<close>

theorem big_endian_roundtrip:
  "buf_uint16 (from_uint16 a @ rest) = Some a \<and> buf_uint32 (from_uint32 b @ rest) = Some b \<and>
   buf_uint64 (from_uint64 c @ rest) = Some c \<and> buf_int16 (from_int16 a @ rest) = Some a \<and>
   buf_int32 (from_int32 b @ rest) = Some b \<and> buf_int64 (from_int64 c @ rest) = Some c"
  using uint16.dec_enc uint32.dec_enc uint64.dec_enc int16.dec_enc int32.dec_enc int64.dec_enc by blast

text \<open>The 24-bit signed pair is not an inverse: the reader does not extend the sign, so every negative
  value comes back as a non-negative one.\<close>

theorem int24_loses_sign:
  "buf_int24 (from_int24 n @ rest) = Some (take_bit 24 n) \<and>
   (sint n < 0 \<longrightarrow> buf_int24 (from_int24 n @ rest) \<noteq> Some n)"
proof -
  have "take_bit 24 n \<noteq> n" if "sint n < 0"
  proof
    assume "take_bit 24 n = n"
    moreover have "bit n 31" using that bit_last_iff [of n] by simp
    ultimately show False using bit_take_bit_iff [of 24 n 31] by simp
  qed
  then show ?thesis by (simp add: buf_int24_from)
qed

theorem int24_loses_sign_witness:
  "sint (-5 :: 32 word) < 0 \<and> buf_int24 (from_int24 (-5)) \<noteq> Some (-5)"
proof -
  have "sint (-5 :: 32 word) < 0" by simp
  then show ?thesis using int24_loses_sign [of "-5" "[]"] by simp
qed

end
