(* ===== verification/String_Utils.thy ===== *)
theory String_Utils
  imports Algorithm
begin

text \<open>
  \<^verbatim>\<open>namespace pion::utils\<close> (\<^verbatim>\<open>src/string_utils.cpp\<close>): splitting, prefixes, path stripping,
  trimming, case-insensitive comparison and replacement. \<^verbatim>\<open>replace_all\<close> restarts its search at
  the beginning after each replacement and may run forever, so its model is a
  \<^theory_text>\<open>partial_function (option)\<close>: \<^const>\<open>None\<close> is a call that does not return.
\<close>

text \<open>\<^verbatim>\<open>std::getline\<close> on a delimiter; the empty items are dropped.\<close>

fun getline_items :: "char \<Rightarrow> string \<Rightarrow> string \<Rightarrow> string list" where
  "getline_items delim item [] = (if item = [] then [] else [item])"
| "getline_items delim item (c # s) =
     (if c = delim then item # getline_items delim [] s else getline_items delim (item @ [c]) s)"

definition split :: "string \<Rightarrow> char \<Rightarrow> string list" where
  "split str delim = filter (\<lambda>item. item \<noteq> []) (getline_items delim [] str)"

definition starts_with :: "string \<Rightarrow> string \<Rightarrow> bool" where
  "starts_with value start = (take (length start) value = start)"

definition ends_with :: "string \<Rightarrow> string \<Rightarrow> bool" where
  "ends_with value ending =
     (if length ending \<le> length value then drop (length value - length ending) value = ending
      else False)"

definition find_last_of :: "string \<Rightarrow> string \<Rightarrow> nat option" where
  "find_last_of cs s =
     (if \<exists>c \<in> set s. c \<in> set cs
      then Some (length s - 1 - length (takeWhile (\<lambda>c. c \<notin> set cs) (rev s))) else None)"

definition strip_filename :: "string \<Rightarrow> string" where
  "strip_filename file_path =
     (case find_last_of [CHR ''/'', BACKSLASH] file_path of
        Some pos \<Rightarrow> if pos < length file_path - 1 then take (pos + 1) file_path else file_path
      | None \<Rightarrow> file_path)"

definition strip_parent_dir :: "string \<Rightarrow> string" where
  "strip_parent_dir file_path =
     (let unslashed = map (\<lambda>c. if c = BACKSLASH then CHR ''/'' else c) file_path;
          unslashed = rev (dropWhile (\<lambda>c. c = CHR ''/'') (rev unslashed))
      in case find_last_of ''/'' unslashed of
           None \<Rightarrow> file_path
         | Some pos \<Rightarrow> drop (pos + 1) file_path)"

definition trim :: "string \<Rightarrow> string" where
  "trim s = rev (dropWhile isspace (rev (dropWhile isspace s)))"

fun iequals :: "string \<Rightarrow> string \<Rightarrow> bool" where
  "iequals [] [] = True"
| "iequals (c # s) (d # t) = (tolower c = tolower d \<and> iequals s t)"
| "iequals _ _ = False"

fun equals :: "string \<Rightarrow> string \<Rightarrow> bool" where
  "equals [] [] = True"
| "equals (c # s) (d # t) = (c = d \<and> equals s t)"
| "equals _ _ = False"

partial_function (option) replace_all :: "string \<Rightarrow> string \<Rightarrow> string \<Rightarrow> string option" where
  "replace_all snippet replacement str =
     (if snippet = [] then Some str
      else case find_sub snippet str of
             None \<Rightarrow> Some str
           | Some pos \<Rightarrow>
               replace_all snippet replacement
                 (take pos str @ replacement @ drop (pos + length snippet) str))"

definition empty_string :: string where
  "empty_string = []"

fun utils_url_decode :: "string \<Rightarrow> string" where
  "utils_url_decode [] = []"
| "utils_url_decode (c # s) =
     (if c = CHR ''+'' then SP # utils_url_decode s
      else if c = CHR ''%'' then
        (case s of
           h1 # h2 # t \<Rightarrow>
             let decoded_char = int_to_char (strtol 16 [h1, h2]) in
             if decoded_char = NUL then CHR ''%'' # utils_url_decode s
             else decoded_char # utils_url_decode t
         | _ \<Rightarrow> CHR ''%'' # utils_url_decode s)
      else c # utils_url_decode s)"

definition utils_url_encode :: "string \<Rightarrow> string" where
  "utils_url_encode str =
     concat (map (\<lambda>c.
       if c \<notin> set url_reserved \<and> 32 < char_to_int c \<and> char_to_int c < 127 then [c]
       else [CHR ''%'', upper_digit (byte_val c div 16), upper_digit (byte_val c mod 16)]) str)"

definition to_lower :: "string \<Rightarrow> string" where
  "to_lower str = map tolower str"

definition to_string_bool :: "bool \<Rightarrow> string" where
  "to_string_bool val = (if val then ''true'' else ''false'')"

section \<open>Lemmas\<close>

lemma starts_with_prefix: "starts_with value start \<longleftrightarrow> prefix start value"
  unfolding starts_with_def by (metis append_eq_conv_conj prefix_def)

lemma ends_with_suffix: "ends_with value ending \<longleftrightarrow> suffix ending value"
  by (auto simp: ends_with_def suffix_def) (metis append_take_drop_id)

lemma equals_eq [simp]: "equals s t \<longleftrightarrow> s = t"
  by (induction s t rule: equals.induct) auto

text \<open>Case-insensitive equality is equality of the folded strings, so it is an equivalence.\<close>

lemma iequals_to_lower: "iequals s t \<longleftrightarrow> to_lower s = to_lower t"
  by (induction s t rule: iequals.induct) (auto simp: to_lower_def)

lemma iequals_refl [simp]: "iequals s s"
  by (simp add: iequals_to_lower)

lemma iequals_sym: "iequals s t \<longleftrightarrow> iequals t s"
  by (auto simp: iequals_to_lower)

lemma iequals_trans: "iequals s t \<Longrightarrow> iequals t u \<Longrightarrow> iequals s u"
  by (simp add: iequals_to_lower)

lemma iequals_length: "iequals s t \<Longrightarrow> length s = length t"
  unfolding iequals_to_lower to_lower_def by (metis length_map)

lemma getline_items_parts:
  "delim \<notin> set item \<Longrightarrow> p \<in> set (getline_items delim item s) \<Longrightarrow> delim \<notin> set p"
  by (induction delim item s rule: getline_items.induct) (auto split: if_splits)

lemma getline_items_concat:
  "concat (getline_items delim item s) = item @ filter (\<lambda>c. c \<noteq> delim) s"
  by (induction delim item s rule: getline_items.induct) auto

lemma split_parts: "p \<in> set (split str delim) \<Longrightarrow> p \<noteq> [] \<and> delim \<notin> set p"
  by (auto simp: split_def dest: getline_items_parts [rotated])

lemma split_concat: "concat (split str delim) = filter (\<lambda>c. c \<noteq> delim) str"
proof -
  have "concat (filter (\<lambda>p. p \<noteq> []) ps) = concat ps" for ps :: "string list"
    by (induction ps) auto
  then show ?thesis by (simp add: split_def getline_items_concat)
qed

lemma dropWhile_rev_fixpoint:
  "x \<noteq> [] \<Longrightarrow> rev (dropWhile P (rev (dropWhile P s))) = x \<Longrightarrow> \<not> P (hd x) \<and> \<not> P (last x)"
proof -
  assume x: "x \<noteq> []" "rev (dropWhile P (rev (dropWhile P s))) = x"
  define y where "y = dropWhile P s"
  obtain zs where zs: "y = x @ zs" "set zs \<subseteq> Collect P"
    using x(2) takeWhile_dropWhile_id [of P "rev y"] set_takeWhileD [of _ P "rev y"]
    unfolding y_def [symmetric]
    by (metis (no_types, lifting) mem_Collect_eq rev_append rev_rev_ident set_rev subsetI)
  have "y \<noteq> []" using x(1) zs(1) by simp
  then have "\<not> P (hd y)" unfolding y_def using hd_dropWhile by blast
  then have "\<not> P (hd x)" using zs(1) x(1) by simp
  moreover have "\<not> P (hd (rev x))"
    using x hd_dropWhile [of P "rev y"] unfolding y_def by (metis rev.simps(1) rev_rev_ident)
  ultimately show ?thesis using x(1) by (simp add: hd_rev)
qed

lemma trim_ends: "trim s \<noteq> [] \<Longrightarrow> \<not> isspace (hd (trim s)) \<and> \<not> isspace (last (trim s))"
  unfolding trim_def by (rule dropWhile_rev_fixpoint) simp_all

lemma url_decode_cases:
  obtains "s = []" | h where "s = [h]" | h1 h2 t where "s = h1 # h2 # t"
  by (metis neq_Nil_conv)

lemma utils_url_decode_eq: "utils_url_decode s = url_decode s"
proof (induction s rule: utils_url_decode.induct)
  case (2 c s)
  show ?case
  proof (cases "c = CHR ''+'' \<or> c \<noteq> CHR ''%''")
    case True
    then show ?thesis using 2 by auto
  next
    case False
    then show ?thesis
      using 2(2-5) unfolding utils_url_decode.simps(2) [of c s] url_decode.simps(2) [of c s] Let_def
      by (cases s rule: url_decode_cases) simp_all
  qed
qed simp

lemma utils_url_encode_eq: "utils_url_encode s = url_encode s"
  by (simp add: utils_url_encode_def url_encode_def url_encode_char_def url_passes_def cong: map_cong)

text \<open>
  When \<^const>\<open>replace_all\<close> returns, no occurrence of the snippet is left; when the replacement
  itself contains the snippet, an occurrence is left after every round and the call never returns.
\<close>

lemma replace_all_result:
  assumes "replace_all snippet replacement str = Some r" and "snippet \<noteq> []"
  shows "find_sub snippet r = None"
proof -
  have "snippet \<noteq> [] \<longrightarrow> find_sub snippet r = None"
    by (rule replace_all.raw_induct [OF _ assms(1)]) (auto split: if_splits option.splits)
  then show ?thesis using assms(2) by simp
qed

lemma find_sub_sublist: "find_sub pat s = None \<longleftrightarrow> \<not> sublist pat s"
proof (induction pat s rule: find_sub.induct)
  case (2 pat c s)
  then show ?case by (auto simp: sublist_Cons_right)
qed auto

lemma sublist_in_middle: "sublist xs ys \<Longrightarrow> sublist xs (a @ ys @ b)"
  by (auto simp: sublist_def) (metis append.assoc)

lemma replace_all_never_returns:
  assumes "replace_all snippet replacement str = Some r"
  shows "snippet \<noteq> [] \<longrightarrow> sublist snippet replacement \<longrightarrow> \<not> sublist snippet str"
proof (rule replace_all.raw_induct [OF _ assms])
  fix f :: "string \<Rightarrow> string \<Rightarrow> string \<Rightarrow> string option" and snippet replacement str r
  assume IH: "\<And>snippet replacement str r. f snippet replacement str = Some r \<Longrightarrow>
      snippet \<noteq> [] \<longrightarrow> sublist snippet replacement \<longrightarrow> \<not> sublist snippet str"
  assume eq: "(if snippet = [] then Some str
      else case find_sub snippet str of None \<Rightarrow> Some str
           | Some pos \<Rightarrow> f snippet replacement
               (take pos str @ replacement @ drop (pos + length snippet) str)) = Some r"
  show "snippet \<noteq> [] \<longrightarrow> sublist snippet replacement \<longrightarrow> \<not> sublist snippet str"
  proof (cases "snippet = [] \<or> find_sub snippet str = None")
    case False
    then obtain pos where "f snippet replacement
        (take pos str @ replacement @ drop (pos + length snippet) str) = Some r"
      using eq by auto
    then show ?thesis using IH sublist_in_middle by blast
  qed (auto simp: find_sub_sublist)
qed

section \<open>Properties\<close>

lemma replace_all_shrinks:
  assumes "length replacement < length snippet"
  shows "\<exists>r. replace_all snippet replacement str = Some r"
proof (induction "length str" arbitrary: str rule: less_induct)
  case less
  show ?case
  proof (cases "find_sub snippet str")
    case None
    then show ?thesis by (simp add: replace_all.simps [of snippet replacement str])
  next
    case (Some pos)
    let ?s = "take pos str @ replacement @ drop (pos + length snippet) str"
    have "length ?s < length str" using find_sub_Some [OF Some] assms by auto
    then have "\<exists>r. replace_all snippet replacement ?s = Some r" by (rule less)
    then show ?thesis using Some by (subst replace_all.simps) simp
  qed
qed

text \<open>When \<^verbatim>\<open>replace_all\<close> returns: always with an empty snippet or a replacement that is shorter than
  the snippet, and then no occurrence is left; never when the replacement contains the snippet and the
  snippet occurs in the string, because every replacement is searched again.\<close>

theorem replace_all_returns:
  assumes "snippet \<noteq> []"
  shows "(length replacement < length snippet \<longrightarrow>
      (\<exists>r. replace_all snippet replacement str = Some r \<and> \<not> sublist snippet r)) \<and>
    (sublist snippet replacement \<longrightarrow> sublist snippet str \<longrightarrow> replace_all snippet replacement str = None)"
proof -
  have "\<not> sublist snippet r" if "replace_all snippet replacement str = Some r" for r
    using replace_all_result [OF that assms] find_sub_sublist by blast
  moreover have "\<not> sublist snippet str"
    if "replace_all snippet replacement str = Some r" "sublist snippet replacement" for r
    using replace_all_never_returns [OF that(1)] assms that(2) by blast
  ultimately show ?thesis
    using replace_all_shrinks [of replacement snippet str] by (cases "replace_all snippet replacement str") blast+
qed

theorem replace_all_returns_witness:
  "replace_all ''a'' ''aa'' ''banana'' = None \<and> (\<exists>r. replace_all ''an'' ''a'' ''banana'' = Some r)"
proof -
  have "sublist ''a'' ([] @ ''a'' @ ''a'')" "sublist ''a'' (''b'' @ ''a'' @ ''nana'')"
    by (rule sublist_appendI)+
  then have "sublist ''a'' ''aa''" "sublist ''a'' ''banana''" by (simp_all only: append.simps)
  then have "replace_all ''a'' ''aa'' ''banana'' = None"
    using replace_all_returns [of "''a''" "''aa''" "''banana''", OF list.distinct(2)] by blast
  moreover have "length ''a'' < length ''an''" by simp
  then have "\<exists>r. replace_all ''an'' ''a'' ''banana'' = Some r"
    using replace_all_returns [of "''an''" "''a''" "''banana''", OF list.distinct(2)] by blast
  ultimately show ?thesis by blast
qed

text \<open>Splitting a string at a delimiter loses nothing but the delimiters and keeps no empty part.\<close>

theorem split_parts_concat:
  "concat (split str delim) = filter (\<lambda>c. c \<noteq> delim) str \<and> [] \<notin> set (split str delim) \<and>
   delim \<notin> set (concat (split str delim))"
  using split_parts [of "[]" str delim] by (auto simp: split_concat)

end
