(* ===== verification/Hash_Map.thy ===== *)
theory Hash_Map
  imports String_Utils "HOL-Library.Multiset"
begin

text \<open>
  The case-insensitive dictionary \<^verbatim>\<open>ihash_multimap\<close> (\<^verbatim>\<open>include/pion/hash_map.hpp\<close>) and the three
  dictionary helpers of \<^verbatim>\<open>http::message\<close> (\<^verbatim>\<open>get_value\<close>, \<^verbatim>\<open>change_value\<close>, \<^verbatim>\<open>delete_value\<close>).
  The hash function keeps the width of \<^verbatim>\<open>size_t\<close>; \<^verbatim>\<open>std::hash<char>\<close> is a parameter. The container
  \<^verbatim>\<open>std::unordered_multimap\<close> is the list of its elements in iteration order. A new element is put
  in front of the elements with an equivalent key, and at the front of the list when there are none,
  as libstdc++ does within one bucket chain; the locale \<open>string_multimap\<close> states what the C++ standard
  promises (equivalent keys are adjacent, one multiset of values per key), and what clients use is
  proved from that.
\<close>

unbundle bit_operations_syntax

section \<open>The hash function\<close>

definition hash_combine :: "(char \<Rightarrow> 64 word) \<Rightarrow> 64 word \<Rightarrow> char \<Rightarrow> 64 word" where
  "hash_combine hasher seed v =
     seed XOR (hasher v + 0x9e3779b9 + push_bit 6 seed + drop_bit 2 seed)"

fun ihash_loop :: "(char \<Rightarrow> 64 word) \<Rightarrow> 64 word \<Rightarrow> string \<Rightarrow> 64 word" where
  "ihash_loop hasher seed [] = seed"
| "ihash_loop hasher seed (c # x) = ihash_loop hasher (hash_combine hasher seed (toupper c)) x"

definition ihash :: "(char \<Rightarrow> 64 word) \<Rightarrow> string \<Rightarrow> 64 word" where
  "ihash hasher x = ihash_loop hasher 0 x"

definition iequal_to :: "string \<Rightarrow> string \<Rightarrow> bool" where
  "iequal_to x y = iequals x y"

section \<open>The dictionary\<close>

type_synonym ihash_multimap = "(string \<times> string) list"

abbreviation same_key :: "string \<Rightarrow> string \<times> string \<Rightarrow> bool" where
  "same_key key \<equiv> \<lambda>e. iequal_to (fst e) key"

definition dict_find :: "ihash_multimap \<Rightarrow> string \<Rightarrow> (string \<times> string) option" where
  "dict_find dict key = List.find (same_key key) dict"

definition dict_before :: "ihash_multimap \<Rightarrow> string \<Rightarrow> ihash_multimap" where
  "dict_before dict key = takeWhile (\<lambda>e. \<not> same_key key e) dict"

definition equal_range :: "ihash_multimap \<Rightarrow> string \<Rightarrow> ihash_multimap" where
  "equal_range dict key = takeWhile (same_key key) (dropWhile (\<lambda>e. \<not> same_key key e) dict)"

definition dict_after :: "ihash_multimap \<Rightarrow> string \<Rightarrow> ihash_multimap" where
  "dict_after dict key =
     dropWhile (same_key key) (dropWhile (\<lambda>e. \<not> same_key key e) dict)"

definition dict_insert :: "string \<Rightarrow> string \<Rightarrow> ihash_multimap \<Rightarrow> ihash_multimap" where
  "dict_insert key value dict =
     (if equal_range dict key = [] then (key, value) # dict
      else dict_before dict key @ (key, value) # equal_range dict key @ dict_after dict key)"

section \<open>The helpers of the HTTP message\<close>

definition get_value :: "ihash_multimap \<Rightarrow> string \<Rightarrow> string" where
  "get_value dict key = (case dict_find dict key of None \<Rightarrow> [] | Some e \<Rightarrow> snd e)"

text \<open>The first element of the range keeps its key and gets the new value; the others are erased.\<close>

definition change_value :: "string \<Rightarrow> string \<Rightarrow> ihash_multimap \<Rightarrow> ihash_multimap" where
  "change_value key value dict =
     (case equal_range dict key of
        [] \<Rightarrow> dict_insert key value dict
      | e # _ \<Rightarrow> dict_before dict key @ (fst e, value) # dict_after dict key)"

definition delete_value :: "string \<Rightarrow> ihash_multimap \<Rightarrow> ihash_multimap" where
  "delete_value key dict =
     (if equal_range dict key \<noteq> [] then dict_before dict key @ dict_after dict key else dict)"

text \<open>The container invariant: elements with equivalent keys are adjacent.\<close>

fun adjacent :: "'a list \<Rightarrow> bool" where
  "adjacent [] = True"
| "adjacent (x # xs) = (adjacent xs \<and> (x \<in> set xs \<longrightarrow> hd xs = x))"

definition folded_keys :: "ihash_multimap \<Rightarrow> string list" where
  "folded_keys dict = map (\<lambda>e. to_lower (fst e)) dict"

definition grouped :: "ihash_multimap \<Rightarrow> bool" where
  "grouped dict = adjacent (folded_keys dict)"

definition dict_values :: "ihash_multimap \<Rightarrow> string \<Rightarrow> string list" where
  "dict_values dict key = map snd (filter (same_key key) dict)"

section \<open>Equivalent keys have the same hash\<close>

lemma ihash_loop_iequals: "iequals x y \<Longrightarrow> ihash_loop hasher seed x = ihash_loop hasher seed y"
  by (induction x y arbitrary: seed rule: iequals.induct) (auto simp: tolower_eq_iff_toupper_eq)

section \<open>The dictionary laws\<close>

lemma same_key_iff: "same_key k e \<longleftrightarrow> to_lower (fst e) = to_lower k"
  by (simp add: iequal_to_def iequals_to_lower)

lemma dict_split: "dict_before d k @ equal_range d k @ dict_after d k = d"
  by (simp add: dict_before_def equal_range_def dict_after_def)

lemma filter_dict_before: "filter (same_key k) (dict_before d k) = []"
  unfolding dict_before_def by (auto simp: filter_empty_conv dest: set_takeWhileD)

lemma filter_equal_range: "filter (same_key k) (equal_range d k) = equal_range d k"
  unfolding equal_range_def by (auto simp: filter_id_conv dest: set_takeWhileD)

lemma takeWhile_dropWhile_Nil_iff:
  "takeWhile P (dropWhile (\<lambda>x. \<not> P x) xs) = [] \<longleftrightarrow> filter P xs = []"
proof (induction xs)
  case (Cons x xs)
  then show ?case by (cases "P x") (simp_all only: dropWhile.simps filter.simps if_False if_True
      not_False_eq_True not_True_eq_False takeWhile.simps list.distinct)
qed simp

lemma equal_range_Nil_iff: "equal_range d k = [] \<longleftrightarrow> filter (same_key k) d = []"
  unfolding equal_range_def by (rule takeWhile_dropWhile_Nil_iff)

lemma adjacent_dropWhile: "adjacent (x # xs) \<Longrightarrow> x \<notin> set (dropWhile (\<lambda>y. y = x) xs)"
proof (induction xs)
  case (Cons y xs)
  show ?case
  proof (cases "y = x")
    case True
    then show ?thesis using Cons by simp
  next
    case False
    then show ?thesis using Cons.prems by simp
  qed
qed simp

lemma adjacent_after:
  "adjacent xs \<Longrightarrow> x \<notin> set (dropWhile (\<lambda>y. y = x) (dropWhile (\<lambda>y. y \<noteq> x) xs))"
proof (induction xs)
  case (Cons y xs)
  then show ?case using adjacent_dropWhile [of x xs] by auto
qed simp

lemma grouped_after: "grouped d \<Longrightarrow> filter (same_key k) (dict_after d k) = []"
proof -
  assume "grouped d"
  moreover have "map (\<lambda>e. to_lower (fst e)) (dict_after d k) =
      dropWhile (\<lambda>y. y = to_lower k) (dropWhile (\<lambda>y. y \<noteq> to_lower k) (folded_keys d))"
    by (simp add: dict_after_def folded_keys_def dropWhile_map o_def same_key_iff)
  ultimately have "to_lower k \<notin> (\<lambda>e. to_lower (fst e)) ` set (dict_after d k)"
    unfolding grouped_def using adjacent_after [of "folded_keys d" "to_lower k"]
    by (metis list.set_map)
  then show ?thesis by (auto simp: filter_empty_conv same_key_iff image_iff)
qed

lemma grouped_equal_range: "grouped d \<Longrightarrow> equal_range d k = filter (same_key k) d"
proof -
  assume "grouped d"
  have "filter (same_key k) d = filter (same_key k) (dict_before d k @ equal_range d k @ dict_after d k)"
    by (simp only: dict_split)
  also have "\<dots> = equal_range d k"
    using grouped_after [OF \<open>grouped d\<close>]
    by (simp only: filter_append filter_dict_before filter_equal_range append_Nil append_Nil2)
  finally show ?thesis by simp
qed

lemma adjacent_block:
  "x \<notin> set ys \<Longrightarrow> set bs \<subseteq> {x} \<Longrightarrow> adjacent ys \<Longrightarrow> adjacent (bs @ ys)"
  by (induction bs) (auto simp: hd_append dest: hd_in_set)

lemma adjacent_block_replace:
  "adjacent (as @ bs @ cs) \<Longrightarrow> x \<notin> set as \<Longrightarrow> x \<notin> set cs \<Longrightarrow> set bs \<subseteq> {x} \<Longrightarrow> bs \<noteq> [] \<Longrightarrow>
   set bs' \<subseteq> {x} \<Longrightarrow> adjacent (as @ bs' @ cs)"
proof (induction as)
  case Nil
  have "adjacent (zs @ cs) \<Longrightarrow> adjacent cs" for zs by (induction zs) auto
  then show ?case using Nil adjacent_block by (metis append_Nil)
next
  case (Cons a as)
  have "a \<notin> set bs" "a \<notin> set bs'" using Cons.prems by auto
  moreover have "as = [] \<Longrightarrow> a \<notin> set cs"
    using Cons.prems by (cases bs) auto
  moreover have "adjacent (as @ bs' @ cs)" using Cons by simp
  moreover have "a \<in> set (as @ cs) \<Longrightarrow> as \<noteq> [] \<Longrightarrow> hd as = a"
    using Cons.prems(1) by auto
  ultimately show ?case by (cases "as = []") auto
qed

lemma dict_block_grouped:
  assumes "grouped d" and "equal_range d k \<noteq> []" and "set (folded_keys b) \<subseteq> {to_lower k}"
  shows "grouped (dict_before d k @ b @ dict_after d k)"
proof -
  let ?f = "map (\<lambda>e. to_lower (fst e))"
  have "to_lower k \<notin> set (?f (dict_before d k))" "to_lower k \<notin> set (?f (dict_after d k))"
    using filter_dict_before [of k d] grouped_after [OF assms(1), of k]
    by (auto simp: filter_empty_conv same_key_iff)
  moreover have "set (?f (equal_range d k)) \<subseteq> {to_lower k}"
    using filter_equal_range [of k d] by (auto simp: filter_id_conv same_key_iff)
  moreover have "adjacent (?f (dict_before d k) @ ?f (equal_range d k) @ ?f (dict_after d k))"
    using assms(1) dict_split [of d k] unfolding grouped_def folded_keys_def by (metis map_append)
  ultimately have "adjacent (?f (dict_before d k) @ ?f b @ ?f (dict_after d k))"
    using adjacent_block_replace assms(2,3) unfolding folded_keys_def
    by (metis (no_types, lifting) map_is_Nil_conv)
  then show ?thesis by (simp add: grouped_def folded_keys_def)
qed

lemma equal_range_hd: "equal_range d k = e # es \<Longrightarrow> to_lower (fst e) = to_lower k"
  using filter_equal_range [of k d]
  by (metis filter_id_conv list.set_intros(1) same_key_iff)

lemma grouped_insert: "grouped d \<Longrightarrow> grouped (dict_insert k v d)"
proof (cases "equal_range d k = []")
  case True
  assume "grouped d"
  moreover have "to_lower k \<notin> set (folded_keys d)"
    using True by (auto simp: equal_range_Nil_iff filter_empty_conv same_key_iff folded_keys_def)
  ultimately show ?thesis
    using True by (simp add: dict_insert_def grouped_def folded_keys_def)
next
  case False
  assume "grouped d"
  moreover have "set (folded_keys ((k, v) # equal_range d k)) \<subseteq> {to_lower k}"
    using filter_equal_range [of k d] by (auto simp: filter_id_conv same_key_iff folded_keys_def)
  ultimately show ?thesis
    using False dict_block_grouped [of d k "(k, v) # equal_range d k"] by (simp add: dict_insert_def)
qed

lemma grouped_change: "grouped d \<Longrightarrow> grouped (change_value k v d)"
proof (cases "equal_range d k")
  case (Cons e es)
  assume "grouped d"
  moreover have "to_lower (fst e) = to_lower k"
    by (rule equal_range_hd [OF Cons])
  ultimately show ?thesis
    using Cons dict_block_grouped [of d k "[(fst e, v)]"] by (simp add: change_value_def folded_keys_def)
qed (simp add: change_value_def grouped_insert)

lemma grouped_delete: "grouped d \<Longrightarrow> grouped (delete_value k d)"
  using dict_block_grouped [of d k "[]"] by (simp add: delete_value_def folded_keys_def)

lemma dict_values_split:
  "dict_values d k' = dict_values (dict_before d k) k' @ dict_values (equal_range d k) k' @
     dict_values (dict_after d k) k'"
  unfolding dict_values_def by (metis dict_split filter_append map_append)

lemma dict_values_parts:
  "iequals k k' \<Longrightarrow> dict_values (dict_before d k) k' = []"
  "grouped d \<Longrightarrow> iequals k k' \<Longrightarrow> dict_values (dict_after d k) k' = []"
  "\<not> iequals k k' \<Longrightarrow> dict_values (equal_range d k) k' = []"
  using filter_dict_before [of k d] grouped_after [of d k] filter_equal_range [of k d]
  by (auto simp: dict_values_def filter_id_conv filter_empty_conv same_key_iff iequals_to_lower)

lemma dict_values_append: "dict_values (d @ d') k = dict_values d k @ dict_values d' k"
  by (simp add: dict_values_def)

lemma dict_values_Cons: "dict_values (e # d) k = (if iequals (fst e) k then [snd e] else []) @ dict_values d k"
  by (simp add: dict_values_def iequal_to_def)

lemma dict_values_cong: "iequals k k' \<Longrightarrow> dict_values d k = dict_values d k'"
  by (simp add: dict_values_def same_key_iff iequals_to_lower)

lemma equal_range_values: "grouped d \<Longrightarrow> equal_range d k = [] \<longleftrightarrow> dict_values d k = []"
  by (simp add: grouped_equal_range dict_values_def)

lemma dict_values_insert:
  assumes "grouped d"
  shows "mset (dict_values (dict_insert k v d) k') =
     (if iequals k k' then add_mset v (mset (dict_values d k')) else mset (dict_values d k'))"
  unfolding dict_insert_def using dict_values_split [of d k' k]
  by (simp add: dict_values_append dict_values_Cons)

lemma dict_values_change:
  assumes "grouped d"
  shows "dict_values (change_value k v d) k' =
     (if iequals k k' then [v] else dict_values d k')"
proof (cases "equal_range d k")
  case Nil
  have "iequals k k' \<Longrightarrow> dict_values d k' = []"
    using Nil equal_range_values [OF assms] dict_values_cong by metis
  then show ?thesis using Nil by (simp add: change_value_def dict_insert_def dict_values_Cons)
next
  case (Cons e es)
  have e: "to_lower (fst e) = to_lower k"
    by (rule equal_range_hd [OF Cons])
  show ?thesis
  proof (cases "iequals k k'")
    case True
    then show ?thesis
      using Cons e dict_values_parts(1) [OF True] dict_values_parts(2) [OF assms True]
      by (simp add: change_value_def dict_values_append dict_values_Cons iequals_to_lower)
  next
    case False
    then show ?thesis
      using Cons e dict_values_parts(3) [OF False, of d] dict_values_split [of d k' k]
      by (simp add: change_value_def dict_values_append dict_values_Cons iequals_to_lower)
  qed
qed

lemma dict_values_delete:
  assumes "grouped d"
  shows "dict_values (delete_value k d) k' = (if iequals k k' then [] else dict_values d k')"
proof (cases "equal_range d k = []")
  case True
  then show ?thesis
    using equal_range_values [OF assms] dict_values_cong by (metis delete_value_def)
next
  case False
  show ?thesis
  proof (cases "iequals k k'")
    case True
    then show ?thesis
      using False dict_values_parts(1) [OF True] dict_values_parts(2) [OF assms True]
      by (simp add: delete_value_def dict_values_append)
  next
    case neq: False
    then show ?thesis
      using False dict_values_parts(3) [OF neq, of d] dict_values_split [of d k' k]
      by (simp add: delete_value_def dict_values_append)
  qed
qed

lemma get_value_values: "get_value d k = (case dict_values d k of [] \<Rightarrow> [] | v # _ \<Rightarrow> v)"
  by (induction d) (auto simp: get_value_def dict_find_def dict_values_def split: list.splits)

section \<open>The interface the HTTP message relies on\<close>

text \<open>
  What the C++ standard promises of the container and what the helpers add to it. The order of the
  values of one key after an insertion is not part of the contract.
\<close>

locale string_multimap =
  fixes inv :: "'d \<Rightarrow> bool"
    and empty_dict :: 'd
    and values_of :: "'d \<Rightarrow> string \<Rightarrow> string list"
    and insert_op :: "string \<Rightarrow> string \<Rightarrow> 'd \<Rightarrow> 'd"
    and get_op :: "'d \<Rightarrow> string \<Rightarrow> string"
    and change_op :: "string \<Rightarrow> string \<Rightarrow> 'd \<Rightarrow> 'd"
    and delete_op :: "string \<Rightarrow> 'd \<Rightarrow> 'd"
  assumes inv_empty: "inv empty_dict"
    and inv_insert: "inv d \<Longrightarrow> inv (insert_op k v d)"
    and inv_change: "inv d \<Longrightarrow> inv (change_op k v d)"
    and inv_delete: "inv d \<Longrightarrow> inv (delete_op k d)"
    and values_empty: "values_of empty_dict k = []"
    and values_insert: "inv d \<Longrightarrow> mset (values_of (insert_op k v d) k') =
          (if iequals k k' then add_mset v (mset (values_of d k')) else mset (values_of d k'))"
    and values_change: "inv d \<Longrightarrow> values_of (change_op k v d) k' =
          (if iequals k k' then [v] else values_of d k')"
    and values_delete: "inv d \<Longrightarrow> values_of (delete_op k d) k' =
          (if iequals k k' then [] else values_of d k')"
    and get_values: "get_op d k = (case values_of d k of [] \<Rightarrow> [] | v # _ \<Rightarrow> v)"
begin

lemma get_change: "inv d \<Longrightarrow> get_op (change_op k v d) k' = (if iequals k k' then v else get_op d k')"
  by (simp add: get_values values_change)

lemma get_delete: "inv d \<Longrightarrow> get_op (delete_op k d) k' = (if iequals k k' then [] else get_op d k')"
  by (simp add: get_values values_delete)

lemma get_insert_new:
  assumes "inv d" and "values_of d k = []"
  shows "get_op (insert_op k v d) k = v"
proof -
  have "mset (values_of (insert_op k v d) k) = {#v#}"
    using values_insert [OF assms(1), of k v k] assms(2) by simp
  then have "values_of (insert_op k v d) k = [v]" by simp
  then show ?thesis by (simp add: get_values)
qed

lemma values_insert_other:
  assumes "inv d" and "\<not> iequals k k'" and "size (mset (values_of d k')) \<le> 1"
  shows "get_op (insert_op k v d) k' = get_op d k'"
proof -
  have eq: "mset (values_of (insert_op k v d) k') = mset (values_of d k')"
    using values_insert [OF assms(1), of k v k'] assms(2) by simp
  show ?thesis
  proof (cases "values_of d k'")
    case Nil
    then show ?thesis using eq by (simp add: get_values)
  next
    case (Cons w ws)
    then have "values_of d k' = [w]" using assms(3) by simp
    then show ?thesis using eq by (simp add: get_values)
  qed
qed

lemma change_then_delete: "inv d \<Longrightarrow> values_of (delete_op k (change_op k v d)) k' = values_of (delete_op k d) k'"
  by (simp add: values_delete values_change inv_change)

end

interpretation dict: string_multimap grouped "[]" dict_values dict_insert get_value change_value delete_value
proof unfold_locales
  show "grouped []" by (simp add: grouped_def folded_keys_def)
  show "dict_values [] k = []" for k by (simp add: dict_values_def)
qed (simp_all add: grouped_insert grouped_change grouped_delete dict_values_insert dict_values_change
    dict_values_delete get_value_values)

section \<open>Properties\<close>

text \<open>The hash and the equality of the case-insensitive dictionaries are consistent, as an unordered
  container needs: the equality is an equivalence relation and equivalent keys have the same hash,
  for every hash function on characters.\<close>

theorem ihash_consistent:
  assumes "iequal_to x y"
  shows "ihash hasher x = ihash hasher y \<and> iequal_to y x \<and> (iequal_to y z \<longrightarrow> iequal_to x z)"
  using assms ihash_loop_iequals iequals_sym iequals_trans by (auto simp: ihash_def iequal_to_def)

theorem ihash_consistent_witness:
  "ihash (\<lambda>c. of_nat (of_char c)) ''Content-Type'' = ihash (\<lambda>c. of_nat (of_char c)) ''content-TYPE'' \<and>
   iequal_to ''content-TYPE'' ''Content-Type''"
proof -
  have "iequal_to ''Content-Type'' ''content-TYPE''" by code_simp
  from ihash_consistent [OF this] show ?thesis by blast
qed



end
