(* ===== verification/Http_Message.thy ===== *)
theory Http_Message
  imports Hash_Map
begin

text \<open>
  HTTP messages: \<^verbatim>\<open>http::types\<close> (\<^verbatim>\<open>src/http_types.cpp\<close>), \<^verbatim>\<open>http::message\<close>
  (\<^verbatim>\<open>include/pion/http/message.hpp\<close>, \<^verbatim>\<open>src/http_message.cpp\<close>), \<^verbatim>\<open>http::request\<close> and
  \<^verbatim>\<open>http::response\<close>. One record holds the members of the three classes, prefixed \<open>msg_\<close>,
  \<open>req_\<close> and \<open>resp_\<close>; \<open>msg_is_request\<close> is the dynamic type, on which the virtual functions
  dispatch. A cell of the content buffer that \<^verbatim>\<open>new char[]\<close> has allocated and nothing has written
  yet is \<^const>\<open>None\<close>. The versions keep their 16 bits and the status code its 32 bits.
\<close>

section \<open>Names and codes\<close>

definition STRING_EMPTY :: string where "STRING_EMPTY = []"
definition STRING_CRLF :: string where "STRING_CRLF = [CR, LF]"
definition STRING_HTTP_VERSION :: string where "STRING_HTTP_VERSION = ''HTTP/''"
definition HEADER_NAME_VALUE_DELIMITER :: string where "HEADER_NAME_VALUE_DELIMITER = '': ''"
definition COOKIE_NAME_VALUE_DELIMITER :: string where "COOKIE_NAME_VALUE_DELIMITER = ''=''"
definition HEADER_HOST :: string where "HEADER_HOST = ''Host''"
definition HEADER_COOKIE :: string where "HEADER_COOKIE = ''Cookie''"
definition HEADER_SET_COOKIE :: string where "HEADER_SET_COOKIE = ''Set-Cookie''"
definition HEADER_CONNECTION :: string where "HEADER_CONNECTION = ''Connection''"
definition HEADER_CONTENT_TYPE :: string where "HEADER_CONTENT_TYPE = ''Content-Type''"
definition HEADER_CONTENT_LENGTH :: string where "HEADER_CONTENT_LENGTH = ''Content-Length''"
definition HEADER_CONTENT_LOCATION :: string where "HEADER_CONTENT_LOCATION = ''Content-Location''"
definition HEADER_CONTENT_ENCODING :: string where "HEADER_CONTENT_ENCODING = ''Content-Encoding''"
definition HEADER_CONTENT_DISPOSITION :: string where "HEADER_CONTENT_DISPOSITION = ''Content-Disposition''"
definition HEADER_LAST_MODIFIED :: string where "HEADER_LAST_MODIFIED = ''Last-Modified''"
definition HEADER_IF_MODIFIED_SINCE :: string where "HEADER_IF_MODIFIED_SINCE = ''If-Modified-Since''"
definition HEADER_TRANSFER_ENCODING :: string where "HEADER_TRANSFER_ENCODING = ''Transfer-Encoding''"
definition HEADER_LOCATION :: string where "HEADER_LOCATION = ''Location''"
definition HEADER_AUTHORIZATION :: string where "HEADER_AUTHORIZATION = ''Authorization''"
definition HEADER_REFERER :: string where "HEADER_REFERER = ''Referer''"
definition HEADER_USER_AGENT :: string where "HEADER_USER_AGENT = ''User-Agent''"
definition HEADER_X_FORWARDED_FOR :: string where "HEADER_X_FORWARDED_FOR = ''X-Forwarded-For''"
definition HEADER_X_POWERED_BY :: string where "HEADER_X_POWERED_BY = ''X-Powered-By''"
definition HEADER_X_REQUESTED_WITH :: string where "HEADER_X_REQUESTED_WITH = ''X-Requested-With''"
definition HEADER_X_UA_COMPATIBLE :: string where "HEADER_X_UA_COMPATIBLE = ''X-UA-Compatible''"
definition HEADER_CLIENT_IP :: string where "HEADER_CLIENT_IP = ''Client-IP''"
definition HEADER_CACHE_CONTROL :: string where "HEADER_CACHE_CONTROL = ''Cache-Control''"
definition HEADER_ORIGIN :: string where "HEADER_ORIGIN = ''Origin''"
definition HEADER_ACCEPT :: string where "HEADER_ACCEPT = ''Accept''"
definition HEADER_ALLOW :: string where "HEADER_ALLOW = ''Allow''"
definition HEADER_CORS_ALLOW_ORIGIN :: string where "HEADER_CORS_ALLOW_ORIGIN = ''Access-Control-Allow-Origin''"
definition HEADER_CORS_ALLOW_CREDENTIALS :: string where "HEADER_CORS_ALLOW_CREDENTIALS = ''Access-Control-Allow-Credentials''"
definition HEADER_CORS_ALLOW_METHODS :: string where "HEADER_CORS_ALLOW_METHODS = ''Access-Control-Allow-Methods''"
definition HEADER_CORS_ALLOW_HEADERS :: string where "HEADER_CORS_ALLOW_HEADERS = ''Access-Control-Allow-Headers''"
definition HEADER_CORS_REQUEST_METHOD :: string where "HEADER_CORS_REQUEST_METHOD = ''Access-Control-Request-Method''"
definition CONTENT_TYPE_HTML :: string where "CONTENT_TYPE_HTML = ''text/html''"
definition CONTENT_TYPE_TEXT :: string where "CONTENT_TYPE_TEXT = ''text/plain''"
definition CONTENT_TYPE_XML :: string where "CONTENT_TYPE_XML = ''text/xml''"
definition CONTENT_TYPE_APP_JSON :: string where "CONTENT_TYPE_APP_JSON = ''application/json''"
definition CONTENT_TYPE_APP_XHTML_XML :: string where "CONTENT_TYPE_APP_XHTML_XML = ''application/xhtml+xml''"
definition CONTENT_TYPE_URLENCODED :: string where "CONTENT_TYPE_URLENCODED = ''application/x-www-form-urlencoded''"
definition CONTENT_TYPE_MULTIPART_FORM_DATA :: string where "CONTENT_TYPE_MULTIPART_FORM_DATA = ''multipart/form-data''"
definition CONTENT_TYPE_HTML_UTF8 :: string where "CONTENT_TYPE_HTML_UTF8 = ''text/html; charset=utf-8''"
definition CONTENT_TYPE_TEXT_UTF8 :: string where "CONTENT_TYPE_TEXT_UTF8 = ''text/plain; charset=utf-8''"
definition CONTENT_TYPE_XML_UTF8 :: string where "CONTENT_TYPE_XML_UTF8 = ''text/xml; charset=utf-8''"
definition CONTENT_TYPE_APP_JSON_UTF8 :: string where "CONTENT_TYPE_APP_JSON_UTF8 = ''application/json; charset=utf-8''"
definition CONTENT_TYPE_APP_XHTML_XML_UTF8 :: string where "CONTENT_TYPE_APP_XHTML_XML_UTF8 = ''application/xhtml+xml; charset=utf-8''"
definition REQUEST_METHOD_HEAD :: string where "REQUEST_METHOD_HEAD = ''HEAD''"
definition REQUEST_METHOD_GET :: string where "REQUEST_METHOD_GET = ''GET''"
definition REQUEST_METHOD_PUT :: string where "REQUEST_METHOD_PUT = ''PUT''"
definition REQUEST_METHOD_POST :: string where "REQUEST_METHOD_POST = ''POST''"
definition REQUEST_METHOD_DELETE :: string where "REQUEST_METHOD_DELETE = ''DELETE''"
definition RESPONSE_MESSAGE_OK :: string where "RESPONSE_MESSAGE_OK = ''OK''"
definition RESPONSE_MESSAGE_CREATED :: string where "RESPONSE_MESSAGE_CREATED = ''Created''"
definition RESPONSE_MESSAGE_ACCEPTED :: string where "RESPONSE_MESSAGE_ACCEPTED = ''Accepted''"
definition RESPONSE_MESSAGE_NO_CONTENT :: string where "RESPONSE_MESSAGE_NO_CONTENT = ''No Content''"
definition RESPONSE_MESSAGE_FOUND :: string where "RESPONSE_MESSAGE_FOUND = ''Found''"
definition RESPONSE_MESSAGE_UNAUTHORIZED :: string where "RESPONSE_MESSAGE_UNAUTHORIZED = ''Unauthorized''"
definition RESPONSE_MESSAGE_FORBIDDEN :: string where "RESPONSE_MESSAGE_FORBIDDEN = ''Forbidden''"
definition RESPONSE_MESSAGE_NOT_FOUND :: string where "RESPONSE_MESSAGE_NOT_FOUND = ''Not Found''"
definition RESPONSE_MESSAGE_METHOD_NOT_ALLOWED :: string where "RESPONSE_MESSAGE_METHOD_NOT_ALLOWED = ''Method Not Allowed''"
definition RESPONSE_MESSAGE_NOT_MODIFIED :: string where "RESPONSE_MESSAGE_NOT_MODIFIED = ''Not Modified''"
definition RESPONSE_MESSAGE_BAD_REQUEST :: string where "RESPONSE_MESSAGE_BAD_REQUEST = ''Bad Request''"
definition RESPONSE_MESSAGE_CONFLICT :: string where "RESPONSE_MESSAGE_CONFLICT = ''Conflict''"
definition RESPONSE_MESSAGE_PRECONDITION_FAILED :: string where "RESPONSE_MESSAGE_PRECONDITION_FAILED = ''Precondition Failed''"
definition RESPONSE_MESSAGE_UNSUPPORTED_MEDIA_TYPE :: string where "RESPONSE_MESSAGE_UNSUPPORTED_MEDIA_TYPE = ''Unsupported Media Type''"
definition RESPONSE_MESSAGE_UNPROCESSABLE_ENTITY :: string where "RESPONSE_MESSAGE_UNPROCESSABLE_ENTITY = ''Unprocessable Entity''"
definition RESPONSE_MESSAGE_UPGRADE_REQUIRED :: string where "RESPONSE_MESSAGE_UPGRADE_REQUIRED = ''Upgrade Required''"
definition RESPONSE_MESSAGE_SERVER_ERROR :: string where "RESPONSE_MESSAGE_SERVER_ERROR = ''Server Error''"
definition RESPONSE_MESSAGE_NOT_IMPLEMENTED :: string where "RESPONSE_MESSAGE_NOT_IMPLEMENTED = ''Not Implemented''"
definition RESPONSE_MESSAGE_CONTINUE :: string where "RESPONSE_MESSAGE_CONTINUE = ''Continue''"
definition RESPONSE_CODE_OK :: "32 word" where "RESPONSE_CODE_OK = 200"
definition RESPONSE_CODE_CREATED :: "32 word" where "RESPONSE_CODE_CREATED = 201"
definition RESPONSE_CODE_ACCEPTED :: "32 word" where "RESPONSE_CODE_ACCEPTED = 202"
definition RESPONSE_CODE_NO_CONTENT :: "32 word" where "RESPONSE_CODE_NO_CONTENT = 204"
definition RESPONSE_CODE_FOUND :: "32 word" where "RESPONSE_CODE_FOUND = 302"
definition RESPONSE_CODE_UNAUTHORIZED :: "32 word" where "RESPONSE_CODE_UNAUTHORIZED = 401"
definition RESPONSE_CODE_FORBIDDEN :: "32 word" where "RESPONSE_CODE_FORBIDDEN = 403"
definition RESPONSE_CODE_NOT_FOUND :: "32 word" where "RESPONSE_CODE_NOT_FOUND = 404"
definition RESPONSE_CODE_METHOD_NOT_ALLOWED :: "32 word" where "RESPONSE_CODE_METHOD_NOT_ALLOWED = 405"
definition RESPONSE_CODE_NOT_MODIFIED :: "32 word" where "RESPONSE_CODE_NOT_MODIFIED = 304"
definition RESPONSE_CODE_BAD_REQUEST :: "32 word" where "RESPONSE_CODE_BAD_REQUEST = 400"
definition RESPONSE_CODE_CONFLICT :: "32 word" where "RESPONSE_CODE_CONFLICT = 409"
definition RESPONSE_CODE_PRECONDITION_FAILED :: "32 word" where "RESPONSE_CODE_PRECONDITION_FAILED = 412"
definition RESPONSE_CODE_UNSUPPORTED_MEDIA_TYPE :: "32 word" where "RESPONSE_CODE_UNSUPPORTED_MEDIA_TYPE = 415"
definition RESPONSE_CODE_UNPROCESSABLE_ENTITY :: "32 word" where "RESPONSE_CODE_UNPROCESSABLE_ENTITY = 422"
definition RESPONSE_CODE_UPGRADE_REQUIRED :: "32 word" where "RESPONSE_CODE_UPGRADE_REQUIRED = 426"
definition RESPONSE_CODE_SERVER_ERROR :: "32 word" where "RESPONSE_CODE_SERVER_ERROR = 500"
definition RESPONSE_CODE_NOT_IMPLEMENTED :: "32 word" where "RESPONSE_CODE_NOT_IMPLEMENTED = 501"
definition RESPONSE_CODE_CONTINUE :: "32 word" where "RESPONSE_CODE_CONTINUE = 100"

lemmas http_names =
  STRING_EMPTY_def STRING_CRLF_def STRING_HTTP_VERSION_def
  HEADER_NAME_VALUE_DELIMITER_def COOKIE_NAME_VALUE_DELIMITER_def HEADER_HOST_def
  HEADER_COOKIE_def HEADER_SET_COOKIE_def HEADER_CONNECTION_def
  HEADER_CONTENT_TYPE_def HEADER_CONTENT_LENGTH_def HEADER_CONTENT_LOCATION_def
  HEADER_CONTENT_ENCODING_def HEADER_CONTENT_DISPOSITION_def HEADER_LAST_MODIFIED_def
  HEADER_IF_MODIFIED_SINCE_def HEADER_TRANSFER_ENCODING_def HEADER_LOCATION_def
  HEADER_AUTHORIZATION_def HEADER_REFERER_def HEADER_USER_AGENT_def
  HEADER_X_FORWARDED_FOR_def HEADER_X_POWERED_BY_def HEADER_X_REQUESTED_WITH_def
  HEADER_X_UA_COMPATIBLE_def HEADER_CLIENT_IP_def HEADER_CACHE_CONTROL_def
  HEADER_ORIGIN_def HEADER_ACCEPT_def HEADER_ALLOW_def
  HEADER_CORS_ALLOW_ORIGIN_def HEADER_CORS_ALLOW_CREDENTIALS_def HEADER_CORS_ALLOW_METHODS_def
  HEADER_CORS_ALLOW_HEADERS_def HEADER_CORS_REQUEST_METHOD_def CONTENT_TYPE_HTML_def
  CONTENT_TYPE_TEXT_def CONTENT_TYPE_XML_def CONTENT_TYPE_APP_JSON_def
  CONTENT_TYPE_APP_XHTML_XML_def CONTENT_TYPE_URLENCODED_def CONTENT_TYPE_MULTIPART_FORM_DATA_def
  CONTENT_TYPE_HTML_UTF8_def CONTENT_TYPE_TEXT_UTF8_def CONTENT_TYPE_XML_UTF8_def
  CONTENT_TYPE_APP_JSON_UTF8_def CONTENT_TYPE_APP_XHTML_XML_UTF8_def REQUEST_METHOD_HEAD_def
  REQUEST_METHOD_GET_def REQUEST_METHOD_PUT_def REQUEST_METHOD_POST_def
  REQUEST_METHOD_DELETE_def RESPONSE_MESSAGE_OK_def RESPONSE_MESSAGE_CREATED_def
  RESPONSE_MESSAGE_ACCEPTED_def RESPONSE_MESSAGE_NO_CONTENT_def RESPONSE_MESSAGE_FOUND_def
  RESPONSE_MESSAGE_UNAUTHORIZED_def RESPONSE_MESSAGE_FORBIDDEN_def RESPONSE_MESSAGE_NOT_FOUND_def
  RESPONSE_MESSAGE_METHOD_NOT_ALLOWED_def RESPONSE_MESSAGE_NOT_MODIFIED_def RESPONSE_MESSAGE_BAD_REQUEST_def
  RESPONSE_MESSAGE_CONFLICT_def RESPONSE_MESSAGE_PRECONDITION_FAILED_def RESPONSE_MESSAGE_UNSUPPORTED_MEDIA_TYPE_def
  RESPONSE_MESSAGE_UNPROCESSABLE_ENTITY_def RESPONSE_MESSAGE_UPGRADE_REQUIRED_def RESPONSE_MESSAGE_SERVER_ERROR_def
  RESPONSE_MESSAGE_NOT_IMPLEMENTED_def RESPONSE_MESSAGE_CONTINUE_def RESPONSE_CODE_OK_def
  RESPONSE_CODE_CREATED_def RESPONSE_CODE_ACCEPTED_def RESPONSE_CODE_NO_CONTENT_def
  RESPONSE_CODE_FOUND_def RESPONSE_CODE_UNAUTHORIZED_def RESPONSE_CODE_FORBIDDEN_def
  RESPONSE_CODE_NOT_FOUND_def RESPONSE_CODE_METHOD_NOT_ALLOWED_def RESPONSE_CODE_NOT_MODIFIED_def
  RESPONSE_CODE_BAD_REQUEST_def RESPONSE_CODE_CONFLICT_def RESPONSE_CODE_PRECONDITION_FAILED_def
  RESPONSE_CODE_UNSUPPORTED_MEDIA_TYPE_def RESPONSE_CODE_UNPROCESSABLE_ENTITY_def RESPONSE_CODE_UPGRADE_REQUIRED_def
  RESPONSE_CODE_SERVER_ERROR_def RESPONSE_CODE_NOT_IMPLEMENTED_def RESPONSE_CODE_CONTINUE_def

section \<open>The message record\<close>

datatype data_status_t = STATUS_NONE | STATUS_TRUNCATED | STATUS_PARTIAL | STATUS_OK

record http_message =
  msg_is_request :: bool
  msg_first_line :: string
  msg_is_valid :: bool
  msg_is_chunked :: bool
  msg_chunks_supported :: bool
  msg_do_not_send_content_length :: bool
  msg_remote_ip :: nat
  msg_version_major :: "16 word"
  msg_version_minor :: "16 word"
  msg_content_length :: nat
  msg_content_buf :: "char option list"
  msg_chunk_cache :: string
  msg_headers :: ihash_multimap
  msg_cookie_params :: ihash_multimap
  msg_status :: data_status_t
  msg_has_missing_packets :: bool
  msg_has_data_after_missing :: bool
  req_method :: string
  req_resource :: string
  req_original_resource :: string
  req_query_string :: string
  req_query_params :: ihash_multimap
  req_user_record :: "nat option"
  resp_status_code :: "32 word"
  resp_status_message :: string
  resp_request_method :: string

definition empty_message :: "bool \<Rightarrow> http_message" where
  "empty_message is_request =
     \<lparr> msg_is_request = is_request, msg_first_line = [], msg_is_valid = False,
       msg_is_chunked = False, msg_chunks_supported = False,
       msg_do_not_send_content_length = False, msg_remote_ip = 0,
       msg_version_major = 1, msg_version_minor = 1, msg_content_length = 0,
       msg_content_buf = [], msg_chunk_cache = [], msg_headers = [], msg_cookie_params = [],
       msg_status = STATUS_NONE, msg_has_missing_packets = False,
       msg_has_data_after_missing = False,
       req_method = [], req_resource = [], req_original_resource = [], req_query_string = [],
       req_query_params = [], req_user_record = None,
       resp_status_code = RESPONSE_CODE_OK, resp_status_message = RESPONSE_MESSAGE_OK,
       resp_request_method = [] \<rparr>"

definition new_request :: "string \<Rightarrow> http_message" where
  "new_request resource =
     (empty_message True)\<lparr>req_method := REQUEST_METHOD_GET, req_resource := resource\<rparr>"

definition new_response :: "string \<Rightarrow> http_message" where
  "new_response request_method = (empty_message False)\<lparr>resp_request_method := request_method\<rparr>"

section \<open>Content buffer\<close>

definition content_resize :: "nat \<Rightarrow> char option list" where
  "content_resize len = replicate len None"

definition is_content_buffer_allocated :: "http_message \<Rightarrow> bool" where
  "is_content_buffer_allocated m = (msg_content_buf m \<noteq> [])"

definition get_content_buffer_size :: "http_message \<Rightarrow> nat" where
  "get_content_buffer_size m = length (msg_content_buf m)"

text \<open>
  The bytes a reader of \<^verbatim>\<open>get_content()\<close> sees: the cells and the null byte behind them. What was
  never written reads as a null byte here; \<open>content_readable\<close> says that the length does not reach
  behind the allocation.
\<close>

fun read_cell :: "char option \<Rightarrow> char" where
  "read_cell (Some c) = c"
| "read_cell None = NUL"

definition content_bytes :: "http_message \<Rightarrow> string" where
  "content_bytes m = map read_cell (take (msg_content_length m) (msg_content_buf m @ [Some NUL]))"

definition content_readable :: "http_message \<Rightarrow> bool" where
  "content_readable m = (msg_content_length m \<le> length (msg_content_buf m) + 1)"

text \<open>
  \<^verbatim>\<open>resize\<close> allocates \<^verbatim>\<open>len + 1\<close> bytes, computed in \<^verbatim>\<open>size_t\<close>, and writes the null byte at
  index \<^verbatim>\<open>len\<close>; the write is inside the allocation unless the sum wraps around.
\<close>

definition resize_in_bounds :: "nat \<Rightarrow> bool" where
  "resize_in_bounds len = (len = 0 \<or> len < szadd len 1)"

text \<open>\<^verbatim>\<open>memcpy\<close> of some bytes to an offset of the buffer; \<^const>\<open>None\<close> is a write out of bounds.\<close>

definition buf_write :: "nat \<Rightarrow> string \<Rightarrow> char option list \<Rightarrow> char option list option" where
  "buf_write pos bytes buf =
     (if pos + length bytes \<le> length buf
      then Some (take pos buf @ map Some bytes @ drop (pos + length bytes) buf) else None)"

definition set_content_length :: "nat \<Rightarrow> http_message \<Rightarrow> http_message" where
  "set_content_length n m = m\<lparr>msg_content_length := n\<rparr>"

definition create_content_buffer :: "http_message \<Rightarrow> http_message" where
  "create_content_buffer m = m\<lparr>msg_content_buf := content_resize (msg_content_length m)\<rparr>"

definition set_content :: "string \<Rightarrow> http_message \<Rightarrow> http_message" where
  "set_content content m =
     (let m = create_content_buffer (set_content_length (length content) m)
      in case buf_write 0 content (msg_content_buf m) of
           Some buf \<Rightarrow> m\<lparr>msg_content_buf := buf\<rparr>
         | None \<Rightarrow> m)"

definition clear_content :: "http_message \<Rightarrow> http_message" where
  "clear_content m =
     (let m = create_content_buffer (set_content_length 0 m)
      in m\<lparr>msg_headers := delete_value HEADER_CONTENT_TYPE (msg_headers m)\<rparr>)"

definition concatenate_chunks :: "http_message \<Rightarrow> http_message" where
  "concatenate_chunks m =
     (let m = create_content_buffer (set_content_length (length (msg_chunk_cache m)) m)
      in if 0 < length (msg_chunk_cache m)
         then case buf_write 0 (msg_chunk_cache m) (msg_content_buf m) of
                Some buf \<Rightarrow> m\<lparr>msg_content_buf := buf\<rparr>
              | None \<Rightarrow> m
         else m)"

section \<open>Header, cookie and query accessors\<close>

definition get_header :: "http_message \<Rightarrow> string \<Rightarrow> string" where
  "get_header m key = get_value (msg_headers m) key"

definition has_header :: "http_message \<Rightarrow> string \<Rightarrow> bool" where
  "has_header m key = (dict_find (msg_headers m) key \<noteq> None)"

definition add_header :: "string \<Rightarrow> string \<Rightarrow> http_message \<Rightarrow> http_message" where
  "add_header key value m = m\<lparr>msg_headers := dict_insert key value (msg_headers m)\<rparr>"

definition change_header :: "string \<Rightarrow> string \<Rightarrow> http_message \<Rightarrow> http_message" where
  "change_header key value m = m\<lparr>msg_headers := change_value key value (msg_headers m)\<rparr>"

definition delete_header :: "string \<Rightarrow> http_message \<Rightarrow> http_message" where
  "delete_header key m = m\<lparr>msg_headers := delete_value key (msg_headers m)\<rparr>"

definition set_content_type :: "string \<Rightarrow> http_message \<Rightarrow> http_message" where
  "set_content_type type m = m\<lparr>msg_headers := change_value HEADER_CONTENT_TYPE type (msg_headers m)\<rparr>"

definition get_cookie :: "http_message \<Rightarrow> string \<Rightarrow> string" where
  "get_cookie m key = get_value (msg_cookie_params m) key"

definition has_cookie :: "http_message \<Rightarrow> string \<Rightarrow> bool" where
  "has_cookie m key = (dict_find (msg_cookie_params m) key \<noteq> None)"

definition add_cookie :: "string \<Rightarrow> string \<Rightarrow> http_message \<Rightarrow> http_message" where
  "add_cookie key value m = m\<lparr>msg_cookie_params := dict_insert key value (msg_cookie_params m)\<rparr>"

definition change_cookie :: "string \<Rightarrow> string \<Rightarrow> http_message \<Rightarrow> http_message" where
  "change_cookie key value m = m\<lparr>msg_cookie_params := change_value key value (msg_cookie_params m)\<rparr>"

definition delete_cookie :: "string \<Rightarrow> http_message \<Rightarrow> http_message" where
  "delete_cookie key m = m\<lparr>msg_cookie_params := delete_value key (msg_cookie_params m)\<rparr>"

definition get_query :: "http_message \<Rightarrow> string \<Rightarrow> string" where
  "get_query m key = get_value (req_query_params m) key"

definition has_query :: "http_message \<Rightarrow> string \<Rightarrow> bool" where
  "has_query m key = (dict_find (req_query_params m) key \<noteq> None)"

definition add_query :: "string \<Rightarrow> string \<Rightarrow> http_message \<Rightarrow> http_message" where
  "add_query key value m = m\<lparr>req_query_params := dict_insert key value (req_query_params m)\<rparr>"

definition change_query :: "string \<Rightarrow> string \<Rightarrow> http_message \<Rightarrow> http_message" where
  "change_query key value m = m\<lparr>req_query_params := change_value key value (req_query_params m)\<rparr>"

definition delete_query :: "string \<Rightarrow> http_message \<Rightarrow> http_message" where
  "delete_query key m = m\<lparr>req_query_params := delete_value key (req_query_params m)\<rparr>"

section \<open>Setters that invalidate the cached first line\<close>

definition clear_first_line :: "http_message \<Rightarrow> http_message" where
  "clear_first_line m = (if msg_first_line m \<noteq> [] then m\<lparr>msg_first_line := []\<rparr> else m)"

definition set_version_major :: "16 word \<Rightarrow> http_message \<Rightarrow> http_message" where
  "set_version_major n m = clear_first_line (m\<lparr>msg_version_major := n\<rparr>)"

definition set_version_minor :: "16 word \<Rightarrow> http_message \<Rightarrow> http_message" where
  "set_version_minor n m = clear_first_line (m\<lparr>msg_version_minor := n\<rparr>)"

definition set_method :: "string \<Rightarrow> http_message \<Rightarrow> http_message" where
  "set_method str m = clear_first_line (m\<lparr>req_method := str\<rparr>)"

definition set_resource :: "string \<Rightarrow> http_message \<Rightarrow> http_message" where
  "set_resource str m = clear_first_line (m\<lparr>req_resource := str, req_original_resource := str\<rparr>)"

definition change_resource :: "string \<Rightarrow> http_message \<Rightarrow> http_message" where
  "change_resource str m = m\<lparr>req_resource := str\<rparr>"

definition set_query_string :: "string \<Rightarrow> http_message \<Rightarrow> http_message" where
  "set_query_string str m = clear_first_line (m\<lparr>req_query_string := str\<rparr>)"

definition set_status_code :: "32 word \<Rightarrow> http_message \<Rightarrow> http_message" where
  "set_status_code n m = clear_first_line (m\<lparr>resp_status_code := n\<rparr>)"

definition set_status_message :: "string \<Rightarrow> http_message \<Rightarrow> http_message" where
  "set_status_message s m = clear_first_line (m\<lparr>resp_status_message := s\<rparr>)"

lemmas first_line_setters =
  clear_first_line_def set_version_major_def set_version_minor_def set_method_def set_resource_def
  set_query_string_def set_status_code_def set_status_message_def

text \<open>\<^verbatim>\<open>message::clear\<close> and its two overrides.\<close>

definition message_clear :: "http_message \<Rightarrow> http_message" where
  "message_clear m =
     (clear_first_line m)\<lparr> msg_is_valid := False, msg_is_chunked := False,
       msg_chunks_supported := False, msg_do_not_send_content_length := False,
       msg_remote_ip := 0, msg_version_major := 1, msg_version_minor := 1,
       msg_content_length := 0, msg_content_buf := content_resize 0, msg_chunk_cache := [],
       msg_headers := [], msg_cookie_params := [], msg_status := STATUS_NONE,
       msg_has_missing_packets := False, msg_has_data_after_missing := False \<rparr>"

definition clear :: "http_message \<Rightarrow> http_message" where
  "clear m =
     (if msg_is_request m then
        (message_clear m)\<lparr> req_method := [], req_resource := [], req_original_resource := [],
          req_query_string := [], req_query_params := [], req_user_record := None \<rparr>
      else
        (message_clear m)\<lparr> resp_status_code := RESPONSE_CODE_OK,
          resp_status_message := RESPONSE_MESSAGE_OK, resp_request_method := [] \<rparr>)"

section \<open>Properties read from the headers\<close>

definition is_content_length_implied :: "http_message \<Rightarrow> bool" where
  "is_content_length_implied m =
     (if msg_is_request m then False
      else resp_request_method m = REQUEST_METHOD_HEAD
        \<or> (100 \<le> resp_status_code m \<and> resp_status_code m \<le> 199)
        \<or> resp_status_code m = 204 \<or> resp_status_code m = 205
        \<or> resp_status_code m = 304)"

text \<open>
  \<^verbatim>\<open>std::stoul\<close> may throw, which is \<^const>\<open>None\<close>. The trimmed copy is discarded by the code.
\<close>

definition update_content_length_using_header :: "http_message \<Rightarrow> http_message option" where
  "update_content_length_using_header m =
     (case dict_find (msg_headers m) HEADER_CONTENT_LENGTH of
        None \<Rightarrow> Some (m\<lparr>msg_content_length := 0\<rparr>)
      | Some i \<Rightarrow>
          (case stoul (snd i) of
             None \<Rightarrow> None
           | Some n \<Rightarrow> Some (m\<lparr>msg_content_length := n\<rparr>)))"

text \<open>The pattern \<^verbatim>\<open>.*chunked.*\<close>, case-insensitive; the dot matches no line terminator.\<close>

definition REGEX_ICASE_CHUNKED :: "string \<Rightarrow> bool" where
  "REGEX_ICASE_CHUNKED s =
     (LF \<notin> set s \<and> CR \<notin> set s \<and> find_sub ''chunked'' (to_lower s) \<noteq> None)"

definition update_transfer_encoding_using_header :: "http_message \<Rightarrow> http_message" where
  "update_transfer_encoding_using_header m =
     (case dict_find (msg_headers m) HEADER_TRANSFER_ENCODING of
        None \<Rightarrow> m\<lparr>msg_is_chunked := False\<rparr>
      | Some i \<Rightarrow> m\<lparr>msg_is_chunked := REGEX_ICASE_CHUNKED (snd i)\<rparr>)"

definition check_keep_alive :: "http_message \<Rightarrow> bool" where
  "check_keep_alive m =
     (get_header m HEADER_CONNECTION \<noteq> ''close'' \<and>
      (1 < msg_version_major m \<or> (1 \<le> msg_version_major m \<and> 1 \<le> msg_version_minor m)))"

section \<open>Preparing a message for sending\<close>

definition get_version_string :: "http_message \<Rightarrow> string" where
  "get_version_string m =
     STRING_HTTP_VERSION @ to_string (unat (msg_version_major m)) @ ''.'' @
     to_string (unat (msg_version_minor m))"

definition update_first_line :: "http_message \<Rightarrow> http_message" where
  "update_first_line m =
     (if msg_is_request m then
        m\<lparr>msg_first_line := req_method m @ [SP] @ req_resource m @
            (if req_query_string m \<noteq> [] then ''?'' @ req_query_string m else []) @
            [SP] @ get_version_string m\<rparr>
      else
        m\<lparr>msg_first_line := get_version_string m @ [SP] @
            to_string (unat (resp_status_code m)) @ [SP] @ resp_status_message m\<rparr>)"

definition get_first_line :: "http_message \<Rightarrow> string \<times> http_message" where
  "get_first_line m =
     (let m = (if msg_first_line m = [] then update_first_line m else m)
      in (msg_first_line m, m))"

definition make_query_string :: "ihash_multimap \<Rightarrow> string" where
  "make_query_string query_params =
     fst (foldl (\<lambda>(query_string, first) i.
            (query_string @ (if first then [] else ''&'') @ url_encode (fst i) @ ''='' @
             url_encode (snd i), False)) ([], True) query_params)"

definition make_set_cookie_header ::
  "string \<Rightarrow> string \<Rightarrow> string \<Rightarrow> bool \<Rightarrow> nat \<Rightarrow> string" where
  "make_set_cookie_header name value path has_max_age max_age =
     name @ ''='' @ [DQUOTE] @ value @ [DQUOTE] @ ''; Version=1'' @
     (if path \<noteq> [] then ''; Path='' @ path else []) @
     (if has_max_age then ''; Max-Age='' @ to_string max_age else [])"

definition set_cookie :: "string \<Rightarrow> string \<Rightarrow> http_message \<Rightarrow> http_message" where
  "set_cookie name value m =
     add_header HEADER_SET_COOKIE (make_set_cookie_header name value ''/'' False 0) m"

definition set_cookie_path :: "string \<Rightarrow> string \<Rightarrow> string \<Rightarrow> http_message \<Rightarrow> http_message" where
  "set_cookie_path name value path m =
     add_header HEADER_SET_COOKIE (make_set_cookie_header name value path False 0) m"

definition set_cookie_path_age ::
  "string \<Rightarrow> string \<Rightarrow> string \<Rightarrow> nat \<Rightarrow> http_message \<Rightarrow> http_message" where
  "set_cookie_path_age name value path max_age m =
     add_header HEADER_SET_COOKIE (make_set_cookie_header name value path True max_age) m"

definition set_cookie_age :: "string \<Rightarrow> string \<Rightarrow> nat \<Rightarrow> http_message \<Rightarrow> http_message" where
  "set_cookie_age name value max_age m =
     add_header HEADER_SET_COOKIE (make_set_cookie_header name value ''/'' True max_age) m"

definition response_delete_cookie :: "string \<Rightarrow> http_message \<Rightarrow> http_message" where
  "response_delete_cookie name m =
     add_header HEADER_SET_COOKIE (make_set_cookie_header name [] ''/'' True 0) m"

definition response_delete_cookie_path :: "string \<Rightarrow> string \<Rightarrow> http_message \<Rightarrow> http_message" where
  "response_delete_cookie_path name path m =
     add_header HEADER_SET_COOKIE (make_set_cookie_header name [] path True 0) m"

definition append_cookie_headers :: "http_message \<Rightarrow> http_message" where
  "append_cookie_headers m =
     (if msg_is_request m then
        foldl (\<lambda>m i. add_header HEADER_COOKIE (fst i @ COOKIE_NAME_VALUE_DELIMITER @ snd i) m)
          m (msg_cookie_params m)
      else foldl (\<lambda>m i. set_cookie (fst i) (snd i) m) m (msg_cookie_params m))"

definition prepare_headers_for_send :: "bool \<Rightarrow> bool \<Rightarrow> http_message \<Rightarrow> http_message" where
  "prepare_headers_for_send keep_alive using_chunks m =
     (let m = change_header HEADER_CONNECTION (if keep_alive then ''Keep-Alive'' else ''close'') m
      in if using_chunks then
           (if msg_chunks_supported m then change_header HEADER_TRANSFER_ENCODING ''chunked'' m else m)
         else if \<not> msg_do_not_send_content_length m then
           change_header HEADER_CONTENT_LENGTH (to_string (msg_content_length m)) m
         else m)"

definition append_headers :: "http_message \<Rightarrow> string list" where
  "append_headers m =
     concat (map (\<lambda>i. [fst i, HEADER_NAME_VALUE_DELIMITER, snd i, STRING_CRLF]) (msg_headers m)) @
     [STRING_CRLF]"

definition prepare_buffers_for_send ::
  "bool \<Rightarrow> bool \<Rightarrow> http_message \<Rightarrow> string list \<times> http_message" where
  "prepare_buffers_for_send keep_alive using_chunks m =
     (let m = prepare_headers_for_send keep_alive using_chunks m;
          (first_line, m) = get_first_line m;
          m = append_cookie_headers m
      in ([first_line, STRING_CRLF] @ append_headers m, m))"

text \<open>
  \<^verbatim>\<open>message::write\<close>: the buffers are written in order; \<open>write_ok\<close> says whether the stream is still
  good after the given number of buffers, and the result is the number of bytes of the buffers
  written before the first failure and whether there was one. \<^const>\<open>None\<close> is a read behind the
  content buffer, which happens when a content length is set and no buffer was allocated for it.
\<close>

definition send_buffers ::
  "bool \<Rightarrow> bool \<Rightarrow> http_message \<Rightarrow> (string list \<times> http_message) option" where
  "send_buffers keep_alive headers_only m =
     (let (write_buffers, m) = prepare_buffers_for_send keep_alive False m
      in if \<not> headers_only \<and> 0 < msg_content_length m then
           (if content_readable m then Some (write_buffers @ [content_bytes m], m) else None)
         else Some (write_buffers, m))"

fun write_loop :: "(nat \<Rightarrow> bool) \<Rightarrow> nat \<Rightarrow> nat \<Rightarrow> string list \<Rightarrow> nat \<times> bool" where
  "write_loop write_ok k bytes_out [] = (bytes_out, False)"
| "write_loop write_ok k bytes_out (b # bs) =
     (if \<not> write_ok k then (bytes_out, True)
      else write_loop write_ok (Suc k) (szadd bytes_out (length b)) bs)"

definition message_write ::
  "(nat \<Rightarrow> bool) \<Rightarrow> bool \<Rightarrow> http_message \<Rightarrow> ((nat \<times> bool) \<times> http_message) option" where
  "message_write write_ok headers_only m =
     map_option (\<lambda>(write_buffers, m). (write_loop write_ok 0 0 write_buffers, m))
       (send_buffers True headers_only m)"

definition use_query_params_for_query_string :: "http_message \<Rightarrow> http_message" where
  "use_query_params_for_query_string m = set_query_string (make_query_string (req_query_params m)) m"

definition use_query_params_for_post_content :: "http_message \<Rightarrow> http_message" where
  "use_query_params_for_post_content m =
     set_content_type CONTENT_TYPE_URLENCODED
       (set_method REQUEST_METHOD_POST (set_content (make_query_string (req_query_params m)) m))"

definition update_request_info :: "http_message \<Rightarrow> http_message \<Rightarrow> http_message" where
  "update_request_info http_request m =
     (let m = m\<lparr>resp_request_method := req_method http_request\<rparr>
      in if msg_version_major http_request = 1 \<and> 1 \<le> msg_version_minor http_request
         then m\<lparr>msg_chunks_supported := True\<rparr>
         else if msg_version_major http_request = 0 then
           set_version_minor 0 (set_version_major 0 (set_status_message [] (set_status_code 0 m)))
         else m)"

definition response_for :: "http_message \<Rightarrow> http_message" where
  "response_for http_request = update_request_info http_request (empty_message False)"

section \<open>Content lemmas\<close>

lemma buf_write_full: "length bytes = length buf \<Longrightarrow> buf_write 0 bytes buf = Some (map Some bytes)"
  by (simp add: buf_write_def)

lemma buf_write_length: "buf_write pos bytes buf = Some buf' \<Longrightarrow> length buf' = length buf"
  by (auto simp: buf_write_def split: if_splits)

lemma read_cell_Some [simp]: "map (read_cell \<circ> Some) s = s"
  by (induction s) simp_all

lemma set_content_result:
  "set_content s m = m\<lparr>msg_content_length := length s, msg_content_buf := map Some s\<rparr>"
  by (simp add: set_content_def create_content_buffer_def set_content_length_def content_resize_def
      buf_write_full)

lemma set_content_bytes: "content_bytes (set_content s m) = s"
  by (simp add: set_content_result content_bytes_def take_map)

lemma concatenate_chunks_result:
  "concatenate_chunks m =
     m\<lparr>msg_content_length := length (msg_chunk_cache m), msg_content_buf := map Some (msg_chunk_cache m)\<rparr>"
  by (simp add: concatenate_chunks_def create_content_buffer_def set_content_length_def
      content_resize_def buf_write_full Let_def)

lemma concatenate_chunks_bytes: "content_bytes (concatenate_chunks m) = msg_chunk_cache m"
  by (simp add: concatenate_chunks_result content_bytes_def take_map)

section \<open>Well-formed dictionaries\<close>

definition msg_dicts_ok :: "http_message \<Rightarrow> bool" where
  "msg_dicts_ok m =
     (grouped (msg_headers m) \<and> grouped (msg_cookie_params m) \<and> grouped (req_query_params m))"

lemma msg_dicts_ok_ops [simp]:
  assumes "msg_dicts_ok m"
  shows "msg_dicts_ok (add_header k v m)" "msg_dicts_ok (change_header k v m)"
    "msg_dicts_ok (delete_header k m)" "msg_dicts_ok (add_cookie k v m)"
    "msg_dicts_ok (change_cookie k v m)" "msg_dicts_ok (delete_cookie k m)"
    "msg_dicts_ok (add_query k v m)" "msg_dicts_ok (change_query k v m)"
    "msg_dicts_ok (delete_query k m)" "msg_dicts_ok (set_content_type v m)"
    "msg_dicts_ok (set_cookie k v m)"
  using assms
  by (simp_all add: msg_dicts_ok_def add_header_def change_header_def delete_header_def
      add_cookie_def change_cookie_def delete_cookie_def add_query_def change_query_def
      delete_query_def set_content_type_def set_cookie_def
      dict.inv_insert dict.inv_change dict.inv_delete)

lemma msg_dicts_ok_clear: "msg_dicts_ok (empty_message b)"
  by (simp add: msg_dicts_ok_def empty_message_def dict.inv_empty)

lemma has_header_values: "has_header m k \<longleftrightarrow> dict_values (msg_headers m) k \<noteq> []"
  unfolding has_header_def dict_find_def dict_values_def
  by (metis (no_types, lifting) filter_empty_conv find_None_iff map_is_Nil_conv option.distinct(1))

lemma get_header_change:
  "msg_dicts_ok m \<Longrightarrow>
   get_header (change_header k v m) k' = (if iequals k k' then v else get_header m k')"
  by (simp add: msg_dicts_ok_def get_header_def change_header_def dict.get_change)

lemma has_header_change:
  "msg_dicts_ok m \<Longrightarrow> has_header (change_header k v m) k' \<longleftrightarrow> iequals k k' \<or> has_header m k'"
  by (simp add: msg_dicts_ok_def has_header_values change_header_def dict.values_change)

section \<open>Content length round trip\<close>

lemma dict_find_get: "dict_find d k = Some e \<Longrightarrow> snd e = get_value d k"
  by (simp add: get_value_def)

lemma update_content_length_cases:
  "update_content_length_using_header m =
     (if has_header m HEADER_CONTENT_LENGTH
      then map_option (\<lambda>n. m\<lparr>msg_content_length := n\<rparr>) (stoul (get_header m HEADER_CONTENT_LENGTH))
      else Some (m\<lparr>msg_content_length := 0\<rparr>))"
  by (auto simp: update_content_length_using_header_def has_header_def get_header_def get_value_def
      split: option.splits)

lemma update_transfer_encoding_cases:
  "update_transfer_encoding_using_header m =
     m\<lparr>msg_is_chunked := has_header m HEADER_TRANSFER_ENCODING \<and>
         REGEX_ICASE_CHUNKED (get_header m HEADER_TRANSFER_ENCODING)\<rparr>"
  by (auto simp: update_transfer_encoding_using_header_def has_header_def get_header_def get_value_def
      split: option.splits)

lemma lower_digit_plain:
  "d < 10 \<Longrightarrow> is_base_digit 10 (lower_digit d) \<and> \<not> isspace (lower_digit d) \<and>
     lower_digit d \<noteq> CHR ''-'' \<and> lower_digit d \<noteq> CHR ''+''"
proof -
  assume "d < 10"
  then have "d \<in> {0, 1, 2, 3, 4, 5, 6, 7, 8, 9}" by auto
  then show ?thesis by (elim insertE emptyE; hypsubst; code_simp)
qed

lemma to_string_shape:
  "to_string n \<noteq> []" "c \<in> set (to_string n) \<Longrightarrow> is_base_digit 10 c \<and> \<not> isspace c \<and> c \<noteq> CHR ''-'' \<and> c \<noteq> CHR ''+''"
  using to_base_digits [of 10 n] lower_digit_plain by (auto simp: to_string_def)

lemma parse_long_to_string: "parse_long 10 (to_string n) = (True, False, n)"
proof -
  obtain c t where ct: "to_string n = c # t" using to_string_shape(1) by (cases "to_string n") auto
  have "skip_space (to_string n) = to_string n"
    using to_string_shape(2) [of c n] ct by (simp add: skip_space_def)
  moreover have "split_sign (to_string n) = (False, to_string n)"
    using to_string_shape(2) [of c n] ct by (simp add: split_sign_def)
  moreover have "skip_0x 10 (to_string n) = to_string n"
    by (simp add: skip_0x_def split: list.splits)
  moreover have "takeWhile (is_base_digit 10) (to_string n) = to_string n"
    using to_string_shape(2) by (simp add: takeWhile_eq_all_conv)
  ultimately show ?thesis by (simp add: parse_long_def to_string_shape Let_def del: takeWhile_eq_all_conv)
qed

lemma stoul_to_string: "n < 2 ^ 64 \<Longrightarrow> stoul (to_string n) = Some n"
  by (simp add: stoul_def parse_long_to_string ulong_max_def)

section \<open>What a prepared message says\<close>

lemma iequals_names [simp]:
  "\<not> iequals HEADER_CONNECTION HEADER_CONTENT_LENGTH" "\<not> iequals HEADER_CONTENT_LENGTH HEADER_CONNECTION"
  "\<not> iequals HEADER_CONNECTION HEADER_TRANSFER_ENCODING" "\<not> iequals HEADER_TRANSFER_ENCODING HEADER_CONNECTION"
  "\<not> iequals HEADER_CONTENT_LENGTH HEADER_TRANSFER_ENCODING"
  "\<not> iequals HEADER_TRANSFER_ENCODING HEADER_CONTENT_LENGTH"
  by code_simp+

lemma change_header_fields [simp]:
  "msg_content_length (change_header k v m) = msg_content_length m"
  "msg_chunks_supported (change_header k v m) = msg_chunks_supported m"
  "msg_do_not_send_content_length (change_header k v m) = msg_do_not_send_content_length m"
  "msg_version_major (change_header k v m) = msg_version_major m"
  "msg_version_minor (change_header k v m) = msg_version_minor m"
  by (simp_all add: change_header_def)

lemma prepared_content_length:
  assumes "msg_dicts_ok m" and "msg_content_length m < 2 ^ 64"
    and "\<not> msg_do_not_send_content_length m"
  shows "map_option msg_content_length
      (update_content_length_using_header (prepare_headers_for_send keep_alive False m)) =
    Some (msg_content_length m)"
  using assms
  by (simp add: prepare_headers_for_send_def Let_def update_content_length_cases get_header_change
      has_header_change stoul_to_string)

lemma prepared_chunked:
  assumes "msg_dicts_ok m" and "msg_chunks_supported m"
  shows "msg_is_chunked (update_transfer_encoding_using_header (prepare_headers_for_send keep_alive True m))"
proof -
  have "REGEX_ICASE_CHUNKED ''chunked''" by code_simp
  then show ?thesis
    using assms by (simp add: prepare_headers_for_send_def Let_def update_transfer_encoding_cases
        get_header_change has_header_change)
qed

lemma prepared_keep_alive:
  assumes "msg_dicts_ok m"
  shows "check_keep_alive (prepare_headers_for_send keep_alive using_chunks m) \<longleftrightarrow>
     keep_alive \<and> (1 < msg_version_major m \<or> (1 \<le> msg_version_major m \<and> 1 \<le> msg_version_minor m))"
  using assms
  by (auto simp: check_keep_alive_def prepare_headers_for_send_def Let_def get_header_change)

section \<open>The cached first line\<close>

text \<open>
  The cache is either empty or what \<^const>\<open>update_first_line\<close> would write now. Every setter keeps
  this; \<^const>\<open>change_resource\<close> is the one that does not clear the cache.
\<close>

definition first_line_fresh :: "http_message \<Rightarrow> bool" where
  "first_line_fresh m = (msg_first_line m = [] \<or> msg_first_line m = msg_first_line (update_first_line m))"

lemma first_line_fresh_setters:
  "first_line_fresh (set_version_major w m)" "first_line_fresh (set_version_minor w m)"
  "first_line_fresh (set_method s m)" "first_line_fresh (set_resource s m)"
  "first_line_fresh (set_query_string s m)" "first_line_fresh (set_status_code n m)"
  "first_line_fresh (set_status_message s m)" "first_line_fresh (message_clear m)"
  by (simp_all add: first_line_fresh_def first_line_setters message_clear_def)

lemma get_first_line_fresh:
  assumes "first_line_fresh m"
  shows "fst (get_first_line m) = msg_first_line (update_first_line m)"
    and "first_line_fresh (snd (get_first_line m))"
  using assms by (auto simp: first_line_fresh_def get_first_line_def update_first_line_def
      get_version_string_def)

definition query_pair :: "string \<times> string \<Rightarrow> string" where
  "query_pair p = url_encode (fst p) @ ''='' @ url_encode (snd p)"

lemma make_query_string_tail:
  "fst (foldl (\<lambda>(query_string, first) i.
      (query_string @ (if first then [] else ''&'') @ url_encode (fst i) @ ''='' @ url_encode (snd i), False))
      (q, False) ps) = q @ concat (map (\<lambda>p. CHR ''&'' # query_pair p) ps)"
  by (induction ps arbitrary: q) (auto simp: query_pair_def)

lemma make_query_string_Cons:
  "make_query_string (p # ps) = query_pair p @ concat (map (\<lambda>p. CHR ''&'' # query_pair p) ps)"
  using make_query_string_tail [of "query_pair p" ps] by (simp add: make_query_string_def query_pair_def)

section \<open>Properties\<close>

text \<open>C38: The framing headers a message is sent with say what is sent. After preparing the headers of a
  message for an unchunked send, reading the content length back from the headers gives the length of
  the content; for a chunked send the transfer encoding reads back as chunked; and the connection
  header makes the receiver keep the connection exactly when that was asked for and the version allows it.\<close>

theorem prepared_framing:
  assumes "msg_dicts_ok m"
  shows "(msg_content_length m < 2 ^ 64 \<longrightarrow> \<not> msg_do_not_send_content_length m \<longrightarrow>
      map_option msg_content_length
        (update_content_length_using_header (prepare_headers_for_send keep_alive False m)) =
      Some (msg_content_length m)) \<and>
    (msg_chunks_supported m \<longrightarrow>
      msg_is_chunked (update_transfer_encoding_using_header (prepare_headers_for_send keep_alive True m))) \<and>
    (check_keep_alive (prepare_headers_for_send keep_alive using_chunks m) \<longleftrightarrow>
     keep_alive \<and> (1 < msg_version_major m \<or> (1 \<le> msg_version_major m \<and> 1 \<le> msg_version_minor m)))"
  using prepared_content_length prepared_chunked prepared_keep_alive assms by blast

theorem prepared_framing_witness:
  "map_option msg_content_length (update_content_length_using_header
     (prepare_headers_for_send True False (set_content ''hello'' (empty_message True)))) = Some 5"
proof -
  let ?m = "set_content ''hello'' (empty_message True)"
  have ok: "msg_dicts_ok ?m" using msg_dicts_ok_clear [of True] by (simp add: set_content_result msg_dicts_ok_def)
  have "msg_content_length ?m = 5" "msg_content_length ?m < 2 ^ 64" "\<not> msg_do_not_send_content_length ?m"
    by (simp_all add: set_content_result empty_message_def)
  then show ?thesis using prepared_framing [OF ok, of True] by presburger
qed

text \<open>The cached first line is never stale after the setters of version, method, resource, query
  string, status code and status message: what \<^verbatim>\<open>get_first_line\<close> returns is the line built from the
  current fields, and fetching it keeps that so.\<close>

theorem first_line_cache:
  assumes "m' \<in> {set_version_major w m, set_version_minor w m, set_method s m, set_resource s m,
      set_query_string s m, set_status_code n m, set_status_message s m}"
  shows "fst (get_first_line m') = msg_first_line (update_first_line m') \<and>
    fst (get_first_line (snd (get_first_line m'))) = fst (get_first_line m')"
proof -
  have f: "first_line_fresh m'" using assms first_line_fresh_setters by auto
  then have u: "fst (get_first_line m') = msg_first_line (update_first_line m')" by (rule get_first_line_fresh)
  moreover have "fst (get_first_line (snd (get_first_line m'))) = fst (get_first_line m')"
    by (auto simp: get_first_line_def update_first_line_def Let_def)
  ultimately show ?thesis by blast
qed

theorem first_line_cache_witness:
  "fst (get_first_line (set_method ''PUT'' (snd (get_first_line (set_resource ''/a'' (empty_message True)))))) =
   ''PUT /a HTTP/1.1''"
proof -
  let ?m = "snd (get_first_line (set_resource ''/a'' (empty_message True)))"
  have "fst (get_first_line (set_method ''PUT'' ?m)) = msg_first_line (update_first_line (set_method ''PUT'' ?m))"
    using first_line_cache [of "set_method ''PUT'' ?m" _ ?m "''PUT''"] by blast
  also have "\<dots> = ''PUT /a HTTP/1.1''" by code_simp
  finally show ?thesis .
qed

text \<open>\<^verbatim>\<open>change_resource\<close> is the exception: it leaves the cached first line as it is, so a redirected
  request is still sent with the old resource once its first line has been built.\<close>

theorem change_resource_stale:
  assumes "msg_first_line m \<noteq> []"
  shows "fst (get_first_line (change_resource s m)) = msg_first_line m"
  using assms by (simp add: change_resource_def get_first_line_def)

theorem change_resource_stale_witness:
  "fst (get_first_line (change_resource ''/b'' (snd (get_first_line (set_resource ''/a'' (new_request ''/x'')))))) =
   ''GET /a HTTP/1.1''"
proof -
  let ?m = "snd (get_first_line (set_resource ''/a'' (new_request ''/x'')))"
  have e: "msg_first_line ?m = ''GET /a HTTP/1.1''" by code_simp
  then show ?thesis using change_resource_stale [of ?m "''/b''"] by simp
qed

end
