(* ===== verification/Form_Data.thy ===== *)
theory Form_Data
  imports Http_Message
begin

text \<open>
  The static parsers of \<^verbatim>\<open>http::parser\<close> that work on a complete piece of text
  (\<^verbatim>\<open>src/http_parser.cpp\<close>, \<^verbatim>\<open>include/pion/http/parser.hpp\<close>): the character classes, URIs,
  url-encoded data, the base64 data-URL helpers, multipart form data, cookie headers and the
  \<^verbatim>\<open>X-Forwarded-For\<close> header. A pointer pair is the text between the pointers, except in
  \<^verbatim>\<open>parse_multipart_form_data\<close>, which also reads behind its position and keeps an index. A C++
  exception and a read outside of a buffer are values of \<open>fault\<close>.
\<close>

section \<open>Limits and character classes\<close>

definition STATUS_MESSAGE_MAX :: nat where "STATUS_MESSAGE_MAX = 1024"
definition METHOD_MAX :: nat where "METHOD_MAX = 1024"
definition RESOURCE_MAX :: nat where "RESOURCE_MAX = 256 * 1024"
definition QUERY_STRING_MAX :: nat where "QUERY_STRING_MAX = 1024 * 1024"
definition HEADER_NAME_MAX :: nat where "HEADER_NAME_MAX = 1024"
definition HEADER_VALUE_MAX :: nat where "HEADER_VALUE_MAX = 1024 * 1024"
definition QUERY_NAME_MAX :: nat where "QUERY_NAME_MAX = 1024"
definition QUERY_VALUE_MAX :: nat where "QUERY_VALUE_MAX = 1024 * 1024"
definition COOKIE_NAME_MAX :: nat where "COOKIE_NAME_MAX = 1024"
definition COOKIE_VALUE_MAX :: nat where "COOKIE_VALUE_MAX = 1024 * 1024"
definition DEFAULT_CONTENT_MAX :: nat where "DEFAULT_CONTENT_MAX = 1024 * 1024"

definition is_char :: "char \<Rightarrow> bool" where
  "is_char c = (0 \<le> char_to_int c \<and> char_to_int c \<le> 127)"

definition is_control :: "char \<Rightarrow> bool" where
  "is_control c = ((0 \<le> char_to_int c \<and> char_to_int c \<le> 31) \<or> char_to_int c = 127)"

definition is_special :: "char \<Rightarrow> bool" where
  "is_special c = (c \<in> set ([CHR ''('', CHR '')'', CHR ''<'', CHR ''>'', CHR ''@'',
     CHR '','', CHR '';'', CHR '':'', BACKSLASH, DQUOTE,
     CHR ''/'', CHR ''['', CHR '']'', CHR ''?'', CHR ''='',
     CHR ''{'', CHR ''}'', SP, TAB]))"

definition is_digit :: "char \<Rightarrow> bool" where
  "is_digit c = (48 \<le> char_to_int c \<and> char_to_int c \<le> 57)"

definition is_hex_digit :: "char \<Rightarrow> bool" where
  "is_hex_digit c = ((48 \<le> char_to_int c \<and> char_to_int c \<le> 57) \<or>
     (97 \<le> char_to_int c \<and> char_to_int c \<le> 102) \<or> (65 \<le> char_to_int c \<and> char_to_int c \<le> 70))"

datatype fault = Length_error | Bad_read | Bad_write | Bad_base64 b64_error

section \<open>URIs\<close>

record uri_parts =
  proto :: string
  host :: string
  port :: "16 word"
  path :: string
  query :: string

text \<open>
  The five output parameters are in-out: a call that fails, and a branch that does not assign one,
  leaves the previous value. \<^verbatim>\<open>std::stoi\<close> is converted to \<^verbatim>\<open>uint16_t\<close>.
\<close>

definition parse_uri :: "string \<Rightarrow> uri_parts \<Rightarrow> bool \<times> uri_parts" where
  "parse_uri uri u =
     (let proto_end = find_sub ''://'' uri;
          proto_len = (case proto_end of Some e \<Rightarrow> e + 3 | None \<Rightarrow> 0);
          u = (case proto_end of Some e \<Rightarrow> u\<lparr>proto := take e uri\<rparr> | None \<Rightarrow> u\<lparr>proto := []\<rparr>);
          slash = find_sub_from ''/'' uri proto_len;
          server_port_end = (case slash of Some e \<Rightarrow> e | None \<Rightarrow> length uri);
          u = (case slash of Some _ \<Rightarrow> u | None \<Rightarrow> u\<lparr>path := ''/''\<rparr>);
          t = take (server_port_end - proto_len) (drop proto_len uri);
          port_pos = find_sub '':'' t;
          u = u\<lparr>host := (case port_pos of Some p \<Rightarrow> take p t | None \<Rightarrow> t)\<rparr>
      in if host u = [] then (False, u)
         else
           (let r = (case port_pos of
                  Some p \<Rightarrow> map_option (\<lambda>n. word_of_int n) (stoi (drop (p + 1) t))
                | None \<Rightarrow> Some (if proto u = ''http'' \<or> proto u = ''HTTP'' then 80
                                 else if proto u = ''https'' \<or> proto u = ''HTTPS'' then 443 else 0))
            in case r of
                 None \<Rightarrow> (False, u)
               | Some n \<Rightarrow>
                   (let u = u\<lparr>port := n\<rparr>
                    in if server_port_end < length uri then
                         (let p = drop server_port_end uri
                          in case find_sub ''?'' p of
                               Some q \<Rightarrow> (True, u\<lparr>query := drop (q + 1) p, path := take q p\<rparr>)
                             | None \<Rightarrow> (True, u\<lparr>path := p, query := []\<rparr>))
                       else (True, u))))"

section \<open>Url-encoded data\<close>

datatype query_parse_state = QUERY_PARSE_NAME | QUERY_PARSE_VALUE

definition insert_decoded :: "string \<Rightarrow> string \<Rightarrow> ihash_multimap \<Rightarrow> ihash_multimap" where
  "insert_decoded query_name query_value dict =
     dict_insert (url_decode query_name) (url_decode query_value) dict"

fun parse_url_encoded_loop ::
  "query_parse_state \<Rightarrow> string \<Rightarrow> string \<Rightarrow> ihash_multimap \<Rightarrow> string \<Rightarrow> bool \<times> ihash_multimap" where
  "parse_url_encoded_loop st query_name query_value dict [] =
     (True, if query_name \<noteq> [] then insert_decoded query_name query_value dict else dict)"
| "parse_url_encoded_loop QUERY_PARSE_NAME query_name query_value dict (c # s) =
     (if c = CHR ''='' then parse_url_encoded_loop QUERY_PARSE_VALUE query_name query_value dict s
      else if c = CHR ''&'' then
        (if query_name \<noteq> [] then
           parse_url_encoded_loop QUERY_PARSE_NAME [] query_value
             (insert_decoded query_name query_value dict) s
         else parse_url_encoded_loop QUERY_PARSE_NAME query_name query_value dict s)
      else if c = CR \<or> c = LF \<or> c = TAB then
        parse_url_encoded_loop QUERY_PARSE_NAME query_name query_value dict s
      else if is_control c \<or> QUERY_NAME_MAX \<le> length query_name then (False, dict)
      else parse_url_encoded_loop QUERY_PARSE_NAME (query_name @ [c]) query_value dict s)"
| "parse_url_encoded_loop QUERY_PARSE_VALUE query_name query_value dict (c # s) =
     (if c = CHR ''&'' then
        (if query_name \<noteq> [] then
           parse_url_encoded_loop QUERY_PARSE_NAME [] []
             (insert_decoded query_name query_value dict) s
         else parse_url_encoded_loop QUERY_PARSE_NAME query_name [] dict s)
      else if c = CHR '','' then
        parse_url_encoded_loop QUERY_PARSE_VALUE query_name []
          (if query_name \<noteq> [] then insert_decoded query_name query_value dict else dict) s
      else if c = CR \<or> c = LF \<or> c = TAB then
        parse_url_encoded_loop QUERY_PARSE_VALUE query_name query_value dict s
      else if is_control c \<or> QUERY_VALUE_MAX \<le> length query_value then (False, dict)
      else parse_url_encoded_loop QUERY_PARSE_VALUE query_name (query_value @ [c]) dict s)"

definition parse_url_encoded :: "string \<Rightarrow> ihash_multimap \<Rightarrow> bool \<times> ihash_multimap" where
  "parse_url_encoded s dict =
     (if s = [] then (True, dict) else parse_url_encoded_loop QUERY_PARSE_NAME [] [] dict s)"

section \<open>Base64 data URLs\<close>

definition b64_padding :: "nat \<Rightarrow> string" where
  "b64_padding k = (if k = 1 then ''=='' else if k = 2 then ''='' else [])"

definition binary_2base64 :: "string \<Rightarrow> string \<Rightarrow> string" where
  "binary_2base64 buf stream_type =
     (let str = base64_encode buf
      in ''data:'' @ stream_type @ ''; base64, '' @ take (length buf) str @ b64_padding (length buf mod 3))"

text \<open>
  The result is the return value, \<^verbatim>\<open>out_size\<close>, the stream type and what is written to \<^verbatim>\<open>out_buf\<close>
  (\<^const>\<open>None\<close>: nothing). The copy reads the decoded string from \<^verbatim>\<open>prefix_end_pos\<close> to \<^verbatim>\<open>size\<close>, which is
  a read out of bounds when that string is shorter.
\<close>

definition base64_2binary ::
  "nat \<Rightarrow> string \<Rightarrow> string \<Rightarrow> fault + bool \<times> nat \<times> string \<times> string option" where
  "base64_2binary buf_size out_stream_type base64 =
     (if \<not> equals (take 5 base64) ''data:'' then Inr (False, 0, out_stream_type, None)
      else case find_sub ''; base64, '' base64 of
        None \<Rightarrow> Inr (False, 0, out_stream_type, None)
      | Some pos \<Rightarrow>
          (let out_stream_type = take (pos - 5) (drop 5 base64);
               prefix_end_pos = pos + 10;
               size = length base64;
               size = (if size \<noteq> 0 \<and> base64 ! (size - 1) = CHR ''='' then
                         (let size = size - 1 in
                          if size \<noteq> 0 \<and> base64 ! (size - 1) = CHR ''='' then size - 1 else size)
                       else size);
               out_size = (size - prefix_end_pos) * 6 div 8 + 1
           in if size = 0 then Inr (True, out_size, out_stream_type, None)
              else if buf_size < size then Inr (False, out_size, out_stream_type, None)
              else case base64_decode (take size base64) of
                     Inl e \<Rightarrow> Inl (Bad_base64 e)
                   | Inr (_, str) \<Rightarrow>
                       if prefix_end_pos < size \<and> length str < size then Inl Bad_read
                       else Inr (True, out_size, out_stream_type,
                              Some (take (size - prefix_end_pos) (drop prefix_end_pos str) @ [NUL]))))"

section \<open>Multipart form data\<close>

datatype mp_state = MP_PARSE_START | MP_PARSE_HEADER_CR | MP_PARSE_HEADER_LF
  | MP_PARSE_HEADER_NAME | MP_PARSE_HEADER_SPACE | MP_PARSE_HEADER_VALUE
  | MP_PARSE_HEADER_LAST_LF | MP_PARSE_FIELD_DATA

record mp_vars =
  parse_state :: mp_state
  header_name :: string
  header_value :: string
  field_name :: string
  field_value :: string
  content_type_header :: string
  found_parameter :: bool
  do_mime64_convertion :: bool
  mp_ptr :: nat
  mp_dict :: ihash_multimap

text \<open>\<^verbatim>\<open>std::search\<close> from a position: the position of the next occurrence, or the end.\<close>

definition search_from :: "string \<Rightarrow> string \<Rightarrow> nat \<Rightarrow> nat" where
  "search_from content boundary ptr =
     (case find_sub boundary (drop ptr content) of Some i \<Rightarrow> ptr + i | None \<Rightarrow> length content)"

definition disposition_name :: "string \<Rightarrow> string" where
  "disposition_name value =
     (case find_sub (''name='' @ [DQUOTE]) value of
        Some name_pos \<Rightarrow> takeWhile (\<lambda>c. c \<noteq> DQUOTE) (drop (name_pos + 6) value)
      | None \<Rightarrow> [])"

text \<open>The end of a header line: content type and field name are picked up.\<close>

definition mp_end_header :: "char \<Rightarrow> mp_vars \<Rightarrow> mp_vars" where
  "mp_end_header c v =
     (let v = (if iequals (header_name v) HEADER_CONTENT_TYPE then
                 v\<lparr>content_type_header := header_value v,
                   do_mime64_convertion := \<not> iequals (take 5 (header_value v)) ''text/''\<rparr>
               else if iequals (header_name v) HEADER_CONTENT_DISPOSITION then
                 v\<lparr>field_name := field_name v @ disposition_name (header_value v)\<rparr>
               else v)
      in v\<lparr>header_name := [], header_value := [],
           parse_state := (if c = CR then MP_PARSE_HEADER_LF else MP_PARSE_HEADER_NAME)\<rparr>)"

text \<open>
  The field ends at the next boundary, less a CRLF before it. The length is computed on pointers and
  converted to \<^verbatim>\<open>size_t\<close>: an end before the start makes \<^verbatim>\<open>std::string\<close> throw \<^verbatim>\<open>std::length_error\<close>.
\<close>

definition mp_field_data :: "string \<Rightarrow> string \<Rightarrow> mp_vars \<Rightarrow> fault + mp_vars" where
  "mp_field_data content boundary v =
     (let ptr = mp_ptr v;
          next_ptr = search_from content boundary ptr;
          field_end_ptr =
            (if 2 \<le> next_ptr \<and> content ! (next_ptr - 2) = CR \<and> content ! (next_ptr - 1) = LF
             then next_ptr - 2 else next_ptr)
      in if field_end_ptr < ptr then Inl Length_error
         else
           (let data = take (field_end_ptr - ptr) (drop ptr content);
                value = (if do_mime64_convertion v then binary_2base64 data (content_type_header v) else data)
            in Inr (v\<lparr>field_value := value, mp_dict := dict_insert (field_name v) value (mp_dict v),
                 found_parameter := True, parse_state := MP_PARSE_START, mp_ptr := next_ptr\<rparr>)))"

datatype mp_result = MP_Return bool | MP_Throw fault | MP_Continue

text \<open>One turn of the loop on the byte at the current position, without the final increment.\<close>

definition mp_switch :: "string \<Rightarrow> string \<Rightarrow> mp_vars \<Rightarrow> mp_result \<times> mp_vars" where
  "mp_switch content boundary v =
     (let ptr = mp_ptr v; c = content ! ptr in
      case parse_state v of
        MP_PARSE_START \<Rightarrow>
          (MP_Continue, v\<lparr>header_name := [], header_value := [], field_name := [], field_value := [],
             content_type_header := [], do_mime64_convertion := False,
             mp_ptr := ptr + (length boundary - 1), parse_state := MP_PARSE_HEADER_CR\<rparr>)
      | MP_PARSE_HEADER_CR \<Rightarrow>
          (if c = CR then (MP_Continue, v\<lparr>parse_state := MP_PARSE_HEADER_LF\<rparr>)
           else if c = LF then (MP_Continue, v\<lparr>parse_state := MP_PARSE_HEADER_NAME\<rparr>)
           else if c = CHR ''-'' \<and> ptr + 1 < length content \<and> content ! (ptr + 1) = CHR ''-''
           then (MP_Return True, v)
           else (MP_Return False, v))
      | MP_PARSE_HEADER_LF \<Rightarrow>
          (if c = LF then (MP_Continue, v\<lparr>parse_state := MP_PARSE_HEADER_NAME\<rparr>)
           else (MP_Return False, v))
      | MP_PARSE_HEADER_NAME \<Rightarrow>
          (if c = CR \<or> c = LF then
             (if header_name v = [] then
                (MP_Continue, v\<lparr>parse_state := (if c = CR then MP_PARSE_HEADER_LAST_LF else MP_PARSE_FIELD_DATA)\<rparr>)
              else (MP_Continue, v\<lparr>parse_state := (if c = CR then MP_PARSE_HEADER_LF else MP_PARSE_HEADER_NAME)\<rparr>))
           else if c = CHR '':'' then (MP_Continue, v\<lparr>parse_state := MP_PARSE_HEADER_SPACE\<rparr>)
           else (MP_Continue, v\<lparr>header_name := header_name v @ [c]\<rparr>))
      | MP_PARSE_HEADER_SPACE \<Rightarrow>
          (if c = CR then (MP_Continue, v\<lparr>parse_state := MP_PARSE_HEADER_LF\<rparr>)
           else if c = LF then (MP_Continue, v\<lparr>parse_state := MP_PARSE_HEADER_NAME\<rparr>)
           else if c \<noteq> SP then
             (MP_Continue, v\<lparr>header_value := header_value v @ [c], parse_state := MP_PARSE_HEADER_VALUE\<rparr>)
           else (MP_Continue, v))
      | MP_PARSE_HEADER_VALUE \<Rightarrow>
          (if c = CR \<or> c = LF then (MP_Continue, mp_end_header c v)
           else (MP_Continue, v\<lparr>header_value := header_value v @ [c]\<rparr>))
      | MP_PARSE_HEADER_LAST_LF \<Rightarrow>
          (if c = LF then
             (if field_name v \<noteq> [] then (MP_Continue, v\<lparr>parse_state := MP_PARSE_FIELD_DATA\<rparr>)
              else (MP_Continue, v\<lparr>parse_state := MP_PARSE_START, mp_ptr := search_from content boundary ptr\<rparr>))
           else (MP_Return False, v))
      | MP_PARSE_FIELD_DATA \<Rightarrow>
          (case mp_field_data content boundary v of
             Inl e \<Rightarrow> (MP_Throw e, v)
           | Inr v \<Rightarrow> (MP_Continue, v)))"

definition mp_step :: "string \<Rightarrow> string \<Rightarrow> mp_vars \<Rightarrow> mp_result \<times> mp_vars" where
  "mp_step content boundary v =
     (let (r, v) = mp_switch content boundary v
      in (r, if r = MP_Continue \<and> parse_state v \<noteq> MP_PARSE_START then v\<lparr>mp_ptr := mp_ptr v + 1\<rparr> else v))"

definition mp_measure :: "string \<Rightarrow> mp_vars \<Rightarrow> nat" where
  "mp_measure content v =
     2 * (length content - mp_ptr v) + (if parse_state v = MP_PARSE_START then 0 else 1)"

lemma search_from_bounds: "ptr \<le> length content \<Longrightarrow> ptr \<le> search_from content b ptr \<and> search_from content b ptr \<le> length content"
  using find_sub_Some [of b "drop ptr content"] by (fastforce simp: search_from_def split: option.splits)

lemma mp_field_data_ptr:
  "mp_field_data content b v = Inr v' \<Longrightarrow> parse_state v' = MP_PARSE_START \<and> mp_ptr v' = search_from content b (mp_ptr v)"
  by (auto simp: mp_field_data_def Let_def split: if_splits)

lemma mp_end_header_ptr [simp]: "mp_ptr (mp_end_header c v) = mp_ptr v" "parse_state (mp_end_header c v) \<noteq> MP_PARSE_START"
  by (simp_all add: mp_end_header_def Let_def)

lemma mp_step_decreases:
  assumes "mp_step content (''--'' @ bound) v = (MP_Continue, v')" and "mp_ptr v < length content"
  shows "mp_measure content v' < mp_measure content v"
proof (cases "parse_state v")
  case MP_PARSE_FIELD_DATA
  then show ?thesis
    using assms mp_field_data_ptr [of content "''--'' @ bound" v]
      search_from_bounds [of "mp_ptr v" content "''--'' @ bound"]
    by (auto simp: mp_step_def mp_switch_def mp_measure_def Let_def split: sum.splits)
next
  case MP_PARSE_HEADER_LAST_LF
  then show ?thesis
    using assms search_from_bounds [of "mp_ptr v" content "''--'' @ bound"]
    by (auto simp: mp_step_def mp_switch_def mp_measure_def Let_def split: if_splits)
qed (use assms in \<open>auto simp: mp_step_def mp_switch_def mp_measure_def Let_def split: if_splits\<close>)

function mp_loop :: "string \<Rightarrow> string \<Rightarrow> mp_vars \<Rightarrow> fault + bool \<times> ihash_multimap" where
  "mp_loop content bound v =
     (if mp_ptr v < length content then
        (case mp_step content (''--'' @ bound) v of
           (MP_Return b, v') \<Rightarrow> Inr (b, mp_dict v')
         | (MP_Throw e, v') \<Rightarrow> Inl e
         | (MP_Continue, v') \<Rightarrow> mp_loop content bound v')
      else Inr (found_parameter v, mp_dict v))"
  by pat_completeness auto
termination
  by (relation "measure (\<lambda>(content, bound, v). mp_measure content v)") (use mp_step_decreases in auto)

declare mp_loop.simps [simp del]

definition parse_multipart_form_data ::
  "string \<Rightarrow> string \<Rightarrow> ihash_multimap \<Rightarrow> fault + bool \<times> ihash_multimap" where
  "parse_multipart_form_data content_type content dict =
     (if content = [] then Inr (True, dict)
      else case find_sub ''boundary='' content_type of
        None \<Rightarrow> Inr (False, dict)
      | Some pos \<Rightarrow>
          (let bound = drop (pos + 9) content_type
           in mp_loop content bound
                \<lparr> parse_state = MP_PARSE_START, header_name = [], header_value = [], field_name = [],
                  field_value = [], content_type_header = [], found_parameter = False,
                  do_mime64_convertion = False,
                  mp_ptr = search_from content (''--'' @ bound) 0, mp_dict = dict \<rparr>))"

section \<open>Cookie headers\<close>

definition is_cookie_attribute :: "string \<Rightarrow> bool \<Rightarrow> bool" where
  "is_cookie_attribute name set_cookie_header =
     (name = [] \<or> hd name = CHR ''$'' \<or>
      (set_cookie_header \<and>
       (iequals name ''Comment'' \<or> iequals name ''Domain'' \<or> iequals name ''Max-Age'' \<or>
        iequals name ''Path'' \<or> iequals name ''Secure'' \<or> iequals name ''Version'' \<or>
        iequals name ''Expires'' \<or> iequals name ''HttpOnly'')))"

datatype cookie_parse_state = COOKIE_PARSE_NAME | COOKIE_PARSE_VALUE | COOKIE_PARSE_IGNORE

definition insert_cookie :: "bool \<Rightarrow> string \<Rightarrow> string \<Rightarrow> ihash_multimap \<Rightarrow> ihash_multimap" where
  "insert_cookie set_cookie_header cookie_name cookie_value dict =
     (if \<not> is_cookie_attribute cookie_name set_cookie_header
      then dict_insert cookie_name cookie_value dict else dict)"

fun parse_cookie_loop ::
  "bool \<Rightarrow> cookie_parse_state \<Rightarrow> string \<Rightarrow> string \<Rightarrow> char \<Rightarrow> ihash_multimap \<Rightarrow> string \<Rightarrow> bool \<times> ihash_multimap" where
  "parse_cookie_loop sc st name val q dict [] = (True, insert_cookie sc name val dict)"
| "parse_cookie_loop sc COOKIE_PARSE_NAME name val q dict (c # s) =
     (if c = CHR ''='' then parse_cookie_loop sc COOKIE_PARSE_VALUE name val NUL dict s
      else if c = CHR '';'' \<or> c = CHR '','' then
        (if name \<noteq> [] then parse_cookie_loop sc COOKIE_PARSE_NAME [] val q (insert_cookie sc name val dict) s
         else parse_cookie_loop sc COOKIE_PARSE_NAME name val q dict s)
      else if c \<noteq> SP then
        (if is_control c \<or> COOKIE_NAME_MAX \<le> length name then (False, dict)
         else parse_cookie_loop sc COOKIE_PARSE_NAME (name @ [c]) val q dict s)
      else parse_cookie_loop sc COOKIE_PARSE_NAME name val q dict s)"
| "parse_cookie_loop sc COOKIE_PARSE_VALUE name val q dict (c # s) =
     (if q = NUL then
        (if c = CHR '';'' \<or> c = CHR '','' then
           parse_cookie_loop sc COOKIE_PARSE_NAME [] [] q (insert_cookie sc name val dict) s
         else if c = SQUOTE \<or> c = DQUOTE then
           (if val = [] then parse_cookie_loop sc COOKIE_PARSE_VALUE name val c dict s
            else if COOKIE_VALUE_MAX \<le> length val then (False, dict)
            else parse_cookie_loop sc COOKIE_PARSE_VALUE name (val @ [c]) q dict s)
         else if c \<noteq> SP \<or> val \<noteq> [] then
           (if is_control c \<or> COOKIE_VALUE_MAX \<le> length val then (False, dict)
            else parse_cookie_loop sc COOKIE_PARSE_VALUE name (val @ [c]) q dict s)
         else parse_cookie_loop sc COOKIE_PARSE_VALUE name val q dict s)
      else if c = q then
        parse_cookie_loop sc COOKIE_PARSE_IGNORE [] [] q (insert_cookie sc name val dict) s
      else if COOKIE_VALUE_MAX \<le> length val then (False, dict)
      else parse_cookie_loop sc COOKIE_PARSE_VALUE name (val @ [c]) q dict s)"
| "parse_cookie_loop sc COOKIE_PARSE_IGNORE name val q dict (c # s) =
     (if c = CHR '';'' \<or> c = CHR '','' then parse_cookie_loop sc COOKIE_PARSE_NAME name val q dict s
      else parse_cookie_loop sc COOKIE_PARSE_IGNORE name val q dict s)"

definition parse_cookie_header :: "string \<Rightarrow> bool \<Rightarrow> ihash_multimap \<Rightarrow> bool \<times> ihash_multimap" where
  "parse_cookie_header s set_cookie_header dict =
     parse_cookie_loop set_cookie_header COOKIE_PARSE_NAME [] [] NUL dict s"

section \<open>The forwarded address\<close>

text \<open>
  The regular expression of an IPv4 address, anchored at the start of the text: three groups of one
  to three digits with a dot behind each, and as many as possible of up to three digits.
\<close>

definition octet_dot :: "string \<Rightarrow> (string \<times> string) option" where
  "octet_dot s =
     (let d = takeWhile is_digit s
      in if 1 \<le> length d \<and> length d \<le> 3 \<and> drop (length d) s \<noteq> [] \<and> s ! length d = CHR ''.''
         then Some (d, drop (Suc (length d)) s) else None)"

definition last_octet :: "string \<Rightarrow> (string \<times> string) option" where
  "last_octet s =
     (let d = take 3 (takeWhile is_digit s)
      in if 1 \<le> length d then Some (d, drop (length d) s) else None)"

definition match_ipv4 :: "string \<Rightarrow> ((string \<times> string \<times> string \<times> string) \<times> string) option" where
  "match_ipv4 s =
     (case octet_dot s of None \<Rightarrow> None | Some (a, s1) \<Rightarrow>
      (case octet_dot s1 of None \<Rightarrow> None | Some (b, s2) \<Rightarrow>
       (case octet_dot s2 of None \<Rightarrow> None | Some (c, s3) \<Rightarrow>
        (case last_octet s3 of None \<Rightarrow> None | Some (d, s4) \<Rightarrow> Some ((a, b, c, d), s4)))))"

fun search_ipv4 :: "string \<Rightarrow> ((string \<times> string \<times> string \<times> string) \<times> string) option" where
  "search_ipv4 [] = None"
| "search_ipv4 (c # s) = (case match_ipv4 (c # s) of Some r \<Rightarrow> Some r | None \<Rightarrow> search_ipv4 s)"

definition ip_string :: "string \<times> string \<times> string \<times> string \<Rightarrow> string" where
  "ip_string ip = (case ip of (a, b, c, d) \<Rightarrow> a @ ''.'' @ b @ ''.'' @ c @ ''.'' @ d)"

text \<open>The expression for 10.*, 127.*, 192.168.* and 172.16-31.*, on an address already split.\<close>

definition PRIVATE_NET_RX :: "string \<times> string \<times> string \<times> string \<Rightarrow> bool" where
  "PRIVATE_NET_RX ip =
     (case ip of (a, b, c, d) \<Rightarrow>
        a = ''10'' \<or> a = ''127'' \<or> (a = ''192'' \<and> b = ''168'') \<or>
        (a = ''172'' \<and> length b = 2 \<and>
          ((b ! 0 = CHR ''1'' \<and> b ! 1 \<in> set ''6789'') \<or> (b ! 0 = CHR ''2'' \<and> is_digit (b ! 1)) \<or>
           (b ! 0 = CHR ''3'' \<and> b ! 1 \<in> set ''01''))))"

lemma octet_dot_shorter: "octet_dot s = Some (d, s') \<Longrightarrow> length s' < length s"
  by (auto simp: octet_dot_def Let_def split: if_splits)

lemma match_ipv4_shorter: "match_ipv4 s = Some (ip, s') \<Longrightarrow> length s' < length s"
  by (fastforce simp: match_ipv4_def last_octet_def Let_def split: option.splits prod.splits if_splits
      dest!: octet_dot_shorter)

lemma search_ipv4_shorter: "search_ipv4 s = Some (ip, s') \<Longrightarrow> length s' < length s"
  by (induction s) (auto dest: match_ipv4_shorter split: option.splits)

function parse_forwarded_for :: "string \<Rightarrow> string option" where
  "parse_forwarded_for header =
     (if header = [] then None
      else case search_ipv4 header of
        None \<Rightarrow> None
      | Some (ip, rest) \<Rightarrow> if \<not> PRIVATE_NET_RX ip then Some (ip_string ip) else parse_forwarded_for rest)"
  by pat_completeness auto
termination
  by (relation "measure length") (use search_ipv4_shorter in auto)

declare parse_forwarded_for.simps [simp del]

section \<open>Url-encoded round trip\<close>

lemma reserved_delimiters:
  "CHR ''='' \<in> set url_reserved" "CHR ''&'' \<in> set url_reserved" "CHR '','' \<in> set url_reserved"
  "CHR ''='' \<noteq> CHR ''%''" "CHR ''&'' \<noteq> CHR ''%''" "CHR '','' \<noteq> CHR ''%''"
  "char_to_int CR = 13" "char_to_int LF = 10" "char_to_int TAB = 9"
  by code_simp+

lemma url_safe_query:
  assumes "url_safe_char c"
  shows "c \<noteq> CHR ''='' \<and> c \<noteq> CHR ''&'' \<and> c \<noteq> CHR '','' \<and> c \<noteq> CR \<and> c \<noteq> LF \<and> c \<noteq> TAB \<and> \<not> is_control c"
proof -
  have r: "32 < char_to_int c" "char_to_int c < 127" "c = CHR ''%'' \<or> c \<notin> set url_reserved"
    using assms by (simp_all add: url_safe_char_def)
  have "c \<noteq> CHR ''=''" "c \<noteq> CHR ''&''" "c \<noteq> CHR '',''"
    using r(3) reserved_delimiters(1-6) by metis+
  moreover have "c \<noteq> CR" "c \<noteq> LF" "c \<noteq> TAB"
    using r(1) reserved_delimiters(7-9) by auto
  moreover have "\<not> is_control c" using r by (simp add: is_control_def)
  ultimately show ?thesis by blast
qed

lemma parse_name_safe:
  "list_all url_safe_char s \<Longrightarrow> length name + length s \<le> QUERY_NAME_MAX \<Longrightarrow>
   parse_url_encoded_loop QUERY_PARSE_NAME name val d (s @ t) =
   parse_url_encoded_loop QUERY_PARSE_NAME (name @ s) val d t"
proof (induction s arbitrary: name)
  case (Cons c s)
  then show ?case using url_safe_query [of c] by simp
qed simp

lemma parse_value_safe:
  "list_all url_safe_char s \<Longrightarrow> length val + length s \<le> QUERY_VALUE_MAX \<Longrightarrow>
   parse_url_encoded_loop QUERY_PARSE_VALUE name val d (s @ t) =
   parse_url_encoded_loop QUERY_PARSE_VALUE name (val @ s) d t"
proof (induction s arbitrary: val)
  case (Cons c s)
  then show ?case using url_safe_query [of c] by simp
qed simp

lemma url_decode_encode: "NUL \<notin> set s \<Longrightarrow> url_decode (url_encode s) = s"
  using url_decode_encode_append [of s "[]"] by simp

lemma url_encode_nonempty: "s \<noteq> [] \<Longrightarrow> url_encode s \<noteq> []"
  by (cases s) (simp_all add: url_encode_def url_encode_char_def)

definition query_pair_ok :: "string \<times> string \<Rightarrow> bool" where
  "query_pair_ok p =
     (fst p \<noteq> [] \<and> NUL \<notin> set (fst p) \<and> NUL \<notin> set (snd p) \<and>
      length (url_encode (fst p)) \<le> QUERY_NAME_MAX \<and> length (url_encode (snd p)) \<le> QUERY_VALUE_MAX)"

lemma parse_query_pair:
  assumes "query_pair_ok p"
  shows "parse_url_encoded_loop QUERY_PARSE_NAME [] [] d (query_pair p @ t) =
     parse_url_encoded_loop QUERY_PARSE_VALUE (url_encode (fst p)) (url_encode (snd p)) d t"
  using assms parse_name_safe [of "url_encode (fst p)" "[]" "[]" d]
    parse_value_safe [of "url_encode (snd p)" "[]" "url_encode (fst p)" d t]
  by (simp add: query_pair_def query_pair_ok_def url_encode_safe)

lemma insert_decoded_pair:
  "query_pair_ok p \<Longrightarrow> insert_decoded (url_encode (fst p)) (url_encode (snd p)) d = dict_insert (fst p) (snd p) d"
  by (simp add: insert_decoded_def query_pair_ok_def url_decode_encode)

lemma parse_query_tail:
  "list_all query_pair_ok (p # ps) \<Longrightarrow>
   parse_url_encoded_loop QUERY_PARSE_VALUE (url_encode (fst p)) (url_encode (snd p)) d
     (concat (map (\<lambda>p. CHR ''&'' # query_pair p) ps)) =
   (True, foldl (\<lambda>d p. dict_insert (fst p) (snd p) d) d (p # ps))"
proof (induction ps arbitrary: p d)
  case Nil
  then show ?case using url_encode_nonempty [of "fst p"] by (simp add: insert_decoded_pair query_pair_ok_def)
next
  case (Cons q ps)
  then have "url_encode (fst p) \<noteq> []" using url_encode_nonempty by (simp add: query_pair_ok_def)
  then show ?case using Cons by (simp add: insert_decoded_pair parse_query_pair)
qed

lemma parse_make_query_string:
  assumes "list_all query_pair_ok ps"
  shows "parse_url_encoded (make_query_string ps) d =
     (True, foldl (\<lambda>d p. dict_insert (fst p) (snd p) d) d ps)"
proof (cases ps)
  case Nil
  then show ?thesis by (simp add: parse_url_encoded_def make_query_string_def)
next
  case (Cons p qs)
  moreover have "query_pair p \<noteq> []" by (simp add: query_pair_def)
  ultimately show ?thesis
    using assms by (simp add: parse_url_encoded_def make_query_string_Cons parse_query_pair parse_query_tail)
qed

lemma foldl_insert_grouped:
  "grouped d \<Longrightarrow> grouped (foldl (\<lambda>d p. dict_insert (fst p) (snd p) d) d ps)"
  by (induction ps arbitrary: d) (auto simp: dict.inv_insert)

lemma foldl_insert_values:
  "grouped d \<Longrightarrow> mset (dict_values (foldl (\<lambda>d p. dict_insert (fst p) (snd p) d) d ps) k) =
     mset (dict_values d k) + mset (map snd (filter (\<lambda>p. iequals (fst p) k) ps))"
  by (induction ps arbitrary: d) (auto simp: dict.inv_insert dict.values_insert)

lemma length_url_decode_aux: "length s \<le> n \<Longrightarrow> length (url_decode s) \<le> length s"
proof (induction n arbitrary: s)
  case (Suc n)
  show ?case
  proof (cases s)
    case (Cons c t)
    then have t: "length (url_decode t) \<le> length t" using Suc by simp
    have tt: "length (url_decode (drop 2 t)) \<le> length t"
      using Suc Cons le_trans by (metis diff_le_self length_Cons length_drop not_less_eq_eq)
    have "length (case t of h1 # h2 # t' \<Rightarrow>
             let decoded_char = int_to_char (strtol 16 [h1, h2]) in
             if decoded_char = NUL then CHR ''%'' # url_decode t else decoded_char # url_decode t'
         | _ \<Rightarrow> CHR ''%'' # url_decode t) \<le> Suc (length t)"
      using t tt by (auto simp: Let_def simp del: url_decode.simps split: list.split)
    then show ?thesis using t unfolding Cons url_decode.simps(2) by (simp del: url_decode.simps)
  qed simp
qed simp

lemma length_url_decode: "length (url_decode s) \<le> length s"
  using length_url_decode_aux by blast

definition entry_bounded :: "nat \<Rightarrow> nat \<Rightarrow> string \<times> string \<Rightarrow> bool" where
  "entry_bounded n v e = (length (fst e) \<le> n \<and> length (snd e) \<le> v)"

lemma set_dict_insert: "set (dict_insert k v d) = insert (k, v) (set d)"
proof -
  have "set d = set (dict_before d k) \<union> set (equal_range d k) \<union> set (dict_after d k)"
    by (metis dict_split set_append Un_assoc)
  then show ?thesis by (auto simp: dict_insert_def)
qed

definition query_dict_bounded :: "ihash_multimap \<Rightarrow> bool" where
  "query_dict_bounded d = list_all (entry_bounded QUERY_NAME_MAX QUERY_VALUE_MAX) d"

lemma insert_decoded_bounded:
  "query_dict_bounded d \<Longrightarrow> length n \<le> QUERY_NAME_MAX \<Longrightarrow> length v \<le> QUERY_VALUE_MAX \<Longrightarrow>
   query_dict_bounded (insert_decoded n v d)"
  using length_url_decode [of n] length_url_decode [of v]
  by (auto simp: query_dict_bounded_def list_all_iff insert_decoded_def set_dict_insert entry_bounded_def)

lemma parse_url_encoded_loop_inv:
  assumes step: "\<And>n v d. I d \<Longrightarrow> length n \<le> QUERY_NAME_MAX \<Longrightarrow> length v \<le> QUERY_VALUE_MAX \<Longrightarrow>
      I (insert_decoded n v d)"
  shows "I d \<Longrightarrow> length n \<le> QUERY_NAME_MAX \<Longrightarrow> length v \<le> QUERY_VALUE_MAX \<Longrightarrow>
   I (snd (parse_url_encoded_loop st n v d s))"
proof (induction s arbitrary: st n v d)
  case Nil
  then show ?case using step by simp
next
  case (Cons c s)
  have ins: "I (insert_decoded n v d)" using step Cons.prems by blast
  have branch: "(b \<Longrightarrow> I (snd x)) \<Longrightarrow> (\<not> b \<Longrightarrow> I (snd y)) \<Longrightarrow> I (snd (if b then x else y))"
    for b and x y :: "bool \<times> ihash_multimap" by simp
  have fail: "I (snd (False, d))" using Cons.prems by simp
  show ?case
    by (cases st; simp only: parse_url_encoded_loop.simps query_parse_state.simps; intro branch;
        (rule fail | rule Cons.IH; simp add: Cons.prems ins))
qed

lemma parse_url_encoded_loop_bounded:
  "query_dict_bounded d \<Longrightarrow> length n \<le> QUERY_NAME_MAX \<Longrightarrow> length v \<le> QUERY_VALUE_MAX \<Longrightarrow>
   query_dict_bounded (snd (parse_url_encoded_loop st n v d s))"
  by (rule parse_url_encoded_loop_inv) (auto intro: insert_decoded_bounded)

lemma parse_url_encoded_loop_grouped:
  "grouped d \<Longrightarrow> grouped (snd (parse_url_encoded_loop st [] [] d s))"
  by (rule parse_url_encoded_loop_inv) (auto simp: insert_decoded_def dict.inv_insert)

section \<open>Cookie headers: bounds and round trip\<close>

definition cookie_dict_bounded :: "ihash_multimap \<Rightarrow> bool" where
  "cookie_dict_bounded d = list_all (entry_bounded COOKIE_NAME_MAX COOKIE_VALUE_MAX) d"

lemma insert_cookie_bounded:
  "cookie_dict_bounded d \<Longrightarrow> length n \<le> COOKIE_NAME_MAX \<Longrightarrow> length v \<le> COOKIE_VALUE_MAX \<Longrightarrow>
   cookie_dict_bounded (insert_cookie sc n v d)"
  by (auto simp: cookie_dict_bounded_def list_all_iff insert_cookie_def set_dict_insert entry_bounded_def)

lemma insert_cookie_grouped: "grouped d \<Longrightarrow> grouped (insert_cookie sc n v d)"
  by (simp add: insert_cookie_def dict.inv_insert)

lemma parse_cookie_loop_inv:
  assumes step: "\<And>n v d. I d \<Longrightarrow> length n \<le> COOKIE_NAME_MAX \<Longrightarrow> length v \<le> COOKIE_VALUE_MAX \<Longrightarrow>
      I (insert_cookie sc n v d)"
  shows "I d \<Longrightarrow> length n \<le> COOKIE_NAME_MAX \<Longrightarrow> length v \<le> COOKIE_VALUE_MAX \<Longrightarrow>
   I (snd (parse_cookie_loop sc st n v q d s))"
proof (induction s arbitrary: st n v q d)
  case Nil
  then show ?case using step by simp
next
  case (Cons c s)
  have ins: "I (insert_cookie sc n v d)" using step Cons.prems by blast
  have app: "\<not> COOKIE_NAME_MAX \<le> length n \<Longrightarrow> length (n @ [c]) \<le> COOKIE_NAME_MAX"
    "\<not> COOKIE_VALUE_MAX \<le> length v \<Longrightarrow> length (v @ [c]) \<le> COOKIE_VALUE_MAX" by auto
  have branch: "(b \<Longrightarrow> I (snd x)) \<Longrightarrow> (\<not> b \<Longrightarrow> I (snd y)) \<Longrightarrow> I (snd (if b then x else y))"
    for b and x y :: "bool \<times> ihash_multimap" by simp
  have fail: "I (snd (False, d))" using Cons.prems by simp
  show ?case
    by (cases st; simp only: parse_cookie_loop.simps cookie_parse_state.simps; intro branch;
        (rule fail | rule Cons.IH; (rule ins app Cons.prems; assumption?)?; simp add: Cons.prems))
qed

lemma parse_cookie_loop_bounded:
  "cookie_dict_bounded d \<Longrightarrow> length n \<le> COOKIE_NAME_MAX \<Longrightarrow> length v \<le> COOKIE_VALUE_MAX \<Longrightarrow>
   cookie_dict_bounded (snd (parse_cookie_loop sc st n v q d s))"
  by (rule parse_cookie_loop_inv) (auto intro: insert_cookie_bounded)

lemma parse_cookie_loop_grouped:
  "grouped d \<Longrightarrow> grouped (snd (parse_cookie_loop sc st [] [] q d s))"
  by (rule parse_cookie_loop_inv) (auto intro: insert_cookie_grouped)

definition cookie_name_char :: "char \<Rightarrow> bool" where
  "cookie_name_char c = (c \<noteq> CHR ''='' \<and> c \<noteq> CHR '';'' \<and> c \<noteq> CHR '','' \<and> c \<noteq> SP \<and> \<not> is_control c)"

definition cookie_value_char :: "char \<Rightarrow> bool" where
  "cookie_value_char c = (c \<noteq> CHR '';'' \<and> c \<noteq> CHR '','' \<and> c \<noteq> SQUOTE \<and> c \<noteq> DQUOTE \<and> \<not> is_control c)"

definition cookie_ok :: "bool \<Rightarrow> string \<times> string \<Rightarrow> bool" where
  "cookie_ok sc p =
     (\<not> is_cookie_attribute (fst p) sc \<and> list_all cookie_name_char (fst p) \<and>
      list_all cookie_value_char (snd p) \<and> (snd p \<noteq> [] \<longrightarrow> hd (snd p) \<noteq> SP) \<and>
      length (fst p) \<le> COOKIE_NAME_MAX \<and> length (snd p) \<le> COOKIE_VALUE_MAX)"

definition cookie_pair :: "string \<times> string \<Rightarrow> string" where
  "cookie_pair p = fst p @ ''='' @ snd p"

definition cookie_text :: "(string \<times> string) list \<Rightarrow> string" where
  "cookie_text ps = concat (map (\<lambda>p. cookie_pair p @ '';'' @ [SP]) ps)"

lemma parse_cookie_name:
  "list_all cookie_name_char s \<Longrightarrow> length n + length s \<le> COOKIE_NAME_MAX \<Longrightarrow>
   parse_cookie_loop sc COOKIE_PARSE_NAME n v q d (s @ t) =
   parse_cookie_loop sc COOKIE_PARSE_NAME (n @ s) v q d t"
proof (induction s arbitrary: n)
  case (Cons c s)
  then show ?case by (simp add: cookie_name_char_def)
qed simp

lemma parse_cookie_value:
  "list_all cookie_value_char s \<Longrightarrow> length v + length s \<le> COOKIE_VALUE_MAX \<Longrightarrow>
   (v = [] \<longrightarrow> s \<noteq> [] \<longrightarrow> hd s \<noteq> SP) \<Longrightarrow>
   parse_cookie_loop sc COOKIE_PARSE_VALUE n v NUL d (s @ t) =
   parse_cookie_loop sc COOKIE_PARSE_VALUE n (v @ s) NUL d t"
proof (induction s arbitrary: v)
  case (Cons c s)
  then show ?case by (auto simp: cookie_value_char_def)
qed simp

lemma parse_cookie_pair:
  assumes "cookie_ok sc p"
  shows "parse_cookie_loop sc COOKIE_PARSE_NAME [] [] q d (cookie_pair p @ t) =
     parse_cookie_loop sc COOKIE_PARSE_VALUE (fst p) (snd p) NUL d t"
  using assms parse_cookie_name [of "fst p" "[]" sc "[]" q d] parse_cookie_value [of "snd p" "[]" sc "fst p" d t]
  by (simp add: cookie_pair_def cookie_ok_def)

lemma parse_cookie_text:
  "list_all (cookie_ok sc) ps \<Longrightarrow>
   parse_cookie_loop sc COOKIE_PARSE_NAME [] [] NUL d (cookie_text ps @ t) =
   parse_cookie_loop sc COOKIE_PARSE_NAME [] [] NUL (foldl (\<lambda>d p. dict_insert (fst p) (snd p) d) d ps) t"
proof (induction ps arbitrary: d)
  case (Cons p ps)
  then have "insert_cookie sc (fst p) (snd p) d = dict_insert (fst p) (snd p) d"
    by (simp add: insert_cookie_def cookie_ok_def)
  with Cons show ?case by (simp add: cookie_text_def parse_cookie_pair)
qed (simp add: cookie_text_def)

lemma parse_cookie_roundtrip:
  assumes "list_all (cookie_ok sc) (ps @ [p])"
  shows "parse_cookie_header (cookie_text ps @ cookie_pair p) sc d =
     (True, foldl (\<lambda>d p. dict_insert (fst p) (snd p) d) d (ps @ [p]))"
  using assms parse_cookie_pair [of sc p NUL _ "[]"]
  by (simp add: parse_cookie_header_def parse_cookie_text insert_cookie_def cookie_ok_def)

section \<open>The forwarded address is public\<close>

definition octet :: "string \<Rightarrow> bool" where
  "octet s = (1 \<le> length s \<and> length s \<le> 3 \<and> list_all is_digit s)"

lemma takeWhile_list_all: "list_all P (takeWhile P s)"
  by (auto simp: list_all_iff dest: set_takeWhileD)

lemma octet_dot_Some: "octet_dot s = Some (d, s') \<Longrightarrow> octet d \<and> s = d @ ''.'' @ s'"
proof -
  assume a: "octet_dot s = Some (d, s')"
  then have d: "d = takeWhile is_digit s" "1 \<le> length d" "length d \<le> 3" "s ! length d = CHR ''.''"
      "drop (length d) s \<noteq> []" "s' = drop (Suc (length d)) s"
    by (auto simp: octet_dot_def Let_def split: if_splits)
  have "take (length d) s = d" using d(1) by (metis takeWhile_eq_take)
  then have "s = d @ s ! length d # s'"
    using d(5,6) id_take_nth_drop [of "length d" s] by (simp add: not_le)
  then show ?thesis using d takeWhile_list_all [of is_digit s] by (simp add: octet_def)
qed

lemma last_octet_Some: "last_octet s = Some (d, s') \<Longrightarrow> octet d \<and> s = d @ s'"
proof -
  assume a: "last_octet s = Some (d, s')"
  then have d: "d = take 3 (takeWhile is_digit s)" "1 \<le> length d" "s' = drop (length d) s"
    by (auto simp: last_octet_def Let_def split: if_splits)
  have "s = takeWhile is_digit s @ dropWhile is_digit s" by simp
  then have "prefix d s" using d(1) by (metis prefix_append take_is_prefix)
  then have "s = d @ s'" using d(3) by (auto simp: prefix_def)
  moreover have "list_all is_digit d" "length d \<le> 3"
    using takeWhile_list_all [of is_digit s] d(1) by (auto simp: list_all_iff dest: in_set_takeD)
  ultimately show ?thesis using d(2) by (simp add: octet_def)
qed

lemma match_ipv4_Some:
  "match_ipv4 s = Some ((a, b, c, d), s') \<Longrightarrow>
   octet a \<and> octet b \<and> octet c \<and> octet d \<and> s = ip_string (a, b, c, d) @ s'"
  by (auto simp: match_ipv4_def ip_string_def split: option.splits dest!: octet_dot_Some last_octet_Some)

lemma search_ipv4_Some:
  "search_ipv4 s = Some ((a, b, c, d), s') \<Longrightarrow>
   octet a \<and> octet b \<and> octet c \<and> octet d \<and> (\<exists>pre. s = pre @ ip_string (a, b, c, d) @ s')"
proof (induction s)
  case (Cons x s)
  show ?case
  proof (cases "match_ipv4 (x # s)")
    case None
    then show ?thesis using Cons by (auto intro: exI [of _ "x # _"])
  next
    case (Some r)
    then show ?thesis using Cons match_ipv4_Some [of "x # s" a b c d s'] by (auto intro: exI [of _ "[]"])
  qed
qed simp

lemma parse_forwarded_for_Some:
  "parse_forwarded_for h = Some ip \<Longrightarrow>
   \<exists>a b c d. ip = ip_string (a, b, c, d) \<and> octet a \<and> octet b \<and> octet c \<and> octet d \<and>
     \<not> PRIVATE_NET_RX (a, b, c, d) \<and> sublist ip h"
proof (induction h rule: parse_forwarded_for.induct)
  case (1 h)
  then obtain a b c d rest where s: "search_ipv4 h = Some ((a, b, c, d), rest)" and h: "h \<noteq> []"
    by (auto simp: parse_forwarded_for.simps [of h] split: if_splits option.splits)
  obtain pre where h': "h = pre @ ip_string (a, b, c, d) @ rest" "octet a" "octet b" "octet c" "octet d"
    using search_ipv4_Some [OF s] by blast
  show ?case
  proof (cases "PRIVATE_NET_RX (a, b, c, d)")
    case True
    then have p: "parse_forwarded_for rest = Some ip"
      using 1(2) s h by (simp add: parse_forwarded_for.simps [of h])
    have sub: "sublist ip rest \<Longrightarrow> sublist ip h"
      using h'(1) by (metis sublist_appendI sublist_in_middle append.right_neutral append.assoc)
    show ?thesis using 1(1) [OF h s refl _ p] True sub by blast
  next
    case False
    then have "ip = ip_string (a, b, c, d)"
      using 1(2) s h by (simp add: parse_forwarded_for.simps [of h])
    then show ?thesis using h' False by (metis sublist_appendI)
  qed
qed

section \<open>Properties\<close>

text \<open>C37: Query string round trip. Parsing the query string that \<^verbatim>\<open>make_query_string\<close> builds from a
  dictionary of names and values without null bytes, whose encodings are within the limits of the
  parser, succeeds and adds exactly these pairs: every key has, beside its old values, the values the
  pairs give it.\<close>

theorem query_string_roundtrip:
  assumes "list_all query_pair_ok ps" and "grouped d"
  shows "fst (parse_url_encoded (make_query_string ps) d) \<and>
    mset (dict_values (snd (parse_url_encoded (make_query_string ps) d)) k) =
      mset (dict_values d k) + mset (map snd (filter (\<lambda>p. iequals (fst p) k) ps))"
  using parse_make_query_string [OF assms(1)] foldl_insert_values [OF assms(2)] by simp

theorem query_string_roundtrip_witness:
  "fst (parse_url_encoded (make_query_string [(''q'', ''a b''), (''n'', ''1&2'')]) []) \<and>
   mset (dict_values (snd (parse_url_encoded (make_query_string [(''q'', ''a b''), (''n'', ''1&2'')]) [])) ''N'') =
   {#''1&2''#}"
proof -
  have ok: "list_all query_pair_ok [(''q'', ''a b''), (''n'', ''1&2'')]" by code_simp
  have f: "filter (\<lambda>p. iequals (fst p) ''N'') [(''q'', ''a b''), (''n'', ''1&2'')] = [(''n'', ''1&2'')]" by code_simp
  have g: "grouped []" by (simp add: grouped_def folded_keys_def)
  show ?thesis using query_string_roundtrip [OF ok g, of "''N''"] unfolding f by (simp add: dict_values_def)
qed

text \<open>Whatever the query string is, parsing it keeps the dictionary well formed and adds only entries
  whose name and value are within the limits.\<close>

theorem query_string_bounds:
  assumes "grouped d" and "query_dict_bounded d"
  shows "grouped (snd (parse_url_encoded s d)) \<and> query_dict_bounded (snd (parse_url_encoded s d))"
  using assms parse_url_encoded_loop_grouped parse_url_encoded_loop_bounded [of d "[]" "[]"]
  by (simp add: parse_url_encoded_def)

theorem query_string_bounds_witness:
  "query_dict_bounded (snd (parse_url_encoded ''a=b&a=%zz'' []))"
proof -
  have "grouped []" "query_dict_bounded []" by (simp_all add: grouped_def folded_keys_def query_dict_bounded_def)
  from query_string_bounds [OF this] show ?thesis by blast
qed

text \<open>Cookie round trip. A Cookie or Set-Cookie header made of well-formed pairs, separated by
  semicolon and space, parses successfully and adds exactly these cookies.\<close>

theorem cookie_roundtrip:
  assumes "list_all (cookie_ok sc) (ps @ [p])" and "grouped d"
  shows "fst (parse_cookie_header (cookie_text ps @ cookie_pair p) sc d) \<and>
    mset (dict_values (snd (parse_cookie_header (cookie_text ps @ cookie_pair p) sc d)) k) =
      mset (dict_values d k) + mset (map snd (filter (\<lambda>p. iequals (fst p) k) (ps @ [p])))"
  unfolding parse_cookie_roundtrip [OF assms(1)] fst_conv snd_conv
  using foldl_insert_values [OF assms(2)] by blast

theorem cookie_roundtrip_witness:
  "fst (parse_cookie_header (cookie_text [(''sid'', ''abc'')] @ cookie_pair (''lang'', ''en'')) False []) \<and>
   mset (dict_values (snd (parse_cookie_header (cookie_text [(''sid'', ''abc'')] @ cookie_pair (''lang'', ''en'')) False [])) ''SID'') =
   {#''abc''#}"
proof -
  have ok: "list_all (cookie_ok False) ([(''sid'', ''abc'')] @ [(''lang'', ''en'')])" by code_simp
  have f: "filter (\<lambda>p. iequals (fst p) ''SID'') ([(''sid'', ''abc'')] @ [(''lang'', ''en'')]) = [(''sid'', ''abc'')]" by code_simp
  have g: "grouped []" by (simp add: grouped_def folded_keys_def)
  show ?thesis using cookie_roundtrip [OF ok g, of "''SID''"] unfolding f by (simp add: dict_values_def)
qed

text \<open>Whatever the cookie header is, parsing it keeps the dictionary well formed and adds only cookies
  within the limits.\<close>

theorem cookie_bounds:
  assumes "grouped d" and "cookie_dict_bounded d"
  shows "grouped (snd (parse_cookie_header s sc d)) \<and> cookie_dict_bounded (snd (parse_cookie_header s sc d))"
  using assms parse_cookie_loop_grouped parse_cookie_loop_bounded [of d "[]" "[]"]
  by (simp add: parse_cookie_header_def)

theorem cookie_bounds_witness: "cookie_dict_bounded (snd (parse_cookie_header ''a=b; $c'' True []))"
proof -
  have "grouped []" "cookie_dict_bounded []" by (simp_all add: grouped_def folded_keys_def cookie_dict_bounded_def)
  from cookie_bounds [OF this] show ?thesis by blast
qed

text \<open>The address \<^verbatim>\<open>parse_forwarded_for\<close> extracts is a dotted quad of one to three digits each that
  occurs in the header and is not in one of the private networks.\<close>

theorem forwarded_for_public:
  assumes "parse_forwarded_for h = Some ip"
  shows "\<exists>a b c d. ip = ip_string (a, b, c, d) \<and> octet a \<and> octet b \<and> octet c \<and> octet d \<and>
     \<not> PRIVATE_NET_RX (a, b, c, d) \<and> sublist ip h"
  using parse_forwarded_for_Some [OF assms] .

theorem forwarded_for_public_witness:
  "parse_forwarded_for ''10.0.0.1, 8.8.4.4'' = Some ''8.8.4.4'' \<and> sublist ''8.8.4.4'' ''10.0.0.1, 8.8.4.4''"
proof -
  have "parse_forwarded_for ''10.0.0.1, 8.8.4.4'' = Some ''8.8.4.4''" by code_simp
  from this forwarded_for_public [OF this] show ?thesis by blast
qed

end
