(* ===== verification/Http_Parser.thy ===== *)
theory Http_Parser
  imports Tribool Form_Data
begin

text \<open>
  The incremental HTTP parser \<^verbatim>\<open>http::parser\<close> (\<^verbatim>\<open>src/http_parser.cpp\<close>,
  \<^verbatim>\<open>include/pion/http/parser.hpp\<close>). The record \<open>parser\<close> has the members of the class; the pointer
  pair \<^verbatim>\<open>m_read_ptr\<close>, \<^verbatim>\<open>m_read_end_ptr\<close> is the text \<open>m_read\<close> that is still to be consumed, and the
  payload handler is a flag with the log of the calls made. One step function per group of cases of
  the header state machine consumes one byte; the loops of the code are recursive functions over the
  read buffer. A parse error is an \<open>error_value_t\<close>; a C++ exception is \<^const>\<open>Inl\<close>.
\<close>

section \<open>Errors and states\<close>

datatype error_value_t =
    ERROR_METHOD_CHAR | ERROR_METHOD_SIZE | ERROR_URI_CHAR | ERROR_URI_SIZE
  | ERROR_QUERY_CHAR | ERROR_QUERY_SIZE | ERROR_VERSION_EMPTY | ERROR_VERSION_CHAR
  | ERROR_STATUS_EMPTY | ERROR_STATUS_CHAR | ERROR_HEADER_CHAR | ERROR_HEADER_NAME_SIZE
  | ERROR_HEADER_VALUE_SIZE | ERROR_INVALID_CONTENT_LENGTH | ERROR_CHUNK_CHAR
  | ERROR_MISSING_CHUNK_DATA | ERROR_MISSING_HEADER_DATA | ERROR_MISSING_TOO_MUCH_CONTENT

fun error_message :: "error_value_t \<Rightarrow> string" where
  "error_message ERROR_METHOD_CHAR = ''invalid method character''"
| "error_message ERROR_METHOD_SIZE = ''method exceeds maximum size''"
| "error_message ERROR_URI_CHAR = ''invalid URI character''"
| "error_message ERROR_URI_SIZE = ''method exceeds maximum size''"
| "error_message ERROR_QUERY_CHAR = ''invalid query string character''"
| "error_message ERROR_QUERY_SIZE = ''query string exceeds maximum size''"
| "error_message ERROR_VERSION_EMPTY = ''HTTP version undefined''"
| "error_message ERROR_VERSION_CHAR = ''invalid version character''"
| "error_message ERROR_STATUS_EMPTY = ''HTTP status undefined''"
| "error_message ERROR_STATUS_CHAR = ''invalid status character''"
| "error_message ERROR_HEADER_CHAR = ''invalid header character''"
| "error_message ERROR_HEADER_NAME_SIZE = ''header name exceeds maximum size''"
| "error_message ERROR_HEADER_VALUE_SIZE = ''header value exceeds maximum size''"
| "error_message ERROR_INVALID_CONTENT_LENGTH = ''invalid Content-Length header''"
| "error_message ERROR_CHUNK_CHAR = ''invalid chunk character''"
| "error_message ERROR_MISSING_HEADER_DATA = ''missing header data''"
| "error_message ERROR_MISSING_CHUNK_DATA = ''missing chunk data''"
| "error_message ERROR_MISSING_TOO_MUCH_CONTENT = ''missing too much content''"

datatype message_parse_state_t =
  PARSE_START | PARSE_HEADERS | PARSE_FOOTERS | PARSE_CONTENT | PARSE_CONTENT_NO_LENGTH
  | PARSE_CHUNKS | PARSE_END

datatype header_parse_state_t =
    PARSE_METHOD_START | PARSE_METHOD | PARSE_URI_STEM | PARSE_URI_QUERY
  | PARSE_HTTP_VERSION_H | PARSE_HTTP_VERSION_T_1 | PARSE_HTTP_VERSION_T_2
  | PARSE_HTTP_VERSION_P | PARSE_HTTP_VERSION_SLASH
  | PARSE_HTTP_VERSION_MAJOR_START | PARSE_HTTP_VERSION_MAJOR
  | PARSE_HTTP_VERSION_MINOR_START | PARSE_HTTP_VERSION_MINOR
  | PARSE_STATUS_CODE_START | PARSE_STATUS_CODE | PARSE_STATUS_MESSAGE
  | PARSE_EXPECTING_NEWLINE | PARSE_EXPECTING_CR
  | PARSE_HEADER_WHITESPACE | PARSE_HEADER_START | PARSE_HEADER_NAME
  | PARSE_SPACE_BEFORE_HEADER_VALUE | PARSE_HEADER_VALUE
  | PARSE_EXPECTING_FINAL_NEWLINE | PARSE_EXPECTING_FINAL_CR

datatype chunk_parse_state_t =
    PARSE_CHUNK_SIZE_START | PARSE_CHUNK_SIZE
  | PARSE_EXPECTING_IGNORED_TEXT_AFTER_CHUNK_SIZE
  | PARSE_EXPECTING_CR_AFTER_CHUNK_SIZE
  | PARSE_EXPECTING_LF_AFTER_CHUNK_SIZE | PARSE_CHUNK
  | PARSE_EXPECTING_CR_AFTER_CHUNK | PARSE_EXPECTING_LF_AFTER_CHUNK
  | PARSE_EXPECTING_FINAL_CR_OR_FOOTERS_AFTER_LAST_CHUNK
  | PARSE_EXPECTING_FINAL_LF_AFTER_LAST_CHUNK

record parser =
  m_is_request :: bool
  m_read :: string
  m_message_parse_state :: message_parse_state_t
  m_headers_parse_state :: header_parse_state_t
  m_chunked_content_parse_state :: chunk_parse_state_t
  m_payload_handler :: bool
  m_payload_log :: "string list"
  m_status_code :: "16 word"
  m_status_message :: string
  m_method :: string
  m_resource :: string
  m_query_string :: string
  m_raw_headers :: string
  m_header_name :: string
  m_header_value :: string
  m_chunk_size_str :: string
  m_size_of_current_chunk :: nat
  m_bytes_read_in_current_chunk :: nat
  m_bytes_content_remaining :: nat
  m_bytes_content_read :: nat
  m_bytes_last_read :: nat
  m_bytes_total_read :: nat
  m_max_content_length :: nat
  m_parse_headers_only :: bool
  m_save_raw_headers :: bool

definition new_parser :: "bool \<Rightarrow> nat \<Rightarrow> parser" where
  "new_parser is_request max_content_length =
     \<lparr> m_is_request = is_request, m_read = [], m_message_parse_state = PARSE_START,
       m_headers_parse_state = (if is_request then PARSE_METHOD_START else PARSE_HTTP_VERSION_H),
       m_chunked_content_parse_state = PARSE_CHUNK_SIZE_START, m_payload_handler = False,
       m_payload_log = [], m_status_code = 0, m_status_message = [], m_method = [],
       m_resource = [], m_query_string = [], m_raw_headers = [], m_header_name = [],
       m_header_value = [], m_chunk_size_str = [],
       m_size_of_current_chunk = 0, m_bytes_read_in_current_chunk = 0,
       m_bytes_content_remaining = 0, m_bytes_content_read = 0,
       m_bytes_last_read = 0, m_bytes_total_read = 0,
       m_max_content_length = max_content_length,
       m_parse_headers_only = False, m_save_raw_headers = False \<rparr>"

definition reset :: "parser \<Rightarrow> parser" where
  "reset p = p\<lparr> m_message_parse_state := PARSE_START,
       m_headers_parse_state := (if m_is_request p then PARSE_METHOD_START else PARSE_HTTP_VERSION_H),
       m_chunked_content_parse_state := PARSE_CHUNK_SIZE_START,
       m_status_code := 0, m_status_message := [], m_method := [], m_resource := [],
       m_query_string := [], m_raw_headers := [],
       m_bytes_content_read := 0, m_bytes_last_read := 0, m_bytes_total_read := 0 \<rparr>"

definition set_read_buffer :: "string \<Rightarrow> parser \<Rightarrow> parser" where
  "set_read_buffer s p = p\<lparr>m_read := s\<rparr>"

definition eof :: "parser \<Rightarrow> bool" where
  "eof p = (m_read p = [])"

definition bytes_available :: "parser \<Rightarrow> nat" where
  "bytes_available p = (if eof p then 0 else length (m_read p))"

section \<open>Parsing the headers, one byte at a time\<close>

text \<open>
  The result of one turn: go on with the next byte, stop with \<^verbatim>\<open>true\<close> (the flag says whether the
  current byte has been consumed), or stop with an error.
\<close>

datatype hstep = H_More | H_Done bool | H_Error error_value_t

type_synonym hresult = "hstep \<times> parser \<times> http_message"

abbreviation go :: "header_parse_state_t \<Rightarrow> parser \<Rightarrow> http_message \<Rightarrow> hresult" where
  "go st p m \<equiv> (H_More, p\<lparr>m_headers_parse_state := st\<rparr>, m)"

definition bad_token :: "char \<Rightarrow> bool" where
  "bad_token c = (\<not> is_char c \<or> is_control c \<or> is_special c)"

definition set_version_0 :: "http_message \<Rightarrow> http_message" where
  "set_version_0 m = set_version_minor 0 (set_version_major 0 m)"

definition digit16 :: "char \<Rightarrow> 16 word" where
  "digit16 c = word_of_int (char_to_int c - 48)"

fun step_request_line :: "header_parse_state_t \<Rightarrow> char \<Rightarrow> parser \<Rightarrow> http_message \<Rightarrow> hresult" where
  "step_request_line PARSE_METHOD_START c p m =
     (if c \<noteq> SP \<and> c \<noteq> CR \<and> c \<noteq> LF then
        (if bad_token c then (H_Error ERROR_METHOD_CHAR, p, m)
         else go PARSE_METHOD (p\<lparr>m_method := [c]\<rparr>) m)
      else (H_More, p, m))"
| "step_request_line PARSE_METHOD c p m =
     (if c = SP then go PARSE_URI_STEM (p\<lparr>m_resource := []\<rparr>) m
      else if bad_token c then (H_Error ERROR_METHOD_CHAR, p, m)
      else if METHOD_MAX \<le> length (m_method p) then (H_Error ERROR_METHOD_SIZE, p, m)
      else (H_More, p\<lparr>m_method := m_method p @ [c]\<rparr>, m))"
| "step_request_line PARSE_URI_STEM c p m =
     (if c = SP then go PARSE_HTTP_VERSION_H p m
      else if c = CHR ''?'' then go PARSE_URI_QUERY (p\<lparr>m_query_string := []\<rparr>) m
      else if c = CR then go PARSE_EXPECTING_NEWLINE p (set_version_0 m)
      else if c = LF then go PARSE_EXPECTING_CR p (set_version_0 m)
      else if is_control c then (H_Error ERROR_URI_CHAR, p, m)
      else if RESOURCE_MAX \<le> length (m_resource p) then (H_Error ERROR_URI_SIZE, p, m)
      else (H_More, p\<lparr>m_resource := m_resource p @ [c]\<rparr>, m))"
| "step_request_line PARSE_URI_QUERY c p m =
     (if c = SP then go PARSE_HTTP_VERSION_H p m
      else if c = CR then go PARSE_EXPECTING_NEWLINE p (set_version_0 m)
      else if c = LF then go PARSE_EXPECTING_CR p (set_version_0 m)
      else if is_control c then (H_Error ERROR_QUERY_CHAR, p, m)
      else if QUERY_STRING_MAX \<le> length (m_query_string p) then (H_Error ERROR_QUERY_SIZE, p, m)
      else (H_More, p\<lparr>m_query_string := m_query_string p @ [c]\<rparr>, m))"
| "step_request_line _ c p m = (H_More, p, m)"

text \<open>
  In the state \<^const>\<open>PARSE_HTTP_VERSION_H\<close> the assignment behind the if-chain overwrites the state
  that the CR and LF branches have just set.
\<close>

fun step_version :: "header_parse_state_t \<Rightarrow> char \<Rightarrow> parser \<Rightarrow> http_message \<Rightarrow> hresult" where
  "step_version PARSE_HTTP_VERSION_H c p m =
     (if c = CR \<or> c = LF then
        (if \<not> m_is_request p then (H_Error ERROR_VERSION_EMPTY, p, m)
         else go PARSE_HTTP_VERSION_T_1 p (set_version_0 m))
      else if c \<noteq> CHR ''H'' then (H_Error ERROR_VERSION_CHAR, p, m)
      else go PARSE_HTTP_VERSION_T_1 p m)"
| "step_version PARSE_HTTP_VERSION_T_1 c p m =
     (if c \<noteq> CHR ''T'' then (H_Error ERROR_VERSION_CHAR, p, m) else go PARSE_HTTP_VERSION_T_2 p m)"
| "step_version PARSE_HTTP_VERSION_T_2 c p m =
     (if c \<noteq> CHR ''T'' then (H_Error ERROR_VERSION_CHAR, p, m) else go PARSE_HTTP_VERSION_P p m)"
| "step_version PARSE_HTTP_VERSION_P c p m =
     (if c \<noteq> CHR ''P'' then (H_Error ERROR_VERSION_CHAR, p, m) else go PARSE_HTTP_VERSION_SLASH p m)"
| "step_version PARSE_HTTP_VERSION_SLASH c p m =
     (if c \<noteq> CHR ''/'' then (H_Error ERROR_VERSION_CHAR, p, m)
      else go PARSE_HTTP_VERSION_MAJOR_START p m)"
| "step_version PARSE_HTTP_VERSION_MAJOR_START c p m =
     (if \<not> is_digit c then (H_Error ERROR_VERSION_CHAR, p, m)
      else go PARSE_HTTP_VERSION_MAJOR p (set_version_major (digit16 c) m))"
| "step_version PARSE_HTTP_VERSION_MAJOR c p m =
     (if c = CHR ''.'' then go PARSE_HTTP_VERSION_MINOR_START p m
      else if is_digit c then (H_More, p, set_version_major (msg_version_major m * 10 + digit16 c) m)
      else (H_Error ERROR_VERSION_CHAR, p, m))"
| "step_version PARSE_HTTP_VERSION_MINOR_START c p m =
     (if \<not> is_digit c then (H_Error ERROR_VERSION_CHAR, p, m)
      else go PARSE_HTTP_VERSION_MINOR p (set_version_minor (digit16 c) m))"
| "step_version PARSE_HTTP_VERSION_MINOR c p m =
     (if c = SP then (if \<not> m_is_request p then go PARSE_STATUS_CODE_START p m else (H_More, p, m))
      else if c = CR then
        (if \<not> m_is_request p then (H_Error ERROR_STATUS_EMPTY, p, m)
         else go PARSE_EXPECTING_NEWLINE p m)
      else if c = LF then
        (if \<not> m_is_request p then (H_Error ERROR_STATUS_EMPTY, p, m)
         else go PARSE_EXPECTING_CR p m)
      else if is_digit c then (H_More, p, set_version_minor (msg_version_minor m * 10 + digit16 c) m)
      else (H_Error ERROR_VERSION_CHAR, p, m))"
| "step_version _ c p m = (H_More, p, m)"

fun step_status :: "header_parse_state_t \<Rightarrow> char \<Rightarrow> parser \<Rightarrow> http_message \<Rightarrow> hresult" where
  "step_status PARSE_STATUS_CODE_START c p m =
     (if \<not> is_digit c then (H_Error ERROR_STATUS_CHAR, p, m)
      else go PARSE_STATUS_CODE (p\<lparr>m_status_code := digit16 c\<rparr>) m)"
| "step_status PARSE_STATUS_CODE c p m =
     (if c = SP then go PARSE_STATUS_MESSAGE (p\<lparr>m_status_message := []\<rparr>) m
      else if is_digit c then (H_More, p\<lparr>m_status_code := m_status_code p * 10 + digit16 c\<rparr>, m)
      else if c = CR then go PARSE_EXPECTING_NEWLINE (p\<lparr>m_status_message := []\<rparr>) m
      else if c = LF then go PARSE_EXPECTING_CR (p\<lparr>m_status_message := []\<rparr>) m
      else (H_Error ERROR_STATUS_CHAR, p, m))"
| "step_status PARSE_STATUS_MESSAGE c p m =
     (if c = CR then go PARSE_EXPECTING_NEWLINE p m
      else if c = LF then go PARSE_EXPECTING_CR p m
      else if is_control c then (H_Error ERROR_STATUS_CHAR, p, m)
      else if STATUS_MESSAGE_MAX \<le> length (m_status_message p) then (H_Error ERROR_STATUS_CHAR, p, m)
      else (H_More, p\<lparr>m_status_message := m_status_message p @ [c]\<rparr>, m))"
| "step_status _ c p m = (H_More, p, m)"

text \<open>The branches shared by the states that may see the first character of a header name.\<close>

definition first_name_char :: "char \<Rightarrow> parser \<Rightarrow> http_message \<Rightarrow> hresult" where
  "first_name_char c p m =
     (if bad_token c then (H_Error ERROR_HEADER_CHAR, p, m)
      else go PARSE_HEADER_NAME (p\<lparr>m_header_name := [c]\<rparr>) m)"

fun step_newline :: "header_parse_state_t \<Rightarrow> char \<Rightarrow> parser \<Rightarrow> http_message \<Rightarrow> hresult" where
  "step_newline PARSE_EXPECTING_NEWLINE c p m =
     (if c = LF then
        (if m_is_request p \<and> msg_version_major m = 0 then (H_Done True, p, m)
         else go PARSE_HEADER_START p m)
      else if c = CR then (H_Done True, p, m)
      else if c = TAB \<or> c = SP then go PARSE_HEADER_WHITESPACE p m
      else first_name_char c p m)"
| "step_newline PARSE_EXPECTING_CR c p m =
     (if c = CR then go PARSE_HEADER_START p m
      else if c = LF then (H_Done True, p, m)
      else if c = TAB \<or> c = SP then go PARSE_HEADER_WHITESPACE p m
      else first_name_char c p m)"
| "step_newline PARSE_HEADER_WHITESPACE c p m =
     (if c = CR then go PARSE_EXPECTING_NEWLINE p m
      else if c = LF then go PARSE_EXPECTING_CR p m
      else if c \<noteq> TAB \<and> c \<noteq> SP then first_name_char c p m
      else (H_More, p, m))"
| "step_newline PARSE_HEADER_START c p m =
     (if c = CR then go PARSE_EXPECTING_FINAL_NEWLINE p m
      else if c = LF then go PARSE_EXPECTING_FINAL_CR p m
      else if c = TAB \<or> c = SP then go PARSE_HEADER_WHITESPACE p m
      else first_name_char c p m)"
| "step_newline _ c p m = (H_More, p, m)"

fun step_header :: "header_parse_state_t \<Rightarrow> char \<Rightarrow> parser \<Rightarrow> http_message \<Rightarrow> hresult" where
  "step_header PARSE_HEADER_NAME c p m =
     (if c = CHR '':'' then go PARSE_SPACE_BEFORE_HEADER_VALUE (p\<lparr>m_header_value := []\<rparr>) m
      else if bad_token c then (H_Error ERROR_HEADER_CHAR, p, m)
      else if HEADER_NAME_MAX \<le> length (m_header_name p) then (H_Error ERROR_HEADER_NAME_SIZE, p, m)
      else (H_More, p\<lparr>m_header_name := m_header_name p @ [c]\<rparr>, m))"
| "step_header PARSE_SPACE_BEFORE_HEADER_VALUE c p m =
     (if c = SP then go PARSE_HEADER_VALUE p m
      else if c = CR then go PARSE_EXPECTING_NEWLINE p (add_header (m_header_name p) (m_header_value p) m)
      else if c = LF then go PARSE_EXPECTING_CR p (add_header (m_header_name p) (m_header_value p) m)
      else if bad_token c then (H_Error ERROR_HEADER_CHAR, p, m)
      else go PARSE_HEADER_VALUE (p\<lparr>m_header_value := m_header_value p @ [c]\<rparr>) m)"
| "step_header PARSE_HEADER_VALUE c p m =
     (if c = CR then go PARSE_EXPECTING_NEWLINE p (add_header (m_header_name p) (m_header_value p) m)
      else if c = LF then go PARSE_EXPECTING_CR p (add_header (m_header_name p) (m_header_value p) m)
      else if c \<noteq> TAB \<and> is_control c then (H_Error ERROR_HEADER_CHAR, p, m)
      else if HEADER_VALUE_MAX \<le> length (m_header_value p) then (H_Error ERROR_HEADER_VALUE_SIZE, p, m)
      else (H_More, p\<lparr>m_header_value := m_header_value p @ [c]\<rparr>, m))"
| "step_header PARSE_EXPECTING_FINAL_NEWLINE c p m = (H_Done (c = LF), p, m)"
| "step_header PARSE_EXPECTING_FINAL_CR c p m = (H_Done (c = CR), p, m)"
| "step_header _ c p m = (H_More, p, m)"

fun header_group :: "header_parse_state_t \<Rightarrow> nat" where
  "header_group PARSE_METHOD_START = 0" | "header_group PARSE_METHOD = 0"
| "header_group PARSE_URI_STEM = 0" | "header_group PARSE_URI_QUERY = 0"
| "header_group PARSE_STATUS_CODE_START = 2" | "header_group PARSE_STATUS_CODE = 2"
| "header_group PARSE_STATUS_MESSAGE = 2"
| "header_group PARSE_EXPECTING_NEWLINE = 3" | "header_group PARSE_EXPECTING_CR = 3"
| "header_group PARSE_HEADER_WHITESPACE = 3" | "header_group PARSE_HEADER_START = 3"
| "header_group PARSE_HEADER_NAME = 4" | "header_group PARSE_SPACE_BEFORE_HEADER_VALUE = 4"
| "header_group PARSE_HEADER_VALUE = 4" | "header_group PARSE_EXPECTING_FINAL_NEWLINE = 4"
| "header_group PARSE_EXPECTING_FINAL_CR = 4"
| "header_group _ = 1"

definition header_step :: "char \<Rightarrow> parser \<Rightarrow> http_message \<Rightarrow> hresult" where
  "header_step c p m =
     (let p = (if m_save_raw_headers p then p\<lparr>m_raw_headers := m_raw_headers p @ [c]\<rparr> else p);
          st = m_headers_parse_state p
      in if header_group st = 0 then step_request_line st c p m
         else if header_group st = 1 then step_version st c p m
         else if header_group st = 2 then step_status st c p m
         else if header_group st = 3 then step_newline st c p m
         else step_header st c p m)"

type_synonym loop_result =
  "tribool \<times> error_value_t option \<times> parser \<times> http_message \<times> string"

fun headers_loop :: "parser \<Rightarrow> http_message \<Rightarrow> string \<Rightarrow> loop_result" where
  "headers_loop p m [] = (indeterminate_value, None, p, m, [])"
| "headers_loop p m (c # s) =
     (case header_step c p m of
        (H_More, p, m) \<Rightarrow> headers_loop p m s
      | (H_Done consumed, p, m) \<Rightarrow> (true_value, None, p, m, if consumed then s else c # s)
      | (H_Error e, p, m) \<Rightarrow> (false_value, Some e, p, m, c # s))"

definition parse_headers ::
  "parser \<Rightarrow> http_message \<Rightarrow> tribool \<times> error_value_t option \<times> parser \<times> http_message" where
  "parse_headers p m =
     (let (rc, ec, p', m, rest) = headers_loop (p\<lparr>m_bytes_last_read := 0\<rparr>) m (m_read p);
          p' = p'\<lparr>m_read := rest\<rparr>
      in if rc = false_value then (rc, ec, p', m)
         else (let n = length (m_read p) - length rest
               in (rc, ec, p'\<lparr>m_bytes_last_read := n, m_bytes_total_read := szadd (m_bytes_total_read p') n\<rparr>, m)))"

section \<open>After the headers\<close>

definition parse_cookies_into :: "bool \<Rightarrow> ihash_multimap \<Rightarrow> ihash_multimap \<Rightarrow> ihash_multimap" where
  "parse_cookies_into set_cookie_header rng cookies =
     foldl (\<lambda>dict e. snd (parse_cookie_header (snd e) set_cookie_header dict)) cookies rng"

definition update_message_with_header_data :: "parser \<Rightarrow> http_message \<Rightarrow> http_message" where
  "update_message_with_header_data p m =
     (if m_is_request p then
        (let m = set_query_string (m_query_string p) (set_resource (m_resource p) (set_method (m_method p) m));
             m = (if m_query_string p \<noteq> []
                  then m\<lparr>req_query_params := snd (parse_url_encoded (m_query_string p) (req_query_params m))\<rparr>
                  else m)
         in m\<lparr>msg_cookie_params :=
                parse_cookies_into False (equal_range (msg_headers m) HEADER_COOKIE) (msg_cookie_params m)\<rparr>)
      else
        (let m = set_status_message (m_status_message p) (set_status_code (ucast (m_status_code p)) m)
         in m\<lparr>msg_cookie_params :=
                parse_cookies_into True (equal_range (msg_headers m) HEADER_SET_COOKIE) (msg_cookie_params m)\<rparr>))"

definition finish_header_parsing ::
  "parser \<Rightarrow> http_message \<Rightarrow> tribool \<times> error_value_t option \<times> parser \<times> http_message" where
  "finish_header_parsing p m =
     (let p = p\<lparr>m_bytes_content_remaining := 0, m_bytes_content_read := 0\<rparr>;
          m = set_content_length 0 m;
          m = update_transfer_encoding_using_header m;
          m = update_message_with_header_data p m
      in if msg_is_chunked m then
           (if m_parse_headers_only p then true_value else indeterminate_value,
            None, p\<lparr>m_message_parse_state := PARSE_CHUNKS\<rparr>, m)
         else if is_content_length_implied m then
           (true_value, None, p\<lparr>m_message_parse_state := PARSE_END\<rparr>, m)
         else if has_header m HEADER_CONTENT_LENGTH then
           (case update_content_length_using_header m of
              None \<Rightarrow> (false_value, Some ERROR_INVALID_CONTENT_LENGTH, p, m)
            | Some m \<Rightarrow>
                if msg_content_length m = 0 then
                  (true_value, None, p\<lparr>m_message_parse_state := PARSE_END\<rparr>, m)
                else
                  (let p = p\<lparr>m_message_parse_state := PARSE_CONTENT,
                             m_bytes_content_remaining := msg_content_length m\<rparr>;
                       m = (if m_max_content_length p < m_bytes_content_remaining p
                            then set_content_length (m_max_content_length p) m else m)
                   in if m_parse_headers_only p then (true_value, None, p, m)
                      else (indeterminate_value, None, p, create_content_buffer m)))
         else if \<not> m_is_request p then
           (if m_parse_headers_only p then true_value else indeterminate_value, None,
            p\<lparr>m_message_parse_state := PARSE_CONTENT_NO_LENGTH\<rparr>, m\<lparr>msg_chunk_cache := []\<rparr>)
         else (true_value, None, p\<lparr>m_message_parse_state := PARSE_END\<rparr>, m))"

section \<open>Chunked content\<close>

text \<open>
  One turn of the loop of \<^verbatim>\<open>parse_chunks\<close>, on the bytes from the current position on. The result
  says how the turn ends, and the text from the read position on, before the final increment.
\<close>

datatype cstep = C_More | C_Done bool | C_Error error_value_t

type_synonym cresult = "cstep \<times> parser \<times> string \<times> string"

abbreviation cgo :: "chunk_parse_state_t \<Rightarrow> parser \<Rightarrow> string \<Rightarrow> string \<Rightarrow> cresult" where
  "cgo st p chunks s \<equiv> (C_More, p\<lparr>m_chunked_content_parse_state := st\<rparr>, chunks, s)"

definition chunk_error :: "parser \<Rightarrow> string \<Rightarrow> string \<Rightarrow> cresult" where
  "chunk_error p chunks s = (C_Error ERROR_CHUNK_CHAR, p, chunks, s)"

definition chunk_data :: "parser \<Rightarrow> string \<Rightarrow> string \<Rightarrow> parser \<times> string \<times> string" where
  "chunk_data p chunks s =
     (if m_bytes_read_in_current_chunk p < m_size_of_current_chunk p then
        (if m_payload_handler p then
           (let bytes_in_chunk = m_size_of_current_chunk p - m_bytes_read_in_current_chunk p;
                len = (if length s < bytes_in_chunk then length s else bytes_in_chunk)
            in (p\<lparr>m_payload_log := m_payload_log p @ [take len s],
                  m_bytes_read_in_current_chunk := m_bytes_read_in_current_chunk p + len\<rparr>,
                chunks, if 1 < len then drop (len - 1) s else s))
         else if length chunks < m_max_content_length p then
           (p\<lparr>m_bytes_read_in_current_chunk := m_bytes_read_in_current_chunk p + 1\<rparr>, chunks @ [hd s], s)
         else (p, chunks, s))
      else (p, chunks, s))"

fun chunk_switch :: "chunk_parse_state_t \<Rightarrow> char \<Rightarrow> parser \<Rightarrow> string \<Rightarrow> string \<Rightarrow> cresult" where
  "chunk_switch PARSE_CHUNK_SIZE_START c p chunks s =
     (if is_hex_digit c then cgo PARSE_CHUNK_SIZE (p\<lparr>m_chunk_size_str := [c]\<rparr>) chunks s
      else if c = SP \<or> c = TAB \<or> c = CR \<or> c = LF then (C_More, p, chunks, s)
      else chunk_error p chunks s)"
| "chunk_switch PARSE_CHUNK_SIZE c p chunks s =
     (if is_hex_digit c then (C_More, p\<lparr>m_chunk_size_str := m_chunk_size_str p @ [c]\<rparr>, chunks, s)
      else if c = CR then cgo PARSE_EXPECTING_LF_AFTER_CHUNK_SIZE p chunks s
      else if c = SP \<or> c = TAB then cgo PARSE_EXPECTING_CR_AFTER_CHUNK_SIZE p chunks s
      else if c = CHR '';'' then cgo PARSE_EXPECTING_IGNORED_TEXT_AFTER_CHUNK_SIZE p chunks s
      else chunk_error p chunks s)"
| "chunk_switch PARSE_EXPECTING_IGNORED_TEXT_AFTER_CHUNK_SIZE c p chunks s =
     (if c = CR then cgo PARSE_EXPECTING_LF_AFTER_CHUNK_SIZE p chunks s else (C_More, p, chunks, s))"
| "chunk_switch PARSE_EXPECTING_CR_AFTER_CHUNK_SIZE c p chunks s =
     (if c = CR then cgo PARSE_EXPECTING_LF_AFTER_CHUNK_SIZE p chunks s
      else if c = SP \<or> c = TAB then (C_More, p, chunks, s)
      else chunk_error p chunks s)"
| "chunk_switch PARSE_EXPECTING_LF_AFTER_CHUNK_SIZE c p chunks s =
     (if c = LF then
        (let n = nat (strtol 16 (m_chunk_size_str p));
             p = p\<lparr>m_bytes_read_in_current_chunk := 0, m_size_of_current_chunk := n\<rparr>
         in if n = 0 then cgo PARSE_EXPECTING_FINAL_CR_OR_FOOTERS_AFTER_LAST_CHUNK p chunks s
            else cgo PARSE_CHUNK p chunks s)
      else chunk_error p chunks s)"
| "chunk_switch PARSE_CHUNK c p chunks s =
     (let (p, chunks, s) = chunk_data p chunks s
      in if m_bytes_read_in_current_chunk p = m_size_of_current_chunk p
         then cgo PARSE_EXPECTING_CR_AFTER_CHUNK p chunks s else (C_More, p, chunks, s))"
| "chunk_switch PARSE_EXPECTING_CR_AFTER_CHUNK c p chunks s =
     (if c = CR then cgo PARSE_EXPECTING_LF_AFTER_CHUNK p chunks s else chunk_error p chunks s)"
| "chunk_switch PARSE_EXPECTING_LF_AFTER_CHUNK c p chunks s =
     (if c = LF then cgo PARSE_CHUNK_SIZE_START p chunks s else chunk_error p chunks s)"
| "chunk_switch PARSE_EXPECTING_FINAL_CR_OR_FOOTERS_AFTER_LAST_CHUNK c p chunks s =
     (if c = CR then cgo PARSE_EXPECTING_FINAL_LF_AFTER_LAST_CHUNK p chunks s
      else (C_Done False, p\<lparr>m_message_parse_state := PARSE_FOOTERS,
              m_headers_parse_state := PARSE_HEADER_START\<rparr>, chunks, s))"
| "chunk_switch PARSE_EXPECTING_FINAL_LF_AFTER_LAST_CHUNK c p chunks s =
     (if c = LF then (C_Done True, p, chunks, s) else chunk_error p chunks s)"

lemma chunk_data_shorter: "length (snd (snd (chunk_data p chunks s))) \<le> length s"
  by (auto simp: chunk_data_def Let_def)

lemma chunk_switch_shorter:
  "chunk_switch st c p chunks s = (r, p', chunks', s') \<Longrightarrow> length s' \<le> length s"
  using chunk_data_shorter [of p chunks s]
  by (cases st) (auto simp: chunk_error_def Let_def split: if_splits prod.splits)

function chunks_loop :: "parser \<Rightarrow> string \<Rightarrow> string \<Rightarrow> tribool \<times> error_value_t option \<times> parser \<times> string \<times> string" where
  "chunks_loop p chunks [] = (indeterminate_value, None, p, chunks, [])"
| "chunks_loop p chunks (c # s) =
     (case chunk_switch (m_chunked_content_parse_state p) c p chunks (c # s) of
        (C_More, p, chunks, s') \<Rightarrow> chunks_loop p chunks (tl s')
      | (C_Done consumed, p, chunks, s') \<Rightarrow> (true_value, None, p, chunks, if consumed then tl s' else s')
      | (C_Error e, p, chunks, s') \<Rightarrow> (false_value, Some e, p, chunks, s'))"
  by pat_completeness auto
termination
  by (relation "measure (\<lambda>(p, chunks, s). length s)") (auto dest: chunk_switch_shorter [OF sym])

definition parse_chunks ::
  "parser \<Rightarrow> string \<Rightarrow> tribool \<times> error_value_t option \<times> parser \<times> string" where
  "parse_chunks p chunks =
     (let (rc, ec, p', chunks, rest) = chunks_loop (p\<lparr>m_bytes_last_read := 0\<rparr>) chunks (m_read p);
          p' = p'\<lparr>m_read := rest\<rparr>
      in if rc = false_value then (rc, ec, p', chunks)
         else (let n = length (m_read p) - length rest
               in (rc, ec, p'\<lparr>m_bytes_last_read := n,
                     m_bytes_total_read := szadd (m_bytes_total_read p') n,
                     m_bytes_content_read := szadd (m_bytes_content_read p') n\<rparr>, chunks)))"

section \<open>Content of known and of unknown length\<close>

definition consume_content :: "parser \<Rightarrow> http_message \<Rightarrow> fault + tribool \<times> parser \<times> http_message" where
  "consume_content p m =
     (if m_bytes_content_remaining p = 0 then Inr (true_value, p, m)
      else
        (let avail = bytes_available p;
             enough = (m_bytes_content_remaining p \<le> avail);
             n = (if enough then m_bytes_content_remaining p else avail);
             rc = (if enough then true_value else indeterminate_value);
             bytes = take n (m_read p);
             pos = m_bytes_content_read p;
             p1 = p\<lparr>m_bytes_content_remaining := m_bytes_content_remaining p - n\<rparr>;
             r = (if m_payload_handler p then
                    Some (p1\<lparr>m_payload_log := m_payload_log p @ [bytes]\<rparr>, m)
                  else if pos < m_max_content_length p then
                    map_option (\<lambda>buf. (p1, m\<lparr>msg_content_buf := buf\<rparr>))
                      (buf_write pos
                         (if m_max_content_length p < szadd pos n
                          then take (m_max_content_length p - pos) bytes else bytes)
                         (msg_content_buf m))
                  else Some (p1, m))
         in case r of
              None \<Rightarrow> Inl Bad_write
            | Some (p2, m2) \<Rightarrow>
                Inr (rc, p2\<lparr>m_read := drop n (m_read p), m_bytes_content_read := szadd pos n,
                            m_bytes_total_read := szadd (m_bytes_total_read p) n,
                            m_bytes_last_read := n\<rparr>, m2)))"

definition consume_content_as_next_chunk :: "parser \<Rightarrow> string \<Rightarrow> parser \<times> string" where
  "consume_content_as_next_chunk p chunks =
     (if bytes_available p = 0 then (p\<lparr>m_bytes_last_read := 0\<rparr>, chunks)
      else
        (let n = length (m_read p);
             (p1, chunks1) =
               (if m_payload_handler p then (p\<lparr>m_payload_log := m_payload_log p @ [m_read p]\<rparr>, chunks)
                else (p, chunks @ take (m_max_content_length p - length chunks) (m_read p)))
         in (p1\<lparr>m_read := [], m_bytes_last_read := n,
                m_bytes_total_read := szadd (m_bytes_total_read p) n,
                m_bytes_content_read := szadd (m_bytes_content_read p) n\<rparr>, chunks1)))"

section \<open>Finishing a message\<close>

definition compute_msg_status :: "bool \<Rightarrow> http_message \<Rightarrow> http_message" where
  "compute_msg_status msg_parsed_ok m =
     m\<lparr>msg_status :=
        (if msg_has_missing_packets m then
           (if msg_has_data_after_missing m then STATUS_PARTIAL else STATUS_TRUNCATED)
         else if msg_parsed_ok then STATUS_OK else STATUS_TRUNCATED)\<rparr>"

definition finish_state :: "parser \<Rightarrow> http_message \<Rightarrow> http_message" where
  "finish_state p m =
     (case m_message_parse_state p of
        PARSE_START \<Rightarrow> create_content_buffer (set_content_length 0 (m\<lparr>msg_is_valid := False\<rparr>))
      | PARSE_END \<Rightarrow> m\<lparr>msg_is_valid := True\<rparr>
      | PARSE_HEADERS \<Rightarrow>
          create_content_buffer (set_content_length 0
            (update_message_with_header_data p (m\<lparr>msg_is_valid := False\<rparr>)))
      | PARSE_FOOTERS \<Rightarrow>
          create_content_buffer (set_content_length 0
            (update_message_with_header_data p (m\<lparr>msg_is_valid := False\<rparr>)))
      | PARSE_CONTENT \<Rightarrow>
          (let m = m\<lparr>msg_is_valid := False\<rparr>
           in if m_bytes_content_read p < m_max_content_length p
              then set_content_length (m_bytes_content_read p) m else m)
      | PARSE_CHUNKS \<Rightarrow>
          (let m = m\<lparr>msg_is_valid := (m_chunked_content_parse_state p = PARSE_CHUNK_SIZE_START)\<rparr>
           in if \<not> m_payload_handler p then concatenate_chunks m else m)
      | PARSE_CONTENT_NO_LENGTH \<Rightarrow>
          (let m = m\<lparr>msg_is_valid := True\<rparr>
           in if \<not> m_payload_handler p then concatenate_chunks m else m))"

definition finish_form_data :: "http_message \<Rightarrow> fault + http_message" where
  "finish_form_data m =
     (let content_type_header = get_header m HEADER_CONTENT_TYPE
      in if starts_with content_type_header CONTENT_TYPE_URLENCODED then
           Inr (m\<lparr>req_query_params := snd (parse_url_encoded (content_bytes m) (req_query_params m))\<rparr>)
         else if starts_with content_type_header CONTENT_TYPE_MULTIPART_FORM_DATA then
           (case parse_multipart_form_data content_type_header (content_bytes m) (req_query_params m) of
              Inl e \<Rightarrow> Inl e
            | Inr (_, dict) \<Rightarrow> Inr (m\<lparr>req_query_params := dict\<rparr>))
         else Inr m)"

definition finish :: "parser \<Rightarrow> http_message \<Rightarrow> fault + http_message" where
  "finish p m =
     (let m = finish_state p m
      in if m_message_parse_state p = PARSE_START then Inr m
         else
           (let m = compute_msg_status (msg_is_valid m) m
            in if m_is_request p \<and> \<not> m_payload_handler p \<and> \<not> m_parse_headers_only p
               then finish_form_data m else Inr m))"

section \<open>The parse loop\<close>

text \<open>
  One turn of the loop: the bytes it adds to \<^verbatim>\<open>total_bytes_parsed\<close>, the value of \<^verbatim>\<open>rc\<close>, the error
  code if one was set, and the new state. \<^verbatim>\<open>rc\<close> is not assigned in the state
  \<^const>\<open>PARSE_CONTENT_NO_LENGTH\<close> and keeps the value \<^verbatim>\<open>indeterminate\<close> with which the loop goes on.
\<close>

type_synonym parse_result = "tribool \<times> error_value_t option \<times> parser \<times> http_message"

definition parse_switch :: "parser \<Rightarrow> http_message \<Rightarrow> fault + nat \<times> parse_result" where
  "parse_switch p m =
     (case m_message_parse_state p of
        PARSE_CHUNKS \<Rightarrow>
          (let (rc, ec, p, chunks) = parse_chunks p (msg_chunk_cache m);
               m = m\<lparr>msg_chunk_cache := chunks\<rparr>
           in Inr (m_bytes_last_read p,
                if rc = true_value \<and> \<not> m_payload_handler p then
                  (if m_message_parse_state p = PARSE_FOOTERS then indeterminate_value else true_value,
                   ec, p, concatenate_chunks m)
                else (rc, ec, p, m)))
      | PARSE_CONTENT \<Rightarrow>
          (case consume_content p m of
             Inl e \<Rightarrow> Inl e
           | Inr (rc, p, m) \<Rightarrow> Inr (m_bytes_last_read p, rc, None, p, m))
      | PARSE_CONTENT_NO_LENGTH \<Rightarrow>
          (let (p, chunks) = consume_content_as_next_chunk p (msg_chunk_cache m)
           in Inr (m_bytes_last_read p, indeterminate_value, None, p, m\<lparr>msg_chunk_cache := chunks\<rparr>))
      | PARSE_END \<Rightarrow> Inr (0, true_value, None, p, m)
      | _ \<Rightarrow>
          (let p = (if m_message_parse_state p = PARSE_START
                    then p\<lparr>m_message_parse_state := PARSE_HEADERS\<rparr> else p);
               (rc, ec, p, m) = parse_headers p m
           in Inr (m_bytes_last_read p,
                if rc = true_value \<and> m_message_parse_state p = PARSE_HEADERS
                then finish_header_parsing p m else (rc, ec, p, m))))"

section \<open>Termination of the parse loop\<close>

lemma headers_loop_indeterminate:
  "headers_loop p m s = (rc, ec, p', m', rest) \<Longrightarrow> rc = indeterminate_value \<Longrightarrow> rest = []"
  by (induction p m s rule: headers_loop.induct) (auto split: prod.splits hstep.splits)

lemma chunks_loop_indeterminate:
  "chunks_loop p ch s = (rc, ec, p', ch', rest) \<Longrightarrow> rc = indeterminate_value \<Longrightarrow> rest = []"
  by (induction p ch s rule: chunks_loop.induct) (auto split: prod.splits cstep.splits)

text \<open>What the header state machine leaves alone.\<close>

definition header_frame :: "parser \<Rightarrow> parser \<Rightarrow> bool" where
  "header_frame p p' =
     (m_is_request p' = m_is_request p \<and> m_read p' = m_read p \<and>
      m_message_parse_state p' = m_message_parse_state p \<and>
      m_chunked_content_parse_state p' = m_chunked_content_parse_state p \<and>
      m_payload_handler p' = m_payload_handler p \<and> m_payload_log p' = m_payload_log p \<and>
      m_chunk_size_str p' = m_chunk_size_str p \<and>
      m_size_of_current_chunk p' = m_size_of_current_chunk p \<and>
      m_bytes_read_in_current_chunk p' = m_bytes_read_in_current_chunk p \<and>
      m_bytes_content_remaining p' = m_bytes_content_remaining p \<and>
      m_bytes_content_read p' = m_bytes_content_read p \<and>
      m_bytes_last_read p' = m_bytes_last_read p \<and> m_bytes_total_read p' = m_bytes_total_read p \<and>
      m_max_content_length p' = m_max_content_length p \<and>
      m_parse_headers_only p' = m_parse_headers_only p \<and> m_save_raw_headers p' = m_save_raw_headers p)"

lemma header_frame_refl [simp]: "header_frame p p"
  by (simp add: header_frame_def)

lemma header_frame_trans: "header_frame p q \<Longrightarrow> header_frame q r \<Longrightarrow> header_frame p r"
  by (simp add: header_frame_def)

lemma header_frame_updates [simp]:
  "header_frame p (q\<lparr>m_headers_parse_state := st\<rparr>) = header_frame p q"
  "header_frame p (q\<lparr>m_method := s\<rparr>) = header_frame p q"
  "header_frame p (q\<lparr>m_resource := s\<rparr>) = header_frame p q"
  "header_frame p (q\<lparr>m_query_string := s\<rparr>) = header_frame p q"
  "header_frame p (q\<lparr>m_status_code := w\<rparr>) = header_frame p q"
  "header_frame p (q\<lparr>m_status_message := s\<rparr>) = header_frame p q"
  "header_frame p (q\<lparr>m_header_name := s\<rparr>) = header_frame p q"
  "header_frame p (q\<lparr>m_header_value := s\<rparr>) = header_frame p q"
  "header_frame p (q\<lparr>m_raw_headers := s\<rparr>) = header_frame p q"
  by (simp_all add: header_frame_def)

lemma step_frames:
  "header_frame p (fst (snd (step_request_line st c p m)))"
  "header_frame p (fst (snd (step_version st c p m)))"
  "header_frame p (fst (snd (step_status st c p m)))"
  "header_frame p (fst (snd (step_newline st c p m)))"
  "header_frame p (fst (snd (step_header st c p m)))"
  by (cases st; simp add: first_name_char_def)+

lemma header_step_frame: "header_frame p (fst (snd (header_step c p m)))"
proof -
  define q where "q = (if m_save_raw_headers p then p\<lparr>m_raw_headers := m_raw_headers p @ [c]\<rparr> else p)"
  have "header_frame p q" by (simp add: q_def)
  moreover have "header_frame q (fst (snd (header_step c p m)))"
    by (simp add: header_step_def Let_def q_def [symmetric] step_frames)
  ultimately show ?thesis by (rule header_frame_trans)
qed

lemma headers_loop_frame: "headers_loop p m s = (rc, ec, p', m', rest) \<Longrightarrow> header_frame p p'"
proof (induction p m s rule: headers_loop.induct)
  case (2 p m c s)
  obtain r p1 m1 where r: "header_step c p m = (r, p1, m1)" by (metis prod_cases3)
  then have "header_frame p p1" using header_step_frame [of p c m] by simp
  with 2 r show ?case by (cases r) (auto intro: header_frame_trans)
qed simp

lemma parse_headers_state:
  "parse_headers p m = (rc, ec, p', m') \<Longrightarrow> m_message_parse_state p' = m_message_parse_state p"
  using headers_loop_frame [of "p\<lparr>m_bytes_last_read := 0\<rparr>" m "m_read p"]
  by (auto simp: parse_headers_def header_frame_def Let_def split: prod.splits if_splits)

fun state_rank :: "message_parse_state_t \<Rightarrow> nat" where
  "state_rank PARSE_START = 3" | "state_rank PARSE_HEADERS = 3" | "state_rank PARSE_CHUNKS = 2"
| "state_rank PARSE_FOOTERS = 1" | "state_rank PARSE_CONTENT = 1"
| "state_rank PARSE_CONTENT_NO_LENGTH = 1" | "state_rank PARSE_END = 0"

lemma parse_headers_indeterminate:
  "parse_headers p m = (indeterminate_value, ec, p', m') \<Longrightarrow> m_read p' = []"
  using headers_loop_indeterminate [of "p\<lparr>m_bytes_last_read := 0\<rparr>" m "m_read p"]
  by (auto simp: parse_headers_def Let_def split: prod.splits if_splits)

lemma parse_chunks_indeterminate:
  "parse_chunks p ch = (indeterminate_value, ec, p', ch') \<Longrightarrow> m_read p' = []"
  using chunks_loop_indeterminate [of "p\<lparr>m_bytes_last_read := 0\<rparr>" ch "m_read p"]
  by (auto simp: parse_chunks_def Let_def split: prod.splits if_splits)

lemma finish_header_parsing_rank:
  "finish_header_parsing p m = (indeterminate_value, ec, p', m') \<Longrightarrow>
   state_rank (m_message_parse_state p') < 3"
  by (auto simp: finish_header_parsing_def Let_def split: if_splits option.splits)

lemma parse_switch_rank:
  assumes "parse_switch p m = Inr (n, indeterminate_value, ec, p', m')" and "\<not> eof p'"
  shows "state_rank (m_message_parse_state p') < state_rank (m_message_parse_state p)"
proof (cases "m_message_parse_state p")
  case PARSE_CHUNKS
  obtain rc ec1 p1 ch where r: "parse_chunks p (msg_chunk_cache m) = (rc, ec1, p1, ch)"
    by (metis prod_cases4)
  have "m_message_parse_state p' = PARSE_FOOTERS"
    using assms parse_chunks_indeterminate [of p "msg_chunk_cache m"] PARSE_CHUNKS r
    by (auto simp: parse_switch_def eof_def Let_def split: if_splits)
  then show ?thesis using PARSE_CHUNKS by simp
next
  case PARSE_CONTENT
  then have "m_read p' = []"
    using assms by (auto simp: parse_switch_def consume_content_def Let_def bytes_available_def eof_def
        split: if_splits sum.splits option.splits prod.splits)
  then show ?thesis using assms(2) by (simp add: eof_def)
next
  case PARSE_CONTENT_NO_LENGTH
  then have "m_read p' = []"
    using assms by (auto simp: parse_switch_def consume_content_as_next_chunk_def Let_def
        bytes_available_def eof_def split: if_splits prod.splits)
  then show ?thesis using assms(2) by (simp add: eof_def)
next
  case PARSE_END
  then show ?thesis using assms by (simp add: parse_switch_def)
next
  case PARSE_START
  then show ?thesis
    using assms parse_headers_indeterminate [of "p\<lparr>m_message_parse_state := PARSE_HEADERS\<rparr>" m]
      finish_header_parsing_rank
    by (fastforce simp: parse_switch_def eof_def Let_def split: if_splits prod.splits)
next
  case PARSE_HEADERS
  then show ?thesis
    using assms parse_headers_indeterminate [of p m] finish_header_parsing_rank
    by (fastforce simp: parse_switch_def eof_def Let_def split: if_splits prod.splits)
next
  case PARSE_FOOTERS
  obtain rc ec1 p1 m1 where r: "parse_headers p m = (rc, ec1, p1, m1)" by (metis prod_cases4)
  have "m_read p' = []"
    using assms parse_headers_indeterminate [of p m] PARSE_FOOTERS r parse_headers_state [OF r]
    by (auto simp: parse_switch_def eof_def Let_def)
  then show ?thesis using assms(2) by (simp add: eof_def)
qed

function parse_loop :: "parser \<Rightarrow> http_message \<Rightarrow> nat \<Rightarrow> fault + nat \<times> parse_result" where
  "parse_loop p m total_bytes_parsed =
     (case parse_switch p m of
        Inl e \<Rightarrow> Inl e
      | Inr (n, rc, ec, p', m') \<Rightarrow>
          if rc = indeterminate_value \<and> \<not> eof p' then parse_loop p' m' (szadd total_bytes_parsed n)
          else Inr (szadd total_bytes_parsed n, rc, ec, p', m'))"
  by pat_completeness auto
termination
  by (relation "measure (\<lambda>(p, m, n). state_rank (m_message_parse_state p))")
    (use parse_switch_rank in auto)

declare parse_loop.simps [simp del]

definition parse_end :: "tribool \<Rightarrow> parser \<Rightarrow> http_message \<Rightarrow> fault + parser \<times> http_message" where
  "parse_end rc p m =
     (if rc = true_value then
        (let p = p\<lparr>m_message_parse_state := PARSE_END\<rparr>
         in case finish p m of Inl e \<Rightarrow> Inl e | Inr m \<Rightarrow> Inr (p, m))
      else if rc = false_value then Inr (p, compute_msg_status False m)
      else Inr (p, m))"

definition parse :: "parser \<Rightarrow> http_message \<Rightarrow> fault + parse_result" where
  "parse p m =
     (let m = (if msg_has_missing_packets m then m\<lparr>msg_has_data_after_missing := True\<rparr> else m)
      in case parse_loop p m 0 of
           Inl e \<Rightarrow> Inl e
         | Inr (total_bytes_parsed, rc, ec, p, m) \<Rightarrow>
             (case parse_end rc p m of
                Inl e \<Rightarrow> Inl e
              | Inr (p, m) \<Rightarrow> Inr (rc, ec, p\<lparr>m_bytes_last_read := total_bytes_parsed\<rparr>, m)))"

section \<open>Missing data and the end of the input\<close>

definition MISSING_DATA_CHAR :: char where "MISSING_DATA_CHAR = CHR ''X''"

definition missing_bytes :: "nat \<Rightarrow> string" where
  "missing_bytes len = replicate len MISSING_DATA_CHAR"

text \<open>The handler is called once per missing byte; the chunk cache takes what still fits.\<close>

definition missing_to_chunks :: "nat \<Rightarrow> parser \<Rightarrow> http_message \<Rightarrow> parser \<times> http_message" where
  "missing_to_chunks len p m =
     (if m_payload_handler p then
        (p\<lparr>m_payload_log := m_payload_log p @ replicate len [MISSING_DATA_CHAR]\<rparr>, m)
      else (p, m\<lparr>msg_chunk_cache := msg_chunk_cache m @
                   take (m_max_content_length p - length (msg_chunk_cache m)) (missing_bytes len)\<rparr>))"

definition missing_chunk :: "nat \<Rightarrow> parser \<Rightarrow> http_message \<Rightarrow> parse_result" where
  "missing_chunk len p m =
     (if m_chunked_content_parse_state p = PARSE_CHUNK
         \<and> m_bytes_read_in_current_chunk p < m_size_of_current_chunk p
         \<and> len \<le> m_size_of_current_chunk p - m_bytes_read_in_current_chunk p then
        (let (p, m) = missing_to_chunks len p m;
             p = p\<lparr>m_bytes_read_in_current_chunk := m_bytes_read_in_current_chunk p + len,
                   m_bytes_last_read := len,
                   m_bytes_total_read := szadd (m_bytes_total_read p) len,
                   m_bytes_content_read := szadd (m_bytes_content_read p) len\<rparr>;
             p = (if m_bytes_read_in_current_chunk p = m_size_of_current_chunk p
                  then p\<lparr>m_chunked_content_parse_state := PARSE_EXPECTING_CR_AFTER_CHUNK\<rparr> else p)
         in (indeterminate_value, None, p, m))
      else (false_value, Some ERROR_MISSING_CHUNK_DATA, p, m))"

definition missing_content :: "nat \<Rightarrow> parser \<Rightarrow> http_message \<Rightarrow> fault + parse_result" where
  "missing_content len p m =
     (if m_bytes_content_remaining p = 0 then Inr (true_value, None, p, m)
      else if m_bytes_content_remaining p < len then
        Inr (false_value, Some ERROR_MISSING_TOO_MUCH_CONTENT, p, m)
      else
        (let pos = m_bytes_content_read p;
             r = (if m_payload_handler p then
                    Some (p\<lparr>m_payload_log := m_payload_log p @ replicate len [MISSING_DATA_CHAR]\<rparr>, m)
                  else if szadd pos len \<le> m_max_content_length p then
                    map_option (\<lambda>buf. (p\<lparr>m_bytes_content_read := szadd pos len\<rparr>, m\<lparr>msg_content_buf := buf\<rparr>))
                      (buf_write pos (missing_bytes len) (msg_content_buf m))
                  else Some (p\<lparr>m_bytes_content_read := szadd pos len\<rparr>, m))
         in case r of
              None \<Rightarrow> Inl Bad_write
            | Some (p, m) \<Rightarrow>
                (let p = p\<lparr>m_bytes_content_remaining := m_bytes_content_remaining p - len,
                           m_bytes_total_read := szadd (m_bytes_total_read p) len,
                           m_bytes_last_read := len\<rparr>
                 in Inr (if m_bytes_content_remaining p = 0 then true_value else indeterminate_value,
                         None, p, m))))"

definition parse_missing_data :: "parser \<Rightarrow> http_message \<Rightarrow> nat \<Rightarrow> fault + parse_result" where
  "parse_missing_data p m len =
     (let m = m\<lparr>msg_has_missing_packets := True\<rparr>;
          r = (case m_message_parse_state p of
                 PARSE_CHUNKS \<Rightarrow> Inr (missing_chunk len p m)
               | PARSE_CONTENT \<Rightarrow> missing_content len p m
               | PARSE_CONTENT_NO_LENGTH \<Rightarrow>
                   (let (p, m) = missing_to_chunks len p m
                    in Inr (indeterminate_value, None,
                         p\<lparr>m_bytes_last_read := len,
                           m_bytes_total_read := szadd (m_bytes_total_read p) len,
                           m_bytes_content_read := szadd (m_bytes_content_read p) len\<rparr>, m))
               | PARSE_END \<Rightarrow> Inr (true_value, None, p, m)
               | _ \<Rightarrow> Inr (false_value, Some ERROR_MISSING_HEADER_DATA, p, m))
      in case r of
           Inl e \<Rightarrow> Inl e
         | Inr (rc, ec, p, m) \<Rightarrow>
             (case parse_end rc p m of
                Inl e \<Rightarrow> Inl e
              | Inr (p, m) \<Rightarrow> Inr (rc, ec, p, m)))"

definition check_premature_eof :: "parser \<Rightarrow> http_message \<Rightarrow> fault + bool \<times> parser \<times> http_message" where
  "check_premature_eof p m =
     (if m_message_parse_state p \<noteq> PARSE_CONTENT_NO_LENGTH then Inr (True, p, m)
      else
        (let p = p\<lparr>m_message_parse_state := PARSE_END\<rparr>
         in case finish p (concatenate_chunks m) of
              Inl e \<Rightarrow> Inl e
            | Inr m \<Rightarrow> Inr (False, p, m)))"

definition skip_header_parsing :: "parser \<Rightarrow> http_message \<Rightarrow> parser \<times> http_message" where
  "skip_header_parsing p m =
     (case finish_header_parsing p m of (rc, ec, p, m) \<Rightarrow> (p, m))"

end
