(* ===== verification/Parser_Turns.thy ===== *)
theory Parser_Turns
  imports Http_Parser
begin

text \<open>
  Lemmas on one turn of the parse loop: the bookkeeping fields do not influence the state machines,
  and every parsing function gives the same result on one buffer as on the two halves of it, up to
  the counters. The theory \<open>Parser_Props\<close> lifts this to the loop.
\<close>

section \<open>Bookkeeping fields do not influence the state machines\<close>

definition rebook :: "string \<Rightarrow> nat \<Rightarrow> nat \<Rightarrow> nat \<Rightarrow> parser \<Rightarrow> parser" where
  "rebook rd l t r p =
     p\<lparr>m_read := rd, m_bytes_last_read := l, m_bytes_total_read := t, m_bytes_content_read := r\<rparr>"

lemma rebook_fields [simp]:
  "m_is_request (rebook rd l t r p) = m_is_request p" "m_read (rebook rd l t r p) = rd"
  "m_message_parse_state (rebook rd l t r p) = m_message_parse_state p"
  "m_headers_parse_state (rebook rd l t r p) = m_headers_parse_state p"
  "m_chunked_content_parse_state (rebook rd l t r p) = m_chunked_content_parse_state p"
  "m_payload_handler (rebook rd l t r p) = m_payload_handler p"
  "m_payload_log (rebook rd l t r p) = m_payload_log p"
  "m_status_code (rebook rd l t r p) = m_status_code p"
  "m_status_message (rebook rd l t r p) = m_status_message p" "m_method (rebook rd l t r p) = m_method p"
  "m_resource (rebook rd l t r p) = m_resource p" "m_query_string (rebook rd l t r p) = m_query_string p"
  "m_raw_headers (rebook rd l t r p) = m_raw_headers p"
  "m_header_name (rebook rd l t r p) = m_header_name p"
  "m_header_value (rebook rd l t r p) = m_header_value p"
  "m_chunk_size_str (rebook rd l t r p) = m_chunk_size_str p"
  "m_size_of_current_chunk (rebook rd l t r p) = m_size_of_current_chunk p"
  "m_bytes_read_in_current_chunk (rebook rd l t r p) = m_bytes_read_in_current_chunk p"
  "m_bytes_content_remaining (rebook rd l t r p) = m_bytes_content_remaining p"
  "m_bytes_content_read (rebook rd l t r p) = r" "m_bytes_last_read (rebook rd l t r p) = l"
  "m_bytes_total_read (rebook rd l t r p) = t"
  "m_max_content_length (rebook rd l t r p) = m_max_content_length p"
  "m_parse_headers_only (rebook rd l t r p) = m_parse_headers_only p"
  "m_save_raw_headers (rebook rd l t r p) = m_save_raw_headers p"
  "rebook rd l t r (rebook rd' l' t' r' p) = rebook rd l t r p"
  by (simp_all add: rebook_def)

lemma rebook_updates [simp]:
  "(rebook rd l t r p)\<lparr>m_headers_parse_state := x1\<rparr> = rebook rd l t r (p\<lparr>m_headers_parse_state := x1\<rparr>)"
  "(rebook rd l t r p)\<lparr>m_method := s\<rparr> = rebook rd l t r (p\<lparr>m_method := s\<rparr>)"
  "(rebook rd l t r p)\<lparr>m_resource := s\<rparr> = rebook rd l t r (p\<lparr>m_resource := s\<rparr>)"
  "(rebook rd l t r p)\<lparr>m_query_string := s\<rparr> = rebook rd l t r (p\<lparr>m_query_string := s\<rparr>)"
  "(rebook rd l t r p)\<lparr>m_status_code := w\<rparr> = rebook rd l t r (p\<lparr>m_status_code := w\<rparr>)"
  "(rebook rd l t r p)\<lparr>m_status_message := s\<rparr> = rebook rd l t r (p\<lparr>m_status_message := s\<rparr>)"
  "(rebook rd l t r p)\<lparr>m_header_name := s\<rparr> = rebook rd l t r (p\<lparr>m_header_name := s\<rparr>)"
  "(rebook rd l t r p)\<lparr>m_header_value := s\<rparr> = rebook rd l t r (p\<lparr>m_header_value := s\<rparr>)"
  "(rebook rd l t r p)\<lparr>m_raw_headers := s\<rparr> = rebook rd l t r (p\<lparr>m_raw_headers := s\<rparr>)"
  "(rebook rd l t r p)\<lparr>m_message_parse_state := x2\<rparr> = rebook rd l t r (p\<lparr>m_message_parse_state := x2\<rparr>)"
  "(rebook rd l t r p)\<lparr>m_chunked_content_parse_state := x3\<rparr> = rebook rd l t r (p\<lparr>m_chunked_content_parse_state := x3\<rparr>)"
  "(rebook rd l t r p)\<lparr>m_chunk_size_str := s\<rparr> = rebook rd l t r (p\<lparr>m_chunk_size_str := s\<rparr>)"
  "(rebook rd l t r p)\<lparr>m_size_of_current_chunk := n\<rparr> = rebook rd l t r (p\<lparr>m_size_of_current_chunk := n\<rparr>)"
  "(rebook rd l t r p)\<lparr>m_bytes_read_in_current_chunk := n\<rparr> = rebook rd l t r (p\<lparr>m_bytes_read_in_current_chunk := n\<rparr>)"
  "(rebook rd l t r p)\<lparr>m_bytes_content_remaining := n\<rparr> = rebook rd l t r (p\<lparr>m_bytes_content_remaining := n\<rparr>)"
  "(rebook rd l t r p)\<lparr>m_payload_log := ss\<rparr> = rebook rd l t r (p\<lparr>m_payload_log := ss\<rparr>)"
  "(rebook rd l t r p)\<lparr>m_read := rd'\<rparr> = rebook rd' l t r p"
  "(rebook rd l t r p)\<lparr>m_bytes_last_read := l'\<rparr> = rebook rd l' t r p"
  "(rebook rd l t r p)\<lparr>m_bytes_total_read := t'\<rparr> = rebook rd l t' r p"
  "(rebook rd l t r p)\<lparr>m_bytes_content_read := r'\<rparr> = rebook rd l t r' p"
  by (simp_all add: rebook_def)

lemma rebook_id: "rebook (m_read p) (m_bytes_last_read p) (m_bytes_total_read p) (m_bytes_content_read p) p = p"
  by (simp add: rebook_def)

lemma step_rebook:
  "step_request_line st c (rebook rd l t r p) m =
     (case step_request_line st c p m of (h, q, n) \<Rightarrow> (h, rebook rd l t r q, n))"
  "step_version st c (rebook rd l t r p) m =
     (case step_version st c p m of (h, q, n) \<Rightarrow> (h, rebook rd l t r q, n))"
  "step_status st c (rebook rd l t r p) m =
     (case step_status st c p m of (h, q, n) \<Rightarrow> (h, rebook rd l t r q, n))"
  "step_newline st c (rebook rd l t r p) m =
     (case step_newline st c p m of (h, q, n) \<Rightarrow> (h, rebook rd l t r q, n))"
  "step_header st c (rebook rd l t r p) m =
     (case step_header st c p m of (h, q, n) \<Rightarrow> (h, rebook rd l t r q, n))"
  by (cases st; simp add: first_name_char_def)+

lemma header_step_rebook:
  "header_step c (rebook rd l t r p) m =
     (case header_step c p m of (h, q, n) \<Rightarrow> (h, rebook rd l t r q, n))"
proof -
  define q where "q = (if m_save_raw_headers p then p\<lparr>m_raw_headers := m_raw_headers p @ [c]\<rparr> else p)"
  have "(if m_save_raw_headers (rebook rd l t r p)
         then (rebook rd l t r p)\<lparr>m_raw_headers := m_raw_headers (rebook rd l t r p) @ [c]\<rparr>
         else rebook rd l t r p) = rebook rd l t r q" by (simp add: q_def)
  then show ?thesis
    unfolding header_step_def Let_def q_def [symmetric] by (simp add: step_rebook split: prod.splits)
qed

lemma headers_loop_rebook:
  "headers_loop (rebook rd l t r p) m s =
     (case headers_loop p m s of (rc, ec, q, n, rest) \<Rightarrow> (rc, ec, rebook rd l t r q, n, rest))"
  by (induction p m s rule: headers_loop.induct)
    (auto simp: header_step_rebook split: prod.splits hstep.splits)

lemma headers_loop_append:
  "headers_loop p m (xs @ ys) =
     (case headers_loop p m xs of (rc, ec, q, n, rest) \<Rightarrow>
        if rc = indeterminate_value then headers_loop q n ys else (rc, ec, q, n, rest @ ys))"
  by (induction p m xs rule: headers_loop.induct) (auto split: prod.splits hstep.splits)

lemma chunk_switch_no_handler:
  assumes "\<not> m_payload_handler p"
  shows "chunk_switch st c p ch (c # s) =
     (case chunk_switch st c p ch [c] of (h, q, ch', _) \<Rightarrow> (h, q, ch', c # s))"
    and "m_payload_handler (fst (snd (chunk_switch st c p ch (c # s)))) = m_payload_handler p"
  using assms by (cases st; auto simp: chunk_error_def chunk_data_def Let_def)+

lemma chunk_switch_rebook:
  assumes "\<not> m_payload_handler p"
  shows "chunk_switch st c (rebook rd l t r p) ch (c # s) =
     (case chunk_switch st c p ch (c # s) of (h, q, ch', s') \<Rightarrow> (h, rebook rd l t r q, ch', s'))"
  using assms by (cases st) (auto simp: chunk_error_def chunk_data_def Let_def)

lemma chunks_loop_no_handler:
  "chunks_loop p ch s = (rc, ec, q, ch', rest) \<Longrightarrow> \<not> m_payload_handler p \<Longrightarrow> \<not> m_payload_handler q"
proof (induction p ch s rule: chunks_loop.induct)
  case (2 p ch c s)
  obtain h p1 ch1 s1 where h: "chunk_switch (m_chunked_content_parse_state p) c p ch (c # s) = (h, p1, ch1, s1)"
    by (metis prod_cases4)
  then have "\<not> m_payload_handler p1"
    using chunk_switch_no_handler(2) [OF 2(3), of "m_chunked_content_parse_state p" c ch s] 2(3) by simp
  then show ?case using 2 h by (cases h) auto
qed simp

lemma chunks_loop_rebook:
  "\<not> m_payload_handler p \<Longrightarrow> chunks_loop (rebook rd l t r p) ch s =
     (case chunks_loop p ch s of (rc, ec, q, ch', rest) \<Rightarrow> (rc, ec, rebook rd l t r q, ch', rest))"
proof (induction p ch s rule: chunks_loop.induct)
  case (2 p ch c s)
  obtain h p1 ch1 s1 where h: "chunk_switch (m_chunked_content_parse_state p) c p ch (c # s) = (h, p1, ch1, s1)"
    by (metis prod_cases4)
  then have "\<not> m_payload_handler p1"
    using chunk_switch_no_handler(2) [OF 2(2), of "m_chunked_content_parse_state p" c ch s] 2(2) by simp
  then show ?case using 2 h by (cases h) (simp_all add: chunk_switch_rebook)
qed simp

lemma chunks_loop_append:
  "\<not> m_payload_handler p \<Longrightarrow> chunks_loop p ch (xs @ ys) =
     (case chunks_loop p ch xs of (rc, ec, q, ch', rest) \<Rightarrow>
        if rc = indeterminate_value then chunks_loop q ch' ys else (rc, ec, q, ch', rest @ ys))"
proof (induction p ch xs rule: chunks_loop.induct)
  case (2 p ch c s)
  let ?st = "m_chunked_content_parse_state p"
  obtain h p1 ch1 s1 where h: "chunk_switch ?st c p ch [c] = (h, p1, ch1, s1)"
    by (metis prod_cases4)
  have eq: "chunk_switch ?st c p ch (c # u) = (h, p1, ch1, c # u)" for u
    using chunk_switch_no_handler(1) [OF 2(2), of ?st c ch u] h by simp
  then have "\<not> m_payload_handler p1"
    using chunk_switch_no_handler(2) [OF 2(2), of ?st c ch s] 2(2) by simp
  then show ?case using 2 eq by (cases h) simp_all
qed simp

section \<open>One buffer or two: the parsing functions\<close>

text \<open>
  The results of two runs are compared up to the counters: the bytes read by the last call always
  differ, and on an error the code leaves the other two counters at their value before the call.
\<close>

definition core :: "parse_result \<Rightarrow> parse_result" where
  "core res = (case res of (rc, ec, p, m) \<Rightarrow>
     (rc, ec,
      if rc = false_value then p\<lparr>m_bytes_last_read := 0, m_bytes_total_read := 0, m_bytes_content_read := 0\<rparr>
      else p\<lparr>m_bytes_last_read := 0\<rparr>, m))"

abbreviation with_read :: "string \<Rightarrow> parser \<Rightarrow> parser" where
  "with_read s p \<equiv> p\<lparr>m_read := s\<rparr>"

lemma parse_headers_rebook_form:
  "parse_headers p m =
     (case headers_loop p m (m_read p) of (rc, ec, q, n, rest) \<Rightarrow>
        let k = length (m_read p) - length rest in
        if rc = false_value
        then (rc, ec, rebook rest 0 (m_bytes_total_read p) (m_bytes_content_read p) q, n)
        else (rc, ec, rebook rest k (szadd (m_bytes_total_read p) k) (m_bytes_content_read p) q, n))"
proof -
  have p: "p\<lparr>m_bytes_last_read := 0\<rparr> = rebook (m_read p) 0 (m_bytes_total_read p) (m_bytes_content_read p) p"
    by (simp add: rebook_def)
  show ?thesis
    unfolding parse_headers_def p headers_loop_rebook by (auto simp: Let_def split: prod.splits)
qed

lemma headers_loop_rest:
  "headers_loop p m s = (rc, ec, q, n, rest) \<Longrightarrow> length rest \<le> length s"
  by (induction p m s rule: headers_loop.induct) (force split: prod.splits hstep.splits if_splits)+

lemma parse_headers_append_done:
  assumes "parse_headers (with_read xs p) m = (rc, ec, q, n)" and "rc \<noteq> indeterminate_value"
  shows "parse_headers (with_read (xs @ ys) p) m = (rc, ec, with_read (m_read q @ ys) q, n)"
proof -
  have w: "with_read s p = rebook s (m_bytes_last_read p) (m_bytes_total_read p) (m_bytes_content_read p) p" for s
    by (simp add: rebook_def)
  obtain rc1 ec1 q1 n1 rest where l: "headers_loop p m xs = (rc1, ec1, q1, n1, rest)" by (metis prod_cases5)
  show ?thesis
    using assms headers_loop_rest [OF l]
    unfolding parse_headers_rebook_form w headers_loop_rebook rebook_fields headers_loop_append [of p m xs ys] l
    by (auto simp: Let_def split: if_splits)
qed

lemma parse_headers_append_more:
  assumes "parse_headers (with_read xs p) m = (indeterminate_value, ec, q, n)"
  shows "core (parse_headers (with_read (xs @ ys) p) m) = core (parse_headers (with_read ys q) n)"
    and "fst (parse_headers (with_read (xs @ ys) p) m) = fst (parse_headers (with_read ys q) n)"
proof -
  have w: "with_read s p = rebook s (m_bytes_last_read p) (m_bytes_total_read p) (m_bytes_content_read p) p" for s p
    by (simp add: rebook_def)
  obtain rc1 ec1 q1 n1 rest where l: "headers_loop p m xs = (rc1, ec1, q1, n1, rest)" by (metis prod_cases5)
  have r: "rc1 = indeterminate_value" "n = n1"
      "q = rebook [] (length xs) (szadd (m_bytes_total_read p) (length xs)) (m_bytes_content_read p) q1"
    using assms headers_loop_indeterminate [OF l]
    unfolding parse_headers_rebook_form w headers_loop_rebook rebook_fields l
    by (auto simp: Let_def split: if_splits)
  obtain rc2 ec2 q2 n2 rest2 where l2: "headers_loop q1 n1 ys = (rc2, ec2, q2, n2, rest2)" by (metis prod_cases5)
  have len: "length xs + length ys - length rest2 = length xs + (length ys - length rest2)"
    using headers_loop_rest [OF l2] by simp
  show "core (parse_headers (with_read (xs @ ys) p) m) = core (parse_headers (with_read ys q) n)"
    unfolding parse_headers_rebook_form w headers_loop_rebook rebook_fields headers_loop_append [of p m xs ys] l r
    by (simp add: l2 core_def Let_def headers_loop_rebook szadd_assoc len)
  show "fst (parse_headers (with_read (xs @ ys) p) m) = fst (parse_headers (with_read ys q) n)"
    unfolding parse_headers_rebook_form w headers_loop_rebook rebook_fields headers_loop_append [of p m xs ys] l r
    by (simp add: l2 core_def Let_def headers_loop_rebook)
qed

lemma chunks_loop_rest:
  "chunks_loop p ch s = (rc, ec, q, ch', rest) \<Longrightarrow> length rest \<le> length s"
proof (induction p ch s rule: chunks_loop.induct)
  case (2 p ch c s)
  obtain h p1 ch1 s1 where h: "chunk_switch (m_chunked_content_parse_state p) c p ch (c # s) = (h, p1, ch1, s1)"
    by (metis prod_cases4)
  then show ?case using 2 chunk_switch_shorter [OF h] by (cases h) (fastforce split: if_splits)+
qed simp

lemma parse_chunks_rebook_form:
  assumes "\<not> m_payload_handler p"
  shows "parse_chunks p ch =
     (case chunks_loop p ch (m_read p) of (rc, ec, q, ch', rest) \<Rightarrow>
        let k = length (m_read p) - length rest in
        if rc = false_value
        then (rc, ec, rebook rest 0 (m_bytes_total_read p) (m_bytes_content_read p) q, ch')
        else (rc, ec, rebook rest k (szadd (m_bytes_total_read p) k) (szadd (m_bytes_content_read p) k) q, ch'))"
proof -
  have p: "p\<lparr>m_bytes_last_read := 0\<rparr> = rebook (m_read p) 0 (m_bytes_total_read p) (m_bytes_content_read p) p"
    by (simp add: rebook_def)
  show ?thesis
    unfolding parse_chunks_def p chunks_loop_rebook [OF assms] by (auto simp: Let_def split: prod.splits)
qed

lemma with_read_rebook:
  "with_read s p = rebook s (m_bytes_last_read p) (m_bytes_total_read p) (m_bytes_content_read p) p"
  by (simp add: rebook_def)

lemma parse_chunks_append_done:
  assumes "parse_chunks (with_read xs p) ch = (rc, ec, q, ch')" and "rc \<noteq> indeterminate_value"
    and "\<not> m_payload_handler p"
  shows "parse_chunks (with_read (xs @ ys) p) ch = (rc, ec, with_read (m_read q @ ys) q, ch')"
proof -
  obtain rc1 ec1 q1 n1 rest where l: "chunks_loop p ch xs = (rc1, ec1, q1, n1, rest)" by (metis prod_cases5)
  show ?thesis
    using assms(1,2) chunks_loop_rest [OF l] assms(3)
    by (auto simp: parse_chunks_rebook_form with_read_rebook chunks_loop_rebook
        chunks_loop_append [OF assms(3), of ch xs ys] l Let_def split: if_splits)
qed

lemma parse_chunks_append_more:
  assumes "parse_chunks (with_read xs p) ch = (indeterminate_value, ec, q, ch')"
    and "\<not> m_payload_handler p"
  shows "core (map_prod id (map_prod id (map_prod id g)) (parse_chunks (with_read (xs @ ys) p) ch)) =
         core (map_prod id (map_prod id (map_prod id g)) (parse_chunks (with_read ys q) ch'))"
proof -
  obtain rc1 ec1 q1 c1 rest where l: "chunks_loop p ch xs = (rc1, ec1, q1, c1, rest)" by (metis prod_cases5)
  have h: "\<not> m_payload_handler q1" using chunks_loop_no_handler [OF l assms(2)] .
  have r: "rc1 = indeterminate_value" "ch' = c1"
      "q = rebook [] (length xs) (szadd (m_bytes_total_read p) (length xs))
             (szadd (m_bytes_content_read p) (length xs)) q1"
    using assms chunks_loop_indeterminate [OF l]
    by (auto simp: parse_chunks_rebook_form with_read_rebook chunks_loop_rebook l Let_def split: if_splits)
  obtain rc2 ec2 q2 c2 rest2 where l2: "chunks_loop q1 c1 ys = (rc2, ec2, q2, c2, rest2)" by (metis prod_cases5)
  have len: "length xs + length ys - length rest2 = length xs + (length ys - length rest2)"
    using chunks_loop_rest [OF l2] by simp
  show ?thesis
    using assms(2) h
    by (simp add: parse_chunks_rebook_form with_read_rebook chunks_loop_rebook
        chunks_loop_append [OF assms(2), of ch xs ys] l r l2 core_def Let_def szadd_assoc len)
qed

section \<open>One buffer or two: the header turn\<close>

definition headers_turn :: "parser \<Rightarrow> http_message \<Rightarrow> parse_result" where
  "headers_turn p m =
     (case parse_headers p m of (rc, ec, p, m) \<Rightarrow>
        if rc = true_value \<and> m_message_parse_state p = PARSE_HEADERS
        then finish_header_parsing p m else (rc, ec, p, m))"

lemma update_message_rebook [simp]:
  "update_message_with_header_data (rebook rd l t r p) m = update_message_with_header_data p m"
  by (simp add: update_message_with_header_data_def Let_def)

lemma finish_header_parsing_rebook:
  "finish_header_parsing (rebook rd l t r p) m =
     (case finish_header_parsing p m of (rc, ec, q, n) \<Rightarrow> (rc, ec, rebook rd l t 0 q, n))"
proof -
  define p0 where "p0 = p\<lparr>m_bytes_content_remaining := 0\<rparr>"
  have a: "p\<lparr>m_bytes_content_remaining := 0, m_bytes_content_read := 0\<rparr> =
      rebook (m_read p) (m_bytes_last_read p) (m_bytes_total_read p) 0 p0"
    by (simp add: rebook_def p0_def)
  have b: "(rebook rd l t r p)\<lparr>m_bytes_content_remaining := 0, m_bytes_content_read := 0\<rparr> = rebook rd l t 0 p0"
    by (simp add: rebook_def p0_def)
  show ?thesis
    unfolding finish_header_parsing_def a b by (auto simp: Let_def split: option.splits)
qed

lemma finish_header_parsing_fields:
  "finish_header_parsing p m = (rc, ec, q, n) \<Longrightarrow>
   m_read q = m_read p \<and> m_bytes_last_read q = m_bytes_last_read p \<and>
   m_bytes_total_read q = m_bytes_total_read p \<and> m_bytes_content_read q = 0"
  by (auto simp: finish_header_parsing_def Let_def split: if_splits option.splits)

lemma finish_header_parsing_last:
  "core (finish_header_parsing (p\<lparr>m_bytes_last_read := b\<rparr>) m) = core (finish_header_parsing p m)"
proof -
  obtain rc ec q n where f: "finish_header_parsing p m = (rc, ec, q, n)" by (metis prod_cases4)
  have e: "p\<lparr>m_bytes_last_read := b\<rparr> = rebook (m_read p) b (m_bytes_total_read p) (m_bytes_content_read p) p"
    by (simp add: rebook_def)
  have "finish_header_parsing (p\<lparr>m_bytes_last_read := b\<rparr>) m =
      (rc, ec, rebook (m_read p) b (m_bytes_total_read p) 0 q, n)"
    unfolding e finish_header_parsing_rebook f by simp
  then show ?thesis
    using finish_header_parsing_fields [OF f] by (simp add: f core_def)
qed

lemma headers_turn_append_done:
  assumes "parse_headers (with_read xs p) m = (rc1, ec1, q1, n1)" and "rc1 \<noteq> indeterminate_value"
    and "headers_turn (with_read xs p) m = (rc, ec, q, n)"
  shows "headers_turn (with_read (xs @ ys) p) m = (rc, ec, with_read (m_read q @ ys) q, n)"
proof (cases "rc1 = true_value \<and> m_message_parse_state q1 = PARSE_HEADERS")
  case True
  have f: "finish_header_parsing q1 n1 = (rc, ec, q, n)"
    using assms True by (simp add: headers_turn_def)
  have "finish_header_parsing (with_read (m_read q1 @ ys) q1) n1 =
      (rc, ec, rebook (m_read q1 @ ys) (m_bytes_last_read q1) (m_bytes_total_read q1) 0 q, n)"
    unfolding with_read_rebook finish_header_parsing_rebook f by simp
  moreover have "rebook (m_read q1 @ ys) (m_bytes_last_read q1) (m_bytes_total_read q1) 0 q =
      with_read (m_read q @ ys) q"
    using finish_header_parsing_fields [OF f] by (simp add: rebook_def)
  ultimately show ?thesis
    using True parse_headers_append_done [OF assms(1,2), of ys] by (simp add: headers_turn_def)
next
  case False
  then show ?thesis
    using assms parse_headers_append_done [OF assms(1,2), of ys] by (auto simp: headers_turn_def)
qed

lemma core_eqD:
  assumes "core (rc, ec, p, m) = core (rc', ec', p', m')"
  shows "rc = rc'" "ec = ec'" "m = m'" "rc \<noteq> false_value \<Longrightarrow> p\<lparr>m_bytes_last_read := m_bytes_last_read p'\<rparr> = p'"
proof -
  show "rc = rc'" "ec = ec'" "m = m'" using assms by (simp_all add: core_def)
  assume "rc \<noteq> false_value"
  then have "p\<lparr>m_bytes_last_read := 0\<rparr> = p'\<lparr>m_bytes_last_read := 0\<rparr>"
    using assms by (auto simp: core_def split: if_splits)
  then show "p\<lparr>m_bytes_last_read := m_bytes_last_read p'\<rparr> = p'"
    by (metis (no_types, lifting) parser.surjective parser.update_convs(21))
qed

lemma core_fields:
  assumes "core (rc, ec, p, m) = core (rc', ec', p', m')"
  shows "m_read p = m_read p'" "m_message_parse_state p = m_message_parse_state p'"
    "m_payload_handler p = m_payload_handler p'"
proof -
  let ?f = "\<lambda>res :: parse_result. fst (snd (snd (core res)))"
  have e: "?f (rc, ec, p, m) = ?f (rc', ec', p', m')" using assms by simp
  have keep: "m_read (?f (rc, ec, p, m)) = m_read p"
      "m_message_parse_state (?f (rc, ec, p, m)) = m_message_parse_state p"
      "m_payload_handler (?f (rc, ec, p, m)) = m_payload_handler p" for rc ec p m
    by (simp_all add: core_def)
  show "m_read p = m_read p'" using arg_cong [OF e, of m_read] unfolding keep .
  show "m_message_parse_state p = m_message_parse_state p'"
    using arg_cong [OF e, of m_message_parse_state] unfolding keep .
  show "m_payload_handler p = m_payload_handler p'"
    using arg_cong [OF e, of m_payload_handler] unfolding keep .
qed

lemma headers_turn_append_more:
  assumes "parse_headers (with_read xs p) m = (indeterminate_value, ec, q, n)"
  shows "core (headers_turn (with_read (xs @ ys) p) m) = core (headers_turn (with_read ys q) n)"
proof -
  obtain rc1 ec1 q1 n1 where h1: "parse_headers (with_read (xs @ ys) p) m = (rc1, ec1, q1, n1)" by (metis prod_cases4)
  obtain rc2 ec2 q2 n2 where h2: "parse_headers (with_read ys q) n = (rc2, ec2, q2, n2)" by (metis prod_cases4)
  have c: "core (rc1, ec1, q1, n1) = core (rc2, ec2, q2, n2)"
    using parse_headers_append_more(1) [OF assms, of ys] h1 h2 by simp
  note eqs = core_eqD [OF c]
  show ?thesis
  proof (cases "rc1 = true_value")
    case True
    then have q2: "q2 = q1\<lparr>m_bytes_last_read := m_bytes_last_read q2\<rparr>" using eqs(4) by simp
    have "m_message_parse_state q1 = m_message_parse_state q2" using core_fields(2) [OF c] .
    moreover have "core (finish_header_parsing q2 n2) = core (finish_header_parsing q1 n1)"
      using finish_header_parsing_last [where p = q1 and b = "m_bytes_last_read q2" and m = n1] q2 eqs(3) by metis
    ultimately show ?thesis using h1 h2 c eqs(1) by (auto simp: headers_turn_def)
  next
    case False
    then show ?thesis using h1 h2 c eqs(1) by (auto simp: headers_turn_def)
  qed
qed

lemma parse_switch_headers:
  assumes "m_message_parse_state p = PARSE_HEADERS \<or> m_message_parse_state p = PARSE_FOOTERS"
  shows "parse_switch p m = Inr (m_bytes_last_read (fst (snd (snd (parse_headers p m)))), headers_turn p m)"
  using assms by (auto simp: parse_switch_def headers_turn_def Let_def split: prod.splits)

lemma parse_switch_start:
  assumes "m_message_parse_state p = PARSE_START"
  shows "parse_switch p m = parse_switch (p\<lparr>m_message_parse_state := PARSE_HEADERS\<rparr>) m"
  using assms by (simp add: parse_switch_def)

section \<open>Content of known length\<close>

text \<open>
  The invariant of the state \<^const>\<open>PARSE_CONTENT\<close>: the announced length fits into \<^verbatim>\<open>size_t\<close> and the
  buffer has that length, or the maximum if that is smaller.
\<close>

definition content_inv :: "parser \<Rightarrow> http_message \<Rightarrow> bool" where
  "content_inv p m =
     (m_message_parse_state p = PARSE_CONTENT \<longrightarrow>
        m_bytes_content_read p + m_bytes_content_remaining p < 2 ^ 64 \<and>
        length (msg_content_buf m) =
          min (m_max_content_length p) (m_bytes_content_read p + m_bytes_content_remaining p))"

definition put :: "nat \<Rightarrow> string \<Rightarrow> char option list \<Rightarrow> char option list" where
  "put pos bytes buf =
     take pos buf @ map Some (take (length buf - pos) bytes) @ drop (pos + length bytes) buf"

lemma length_put [simp]: "length (put pos bytes buf) = length buf"
  by (auto simp: put_def)

lemma nth_put:
  "i < length buf \<Longrightarrow> put pos bytes buf ! i =
     (if pos \<le> i \<and> i < pos + length bytes then Some (bytes ! (i - pos)) else buf ! i)"
  by (auto simp: put_def nth_append min_def)

lemma put_append: "put (pos + length b1) b2 (put pos b1 buf) = put pos (b1 @ b2) buf"
  by (rule nth_equalityI) (auto simp: nth_put nth_append)

lemma put_Nil [simp]: "put pos [] buf = buf"
  by (rule nth_equalityI) (auto simp: nth_put)

lemma consume_content_eq:
  assumes "content_inv p m" and "m_message_parse_state p = PARSE_CONTENT" and "\<not> m_payload_handler p"
    and "m_bytes_content_remaining p \<noteq> 0"
  defines "n \<equiv> min (m_bytes_content_remaining p) (length (m_read p))"
  shows "consume_content p m =
     Inr (if m_bytes_content_remaining p \<le> length (m_read p) then true_value else indeterminate_value,
          rebook (drop n (m_read p)) n (szadd (m_bytes_total_read p) n) (m_bytes_content_read p + n)
            (p\<lparr>m_bytes_content_remaining := m_bytes_content_remaining p - n\<rparr>),
          m\<lparr>msg_content_buf := put (m_bytes_content_read p) (take n (m_read p)) (msg_content_buf m)\<rparr>)"
proof -
  let ?pos = "m_bytes_content_read p" and ?rem = "m_bytes_content_remaining p"
  let ?max = "m_max_content_length p" and ?bytes = "take n (m_read p)"
  have inv: "?pos + ?rem < 2 ^ 64" "length (msg_content_buf m) = min ?max (?pos + ?rem)"
    using assms(1,2) by (auto simp: content_inv_def)
  have n: "n \<le> ?rem" "length ?bytes = n" by (auto simp: n_def)
  have sz: "szadd ?pos n = ?pos + n" using inv(1) n by (simp add: szadd_def)
  have avail: "bytes_available p = length (m_read p)"
      "(if ?rem \<le> length (m_read p) then ?rem else length (m_read p)) = n"
    by (auto simp: n_def bytes_available_def eof_def)
  have clip: "(if ?max < ?pos + n then take (?max - ?pos) ?bytes else ?bytes) = take (?max - ?pos) ?bytes"
    using n by auto
  have wr: "buf_write ?pos (take (?max - ?pos) ?bytes) (msg_content_buf m) =
      Some (put ?pos ?bytes (msg_content_buf m))" if "?pos < ?max"
  proof -
    have "take (length (msg_content_buf m) - ?pos) ?bytes = take (?max - ?pos) ?bytes"
      using inv(2) n by (simp add: min_def)
    moreover have "drop (?pos + min (?max - ?pos) n) (msg_content_buf m) = drop (?pos + n) (msg_content_buf m)"
      using inv(2) that by (auto simp: min_def split: if_splits)
    ultimately show ?thesis
      using inv(2) n that by (auto simp: buf_write_def put_def min_def)
  qed
  have skip: "put ?pos ?bytes (msg_content_buf m) = msg_content_buf m" if "\<not> ?pos < ?max"
    using that inv(2) by (simp add: put_def)
  show ?thesis
    unfolding consume_content_def Let_def avail sz clip
    using assms(3,4) wr skip by (cases "?pos < ?max") (simp_all add: rebook_def split del: if_split)
qed

lemma consume_content_zero:
  "m_bytes_content_remaining p = 0 \<Longrightarrow> consume_content p m = Inr (true_value, p, m)"
  by (simp add: consume_content_def)

lemma content_inv_rebook_read [simp]: "content_inv (with_read s p) m = content_inv p m"
  by (simp add: content_inv_def)

lemma consume_content_append_done:
  assumes "content_inv p m" and "m_message_parse_state p = PARSE_CONTENT" and "\<not> m_payload_handler p"
    and "consume_content (with_read xs p) m = Inr (true_value, q, n)"
  shows "consume_content (with_read (xs @ ys) p) m = Inr (true_value, with_read (m_read q @ ys) q, n)"
proof (cases "m_bytes_content_remaining p = 0")
  case True
  then show ?thesis using assms(4) by (auto simp: consume_content_zero)
next
  case False
  have eq: "consume_content (with_read s p) m =
     Inr (if m_bytes_content_remaining p \<le> length s then true_value else indeterminate_value,
          rebook (drop (min (m_bytes_content_remaining p) (length s)) s) (min (m_bytes_content_remaining p) (length s))
            (szadd (m_bytes_total_read p) (min (m_bytes_content_remaining p) (length s)))
            (m_bytes_content_read p + min (m_bytes_content_remaining p) (length s))
            (with_read s p\<lparr>m_bytes_content_remaining := m_bytes_content_remaining p - min (m_bytes_content_remaining p) (length s)\<rparr>),
          m\<lparr>msg_content_buf := put (m_bytes_content_read p) (take (min (m_bytes_content_remaining p) (length s)) s) (msg_content_buf m)\<rparr>)"
    for s using consume_content_eq [of "with_read s p" m] assms(1-3) False by simp
  then have "m_bytes_content_remaining p \<le> length xs" using assms(4) by (auto split: if_splits)
  then show ?thesis using assms(4) unfolding eq by (auto simp: min_def rebook_def)
qed

lemma consume_content_append_more:
  assumes "content_inv p m" and "m_message_parse_state p = PARSE_CONTENT" and "\<not> m_payload_handler p"
    and "consume_content (with_read xs p) m = Inr (indeterminate_value, q, n)"
  shows "map_sum id (\<lambda>(rc, p, m). core (rc, None, p, m)) (consume_content (with_read (xs @ ys) p) m) =
         map_sum id (\<lambda>(rc, p, m). core (rc, None, p, m)) (consume_content (with_read ys q) n)"
proof -
  let ?rem = "m_bytes_content_remaining p" and ?pos = "m_bytes_content_read p"
  have rem: "?rem \<noteq> 0"
    using assms(4) consume_content_zero [of "with_read xs p" m] by auto
  have lt: "length xs < ?rem"
    using assms(4) consume_content_eq [of "with_read xs p" m] assms(1-3) rem by (auto split: if_splits)
  have q: "q = rebook [] (length xs) (szadd (m_bytes_total_read p) (length xs)) (?pos + length xs)
                 (p\<lparr>m_bytes_content_remaining := ?rem - length xs\<rparr>)"
    and n: "n = m\<lparr>msg_content_buf := put ?pos xs (msg_content_buf m)\<rparr>"
    using assms(4) consume_content_eq [of "with_read xs p" m] assms(1-3) rem lt
    by (auto simp: min_def rebook_def)
  have inv: "content_inv q n" using assms(1,2) lt by (simp add: q n content_inv_def)
  have len: "min ?rem (length xs + length ys) = length xs + min (?rem - length xs) (length ys)"
    using lt by simp
  have "m_message_parse_state q = PARSE_CONTENT" "\<not> m_payload_handler q" "m_bytes_content_remaining q \<noteq> 0"
    using assms(2,3) lt by (simp_all add: q)
  then have e2: "consume_content (with_read ys q) n =
     Inr (if m_bytes_content_remaining q \<le> length ys then true_value else indeterminate_value,
          rebook (drop (min (m_bytes_content_remaining q) (length ys)) ys) (min (m_bytes_content_remaining q) (length ys))
            (szadd (m_bytes_total_read q) (min (m_bytes_content_remaining q) (length ys)))
            (m_bytes_content_read q + min (m_bytes_content_remaining q) (length ys))
            (with_read ys q\<lparr>m_bytes_content_remaining := m_bytes_content_remaining q - min (m_bytes_content_remaining q) (length ys)\<rparr>),
          n\<lparr>msg_content_buf := put (m_bytes_content_read q) (take (min (m_bytes_content_remaining q) (length ys)) ys) (msg_content_buf n)\<rparr>)"
    using consume_content_eq [of "with_read ys q" n] inv by simp
  show ?thesis
    using assms(1-3) rem lt
    unfolding e2
    by (simp add: consume_content_eq q n len core_def szadd_assoc put_append add.assoc rebook_def) arith
qed

section \<open>Content of unknown length, and the counter of the last call\<close>

lemma consume_next_chunk_eq:
  assumes "\<not> m_payload_handler p"
  shows "consume_content_as_next_chunk p ch =
     (if m_read p = [] then (p\<lparr>m_bytes_last_read := 0\<rparr>, ch)
      else (rebook [] (length (m_read p)) (szadd (m_bytes_total_read p) (length (m_read p)))
              (szadd (m_bytes_content_read p) (length (m_read p))) p,
            ch @ take (m_max_content_length p - length ch) (m_read p)))"
  using assms by (simp add: consume_content_as_next_chunk_def bytes_available_def eof_def rebook_def Let_def)

definition loop_core :: "fault + nat \<times> parse_result \<Rightarrow> fault + parse_result" where
  "loop_core r = map_sum id (\<lambda>(n, res). core res) r"

lemma core_set_last [simp]: "core (rc, ec, p\<lparr>m_bytes_last_read := b\<rparr>, m) = core (rc, ec, p, m)"
  by (simp add: core_def)

lemma parse_headers_last: "parse_headers (p\<lparr>m_bytes_last_read := b\<rparr>) m = parse_headers p m"
  by (simp add: parse_headers_def Let_def split: prod.splits)

lemma parse_chunks_last: "parse_chunks (p\<lparr>m_bytes_last_read := b\<rparr>) ch = parse_chunks p ch"
  by (simp add: parse_chunks_def Let_def split: prod.splits)

lemma consume_content_last:
  "map_sum id (\<lambda>(rc, p, m). core (rc, None, p, m)) (consume_content (p\<lparr>m_bytes_last_read := b\<rparr>) m) =
   map_sum id (\<lambda>(rc, p, m). core (rc, None, p, m)) (consume_content p m)"
  by (auto simp: consume_content_def Let_def bytes_available_def eof_def core_def split: option.splits)

lemma consume_next_chunk_last:
  "consume_content_as_next_chunk (p\<lparr>m_bytes_last_read := b\<rparr>) ch = consume_content_as_next_chunk p ch"
  by (simp add: consume_content_as_next_chunk_def bytes_available_def eof_def Let_def)

lemma parse_switch_last: "loop_core (parse_switch (p\<lparr>m_bytes_last_read := b\<rparr>) m) = loop_core (parse_switch p m)"
proof (cases "m_message_parse_state p")
  case PARSE_START
  have e: "p\<lparr>m_bytes_last_read := b, m_message_parse_state := PARSE_HEADERS\<rparr> =
      p\<lparr>m_message_parse_state := PARSE_HEADERS, m_bytes_last_read := b\<rparr>" by simp
  have "parse_headers (p\<lparr>m_bytes_last_read := b, m_message_parse_state := PARSE_HEADERS\<rparr>) m =
      parse_headers (p\<lparr>m_message_parse_state := PARSE_HEADERS\<rparr>) m"
    unfolding e by (rule parse_headers_last)
  then show ?thesis using PARSE_START by (simp add: parse_switch_def)
next
  case PARSE_CONTENT
  have "loop_core (parse_switch q m) =
      map_sum id (\<lambda>(rc, p, m). core (rc, None, p, m)) (consume_content q m)"
    if "m_message_parse_state q = PARSE_CONTENT" for q
    using that by (auto simp: parse_switch_def loop_core_def split: sum.splits)
  then show ?thesis using PARSE_CONTENT consume_content_last by simp
qed (simp_all add: parse_switch_def parse_headers_last parse_chunks_last consume_next_chunk_last loop_core_def)

lemma chunk_switch_state:
  "chunk_switch st c p ch s = (h, q, ch', s') \<Longrightarrow> (\<forall>b. h \<noteq> C_Done b) \<Longrightarrow>
   m_message_parse_state q = m_message_parse_state p"
  by (cases st) (auto simp: chunk_error_def chunk_data_def Let_def split: if_splits)

lemma chunks_loop_state:
  "chunks_loop p ch s = (rc, ec, q, ch', rest) \<Longrightarrow> rc \<noteq> true_value \<Longrightarrow>
   m_message_parse_state q = m_message_parse_state p"
proof (induction p ch s rule: chunks_loop.induct)
  case (2 p ch c s)
  obtain h p1 ch1 s1 where h: "chunk_switch (m_chunked_content_parse_state p) c p ch (c # s) = (h, p1, ch1, s1)"
    by (metis prod_cases4)
  then show ?case using 2 chunk_switch_state [OF h] by (cases h) auto
qed simp

lemma parse_chunks_frame:
  assumes "parse_chunks p ch = (rc, ec, q, ch')" and "\<not> m_payload_handler p"
  shows "\<not> m_payload_handler q" and "rc \<noteq> true_value \<Longrightarrow> m_message_parse_state q = m_message_parse_state p"
proof -
  obtain rc1 ec1 q1 c1 rest where l: "chunks_loop p ch (m_read p) = (rc1, ec1, q1, c1, rest)" by (metis prod_cases5)
  show "\<not> m_payload_handler q" "rc \<noteq> true_value \<Longrightarrow> m_message_parse_state q = m_message_parse_state p"
    using assms l chunks_loop_no_handler [OF l assms(2)] chunks_loop_state [OF l]
    by (auto simp: parse_chunks_rebook_form Let_def split: if_splits)
qed

definition chunks_turn :: "parse_result \<Rightarrow> parse_result" where
  "chunks_turn res = (case res of (rc, ec, p, m) \<Rightarrow>
     if rc = true_value \<and> \<not> m_payload_handler p then
       (if m_message_parse_state p = PARSE_FOOTERS then indeterminate_value else true_value,
        ec, p, concatenate_chunks m)
     else (rc, ec, p, m))"

lemma parse_switch_chunks:
  assumes "m_message_parse_state p = PARSE_CHUNKS"
  shows "parse_switch p m = Inr (m_bytes_last_read (fst (snd (snd (parse_chunks p (msg_chunk_cache m))))),
     chunks_turn (map_prod id (map_prod id (map_prod id (\<lambda>ch. m\<lparr>msg_chunk_cache := ch\<rparr>)))
       (parse_chunks p (msg_chunk_cache m))))"
  using assms by (auto simp: parse_switch_def chunks_turn_def Let_def split: prod.splits)

lemma chunks_turn_core:
  assumes "core a = core b" shows "core (chunks_turn a) = core (chunks_turn b)"
proof -
  obtain rc ec p m where a: "a = (rc, ec, p, m)" by (metis prod_cases4)
  obtain rc' ec' p' m' where b: "b = (rc', ec', p', m')" by (metis prod_cases4)
  note eqs = core_eqD [OF assms [unfolded a b]]
  show ?thesis
  proof (cases "rc = true_value")
    case True
    then have "p' = p\<lparr>m_bytes_last_read := m_bytes_last_read p'\<rparr>" using eqs(4) by simp
    then have "core (x, ec, p', y) = core (x, ec, p, y)" for x y
      by (metis core_set_last)
    then show ?thesis
      using assms eqs(1-3) core_fields(2,3) [OF assms [unfolded a b]] by (simp add: a b chunks_turn_def)
  next
    case False
    then show ?thesis using assms eqs(1) by (simp add: a b chunks_turn_def)
  qed
qed

end
