(* ===== verification/Parser_Props.thy ===== *)
theory Parser_Props
  imports Parser_Turns
begin

text \<open>
  Properties of the parse loop: what it consumes, and independence of the way the input is cut into
  buffers.
\<close>

section \<open>One buffer or two: the loop\<close>

lemma parse_switch_append_headers:
  assumes "m_message_parse_state p = PARSE_HEADERS \<or> m_message_parse_state p = PARSE_FOOTERS"
    and "parse_switch (with_read xs p) m = Inr (k, rc, ec, q, n)"
  shows "parse_switch (with_read (xs @ ys) p) m = Inr (k, rc, ec, with_read (m_read q @ ys) q, n) \<or>
     (rc = indeterminate_value \<and> m_read q = [] \<and>
      loop_core (parse_switch (with_read (xs @ ys) p) m) = loop_core (parse_switch (with_read ys q) n))"
proof -
  obtain rc1 ec1 q1 n1 where h: "parse_headers (with_read xs p) m = (rc1, ec1, q1, n1)" by (metis prod_cases4)
  have t: "headers_turn (with_read xs p) m = (rc, ec, q, n)" "k = m_bytes_last_read q1"
    using assms h parse_switch_headers [of "with_read xs p" m] by auto
  show ?thesis
  proof (cases "rc1 = indeterminate_value")
    case False
    then show ?thesis
      using parse_headers_append_done [OF h False, of ys] headers_turn_append_done [OF h False t(1), of ys]
        parse_switch_headers [of "with_read (xs @ ys) p" m] assms(1) t(2) by auto
  next
    case True
    have q: "q = q1" "n = n1" "rc = indeterminate_value"
      using t(1) h True by (auto simp: headers_turn_def)
    have st: "m_message_parse_state q = m_message_parse_state p"
      using parse_headers_state [OF h] q by simp
    then show ?thesis
      using headers_turn_append_more [OF h [unfolded True], of ys] parse_headers_indeterminate [OF h [unfolded True]]
        parse_switch_headers [of "with_read (xs @ ys) p" m] parse_switch_headers [of "with_read ys q" n] assms(1) q
      by (auto simp: loop_core_def)
  qed
qed

lemma parse_switch_append_chunks:
  assumes "m_message_parse_state p = PARSE_CHUNKS" and "\<not> m_payload_handler p"
    and "parse_switch (with_read xs p) m = Inr (k, rc, ec, q, n)"
  shows "parse_switch (with_read (xs @ ys) p) m = Inr (k, rc, ec, with_read (m_read q @ ys) q, n) \<or>
     (rc = indeterminate_value \<and> m_read q = [] \<and>
      loop_core (parse_switch (with_read (xs @ ys) p) m) = loop_core (parse_switch (with_read ys q) n))"
proof -
  obtain rc1 ec1 q1 ch1 where h: "parse_chunks (with_read xs p) (msg_chunk_cache m) = (rc1, ec1, q1, ch1)"
    by (metis prod_cases4)
  have t: "chunks_turn (rc1, ec1, q1, m\<lparr>msg_chunk_cache := ch1\<rparr>) = (rc, ec, q, n)" "k = m_bytes_last_read q1"
    using assms h parse_switch_chunks [of "with_read xs p" m] by auto
  show ?thesis
  proof (cases "rc1 = indeterminate_value")
    case False
    then show ?thesis
      using parse_chunks_append_done [OF h False assms(2), of ys] t assms(1)
        parse_switch_chunks [of "with_read (xs @ ys) p" m]
      by (auto simp: chunks_turn_def split: if_splits)
  next
    case True
    have q: "q = q1" "n = m\<lparr>msg_chunk_cache := ch1\<rparr>" "rc = indeterminate_value"
      using t(1) True by (auto simp: chunks_turn_def)
    have st: "m_message_parse_state q = PARSE_CHUNKS" "m_read q = []"
      using parse_chunks_frame [OF h] assms(1,2) True q parse_chunks_indeterminate [OF h [unfolded True]] by auto
    let ?g = "\<lambda>ch. m\<lparr>msg_chunk_cache := ch\<rparr>"
    have "core (chunks_turn (map_prod id (map_prod id (map_prod id ?g)) (parse_chunks (with_read (xs @ ys) p) (msg_chunk_cache m)))) =
        core (chunks_turn (map_prod id (map_prod id (map_prod id ?g)) (parse_chunks (with_read ys q) ch1)))"
      using parse_chunks_append_more [OF h [unfolded True] assms(2), of ?g ys] q by (intro chunks_turn_core) simp
    then show ?thesis
      using st q parse_switch_chunks [of "with_read (xs @ ys) p" m] parse_switch_chunks [of "with_read ys q" n] assms(1)
      by (simp add: loop_core_def)
  qed
qed

lemma parse_switch_append_content:
  assumes "m_message_parse_state p = PARSE_CONTENT" and "\<not> m_payload_handler p" and "content_inv p m"
    and "parse_switch (with_read xs p) m = Inr (k, rc, ec, q, n)"
  shows "parse_switch (with_read (xs @ ys) p) m = Inr (k, rc, ec, with_read (m_read q @ ys) q, n) \<or>
     (rc = indeterminate_value \<and> m_read q = [] \<and>
      loop_core (parse_switch (with_read (xs @ ys) p) m) = loop_core (parse_switch (with_read ys q) n))"
proof -
  have c: "consume_content (with_read xs p) m = Inr (rc, q, n)" "k = m_bytes_last_read q" "ec = None"
    using assms by (auto simp: parse_switch_def split: sum.splits)
  have two: "rc = true_value \<or> rc = indeterminate_value"
    using c(1) by (auto simp: consume_content_def Let_def split: if_splits option.splits)
  have sw: "loop_core (parse_switch r m') =
      map_sum id (\<lambda>(rc, p, m). core (rc, None, p, m)) (consume_content r m')"
    if "m_message_parse_state r = PARSE_CONTENT" for r m'
    using that by (auto simp: parse_switch_def loop_core_def split: sum.splits)
  show ?thesis
  proof (cases "rc = true_value")
    case True
    then show ?thesis
      using consume_content_append_done [OF assms(3,1,2), of xs q n ys] c assms(1) by (auto simp: parse_switch_def)
  next
    case False
    then have i: "rc = indeterminate_value" using two by simp
    have rem: "m_bytes_content_remaining p \<noteq> 0"
      using c(1) i consume_content_zero [of "with_read xs p" m] by auto
    have "m_message_parse_state q = PARSE_CONTENT" "m_read q = []"
      using c(1) i consume_content_eq [of "with_read xs p" m] assms(1-3) rem by (auto split: if_splits)
    then show ?thesis
      using consume_content_append_more [OF assms(3,1,2), of xs q n ys] c(1) i assms(1) sw by simp
  qed
qed

lemma parse_switch_no_length:
  assumes "m_message_parse_state p = PARSE_CONTENT_NO_LENGTH" and "\<not> m_payload_handler p"
  shows "m_read p = [] \<Longrightarrow> parse_switch p m = Inr (0, indeterminate_value, None, p\<lparr>m_bytes_last_read := 0\<rparr>, m)"
    and "m_read p \<noteq> [] \<Longrightarrow> parse_switch p m =
       Inr (length (m_read p), indeterminate_value, None,
         rebook [] (length (m_read p)) (szadd (m_bytes_total_read p) (length (m_read p)))
           (szadd (m_bytes_content_read p) (length (m_read p))) p,
         m\<lparr>msg_chunk_cache := msg_chunk_cache m @
             take (m_max_content_length p - length (msg_chunk_cache m)) (m_read p)\<rparr>)"
  using assms by (simp_all add: parse_switch_def consume_next_chunk_eq)

lemma parse_switch_append_no_length:
  assumes "m_message_parse_state p = PARSE_CONTENT_NO_LENGTH" and "\<not> m_payload_handler p"
    and "parse_switch (with_read xs p) m = Inr (k, rc, ec, q, n)"
  shows "rc = indeterminate_value \<and> m_read q = [] \<and>
      loop_core (parse_switch (with_read (xs @ ys) p) m) = loop_core (parse_switch (with_read ys q) n)"
proof (cases "xs = []")
  case True
  then have q: "q = with_read [] p\<lparr>m_bytes_last_read := 0\<rparr>" "n = m" "rc = indeterminate_value"
    using assms parse_switch_no_length(1) [of "with_read [] p" m] by auto
  have "with_read ys q = with_read ys p\<lparr>m_bytes_last_read := 0\<rparr>" by (simp add: q(1))
  then have "loop_core (parse_switch (with_read ys q) n) = loop_core (parse_switch (with_read ys p) m)"
    using parse_switch_last q(2) by metis
  then show ?thesis using True q(1,3) by simp
next
  case False
  let ?P = "\<lambda>s. with_read s p"
  have q: "q = rebook [] (length xs) (szadd (m_bytes_total_read p) (length xs))
             (szadd (m_bytes_content_read p) (length xs)) p"
      "n = m\<lparr>msg_chunk_cache := msg_chunk_cache m @
             take (m_max_content_length p - length (msg_chunk_cache m)) xs\<rparr>" "rc = indeterminate_value"
    using assms False parse_switch_no_length(2) [of "?P xs" m] by (auto simp: with_read_rebook)
  have one: "loop_core (parse_switch (?P (xs @ ys)) m) = Inr (core (indeterminate_value, None,
      rebook [] 0 (szadd (m_bytes_total_read p) (length xs + length ys))
        (szadd (m_bytes_content_read p) (length xs + length ys)) p,
      m\<lparr>msg_chunk_cache := msg_chunk_cache m @
             take (m_max_content_length p - length (msg_chunk_cache m)) (xs @ ys)\<rparr>))"
    using assms False parse_switch_no_length(2) [of "?P (xs @ ys)" m]
    by (simp add: loop_core_def core_def with_read_rebook)
  show ?thesis
  proof (cases "ys = []")
    case True
    then show ?thesis
      using one q assms(1,2) parse_switch_no_length(1) [of "with_read [] q" n]
      by (simp add: loop_core_def core_def)
  next
    case ys: False
    have ch: "msg_chunk_cache n @ take (m_max_content_length p - length (msg_chunk_cache n)) ys =
        msg_chunk_cache m @ take (m_max_content_length p - length (msg_chunk_cache m)) (xs @ ys)"
      by (simp add: q min_def)
    show ?thesis
      using one q(1,3) assms(1,2) ys ch parse_switch_no_length(2) [of "with_read ys q" n] q(2)
      by (simp add: loop_core_def core_def szadd_assoc)
  qed
qed

lemma parse_switch_append:
  assumes "\<not> m_payload_handler p" and "content_inv p m"
    and "parse_switch (with_read xs p) m = Inr (k, rc, ec, q, n)"
  shows "parse_switch (with_read (xs @ ys) p) m = Inr (k, rc, ec, with_read (m_read q @ ys) q, n) \<or>
     (rc = indeterminate_value \<and> m_read q = [] \<and>
      loop_core (parse_switch (with_read (xs @ ys) p) m) = loop_core (parse_switch (with_read ys q) n))"
proof (cases "m_message_parse_state p")
  case PARSE_START
  let ?h = "p\<lparr>m_message_parse_state := PARSE_HEADERS\<rparr>"
  have w: "with_read s p\<lparr>m_message_parse_state := PARSE_HEADERS\<rparr> = with_read s ?h" for s by simp
  have "parse_switch (with_read s p) m = parse_switch (with_read s ?h) m" for s
    using parse_switch_start [of "with_read s p" m] PARSE_START unfolding w by simp
  then show ?thesis using parse_switch_append_headers [of ?h xs m k rc ec q n ys] assms(3) by simp
next
  case PARSE_HEADERS
  then show ?thesis by (intro parse_switch_append_headers assms) simp
next
  case PARSE_FOOTERS
  then show ?thesis by (intro parse_switch_append_headers assms) simp
next
  case PARSE_CHUNKS
  then show ?thesis by (intro parse_switch_append_chunks assms)
next
  case PARSE_CONTENT
  then show ?thesis by (intro parse_switch_append_content assms)
next
  case PARSE_CONTENT_NO_LENGTH
  then show ?thesis by (intro disjI2 parse_switch_append_no_length [OF _ assms(1,3)])
next
  case PARSE_END
  then show ?thesis using assms(3) by (auto simp: parse_switch_def)
qed

lemma stoul_bound: "stoul s = Some n \<Longrightarrow> n < 2 ^ 64"
  by (auto simp: stoul_def Let_def ulong_max_def split: prod.splits if_splits)

lemma finish_header_parsing_content_inv:
  assumes "finish_header_parsing p m = (indeterminate_value, ec, q, n)"
  shows "content_inv q n"
  using assms stoul_bound
  by (auto simp: finish_header_parsing_def content_inv_def Let_def update_content_length_cases
      set_content_length_def create_content_buffer_def content_resize_def
      split: if_splits option.splits)

lemma finish_header_parsing_handler:
  "finish_header_parsing p m = (rc, ec, q, n) \<Longrightarrow> m_payload_handler q = m_payload_handler p"
  by (auto simp: finish_header_parsing_def Let_def split: if_splits option.splits)

lemma parse_headers_frame:
  "parse_headers p m = (rc, ec, q, n) \<Longrightarrow>
   m_payload_handler q = m_payload_handler p \<and> m_message_parse_state q = m_message_parse_state p"
  using headers_loop_frame [of "p\<lparr>m_bytes_last_read := 0\<rparr>" m "m_read p"]
  by (auto simp: parse_headers_def header_frame_def Let_def split: prod.splits if_splits)

lemma headers_turn_inv:
  assumes "headers_turn p m = (indeterminate_value, ec, q, n)" and "m_message_parse_state p \<noteq> PARSE_CONTENT"
  shows "content_inv q n" and "m_payload_handler q = m_payload_handler p"
proof -
  obtain rc1 ec1 q1 n1 where h: "parse_headers p m = (rc1, ec1, q1, n1)" by (metis prod_cases4)
  show "content_inv q n"
    using assms h finish_header_parsing_content_inv parse_headers_frame [OF h]
    by (auto simp: headers_turn_def content_inv_def split: if_splits)
  show "m_payload_handler q = m_payload_handler p"
    using assms h finish_header_parsing_handler parse_headers_frame [OF h]
    by (auto simp: headers_turn_def split: if_splits)
qed

lemma consume_content_inv:
  assumes "content_inv p m" and "m_message_parse_state p = PARSE_CONTENT" and "\<not> m_payload_handler p"
    and "consume_content p m = Inr (indeterminate_value, q, n)"
  shows "\<not> m_payload_handler q \<and> content_inv q n"
proof -
  have rem: "m_bytes_content_remaining p \<noteq> 0" using assms(4) consume_content_zero [of p m] by auto
  let ?n = "min (m_bytes_content_remaining p) (length (m_read p))"
  have "q = rebook (drop ?n (m_read p)) ?n (szadd (m_bytes_total_read p) ?n) (m_bytes_content_read p + ?n)
            (p\<lparr>m_bytes_content_remaining := m_bytes_content_remaining p - ?n\<rparr>) \<and>
      n = m\<lparr>msg_content_buf := put (m_bytes_content_read p) (take ?n (m_read p)) (msg_content_buf m)\<rparr>"
    using trans [OF assms(4) [symmetric] consume_content_eq [OF assms(1-3) rem]]
    by (simp only: sum.inject prod.inject)
  then show ?thesis using assms(1,2,3) by (simp add: content_inv_def)
qed

lemma parse_switch_no_length_state:
  assumes "m_message_parse_state p = PARSE_CONTENT_NO_LENGTH" "\<not> m_payload_handler p"
  and "parse_switch p m = Inr (k, indeterminate_value, ec, q, n)"
  shows "m_message_parse_state q = PARSE_CONTENT_NO_LENGTH \<and> m_payload_handler q = m_payload_handler p"
proof (cases "m_read p = []")
  case True
  show ?thesis using trans [OF assms(3) [symmetric] parse_switch_no_length(1) [OF assms(1,2) True]] assms(1) by simp
next
  case False
  show ?thesis using trans [OF assms(3) [symmetric] parse_switch_no_length(2) [OF assms(1,2) False]] assms(1) by simp
qed

lemma parse_switch_chunks_state:
  assumes PARSE_CHUNKS: "m_message_parse_state p = PARSE_CHUNKS" and a: "\<not> m_payload_handler p"
  and  "parse_switch p m = Inr (k, indeterminate_value, ec, q, n)"
  shows "m_message_parse_state q \<noteq> PARSE_CONTENT \<and> \<not> m_payload_handler q"
proof -
  obtain rc1 ec1 q1 ch1 where h: "parse_chunks p (msg_chunk_cache m) = (rc1, ec1, q1, ch1)" by (metis prod_cases4)
  have "chunks_turn (rc1, ec1, q1, m\<lparr>msg_chunk_cache := ch1\<rparr>) = (indeterminate_value, ec, q, n)"
    using trans [OF assms(3) [symmetric] parse_switch_chunks [OF assms(1), of m]] h by simp
  then show ?thesis
    using parse_chunks_frame [OF h a] PARSE_CHUNKS by (auto simp: chunks_turn_def split: if_splits)
qed

lemma parse_switch_inv:
  assumes "\<not> m_payload_handler p" and "content_inv p m"
    and "parse_switch p m = Inr (k, indeterminate_value, ec, q, n)"
  shows "\<not> m_payload_handler q \<and> content_inv q n"
proof (cases "m_message_parse_state p")
  case PARSE_START
  let ?h = "p\<lparr>m_message_parse_state := PARSE_HEADERS\<rparr>"
  have "parse_switch ?h m = Inr (k, indeterminate_value, ec, q, n)"
    using parse_switch_start [OF PARSE_START, of m] assms(3) by (rule trans [OF sym])
  then have "headers_turn ?h m = (indeterminate_value, ec, q, n)"
    using parse_switch_headers [of ?h m] by simp
  then show ?thesis using headers_turn_inv [of ?h m ec q n] assms(1) by simp
next
  case PARSE_HEADERS
  then have "headers_turn p m = (indeterminate_value, ec, q, n)"
    using parse_switch_headers [of p m] assms(3) by simp
  then show ?thesis using headers_turn_inv [of p m ec q n] assms(1) PARSE_HEADERS by simp
next
  case PARSE_FOOTERS
  then have "headers_turn p m = (indeterminate_value, ec, q, n)"
    using parse_switch_headers [of p m] assms(3) by simp
  then show ?thesis using headers_turn_inv [of p m ec q n] assms(1) PARSE_FOOTERS by simp
next
  case PARSE_CONTENT
  then have "consume_content p m = Inr (indeterminate_value, q, n)"
    using assms(3) by (auto simp: parse_switch_def split: sum.splits)
  then show ?thesis using consume_content_inv [OF assms(2) PARSE_CONTENT assms(1)] by blast
next
  case PARSE_CONTENT_NO_LENGTH
  then show ?thesis
    using parse_switch_no_length_state [OF PARSE_CONTENT_NO_LENGTH assms(1,3)] assms(1) by (simp add: content_inv_def)
next
  case PARSE_CHUNKS
  then show ?thesis
    using parse_switch_chunks_state [OF PARSE_CHUNKS assms(1,3)] by (simp add: content_inv_def)
next
  case PARSE_END
  then show ?thesis using assms(3) by (simp add: parse_switch_def)
qed

lemma parse_loop_step:
  "parse_switch p m = Inr (k, rc, ec, q, n) \<Longrightarrow>
   parse_loop p m t = (if rc = indeterminate_value \<and> \<not> eof q then parse_loop q n (szadd t k)
                       else Inr (szadd t k, rc, ec, q, n))"
  by (simp add: parse_loop.simps [of p m t])

lemma parse_loop_fault: "parse_switch p m = Inl e \<Longrightarrow> parse_loop p m t = Inl e"
  by (simp add: parse_loop.simps [of p m t])

text \<open>Induction over the turns of the loop.\<close>

lemma parse_loop_induct [case_names fault stop again]:
  assumes "\<And>p m t e. parse_switch p m = Inl e \<Longrightarrow> P p m t"
    and "\<And>p m t k rc ec q n. parse_switch p m = Inr (k, rc, ec, q, n) \<Longrightarrow>
           rc \<noteq> indeterminate_value \<or> m_read q = [] \<Longrightarrow> P p m t"
    and "\<And>p m t k ec q n. parse_switch p m = Inr (k, indeterminate_value, ec, q, n) \<Longrightarrow>
           m_read q \<noteq> [] \<Longrightarrow> P q n (szadd t k) \<Longrightarrow> P p m t"
  shows "P p m t"
proof (induction p m t rule: parse_loop.induct)
  case (1 p m t)
  show ?case
  proof (cases "parse_switch p m")
    case (Inl e)
    then show ?thesis by (rule assms(1))
  next
    case (Inr r)
    obtain k rc ec q n where r: "r = (k, rc, ec, q, n)" by (metis prod_cases5)
    show ?thesis
    proof (cases "rc = indeterminate_value \<and> m_read q \<noteq> []")
      case True
      then show ?thesis
        using assms(3) Inr r 1(1) [OF Inr r [symmetric] refl refl refl] by (auto simp: eof_def)
    next
      case False
      then show ?thesis using assms(2) [of p m k rc ec q n t] Inr r by blast
    qed
  qed
qed

lemma parse_loop_indeterminate:
  "parse_loop p m t = Inr (k, indeterminate_value, ec, q, n) \<Longrightarrow> m_read q = []"
proof (induction p m t rule: parse_loop_induct)
  case (fault p m t e)
  then show ?case by (simp add: parse_loop_fault)
next
  case (stop p m t k' rc ec' q' n')
  then show ?case using parse_loop_step [OF stop(1), of t] by (auto simp: eof_def)
next
  case (again p m t k' ec' q' n')
  then show ?case using parse_loop_step [OF again(1), of t] by (auto simp: eof_def)
qed

text \<open>The result of the loop depends on the parser only up to the counter of the last call.\<close>

lemma loop_core_Inr:
  "loop_core (Inr (k, res)) = loop_core r \<Longrightarrow> \<exists>k' rc ec p m. r = Inr (k', rc, ec, p, m) \<and> core res = core (rc, ec, p, m)"
  by (cases r) (auto simp: loop_core_def)

lemma loop_core_Inl: "loop_core (Inl e) = loop_core r \<Longrightarrow> r = Inl e"
  by (cases r) (auto simp: loop_core_def)

lemma loop_core_cong:
  assumes "loop_core (parse_switch p m) = loop_core (parse_switch p' m')"
  shows "loop_core (parse_loop p m t) = loop_core (parse_loop p' m' t')"
  using assms
proof (induction p m t arbitrary: p' m' t' rule: parse_loop_induct)
  case (fault p m t e)
  then have "parse_switch p' m' = Inl e" using loop_core_Inl by metis
  then show ?case using fault by (simp add: parse_loop_fault)
next
  case (stop p m t k rc ec q n)
  obtain k' rc' ec' q' n' where s': "parse_switch p' m' = Inr (k', rc', ec', q', n')"
      and c: "core (rc, ec, q, n) = core (rc', ec', q', n')"
    using loop_core_Inr [of k "(rc, ec, q, n)" "parse_switch p' m'"] stop(1,3) by auto
  have "rc' \<noteq> indeterminate_value \<or> m_read q' = []"
    using core_eqD(1) [OF c] core_fields(1) [OF c] stop(2) by simp
  then have "parse_loop p m t = Inr (szadd t k, rc, ec, q, n)" "parse_loop p' m' t' = Inr (szadd t' k', rc', ec', q', n')"
    using stop(2) parse_loop_step [OF stop(1), of t] parse_loop_step [OF s', of t'] by (auto simp: eof_def)
  then show ?case using c by (simp add: loop_core_def)
next
  case (again p m t k ec q n)
  obtain k' rc' ec' q' n' where s': "parse_switch p' m' = Inr (k', rc', ec', q', n')"
      and c: "core (indeterminate_value, ec, q, n) = core (rc', ec', q', n')"
    using loop_core_Inr [of k "(indeterminate_value, ec, q, n)" "parse_switch p' m'"] again(1,4) by auto
  note eqs = core_eqD [OF c]
  have q': "q\<lparr>m_bytes_last_read := m_bytes_last_read q'\<rparr> = q'" using eqs(4) by simp
  have r: "rc' = indeterminate_value" "m_read q' \<noteq> []"
    using eqs(1) core_fields(1) [OF c] again(2) by simp_all
  have "loop_core (parse_switch q n) = loop_core (parse_switch q' n')"
    using parse_switch_last [where p = q and b = "m_bytes_last_read q'" and m = n]
    unfolding q' eqs(3) by (rule sym)
  from again(3) [OF this] show ?case
    using parse_loop_step [OF again(1), of t] parse_loop_step [OF s', of t'] again(2) r
    by (simp add: eof_def)
qed

lemma with_read_self [simp]: "with_read (m_read p) p = p"
  by simp

lemma parse_loop_append:
  assumes "parse_loop p m t = Inr (k, rc, ec, q, n)" and "\<not> m_payload_handler p" and "content_inv p m"
    and "ys \<noteq> []"
  shows "if rc = indeterminate_value
     then loop_core (parse_loop (with_read (m_read p @ ys) p) m t) = loop_core (parse_loop (with_read ys q) n t')
     else parse_loop (with_read (m_read p @ ys) p) m t = Inr (k, rc, ec, with_read (m_read q @ ys) q, n)"
  using assms(1-3)
proof (induction p m t rule: parse_loop_induct)
  case (fault p m t e)
  then show ?case by (simp add: parse_loop_fault)
next
  case (stop p m t k1 rc1 ec1 q1 n1)
  have r: "k = szadd t k1" "rc = rc1" "ec = ec1" "q = q1" "n = n1"
    using stop(1-3) parse_loop_step [OF stop(1), of t] by (auto simp: eof_def)
  consider (left) "parse_switch (with_read (m_read p @ ys) p) m = Inr (k1, rc1, ec1, with_read (m_read q1 @ ys) q1, n1)"
    | (right) "rc1 = indeterminate_value" "m_read q1 = []"
        "loop_core (parse_switch (with_read (m_read p @ ys) p) m) = loop_core (parse_switch (with_read ys q1) n1)"
    using parse_switch_append [of p m "m_read p" k1 rc1 ec1 q1 n1 ys] stop(1,4,5) by auto
  then show ?case
  proof cases
    case left
    show ?thesis
    proof (cases "rc1 = indeterminate_value")
      case True
      then have "m_read q1 = []" using stop(2) by simp
      then have "parse_loop (with_read (m_read p @ ys) p) m t = parse_loop (with_read ys q1) n1 (szadd t k1)"
        using parse_loop_step [OF left, of t] True assms(4) by (simp add: eof_def)
      then show ?thesis using loop_core_cong [OF refl] r True by simp
    next
      case False
      then show ?thesis using parse_loop_step [OF left, of t] r by simp
    qed
  next
    case right
    then show ?thesis using loop_core_cong [OF right(3)] r by simp
  qed
next
  case (again p m t k1 ec1 q1 n1)
  have left: "parse_switch (with_read (m_read p @ ys) p) m = Inr (k1, indeterminate_value, ec1, with_read (m_read q1 @ ys) q1, n1)"
    using parse_switch_append [of p m "m_read p" k1 indeterminate_value ec1 q1 n1 ys] again(1,2,5,6) by auto
  have "parse_loop q1 n1 (szadd t k1) = Inr (k, rc, ec, q, n)"
    using again(2,4) parse_loop_step [OF again(1), of t] by (simp add: eof_def)
  moreover have "\<not> m_payload_handler q1 \<and> content_inv q1 n1"
    using parse_switch_inv [OF again(5,6,1)] .
  ultimately show ?case
    using again.IH parse_loop_step [OF left, of t] assms(4) by (simp add: eof_def)
qed

section \<open>The flags of missing packets are kept\<close>

definition missing_flags :: "http_message \<Rightarrow> bool \<times> bool" where
  "missing_flags m = (msg_has_missing_packets m, msg_has_data_after_missing m)"

lemma missing_flags_setters [simp]:
  "missing_flags (set_version_0 m) = missing_flags m" "missing_flags (set_version_major w m) = missing_flags m"
  "missing_flags (set_version_minor w m) = missing_flags m" "missing_flags (add_header k v m) = missing_flags m"
  "missing_flags (set_content_length l m) = missing_flags m"
  "missing_flags (create_content_buffer m) = missing_flags m"
  "missing_flags (concatenate_chunks m) = missing_flags m"
  "missing_flags (m\<lparr>msg_chunk_cache := ch\<rparr>) = missing_flags m"
  "missing_flags (m\<lparr>msg_content_buf := b\<rparr>) = missing_flags m"
  "missing_flags (m\<lparr>msg_content_length := l\<rparr>) = missing_flags m"
  "missing_flags (m\<lparr>msg_is_chunked := c\<rparr>) = missing_flags m"
  by (simp_all add: missing_flags_def set_version_0_def first_line_setters add_header_def
      set_content_length_def create_content_buffer_def concatenate_chunks_result)

lemma missing_flags_update [simp]: "missing_flags (update_message_with_header_data p m) = missing_flags m"
  by (simp add: missing_flags_def update_message_with_header_data_def first_line_setters Let_def)

lemma step_missing_flags:
  "missing_flags (snd (snd (step_request_line st c p m))) = missing_flags m"
  "missing_flags (snd (snd (step_version st c p m))) = missing_flags m"
  "missing_flags (snd (snd (step_status st c p m))) = missing_flags m"
  "missing_flags (snd (snd (step_newline st c p m))) = missing_flags m"
  "missing_flags (snd (snd (step_header st c p m))) = missing_flags m"
  by (cases st; simp add: first_name_char_def)+

lemma header_step_missing_flags: "missing_flags (snd (snd (header_step c p m))) = missing_flags m"
  by (simp add: header_step_def Let_def step_missing_flags)

lemma headers_loop_missing_flags: "headers_loop p m s = (rc, ec, q, n, rest) \<Longrightarrow> missing_flags n = missing_flags m"
proof (induction p m s rule: headers_loop.induct)
  case (2 p m c s)
  obtain h p1 m1 where h: "header_step c p m = (h, p1, m1)" by (metis prod_cases3)
  then have "missing_flags m1 = missing_flags m" using header_step_missing_flags [of c p m] by simp
  with 2 h show ?case by (cases h) auto
qed simp

lemma headers_turn_missing_flags: "headers_turn p m = (rc, ec, q, n) \<Longrightarrow> missing_flags n = missing_flags m"
proof -
  assume a: "headers_turn p m = (rc, ec, q, n)"
  obtain rc1 ec1 q1 n1 where h: "parse_headers p m = (rc1, ec1, q1, n1)" by (metis prod_cases4)
  have "missing_flags n1 = missing_flags m"
    using h headers_loop_missing_flags [of p m "m_read p"]
    by (auto simp: parse_headers_rebook_form Let_def split: prod.splits if_splits)
  moreover have "missing_flags n' = missing_flags n1" if "finish_header_parsing q1 n1 = (rc', ec', q', n')" for rc' ec' q' n'
    using that by (auto simp: finish_header_parsing_def update_transfer_encoding_cases
        update_content_length_cases Let_def split: if_splits option.splits)
  ultimately show ?thesis using a h by (auto simp: headers_turn_def split: if_splits)
qed

lemma parse_switch_missing_flags:
  assumes "parse_switch p m = Inr (k, rc, ec, q, n)" shows "missing_flags n = missing_flags m"
proof (cases "m_message_parse_state p")
  case PARSE_START
  let ?h = "p\<lparr>m_message_parse_state := PARSE_HEADERS\<rparr>"
  have "parse_switch ?h m = Inr (k, rc, ec, q, n)"
    using parse_switch_start [OF PARSE_START, of m] assms by (rule trans [OF sym])
  then have "headers_turn ?h m = (rc, ec, q, n)" using parse_switch_headers [of ?h m] by simp
  then show ?thesis by (rule headers_turn_missing_flags)
next
  case PARSE_HEADERS
  then have "headers_turn p m = (rc, ec, q, n)" using parse_switch_headers [of p m] assms by simp
  then show ?thesis by (rule headers_turn_missing_flags)
next
  case PARSE_FOOTERS
  then have "headers_turn p m = (rc, ec, q, n)" using parse_switch_headers [of p m] assms by simp
  then show ?thesis by (rule headers_turn_missing_flags)
next
  case PARSE_CHUNKS
  obtain rc1 ec1 q1 ch1 where h: "parse_chunks p (msg_chunk_cache m) = (rc1, ec1, q1, ch1)" by (metis prod_cases4)
  have "chunks_turn (rc1, ec1, q1, m\<lparr>msg_chunk_cache := ch1\<rparr>) = (rc, ec, q, n)"
    using trans [OF assms [symmetric] parse_switch_chunks [OF PARSE_CHUNKS, of m]] h by simp
  then show ?thesis by (auto simp: chunks_turn_def split: if_splits)
next
  case PARSE_CONTENT
  then have c: "consume_content p m = Inr (rc, q, n)" using assms by (auto simp: parse_switch_def split: sum.splits)
  have "n = m \<or> (\<exists>buf. n = m\<lparr>msg_content_buf := buf\<rparr>)"
    using c by (auto simp: consume_content_def Let_def split: if_splits option.splits)
  then show ?thesis by auto
next
  case PARSE_CONTENT_NO_LENGTH
  then show ?thesis using assms by (auto simp: parse_switch_def Let_def split: prod.splits)
next
  case PARSE_END
  then show ?thesis using assms by (simp add: parse_switch_def)
qed

lemma parse_loop_missing_flags:
  "parse_loop p m t = Inr (k, rc, ec, q, n) \<Longrightarrow> missing_flags n = missing_flags m"
proof (induction p m t rule: parse_loop_induct)
  case (fault p m t e)
  then show ?case by (simp add: parse_loop_fault)
next
  case (stop p m t k1 rc1 ec1 q1 n1)
  then have "n = n1" using parse_loop_step [OF stop(1), of t] by (auto simp: eof_def)
  then show ?case using parse_switch_missing_flags [OF stop(1)] by simp
next
  case (again p m t k1 ec1 q1 n1)
  then show ?case
    using parse_loop_step [OF again(1), of t] parse_switch_missing_flags [OF again(1)] by (simp add: eof_def)
qed

section \<open>One buffer or two: the parser\<close>

definition mark_missing :: "http_message \<Rightarrow> http_message" where
  "mark_missing m = (if msg_has_missing_packets m then m\<lparr>msg_has_data_after_missing := True\<rparr> else m)"

lemma mark_missing_idem: "missing_flags n = missing_flags (mark_missing m) \<Longrightarrow> mark_missing n = n"
  by (cases "msg_has_missing_packets m") (auto simp: mark_missing_def missing_flags_def)

lemma content_inv_mark [simp]: "content_inv p (mark_missing m) = content_inv p m"
  by (simp add: content_inv_def mark_missing_def)

lemma parse_alt:
  "parse p m = (case parse_loop p (mark_missing m) 0 of
       Inl e \<Rightarrow> Inl e
     | Inr (k, rc, ec, p, m) \<Rightarrow>
         (case parse_end rc p m of
            Inl e \<Rightarrow> Inl e
          | Inr (p, m) \<Rightarrow> Inr (rc, ec, p\<lparr>m_bytes_last_read := k\<rparr>, m)))"
  by (simp add: parse_def mark_missing_def Let_def)

lemma update_message_with_read [simp]:
  "update_message_with_header_data (with_read s p) m = update_message_with_header_data p m"
  "update_message_with_header_data (p\<lparr>m_bytes_last_read := b\<rparr>) m = update_message_with_header_data p m"
  by (simp_all add: update_message_with_header_data_def Let_def)

lemma finish_bookkeeping:
  "finish (with_read s p) m = finish p m" "finish (p\<lparr>m_bytes_last_read := b\<rparr>) m = finish p m"
  by (simp_all add: finish_def finish_state_def Let_def split: message_parse_state_t.splits)

lemma parse_end_with_read:
  "parse_end rc (with_read s p) m = map_sum id (\<lambda>(q, n). (with_read s q, n)) (parse_end rc p m)"
proof -
  have w: "with_read s p\<lparr>m_message_parse_state := PARSE_END\<rparr> = with_read s (p\<lparr>m_message_parse_state := PARSE_END\<rparr>)"
    by simp
  show ?thesis unfolding parse_end_def w by (auto simp: finish_bookkeeping Let_def split: sum.splits)
qed

lemma parse_end_last:
  "parse_end rc (p\<lparr>m_bytes_last_read := b\<rparr>) m = map_sum id (\<lambda>(q, n). (q\<lparr>m_bytes_last_read := b\<rparr>, n)) (parse_end rc p m)"
proof -
  have w: "p\<lparr>m_bytes_last_read := b, m_message_parse_state := PARSE_END\<rparr> =
      p\<lparr>m_message_parse_state := PARSE_END, m_bytes_last_read := b\<rparr>" by simp
  show ?thesis unfolding parse_end_def w by (auto simp: finish_bookkeeping Let_def split: sum.splits)
qed

lemma parse_end_read: "parse_end rc p m = Inr (q, n) \<Longrightarrow> m_read q = m_read p"
  by (auto simp: parse_end_def Let_def split: if_splits sum.splits)

text \<open>What the parse function returns, up to the counters.\<close>

definition parse_core :: "fault + parse_result \<Rightarrow> fault + parse_result" where
  "parse_core r = map_sum id core r"

lemma parse_end_core:
  assumes "core (rc, ec, p, m) = core (rc', ec', p', m')"
  shows "map_sum id (\<lambda>(q, n). core (rc, ec, q, n)) (parse_end rc p m) =
         map_sum id (\<lambda>(q, n). core (rc', ec', q, n)) (parse_end rc' p' m')"
proof (cases "rc = false_value")
  case True
  then show ?thesis using assms by (auto simp: parse_end_def core_def)
next
  case False
  note eqs = core_eqD [OF assms]
  have p': "p\<lparr>m_bytes_last_read := m_bytes_last_read p'\<rparr> = p'" using eqs(4) False by simp
  have "parse_end rc p' m = map_sum id (\<lambda>(q, n). (q\<lparr>m_bytes_last_read := m_bytes_last_read p'\<rparr>, n)) (parse_end rc p m)"
    using parse_end_last [where rc = rc and p = p and b = "m_bytes_last_read p'" and m = m] unfolding p' .
  then have "map_sum id (\<lambda>(q, n). core (rc, ec, q, n)) (parse_end rc p' m) =
      map_sum id (\<lambda>(q, n). core (rc, ec, q, n)) (parse_end rc p m)"
    by (cases "parse_end rc p m") auto
  then show ?thesis using eqs(1-3) by simp
qed

lemma parse_core_loop:
  "parse_core (parse p m) = (case parse_loop p (mark_missing m) 0 of
       Inl e \<Rightarrow> Inl e
     | Inr (k, rc, ec, p, m) \<Rightarrow> map_sum id (\<lambda>(q, n). core (rc, ec, q, n)) (parse_end rc p m))"
  by (auto simp: parse_alt parse_core_def split: sum.splits)

lemma parse_core_cong:
  assumes "loop_core (parse_loop p (mark_missing m) 0) = loop_core (parse_loop p' (mark_missing m') 0)"
  shows "parse_core (parse p m) = parse_core (parse p' m')"
proof (cases "parse_loop p (mark_missing m) 0")
  case (Inl e)
  then have "parse_loop p' (mark_missing m') 0 = Inl e" using assms loop_core_Inl by metis
  then show ?thesis using Inl by (simp add: parse_core_loop)
next
  case (Inr r)
  obtain k rc ec q n where r: "r = (k, rc, ec, q, n)" by (metis prod_cases5)
  obtain k' rc' ec' q' n' where s': "parse_loop p' (mark_missing m') 0 = Inr (k', rc', ec', q', n')"
      and c: "core (rc, ec, q, n) = core (rc', ec', q', n')"
    using loop_core_Inr [of k "(rc, ec, q, n)" "parse_loop p' (mark_missing m') 0"] assms Inr r by auto
  show ?thesis using parse_end_core [OF c] Inr r s' by (simp add: parse_core_loop)
qed

lemma parse_indeterminate:
  assumes "parse p m = Inr (indeterminate_value, ec, q, n)"
  obtains k q' where "parse_loop p (mark_missing m) 0 = Inr (k, indeterminate_value, ec, q', n)"
    and "q = q'\<lparr>m_bytes_last_read := k\<rparr>"
  using assms by (auto simp: parse_alt parse_end_def split: sum.splits prod.splits if_splits)

lemma parse_fragments_lemma:
  assumes "\<not> m_payload_handler p" and "content_inv p m" and "ys \<noteq> []"
    and "parse p m = Inr (indeterminate_value, ec, q, n)"
  shows "parse_core (parse (with_read (m_read p @ ys) p) m) = parse_core (parse (with_read ys q) n)"
proof -
  obtain k q' where l: "parse_loop p (mark_missing m) 0 = Inr (k, indeterminate_value, ec, q', n)"
    and q: "q = q'\<lparr>m_bytes_last_read := k\<rparr>" by (rule parse_indeterminate [OF assms(4)])
  have n: "mark_missing n = n"
    using parse_loop_missing_flags [OF l] mark_missing_idem by blast
  have "loop_core (parse_loop (with_read (m_read p @ ys) p) (mark_missing m) 0) =
      loop_core (parse_loop (with_read ys q') n 0)"
    using parse_loop_append [OF l assms(1) _ assms(3), of 0] assms(2) by simp
  also have "\<dots> = loop_core (parse_loop (with_read ys q) n 0)"
  proof (rule loop_core_cong)
    have "with_read ys q = with_read ys q'\<lparr>m_bytes_last_read := k\<rparr>" by (simp add: q)
    then show "loop_core (parse_switch (with_read ys q') n) = loop_core (parse_switch (with_read ys q) n)"
      using parse_switch_last by metis
  qed
  finally show ?thesis using parse_core_cong n by metis
qed

lemma parse_pipelined_lemma:
  assumes "\<not> m_payload_handler p" and "content_inv p m"
    and "parse p m = Inr (rc, ec, q, n)" and "rc \<noteq> indeterminate_value"
  shows "parse (with_read (m_read p @ ys) p) m = Inr (rc, ec, with_read (m_read q @ ys) q, n)"
proof (cases "ys = []")
  case True
  then show ?thesis using assms(3) by simp
next
  case False
  obtain k q' n' where l: "parse_loop p (mark_missing m) 0 = Inr (k, rc, ec, q', n')"
    using assms(3) by (auto simp: parse_alt split: sum.splits prod.splits)
  then obtain q1 where e: "parse_end rc q' n' = Inr (q1, n)" "q = q1\<lparr>m_bytes_last_read := k\<rparr>"
    using assms(3) by (auto simp: parse_alt split: sum.splits)
  have "parse_loop (with_read (m_read p @ ys) p) (mark_missing m) 0 = Inr (k, rc, ec, with_read (m_read q' @ ys) q', n')"
    using parse_loop_append [OF l assms(1) _ False, of 0] assms(2,4) by simp
  then show ?thesis
    using e parse_end_read [OF e(1)] by (simp add: parse_alt parse_end_with_read)
qed

section \<open>Properties\<close>

text \<open>C1: Incremental parsing does not depend on how the input is cut into buffers. If parsing the
  bytes of the read buffer ends with \<^verbatim>\<open>indeterminate\<close>, then parsing further bytes \<open>ys\<close> from the state
  reached gives the same result, the same error, the same message and the same parser state as parsing
  everything from one buffer, for every parser without payload handler and every state satisfying the
  content invariant; only the byte counters may differ (the counter of the last call always, the
  totals when the result is an error).\<close>

theorem parse_fragments:
  assumes "\<not> m_payload_handler p" and "content_inv p m" and "ys \<noteq> []"
    and "parse p m = Inr (indeterminate_value, ec, q, n)"
  shows "parse_core (parse (p\<lparr>m_read := m_read p @ ys\<rparr>) m) = parse_core (parse (q\<lparr>m_read := ys\<rparr>) n)"
  using parse_fragments_lemma [OF assms] .

theorem parse_fragments_witness:
  "\<exists>ec q n. parse (set_read_buffer ''GET / HT'' (new_parser True 10)) (empty_message True) =
       Inr (indeterminate_value, ec, q, n) \<and>
     parse_core (parse (set_read_buffer (''GET / HTTP/1.1'' @ [CR, LF, CR, LF]) (new_parser True 10)) (empty_message True)) =
     parse_core (parse (q\<lparr>m_read := ''TP/1.1'' @ [CR, LF, CR, LF]\<rparr>) n)"
proof -
  let ?p = "set_read_buffer ''GET / HT'' (new_parser True 10)" and ?m = "empty_message True"
  have "case parse ?p ?m of Inr (rc, ec, q, n) \<Rightarrow> rc = indeterminate_value | Inl _ \<Rightarrow> False"
    by code_simp
  then obtain ec q n where r: "parse ?p ?m = Inr (indeterminate_value, ec, q, n)"
    by (cases "parse ?p ?m") auto
  have "\<not> m_payload_handler ?p" "content_inv ?p ?m"
    by (simp_all add: set_read_buffer_def new_parser_def content_inv_def)
  from parse_fragments [OF this _ r, of "''TP/1.1'' @ [CR, LF, CR, LF]"] r show ?thesis
    by (simp add: set_read_buffer_def)
qed

text \<open>C2: A finished message is not affected by the bytes behind it, which pipelining relies on. If
  parsing the read buffer ends with \<^verbatim>\<open>true\<close> or \<^verbatim>\<open>false\<close>, then with more bytes \<open>ys\<close> in the buffer the
  parser returns the same result, error, message and state, and leaves \<open>ys\<close> unread behind what it had
  left unread before.\<close>

theorem parse_pipelined:
  assumes "\<not> m_payload_handler p" and "content_inv p m"
    and "parse p m = Inr (rc, ec, q, n)" and "rc \<noteq> indeterminate_value"
  shows "parse (p\<lparr>m_read := m_read p @ ys\<rparr>) m = Inr (rc, ec, q\<lparr>m_read := m_read q @ ys\<rparr>, n)"
  using parse_pipelined_lemma [OF assms] .

theorem parse_pipelined_witness:
  "\<exists>ec q n. parse (set_read_buffer (''GET / HTTP/1.1'' @ [CR, LF, CR, LF] @ ''GET /b'') (new_parser True 10)) (empty_message True) =
     Inr (true_value, ec, q, n) \<and> m_read q = ''GET /b''"
proof -
  let ?p = "set_read_buffer (''GET / HTTP/1.1'' @ [CR, LF, CR, LF]) (new_parser True 10)" and ?m = "empty_message True"
  have "case parse ?p ?m of Inr (rc, ec, q, n) \<Rightarrow> rc = true_value \<and> m_read q = [] | Inl _ \<Rightarrow> False"
    by code_simp
  then obtain ec q n where r: "parse ?p ?m = Inr (true_value, ec, q, n)" "m_read q = []"
    by (cases "parse ?p ?m") auto
  have "\<not> m_payload_handler ?p" "content_inv ?p ?m"
    by (simp_all add: set_read_buffer_def new_parser_def content_inv_def)
  from parse_pipelined [OF this r(1), of "''GET /b''"] r show ?thesis
    by (simp add: set_read_buffer_def)
qed

end
