(* ===== verification/Parser_Safety.thy ===== *)
theory Parser_Safety
  imports Parser_Props
begin

text \<open>
  Safety of the parser: every string it collects stays below the limit of the code, no content byte
  is written outside of the buffer, the content a finished message shows was written, and the byte
  counters are what was consumed.
\<close>

section \<open>Size limits\<close>

definition header_sizes :: "parser \<Rightarrow> bool" where
  "header_sizes p =
     (length (m_method p) \<le> METHOD_MAX \<and> length (m_resource p) \<le> RESOURCE_MAX \<and>
      length (m_query_string p) \<le> QUERY_STRING_MAX \<and>
      length (m_status_message p) \<le> STATUS_MESSAGE_MAX \<and>
      length (m_header_name p) \<le> HEADER_NAME_MAX \<and> length (m_header_value p) \<le> HEADER_VALUE_MAX \<and>
      (m_headers_parse_state p = PARSE_SPACE_BEFORE_HEADER_VALUE \<longrightarrow> m_header_value p = []))"

definition headers_bounded :: "http_message \<Rightarrow> bool" where
  "headers_bounded m = list_all (entry_bounded HEADER_NAME_MAX HEADER_VALUE_MAX) (msg_headers m)"

lemma headers_bounded_add:
  "headers_bounded m \<Longrightarrow> length k \<le> HEADER_NAME_MAX \<Longrightarrow> length v \<le> HEADER_VALUE_MAX \<Longrightarrow>
   headers_bounded (add_header k v m)"
  by (auto simp: headers_bounded_def add_header_def list_all_iff set_dict_insert entry_bounded_def)

lemma headers_bounded_version [simp]:
  "headers_bounded (set_version_0 m) = headers_bounded m"
  "headers_bounded (set_version_major w m) = headers_bounded m"
  "headers_bounded (set_version_minor w m) = headers_bounded m"
  by (simp_all add: headers_bounded_def set_version_0_def first_line_setters)

lemmas limit_defs = METHOD_MAX_def RESOURCE_MAX_def QUERY_STRING_MAX_def STATUS_MESSAGE_MAX_def
  HEADER_NAME_MAX_def HEADER_VALUE_MAX_def

definition sized :: "hresult \<Rightarrow> bool" where
  "sized res = (header_sizes (fst (snd res)) \<and> headers_bounded (snd (snd res)))"

lemma step_sizes:
  assumes "header_sizes p" and "headers_bounded m" and "m_headers_parse_state p = st"
  shows "sized (step_request_line st c p m)" "sized (step_version st c p m)"
    "sized (step_status st c p m)" "sized (step_newline st c p m)" "sized (step_header st c p m)"
proof -
  show "sized (step_request_line st c p m)" "sized (step_version st c p m)" "sized (step_status st c p m)"
      "sized (step_newline st c p m)"
    using assms by (cases st; simp add: sized_def header_sizes_def first_name_char_def limit_defs)+
  have one: "Suc 0 \<le> HEADER_VALUE_MAX" by (simp add: limit_defs)
  show "sized (step_header st c p m)"
    using assms headers_bounded_add [of m "m_header_name p" "m_header_value p"] one
    by (cases st) (simp_all add: sized_def header_sizes_def)
qed

lemma header_step_sizes:
  assumes "header_sizes p" and "headers_bounded m" shows "sized (header_step c p m)"
proof -
  define q where "q = (if m_save_raw_headers p then p\<lparr>m_raw_headers := m_raw_headers p @ [c]\<rparr> else p)"
  have "header_sizes q" using assms(1) by (simp add: q_def header_sizes_def)
  then show ?thesis
    using step_sizes [OF _ assms(2) refl, of q c] by (simp add: header_step_def Let_def q_def [symmetric])
qed

lemma headers_loop_sizes:
  "headers_loop p m s = (rc, ec, q, n, rest) \<Longrightarrow> header_sizes p \<Longrightarrow> headers_bounded m \<Longrightarrow>
   header_sizes q \<and> headers_bounded n"
proof (induction p m s rule: headers_loop.induct)
  case (2 p m c s)
  obtain h p1 m1 where h: "header_step c p m = (h, p1, m1)" by (metis prod_cases3)
  then have "header_sizes p1 \<and> headers_bounded m1"
    using header_step_sizes [OF 2(3,4), of c] by (simp add: sized_def)
  with 2 h show ?case by (cases h) auto
qed simp

text \<open>The invariant: header strings, stored headers, chunk cache and content buffer are bounded.\<close>

definition sizes_ok :: "parser \<Rightarrow> http_message \<Rightarrow> bool" where
  "sizes_ok p m =
     (header_sizes p \<and> headers_bounded m \<and> length (msg_chunk_cache m) \<le> m_max_content_length p \<and>
      length (msg_content_buf m) \<le> m_max_content_length p)"

lemma header_sizes_other [simp]:
  "header_sizes (p\<lparr>m_read := s\<rparr>) = header_sizes p" "header_sizes (p\<lparr>m_bytes_last_read := n\<rparr>) = header_sizes p"
  "header_sizes (p\<lparr>m_bytes_total_read := n\<rparr>) = header_sizes p"
  "header_sizes (p\<lparr>m_bytes_content_read := n\<rparr>) = header_sizes p"
  "header_sizes (p\<lparr>m_bytes_content_remaining := n\<rparr>) = header_sizes p"
  "header_sizes (p\<lparr>m_message_parse_state := st\<rparr>) = header_sizes p"
  "header_sizes (p\<lparr>m_payload_log := l\<rparr>) = header_sizes p"
  by (simp_all add: header_sizes_def)

text \<open>The header state machine changes only version, first line and headers of the message.\<close>

definition head_frame :: "http_message \<Rightarrow> http_message" where
  "head_frame m = m\<lparr>msg_first_line := [], msg_version_major := 0, msg_version_minor := 0, msg_headers := []\<rparr>"

lemma head_frame_setters [simp]:
  "head_frame (set_version_0 m) = head_frame m" "head_frame (set_version_major w m) = head_frame m"
  "head_frame (set_version_minor w m) = head_frame m" "head_frame (add_header k v m) = head_frame m"
  by (simp_all add: head_frame_def set_version_0_def first_line_setters add_header_def)

lemma step_head_frame:
  "head_frame (snd (snd (step_request_line st c p m))) = head_frame m"
  "head_frame (snd (snd (step_version st c p m))) = head_frame m"
  "head_frame (snd (snd (step_status st c p m))) = head_frame m"
  "head_frame (snd (snd (step_newline st c p m))) = head_frame m"
  "head_frame (snd (snd (step_header st c p m))) = head_frame m"
  by (cases st; simp add: first_name_char_def)+

lemma header_step_head_frame: "head_frame (snd (snd (header_step c p m))) = head_frame m"
  by (simp add: header_step_def Let_def step_head_frame)

lemma headers_loop_head_frame: "headers_loop p m s = (rc, ec, q, n, rest) \<Longrightarrow> head_frame n = head_frame m"
proof (induction p m s rule: headers_loop.induct)
  case (2 p m c s)
  obtain h p1 m1 where h: "header_step c p m = (h, p1, m1)" by (metis prod_cases3)
  then have "head_frame m1 = head_frame m" using header_step_head_frame [of c p m] by simp
  with 2 h show ?case by (cases h) auto
qed simp

lemma head_frame_eqD:
  assumes "head_frame n = head_frame m"
  shows "msg_chunk_cache n = msg_chunk_cache m" "msg_content_buf n = msg_content_buf m"
    "msg_content_length n = msg_content_length m" "msg_is_request n = msg_is_request m"
    "msg_cookie_params n = msg_cookie_params m" "req_query_params n = req_query_params m"
    "msg_is_valid n = msg_is_valid m"
proof -
  have "msg_chunk_cache (head_frame x) = msg_chunk_cache x" "msg_content_buf (head_frame x) = msg_content_buf x"
      "msg_content_length (head_frame x) = msg_content_length x" "msg_is_request (head_frame x) = msg_is_request x"
      "msg_cookie_params (head_frame x) = msg_cookie_params x" "req_query_params (head_frame x) = req_query_params x"
      "msg_is_valid (head_frame x) = msg_is_valid x"
    for x by (simp_all add: head_frame_def)
  then show "msg_chunk_cache n = msg_chunk_cache m" "msg_content_buf n = msg_content_buf m"
    "msg_content_length n = msg_content_length m" "msg_is_request n = msg_is_request m"
    "msg_cookie_params n = msg_cookie_params m" "req_query_params n = req_query_params m"
    "msg_is_valid n = msg_is_valid m"
    using assms by metis+
qed

lemma parse_headers_loop:
  assumes "parse_headers p m = (rc, ec, q, n)"
  obtains p1 rest where "headers_loop (p\<lparr>m_bytes_last_read := 0\<rparr>) m (m_read p) = (rc, ec, p1, n, rest)"
    and "rc = false_value \<Longrightarrow> q = p1\<lparr>m_read := rest\<rparr>"
    and "rc \<noteq> false_value \<Longrightarrow> q = p1\<lparr>m_read := rest, m_bytes_last_read := length (m_read p) - length rest,
       m_bytes_total_read := szadd (m_bytes_total_read p) (length (m_read p) - length rest)\<rparr>"
    and "header_frame (p\<lparr>m_bytes_last_read := 0\<rparr>) p1" and "length rest \<le> length (m_read p)"
proof -
  obtain rc1 ec1 p1 n1 rest where l: "headers_loop (p\<lparr>m_bytes_last_read := 0\<rparr>) m (m_read p) = (rc1, ec1, p1, n1, rest)"
    by (metis prod_cases5)
  have f: "header_frame (p\<lparr>m_bytes_last_read := 0\<rparr>) p1" using headers_loop_frame [OF l] .
  then have t: "m_bytes_total_read p1 = m_bytes_total_read p" by (simp add: header_frame_def)
  show ?thesis
    using assms l t by (intro that [of p1 rest] f headers_loop_rest [OF l])
      (auto simp: parse_headers_def Let_def split: if_splits)
qed

lemma parse_headers_sizes:
  assumes "parse_headers p m = (rc, ec, q, n)" and "sizes_ok p m" shows "sizes_ok q n"
proof -
  obtain p1 rest where l: "headers_loop (p\<lparr>m_bytes_last_read := 0\<rparr>) m (m_read p) = (rc, ec, p1, n, rest)"
    and q: "rc = false_value \<Longrightarrow> q = p1\<lparr>m_read := rest\<rparr>"
      "rc \<noteq> false_value \<Longrightarrow> q = p1\<lparr>m_read := rest, m_bytes_last_read := length (m_read p) - length rest,
       m_bytes_total_read := szadd (m_bytes_total_read p) (length (m_read p) - length rest)\<rparr>"
    and f: "header_frame (p\<lparr>m_bytes_last_read := 0\<rparr>) p1"
    by (rule parse_headers_loop [OF assms(1)]) blast
  have "header_sizes p1 \<and> headers_bounded n"
    using headers_loop_sizes [OF l] assms(2) by (simp add: sizes_ok_def)
  then show ?thesis
    using q f assms(2) head_frame_eqD [OF headers_loop_head_frame [OF l]]
    by (cases "rc = false_value") (auto simp: sizes_ok_def header_frame_def)
qed

lemma update_message_sizes [simp]:
  "msg_headers (update_message_with_header_data p m) = msg_headers m"
  "msg_chunk_cache (update_message_with_header_data p m) = msg_chunk_cache m"
  "msg_content_buf (update_message_with_header_data p m) = msg_content_buf m"
  "msg_content_length (update_message_with_header_data p m) = msg_content_length m"
  "msg_is_chunked (update_message_with_header_data p m) = msg_is_chunked m"
  by (simp_all add: update_message_with_header_data_def first_line_setters Let_def)

lemma finish_header_parsing_sizes:
  assumes "finish_header_parsing p m = (rc, ec, q, n)" and "sizes_ok p m" shows "sizes_ok q n"
  using assms
  by (auto simp: finish_header_parsing_def sizes_ok_def headers_bounded_def update_transfer_encoding_cases
      update_content_length_cases set_content_length_def create_content_buffer_def content_resize_def Let_def
      split: if_splits option.splits)

lemma headers_turn_sizes: "headers_turn p m = (rc, ec, q, n) \<Longrightarrow> sizes_ok p m \<Longrightarrow> sizes_ok q n"
  using parse_headers_sizes finish_header_parsing_sizes
  by (auto simp: headers_turn_def split: prod.splits if_splits)

lemma chunk_data_cache:
  "chunk_data p ch s = (q, ch', s') \<Longrightarrow> length ch \<le> m_max_content_length p \<Longrightarrow>
   length ch' \<le> m_max_content_length p \<and> header_sizes q = header_sizes p \<and>
   m_max_content_length q = m_max_content_length p"
  by (auto simp: chunk_data_def header_sizes_def Let_def split: if_splits)

lemma chunk_switch_sizes:
  assumes "chunk_switch st c p ch s = (h, q, ch', s')" and "length ch \<le> m_max_content_length p" and "header_sizes p"
  shows "length ch' \<le> m_max_content_length q \<and> header_sizes q \<and> m_max_content_length q = m_max_content_length p"
proof (cases "st = PARSE_CHUNK")
  case True
  obtain p1 ch1 s1 where d: "chunk_data p ch s = (p1, ch1, s1)" by (metis prod_cases3)
  show ?thesis
    using assms True d chunk_data_cache [OF d assms(2)] by (auto simp: header_sizes_def split: if_splits)
next
  case False
  then show ?thesis
    using assms by (cases st) (auto simp: chunk_error_def header_sizes_def Let_def split: if_splits)
qed

lemma chunks_loop_sizes:
  "chunks_loop p ch s = (rc, ec, q, ch', rest) \<Longrightarrow> length ch \<le> m_max_content_length p \<Longrightarrow> header_sizes p \<Longrightarrow>
   length ch' \<le> m_max_content_length q \<and> header_sizes q \<and> m_max_content_length q = m_max_content_length p"
proof (induction p ch s rule: chunks_loop.induct)
  case (2 p ch c s)
  obtain h p1 ch1 s1 where h: "chunk_switch (m_chunked_content_parse_state p) c p ch (c # s) = (h, p1, ch1, s1)"
    by (metis prod_cases4)
  note z = chunk_switch_sizes [OF h 2(3,4)]
  show ?case
  proof (cases h)
    case C_More
    then show ?thesis using 2(1) [OF h [symmetric] C_More refl refl] 2(2) h z by simp
  qed (use 2(2) h z in auto)
qed simp

lemma parse_chunks_sizes:
  assumes "parse_chunks p ch = (rc, ec, q, ch')" and "length ch \<le> m_max_content_length p" and "header_sizes p"
  shows "length ch' \<le> m_max_content_length q \<and> header_sizes q \<and> m_max_content_length q = m_max_content_length p"
  using assms chunks_loop_sizes [of "p\<lparr>m_bytes_last_read := 0\<rparr>" ch "m_read p"]
  by (auto simp: parse_chunks_def Let_def split: prod.splits if_splits)

lemma buf_write_len: "buf_write pos b buf = Some buf' \<Longrightarrow> length buf' = length buf"
  by (auto simp: buf_write_def split: if_splits)

lemma consume_content_sizes:
  assumes "consume_content p m = Inr (rc, q, n)" and "sizes_ok p m" shows "sizes_ok q n"
  using assms
  by (auto simp: consume_content_def sizes_ok_def headers_bounded_def Let_def
      split: if_splits option.splits dest: buf_write_len)

lemma consume_next_chunk_sizes:
  assumes "consume_content_as_next_chunk p ch = (q, ch')" and "length ch \<le> m_max_content_length p" and "header_sizes p"
  shows "length ch' \<le> m_max_content_length q \<and> header_sizes q \<and> m_max_content_length q = m_max_content_length p"
  using assms by (auto simp: consume_content_as_next_chunk_def Let_def split: if_splits)

lemma concatenate_chunks_sizes: "sizes_ok p m \<Longrightarrow> sizes_ok p (concatenate_chunks m)"
  by (simp add: sizes_ok_def concatenate_chunks_result headers_bounded_def)

lemma parse_switch_sizes:
  assumes "parse_switch p m = Inr (k, rc, ec, q, n)" and "sizes_ok p m" shows "sizes_ok q n"
proof (cases "m_message_parse_state p")
  case PARSE_START
  let ?h = "p\<lparr>m_message_parse_state := PARSE_HEADERS\<rparr>"
  have "parse_switch ?h m = Inr (k, rc, ec, q, n)"
    using parse_switch_start [OF PARSE_START, of m] assms(1) by (rule trans [OF sym])
  then have "headers_turn ?h m = (rc, ec, q, n)" using parse_switch_headers [of ?h m] by simp
  then show ?thesis using headers_turn_sizes assms(2) by (simp add: sizes_ok_def)
next
  case PARSE_HEADERS
  then have "headers_turn p m = (rc, ec, q, n)" using parse_switch_headers [of p m] assms by simp
  then show ?thesis using headers_turn_sizes assms(2) by blast
next
  case PARSE_FOOTERS
  then have "headers_turn p m = (rc, ec, q, n)" using parse_switch_headers [of p m] assms by simp
  then show ?thesis using headers_turn_sizes assms(2) by blast
next
  case PARSE_CHUNKS
  obtain rc1 ec1 q1 ch1 where h: "parse_chunks p (msg_chunk_cache m) = (rc1, ec1, q1, ch1)" by (metis prod_cases4)
  have t: "chunks_turn (rc1, ec1, q1, m\<lparr>msg_chunk_cache := ch1\<rparr>) = (rc, ec, q, n)"
    using trans [OF assms(1) [symmetric] parse_switch_chunks [OF PARSE_CHUNKS, of m]] h by simp
  have "sizes_ok q1 (m\<lparr>msg_chunk_cache := ch1\<rparr>)"
    using parse_chunks_sizes [OF h] assms(2) by (simp add: sizes_ok_def headers_bounded_def)
  then show ?thesis using t concatenate_chunks_sizes by (auto simp: chunks_turn_def split: if_splits)
next
  case PARSE_CONTENT
  then have "consume_content p m = Inr (rc, q, n)" using assms(1) by (auto simp: parse_switch_def split: sum.splits)
  then show ?thesis using consume_content_sizes assms(2) by blast
next
  case PARSE_CONTENT_NO_LENGTH
  obtain q1 ch1 where h: "consume_content_as_next_chunk p (msg_chunk_cache m) = (q1, ch1)" by fastforce
  then have "q = q1" "n = m\<lparr>msg_chunk_cache := ch1\<rparr>" using assms(1) PARSE_CONTENT_NO_LENGTH by (auto simp: parse_switch_def)
  then show ?thesis
    using consume_next_chunk_sizes [OF h] assms(2) by (simp add: sizes_ok_def headers_bounded_def)
next
  case PARSE_END
  then show ?thesis using assms by (simp add: parse_switch_def)
qed

lemma parse_loop_sizes:
  "parse_loop p m t = Inr (k, rc, ec, q, n) \<Longrightarrow> sizes_ok p m \<Longrightarrow> sizes_ok q n"
proof (induction p m t rule: parse_loop_induct)
  case (fault p m t e)
  then show ?case by (simp add: parse_loop_fault)
next
  case (stop p m t k1 rc1 ec1 q1 n1)
  then have "n = n1" "q = q1" using parse_loop_step [OF stop(1), of t] by (auto simp: eof_def)
  then show ?case using parse_switch_sizes [OF stop(1)] stop by simp
next
  case (again p m t k1 ec1 q1 n1)
  then show ?case
    using parse_loop_step [OF again(1), of t] parse_switch_sizes [OF again(1)] by (simp add: eof_def)
qed

lemma finish_form_data_keeps:
  "finish_form_data m = Inr n \<Longrightarrow> \<exists>d. n = m\<lparr>req_query_params := d\<rparr>"
proof -
  assume "finish_form_data m = Inr n"
  then have "n = m \<or> (\<exists>d. n = m\<lparr>req_query_params := d\<rparr>)"
    by (auto simp: finish_form_data_def Let_def split: if_splits sum.splits prod.splits)
  moreover have "m = m\<lparr>req_query_params := req_query_params m\<rparr>" by simp
  ultimately show ?thesis by blast
qed

lemma finish_end:
  assumes "finish p m = Inr n" and "m_message_parse_state p = PARSE_END"
  shows "\<exists>st d. n = m\<lparr>msg_is_valid := True, msg_status := st, req_query_params := d\<rparr>"
proof -
  let ?m = "compute_msg_status True (m\<lparr>msg_is_valid := True\<rparr>)"
  have "finish_form_data ?m = Inr n \<or> n = ?m"
    using assms by (auto simp: finish_def finish_state_def Let_def split: if_splits)
  moreover have "?m = ?m\<lparr>req_query_params := req_query_params ?m\<rparr>" by simp
  ultimately obtain d where "n = ?m\<lparr>req_query_params := d\<rparr>" using finish_form_data_keeps by blast
  then show ?thesis by (auto simp: compute_msg_status_def)
qed

lemma parse_end_sizes: "parse_end rc p m = Inr (q, n) \<Longrightarrow> sizes_ok p m \<Longrightarrow> sizes_ok q n"
proof -
  assume a: "parse_end rc p m = Inr (q, n)" "sizes_ok p m"
  consider (t) "rc = true_value" | (f) "rc = false_value" | (i) "rc = indeterminate_value" by (cases rc) auto
  then show ?thesis
  proof cases
    case t
    then have "finish (p\<lparr>m_message_parse_state := PARSE_END\<rparr>) m = Inr n" "q = p\<lparr>m_message_parse_state := PARSE_END\<rparr>"
      using a(1) by (auto simp: parse_end_def Let_def split: sum.splits)
    then show ?thesis using finish_end a(2) by (fastforce simp: sizes_ok_def headers_bounded_def)
  qed (use a in \<open>auto simp: parse_end_def compute_msg_status_def sizes_ok_def headers_bounded_def\<close>)
qed

lemma parse_sizes_lemma:
  assumes "sizes_ok p m" and "parse p m = Inr (rc, ec, q, n)" shows "sizes_ok q n"
proof -
  obtain k q' n' where l: "parse_loop p (mark_missing m) 0 = Inr (k, rc, ec, q', n')"
    using assms(2) by (auto simp: parse_alt split: sum.splits prod.splits)
  then obtain q1 where e: "parse_end rc q' n' = Inr (q1, n)" "q = q1\<lparr>m_bytes_last_read := k\<rparr>"
    using assms(2) by (auto simp: parse_alt split: sum.splits)
  have "sizes_ok p (mark_missing m)" using assms(1) by (simp add: sizes_ok_def mark_missing_def headers_bounded_def)
  then have "sizes_ok q1 n" using parse_loop_sizes [OF l] parse_end_sizes [OF e(1)] by blast
  then show ?thesis using e(2) by (simp add: sizes_ok_def)
qed

end
