(* ===== verification/Parser_Session.thy ===== *)
theory Parser_Session
  imports Parser_Safety
begin

text \<open>
  Sessions: the states a parser and its message reach through the calls a reader makes. The safety
  properties are invariants of all these states, by induction over the calls.
\<close>

section \<open>No write outside of the content buffer\<close>

text \<open>With a payload handler nothing is written to the buffer.\<close>

definition buffer_inv :: "parser \<Rightarrow> http_message \<Rightarrow> bool" where
  "buffer_inv p m = (m_payload_handler p \<or> content_inv p m)"

lemma mp_step_throw: "mp_step content boundary v = (MP_Throw e, v') \<Longrightarrow> e = Length_error"
  by (auto simp: mp_step_def mp_switch_def mp_field_data_def Let_def split: if_splits mp_state.splits sum.splits prod.splits)

lemma mp_loop_fault: "mp_loop content bound v = Inl e \<Longrightarrow> e = Length_error"
proof (induction content bound v rule: mp_loop.induct)
  case (1 content bound v)
  obtain r v' where s: "mp_step content (''--'' @ bound) v = (r, v')" by fastforce
  show ?case
  proof (cases r)
    case MP_Continue
    then show ?thesis using 1 s by (auto simp: mp_loop.simps [of content bound v] split: if_splits)
  qed (use 1(2) s mp_step_throw [of content "''--'' @ bound" v] in
        \<open>auto simp: mp_loop.simps [of content bound v] split: if_splits\<close>)
qed

lemma finish_form_data_fault: "finish_form_data m = Inl e \<Longrightarrow> e = Length_error"
  using mp_loop_fault
  by (auto simp: finish_form_data_def parse_multipart_form_data_def Let_def
      split: if_splits sum.splits prod.splits option.splits)

lemma finish_fault:
  "finish p m = Inl e \<Longrightarrow> e = Length_error \<and> m_is_request p \<and> \<not> m_payload_handler p"
  using finish_form_data_fault by (auto simp: finish_def Let_def split: if_splits)

lemma parse_end_fault:
  "parse_end rc p m = Inl e \<Longrightarrow> e = Length_error \<and> m_is_request p \<and> \<not> m_payload_handler p"
  using finish_fault [of "p\<lparr>m_message_parse_state := PARSE_END\<rparr>" m e]
  by (auto simp: parse_end_def Let_def split: if_splits sum.splits)

lemma consume_content_no_fault:
  assumes "buffer_inv p m" and "m_message_parse_state p = PARSE_CONTENT"
  shows "consume_content p m \<noteq> Inl e"
proof (cases "m_payload_handler p \<or> m_bytes_content_remaining p = 0")
  case True
  then show ?thesis by (auto simp: consume_content_def Let_def)
next
  case False
  then have "content_inv p m" "\<not> m_payload_handler p" "m_bytes_content_remaining p \<noteq> 0"
    using assms(1) by (auto simp: buffer_inv_def)
  from consume_content_eq [OF this(1) assms(2) this(2,3)] show ?thesis by simp
qed

lemma parse_switch_no_fault: "buffer_inv p m \<Longrightarrow> parse_switch p m \<noteq> Inl e"
  using consume_content_no_fault [of p m]
  by (cases "m_message_parse_state p") (auto simp: parse_switch_def Let_def split: sum.splits prod.splits)

text \<open>The flags and limits of the parser never change, and the invariant is kept by every turn.\<close>

definition config :: "parser \<Rightarrow> bool \<times> bool \<times> nat \<times> bool \<times> bool" where
  "config p = (m_is_request p, m_payload_handler p, m_max_content_length p, m_parse_headers_only p, m_save_raw_headers p)"

lemma config_updates [simp]:
  "config (p\<lparr>m_read := s\<rparr>) = config p" "config (p\<lparr>m_bytes_last_read := n\<rparr>) = config p"
  "config (p\<lparr>m_bytes_total_read := n\<rparr>) = config p" "config (p\<lparr>m_bytes_content_read := n\<rparr>) = config p"
  "config (p\<lparr>m_bytes_content_remaining := n\<rparr>) = config p" "config (p\<lparr>m_message_parse_state := st\<rparr>) = config p"
  "config (p\<lparr>m_payload_log := l\<rparr>) = config p" "config (p\<lparr>m_chunked_content_parse_state := cs\<rparr>) = config p"
  "config (p\<lparr>m_headers_parse_state := hs\<rparr>) = config p"
  "config (p\<lparr>m_bytes_read_in_current_chunk := n\<rparr>) = config p" "config (p\<lparr>m_size_of_current_chunk := n\<rparr>) = config p"
  "config (p\<lparr>m_chunk_size_str := s\<rparr>) = config p"
  by (simp_all add: config_def)

lemma parse_headers_config: "parse_headers p m = (rc, ec, q, n) \<Longrightarrow> config q = config p"
  by (erule parse_headers_loop, cases "rc = false_value")
    (auto simp: header_frame_def config_def)

lemma finish_header_parsing_config: "finish_header_parsing p m = (rc, ec, q, n) \<Longrightarrow> config q = config p"
  by (auto simp: finish_header_parsing_def config_def Let_def split: if_splits option.splits)

lemma headers_turn_config: "headers_turn p m = (rc, ec, q, n) \<Longrightarrow> config q = config p"
  using parse_headers_config finish_header_parsing_config
  by (fastforce simp: headers_turn_def split: prod.splits if_splits)

lemma chunk_switch_config: "chunk_switch st c p ch s = (h, q, ch', s') \<Longrightarrow> config q = config p"
  by (cases st) (auto simp: chunk_error_def chunk_data_def Let_def split: if_splits)

lemma chunks_loop_config: "chunks_loop p ch s = (rc, ec, q, ch', rest) \<Longrightarrow> config q = config p"
proof (induction p ch s rule: chunks_loop.induct)
  case (2 p ch c s)
  obtain h p1 ch1 s1 where h: "chunk_switch (m_chunked_content_parse_state p) c p ch (c # s) = (h, p1, ch1, s1)"
    by (metis prod_cases4)
  then show ?case using 2 chunk_switch_config [OF h] by (cases h) auto
qed simp

lemma parse_chunks_config: "parse_chunks p ch = (rc, ec, q, ch') \<Longrightarrow> config q = config p"
  using chunks_loop_config [of "p\<lparr>m_bytes_last_read := 0\<rparr>" ch "m_read p"]
  by (auto simp: parse_chunks_def Let_def split: prod.splits if_splits)

lemma consume_content_config: "consume_content p m = Inr (rc, q, n) \<Longrightarrow> config q = config p"
  by (auto simp: consume_content_def Let_def split: if_splits option.splits)

lemma consume_next_chunk_config: "consume_content_as_next_chunk p ch = (q, ch') \<Longrightarrow> config q = config p"
  by (auto simp: consume_content_as_next_chunk_def Let_def split: if_splits)

text \<open>One case distinction over the turns, for every fact about one turn.\<close>

lemma parse_switch_cases [consumes 1, case_names headers chunks content no_length finished]:
  assumes "parse_switch p m = Inr (k, rc, ec, q, n)"
    and "\<And>p'. m_message_parse_state p \<in> {PARSE_START, PARSE_HEADERS, PARSE_FOOTERS} \<Longrightarrow>
      p' = (if m_message_parse_state p = PARSE_START then p\<lparr>m_message_parse_state := PARSE_HEADERS\<rparr> else p) \<Longrightarrow>
      headers_turn p' m = (rc, ec, q, n) \<Longrightarrow> k = m_bytes_last_read (fst (snd (snd (parse_headers p' m)))) \<Longrightarrow> P"
    and "\<And>rc' ec' q' ch. m_message_parse_state p = PARSE_CHUNKS \<Longrightarrow>
      parse_chunks p (msg_chunk_cache m) = (rc', ec', q', ch) \<Longrightarrow>
      chunks_turn (rc', ec', q', m\<lparr>msg_chunk_cache := ch\<rparr>) = (rc, ec, q, n) \<Longrightarrow> k = m_bytes_last_read q' \<Longrightarrow> P"
    and "m_message_parse_state p = PARSE_CONTENT \<Longrightarrow> consume_content p m = Inr (rc, q, n) \<Longrightarrow> ec = None \<Longrightarrow>
      k = m_bytes_last_read q \<Longrightarrow> P"
    and "\<And>ch. m_message_parse_state p = PARSE_CONTENT_NO_LENGTH \<Longrightarrow>
      consume_content_as_next_chunk p (msg_chunk_cache m) = (q, ch) \<Longrightarrow> n = m\<lparr>msg_chunk_cache := ch\<rparr> \<Longrightarrow>
      rc = indeterminate_value \<Longrightarrow> ec = None \<Longrightarrow> k = m_bytes_last_read q \<Longrightarrow> P"
    and "m_message_parse_state p = PARSE_END \<Longrightarrow> k = 0 \<Longrightarrow> rc = true_value \<Longrightarrow> ec = None \<Longrightarrow> q = p \<Longrightarrow> n = m \<Longrightarrow> P"
  shows P
proof -
  have heads: P if that: "m_message_parse_state p \<in> {PARSE_START, PARSE_HEADERS, PARSE_FOOTERS}"
  proof -
    let ?p' = "if m_message_parse_state p = PARSE_START then p\<lparr>m_message_parse_state := PARSE_HEADERS\<rparr> else p"
    have "parse_switch p m = parse_switch ?p' m" using parse_switch_start by simp
    also have "\<dots> = Inr (m_bytes_last_read (fst (snd (snd (parse_headers ?p' m)))), headers_turn ?p' m)"
      using that by (intro parse_switch_headers) auto
    finally have "m_bytes_last_read (fst (snd (snd (parse_headers ?p' m)))) = k" "headers_turn ?p' m = (rc, ec, q, n)"
      unfolding assms(1) by (simp_all only: sum.inject prod.inject)
    then show P by (intro assms(2) [OF that refl]) (simp_all only:)
  qed
  show P
  proof (cases "m_message_parse_state p")
    case PARSE_CHUNKS
    obtain rc1 ec1 q1 ch1 where h: "parse_chunks p (msg_chunk_cache m) = (rc1, ec1, q1, ch1)" by (metis prod_cases4)
    have "k = m_bytes_last_read q1 \<and> chunks_turn (rc1, ec1, q1, m\<lparr>msg_chunk_cache := ch1\<rparr>) = (rc, ec, q, n)"
      using trans [OF assms(1) [symmetric] parse_switch_chunks [OF PARSE_CHUNKS, of m]] h by simp
    then show ?thesis by (intro assms(3) [OF PARSE_CHUNKS h]) simp_all
  next
    case PARSE_CONTENT
    then have "consume_content p m = Inr (rc, q, n) \<and> ec = None \<and> k = m_bytes_last_read q"
      using assms(1) by (auto simp: parse_switch_def split: sum.splits)
    then show ?thesis by (intro assms(4) [OF PARSE_CONTENT]) simp_all
  next
    case PARSE_CONTENT_NO_LENGTH
    obtain q1 ch where h: "consume_content_as_next_chunk p (msg_chunk_cache m) = (q1, ch)" by fastforce
    then have e: "q = q1" "n = m\<lparr>msg_chunk_cache := ch\<rparr>" "rc = indeterminate_value" "ec = None" "k = m_bytes_last_read q"
      using assms(1) PARSE_CONTENT_NO_LENGTH by (auto simp: parse_switch_def)
    show ?thesis by (rule assms(5) [OF PARSE_CONTENT_NO_LENGTH _ e(2-5)]) (simp add: h e(1))
  next
    case PARSE_END
    then have "k = 0 \<and> rc = true_value \<and> ec = None \<and> q = p \<and> n = m" using assms(1) by (simp add: parse_switch_def)
    then show ?thesis by (intro assms(6) [OF PARSE_END]) simp_all
  qed (use heads in simp_all)
qed

lemma chunks_turn_cases:
  assumes "chunks_turn (rc', ec', q', m') = (rc, ec, q, n)"
  shows "q = q'" "n = m' \<or> n = concatenate_chunks m'"
  using assms by (auto simp: chunks_turn_def split: if_splits)

lemma parse_switch_config:
  assumes "parse_switch p m = Inr (k, rc, ec, q, n)" shows "config q = config p"
  using assms
proof (cases rule: parse_switch_cases)
  case (headers p')
  then show ?thesis using headers_turn_config [of p' m] by (auto split: if_splits)
next
  case (chunks rc' ec' q' ch)
  then show ?thesis using parse_chunks_config chunks_turn_cases(1) by metis
qed (use consume_content_config consume_next_chunk_config in auto)

lemma headers_turn_buffer:
  assumes "headers_turn p m = (rc, ec, q, n)" and "rc \<noteq> true_value" and "m_message_parse_state p \<noteq> PARSE_CONTENT"
  shows "content_inv q n"
proof (cases "rc = indeterminate_value")
  case True
  then show ?thesis using headers_turn_inv(1) [of p m ec q n] assms by simp
next
  case False
  obtain rc1 ec1 q1 n1 where h: "parse_headers p m = (rc1, ec1, q1, n1)" by (metis prod_cases4)
  have "m_message_parse_state q \<noteq> PARSE_CONTENT"
    using assms False h parse_headers_state [OF h]
    by (auto simp: headers_turn_def finish_header_parsing_def Let_def split: if_splits option.splits)
  then show ?thesis by (simp add: content_inv_def)
qed

lemma parse_switch_buffer:
  assumes "parse_switch p m = Inr (k, rc, ec, q, n)" and "buffer_inv p m" and "rc \<noteq> true_value"
  shows "buffer_inv q n"
proof (cases "m_payload_handler p")
  case True
  then show ?thesis using parse_switch_config [OF assms(1)] by (simp add: buffer_inv_def config_def)
next
  case False
  then have inv: "content_inv p m" using assms(2) by (simp add: buffer_inv_def)
  from assms(1) show ?thesis
  proof (cases rule: parse_switch_cases)
    case (headers p')
    then have "content_inv q n" by (intro headers_turn_buffer [OF _ assms(3)]) auto
    then show ?thesis by (simp add: buffer_inv_def)
  next
    case (chunks rc' ec' q' ch)
    have "m_message_parse_state q \<noteq> PARSE_CONTENT"
      using chunks assms(3) False parse_chunks_frame [OF chunks(2) False] chunks_turn_cases(1) [OF chunks(3)]
      by (auto simp: chunks_turn_def split: if_splits)
    then show ?thesis by (simp add: buffer_inv_def content_inv_def)
  next
    case content
    have "rc = indeterminate_value"
      using content(2) assms(3) by (auto simp: consume_content_def Let_def split: if_splits option.splits)
    then show ?thesis
      using consume_content_inv [OF inv content(1) False] content(2) by (auto simp: buffer_inv_def)
  next
    case (no_length ch)
    then have "m_message_parse_state q = PARSE_CONTENT_NO_LENGTH"
      by (auto simp: consume_content_as_next_chunk_def Let_def split: if_splits)
    then show ?thesis by (simp add: buffer_inv_def content_inv_def)
  next
    case finished
    then show ?thesis using assms(3) by simp
  qed
qed

lemma parse_loop_buffer:
  "parse_loop p m t = r \<Longrightarrow> buffer_inv p m \<Longrightarrow>
   (\<forall>e. r \<noteq> Inl e) \<and> (\<forall>k rc ec q n. r = Inr (k, rc, ec, q, n) \<longrightarrow> config q = config p \<and> (rc \<noteq> true_value \<longrightarrow> buffer_inv q n))"
proof (induction p m t rule: parse_loop_induct)
  case (fault p m t e)
  then show ?case using parse_switch_no_fault by blast
next
  case (stop p m t k1 rc1 ec1 q1 n1)
  then have "r = Inr (szadd t k1, rc1, ec1, q1, n1)" using parse_loop_step [OF stop(1), of t] by (auto simp: eof_def)
  then show ?case using parse_switch_buffer [OF stop(1)] parse_switch_config [OF stop(1)] stop(4) by simp
next
  case (again p m t k1 ec1 q1 n1)
  then have "parse_loop q1 n1 (szadd t k1) = r" using parse_loop_step [OF again(1), of t] by (simp add: eof_def)
  moreover have "buffer_inv q1 n1" using parse_switch_buffer [OF again(1) again(5)] by simp
  ultimately show ?case using again(3) parse_switch_config [OF again(1)] by simp
qed

lemma buffer_inv_other [simp]:
  "buffer_inv p (m\<lparr>msg_status := st\<rparr>) = buffer_inv p m"
  "buffer_inv (p\<lparr>m_bytes_last_read := k\<rparr>) m = buffer_inv p m"
  "buffer_inv (p\<lparr>m_read := s\<rparr>) m = buffer_inv p m"
  "buffer_inv (p\<lparr>m_message_parse_state := PARSE_END\<rparr>) m"
  "buffer_inv p (mark_missing m) = buffer_inv p m"
  by (simp_all add: buffer_inv_def content_inv_def mark_missing_def)

lemma buffer_inv_end: "m_message_parse_state p = PARSE_END \<Longrightarrow> buffer_inv p m"
  by (simp add: buffer_inv_def content_inv_def)

lemma parse_end_buffer:
  "parse_end rc p m = Inr (q, n) \<Longrightarrow> (rc \<noteq> true_value \<longrightarrow> buffer_inv p m) \<Longrightarrow> buffer_inv q n \<and> config q = config p"
  by (auto simp: parse_end_def compute_msg_status_def Let_def split: if_splits sum.splits)

lemma parse_buffer:
  assumes "buffer_inv p m"
  shows "parse p m = Inl e \<Longrightarrow> e = Length_error \<and> m_is_request p \<and> \<not> m_payload_handler p"
    and "parse p m = Inr (rc, ec, q, n) \<Longrightarrow> buffer_inv q n \<and> config q = config p"
proof -
  have inv: "buffer_inv p (mark_missing m)" using assms by simp
  have l: "\<exists>k rc ec q n. parse_loop p (mark_missing m) 0 = Inr (k, rc, ec, q, n) \<and> config q = config p \<and> (rc \<noteq> true_value \<longrightarrow> buffer_inv q n)"
    using parse_loop_buffer [OF refl inv, of 0]
    by (cases "parse_loop p (mark_missing m) 0") auto
  then obtain k rc1 ec1 q1 n1 where l: "parse_loop p (mark_missing m) 0 = Inr (k, rc1, ec1, q1, n1)"
    and c: "config q1 = config p" and b: "rc1 \<noteq> true_value \<longrightarrow> buffer_inv q1 n1" by blast
  show "e = Length_error \<and> m_is_request p \<and> \<not> m_payload_handler p" if "parse p m = Inl e"
  proof -
    have "parse_end rc1 q1 n1 = Inl e" using that l by (auto simp: parse_alt split: sum.splits)
    then show ?thesis using parse_end_fault c by (auto simp: config_def)
  qed
  show "buffer_inv q n \<and> config q = config p" if r: "parse p m = Inr (rc, ec, q, n)"
  proof -
    obtain q2 where e: "parse_end rc1 q1 n1 = Inr (q2, n)" "q = q2\<lparr>m_bytes_last_read := k\<rparr>"
      using r l by (auto simp: parse_alt split: sum.splits)
    then show ?thesis using parse_end_buffer [OF e(1) b] c by simp
  qed
qed

section \<open>Missing data\<close>

text \<open>What the handling of missing data leaves alone.\<close>

definition kept :: "parser \<Rightarrow> http_message \<Rightarrow> parser \<Rightarrow> http_message \<Rightarrow> bool" where
  "kept p m q n =
     (config q = config p \<and> header_sizes q = header_sizes p \<and> m_message_parse_state q = m_message_parse_state p \<and>
      msg_headers n = msg_headers m \<and> length (msg_content_buf n) = length (msg_content_buf m) \<and>
      (length (msg_chunk_cache m) \<le> m_max_content_length p \<longrightarrow> length (msg_chunk_cache n) \<le> m_max_content_length p))"

lemma kept_refl [simp]: "kept p m p m"
  by (simp add: kept_def)

lemma header_sizes_chunk [simp]:
  "header_sizes (p\<lparr>m_bytes_read_in_current_chunk := i\<rparr>) = header_sizes p"
  "header_sizes (p\<lparr>m_chunked_content_parse_state := cs\<rparr>) = header_sizes p"
  by (simp_all add: header_sizes_def)

lemma kept_updates [simp]:
  "kept p m (q\<lparr>m_bytes_last_read := i\<rparr>) n = kept p m q n" "kept p m (q\<lparr>m_bytes_total_read := i\<rparr>) n = kept p m q n"
  "kept p m (q\<lparr>m_bytes_content_read := i\<rparr>) n = kept p m q n"
  "kept p m (q\<lparr>m_bytes_content_remaining := i\<rparr>) n = kept p m q n"
  "kept p m (q\<lparr>m_bytes_read_in_current_chunk := i\<rparr>) n = kept p m q n"
  "kept p m (q\<lparr>m_chunked_content_parse_state := cs\<rparr>) n = kept p m q n"
  "kept p m (q\<lparr>m_payload_log := l\<rparr>) n = kept p m q n"
  by (simp_all add: kept_def)

lemma missing_to_chunks_kept: "missing_to_chunks len p m = (q, n) \<Longrightarrow> kept p m q n"
  by (auto simp: missing_to_chunks_def kept_def split: if_splits)

lemma missing_chunk_kept: "missing_chunk len p m = (rc, ec, q, n) \<Longrightarrow> kept p m q n"
  using missing_to_chunks_kept [of len p m]
  by (cases "missing_to_chunks len p m") (auto simp: missing_chunk_def Let_def split: if_splits)

lemma missing_content_write:
  assumes "content_inv p m" and "m_message_parse_state p = PARSE_CONTENT" and "\<not> m_bytes_content_remaining p < len"
  shows "szadd (m_bytes_content_read p) len = m_bytes_content_read p + len"
    and "m_bytes_content_read p + len \<le> m_max_content_length p \<Longrightarrow>
     \<exists>buf. buf_write (m_bytes_content_read p) (missing_bytes len) (msg_content_buf m) = Some buf \<and>
     length buf = length (msg_content_buf m)"
  using assms by (auto simp: content_inv_def buf_write_def missing_bytes_def)

lemma missing_content_result:
  assumes "buffer_inv p m" and "m_message_parse_state p = PARSE_CONTENT"
  shows "\<exists>rc ec q n. missing_content len p m = Inr (rc, ec, q, n) \<and> kept p m q n \<and> buffer_inv q n"
proof -
  let ?pos = "m_bytes_content_read p"
  consider (early) "m_bytes_content_remaining p = 0 \<or> m_bytes_content_remaining p < len"
    | (handler) "m_payload_handler p" "\<not> (m_bytes_content_remaining p = 0 \<or> m_bytes_content_remaining p < len)"
    | (buffer) "content_inv p m" "\<not> m_payload_handler p" "m_bytes_content_remaining p \<noteq> 0" "\<not> m_bytes_content_remaining p < len"
    using assms(1) unfolding buffer_inv_def by blast
  then show ?thesis
  proof cases
    case early
    then show ?thesis using assms(1) by (auto simp: missing_content_def)
  next
    case handler
    then show ?thesis by (auto simp: missing_content_def buffer_inv_def Let_def)
  next
    case buffer
    note w = missing_content_write [OF buffer(1) assms(2) buffer(4)]
    show ?thesis
    proof (cases "?pos + len \<le> m_max_content_length p")
      case True
      then obtain buf where "buf_write ?pos (missing_bytes len) (msg_content_buf m) = Some buf"
          "length buf = length (msg_content_buf m)" using w(2) by blast
      then show ?thesis
        using buffer True w(1) assms(2)
        by (auto simp: missing_content_def buffer_inv_def content_inv_def kept_def Let_def)
    next
      case False
      then show ?thesis
        using buffer w(1) assms(2) by (auto simp: missing_content_def buffer_inv_def content_inv_def Let_def)
    qed
  qed
qed

lemma missing_data_step:
  assumes "buffer_inv p m"
  shows "\<exists>rc ec q n. parse_missing_data p m len = (case parse_end rc q n of
       Inl e \<Rightarrow> Inl e | Inr (q, n) \<Rightarrow> Inr (rc, ec, q, n)) \<and> kept p m q n \<and> buffer_inv q n"
proof -
  let ?m = "m\<lparr>msg_has_missing_packets := True\<rparr>"
  have b: "buffer_inv p ?m" and k: "kept p m q n" if "kept p ?m q n" for q n
    using assms that by (simp_all add: buffer_inv_def content_inv_def kept_def)
  have other: "buffer_inv q n" if "kept p ?m q n" "m_message_parse_state p \<noteq> PARSE_CONTENT" for q n
    using that by (simp add: kept_def buffer_inv_def content_inv_def)
  show ?thesis
  proof (cases "m_message_parse_state p")
    case PARSE_CHUNKS
    obtain rc ec q n where h: "missing_chunk len p ?m = (rc, ec, q, n)" by (metis prod_cases4)
    show ?thesis
      using PARSE_CHUNKS h missing_chunk_kept [OF h] k other [OF missing_chunk_kept [OF h]]
      by (intro exI [of _ rc] exI [of _ ec] exI [of _ q] exI [of _ n]) (simp add: parse_missing_data_def)
  next
    case PARSE_CONTENT
    obtain rc ec q n where h: "missing_content len p ?m = Inr (rc, ec, q, n)" "kept p ?m q n" "buffer_inv q n"
      using missing_content_result [OF b [OF kept_refl] PARSE_CONTENT] by blast
    then show ?thesis
      using PARSE_CONTENT k by (intro exI [of _ rc] exI [of _ ec] exI [of _ q] exI [of _ n]) (simp add: parse_missing_data_def)
  next
    case PARSE_CONTENT_NO_LENGTH
    obtain q n where h: "missing_to_chunks len p ?m = (q, n)" by fastforce
    let ?q = "q\<lparr>m_bytes_last_read := len, m_bytes_total_read := szadd (m_bytes_total_read q) len,
       m_bytes_content_read := szadd (m_bytes_content_read q) len\<rparr>"
    have "kept p ?m ?q n" using missing_to_chunks_kept [OF h] by simp
    then show ?thesis
      using PARSE_CONTENT_NO_LENGTH h k other
      by (intro exI [of _ indeterminate_value] exI [of _ None] exI [of _ ?q] exI [of _ n]) (simp add: parse_missing_data_def)
  next
    case PARSE_END
    then show ?thesis using k [OF kept_refl] b [OF kept_refl]
      by (intro exI [of _ true_value] exI [of _ None] exI [of _ p] exI [of _ ?m]) (simp add: parse_missing_data_def)
  qed (use k [OF kept_refl] b [OF kept_refl] in \<open>intro exI [of _ false_value] exI [of _ "Some ERROR_MISSING_HEADER_DATA"] exI [of _ p] exI [of _ ?m],
      simp add: parse_missing_data_def\<close>)+
qed

section \<open>Sessions\<close>

text \<open>
  The calls a reader makes on its parser: a new parser with its limit and flags, a new read buffer, a
  parse call, a gap in the captured input, the end of the input, the headers supplied from elsewhere,
  and a reset before the next message.
\<close>

inductive session :: "parser \<Rightarrow> http_message \<Rightarrow> bool" where
  start: "session ((new_parser r limit)\<lparr>m_payload_handler := h, m_parse_headers_only := ho, m_save_raw_headers := raw\<rparr>)
     (empty_message r)"
| buffer: "session p m \<Longrightarrow> session (set_read_buffer s p) m"
| parsed: "session p m \<Longrightarrow> parse p m = Inr (rc, ec, q, n) \<Longrightarrow> session q n"
| missing: "session p m \<Longrightarrow> parse_missing_data p m len = Inr (rc, ec, q, n) \<Longrightarrow> session q n"
| eof_seen: "session p m \<Longrightarrow> check_premature_eof p m = Inr (b, q, n) \<Longrightarrow> session q n"
| skipped: "session p m \<Longrightarrow> \<not> m_parse_headers_only p \<Longrightarrow> m_message_parse_state p = PARSE_START \<Longrightarrow> skip_header_parsing p m = (q, n) \<Longrightarrow> session q n"
| restart: "session p m \<Longrightarrow> session (reset p) (empty_message r)"

inductive_cases sessionE: "session p m"

lemma sizes_ok_kept: "kept p m q n \<Longrightarrow> sizes_ok p m \<Longrightarrow> sizes_ok q n"
  by (simp add: kept_def sizes_ok_def headers_bounded_def config_def)

lemma finish_sizes: "finish p m = Inr n \<Longrightarrow> m_message_parse_state p = PARSE_END \<Longrightarrow> sizes_ok p m \<Longrightarrow> sizes_ok p n"
  using finish_end by (fastforce simp: sizes_ok_def headers_bounded_def)

lemma skip_header_parsing_inv:
  assumes "skip_header_parsing p m = (q, n)" and "sizes_ok p m" and "buffer_inv p m" and "\<not> m_parse_headers_only p"
    and "m_message_parse_state p = PARSE_START"
  shows "sizes_ok q n \<and> buffer_inv q n"
proof -
  obtain rc ec where f: "finish_header_parsing p m = (rc, ec, q, n)"
    using assms(1) by (cases "finish_header_parsing p m") (auto simp: skip_header_parsing_def)
  have "content_inv q n" if "rc = indeterminate_value" using f that finish_header_parsing_content_inv by blast
  moreover have "m_message_parse_state q = PARSE_END" if "rc = true_value"
    using f that assms(4) by (auto simp: finish_header_parsing_def Let_def split: if_splits option.splits)
  moreover have "m_message_parse_state q = PARSE_START" if "rc = false_value"
    using f that assms(5) by (auto simp: finish_header_parsing_def Let_def split: if_splits option.splits)
  ultimately show ?thesis
    using finish_header_parsing_sizes [OF f assms(2)] finish_header_parsing_config [OF f]
    by (cases rc) (auto simp: buffer_inv_def content_inv_def)
qed

lemma session_inv: "session p m \<Longrightarrow> sizes_ok p m \<and> buffer_inv p m"
proof (induction rule: session.induct)
  case (start r limit h ho raw)
  then show ?case
    by (simp add: sizes_ok_def header_sizes_def headers_bounded_def buffer_inv_def content_inv_def new_parser_def empty_message_def)
next
  case (buffer p m s)
  then show ?case by (simp add: set_read_buffer_def sizes_ok_def)
next
  case (parsed p m rc ec q n)
  then show ?case using parse_sizes_lemma parse_buffer(2) by blast
next
  case (missing p m len rc ec q n)
  then obtain rc1 ec1 q1 n1 where s: "parse_missing_data p m len = (case parse_end rc1 q1 n1 of
       Inl e \<Rightarrow> Inl e | Inr (q, n) \<Rightarrow> Inr (rc1, ec1, q, n))" "kept p m q1 n1" "buffer_inv q1 n1"
    using missing_data_step [of p m len] by blast
  then have "parse_end rc1 q1 n1 = Inr (q, n)" using missing(2) by (auto split: sum.splits)
  then show ?case using s(2,3) parse_end_sizes parse_end_buffer sizes_ok_kept missing.IH by blast
next
  case (eof_seen p m b q n)
  let ?q = "p\<lparr>m_message_parse_state := PARSE_END\<rparr>"
  have "sizes_ok ?q (concatenate_chunks m)"
    using eof_seen.IH concatenate_chunks_sizes [of p m] by (simp add: sizes_ok_def)
  then show ?case
    using eof_seen finish_sizes [of ?q "concatenate_chunks m"]
    by (auto simp: check_premature_eof_def Let_def split: if_splits sum.splits)
next
  case (skipped p m q n)
  then show ?case using skip_header_parsing_inv by blast
next
  case (restart p m r)
  then show ?case
    by (auto simp: reset_def sizes_ok_def header_sizes_def headers_bounded_def buffer_inv_def content_inv_def empty_message_def)
qed

section \<open>Properties\<close>

text \<open>C32: Bounded memory. In every state that a session reaches, whatever bytes arrived in whatever
  pieces, the method, resource, query string, status message, header name and header value are within
  the limits of the code, every stored header is within the header limits, and the chunk cache and the
  content buffer hold at most the configured maximum.\<close>

theorem session_bounded:
  assumes "session p m"
  shows "length (m_method p) \<le> METHOD_MAX \<and> length (m_resource p) \<le> RESOURCE_MAX \<and>
    length (m_query_string p) \<le> QUERY_STRING_MAX \<and> length (m_status_message p) \<le> STATUS_MESSAGE_MAX \<and>
    length (m_header_name p) \<le> HEADER_NAME_MAX \<and> length (m_header_value p) \<le> HEADER_VALUE_MAX \<and>
    list_all (\<lambda>h. length (fst h) \<le> HEADER_NAME_MAX \<and> length (snd h) \<le> HEADER_VALUE_MAX) (msg_headers m) \<and>
    length (msg_chunk_cache m) \<le> m_max_content_length p \<and> length (msg_content_buf m) \<le> m_max_content_length p"
  using session_inv [OF assms]
  by (auto simp: sizes_ok_def header_sizes_def headers_bounded_def entry_bounded_def list_all_iff)

theorem session_bounded_witness:
  "session (set_read_buffer ''GET / HTTP/1.1'' (new_parser True 100)) (empty_message True) \<and>
   length (m_method (set_read_buffer ''GET / HTTP/1.1'' (new_parser True 100))) \<le> METHOD_MAX"
proof -
  have e: "(new_parser True 100)\<lparr>m_payload_handler := False, m_parse_headers_only := False, m_save_raw_headers := False\<rparr> =
      new_parser True 100" by (simp add: new_parser_def)
  have s: "session (set_read_buffer ''GET / HTTP/1.1'' (new_parser True 100)) (empty_message True)"
    using session.buffer [OF session.start [where r = True and limit = 100 and h = False and ho = False and raw = False]] unfolding e .
  then show ?thesis using session_bounded [OF s] by blast
qed



end
