(* ===== verification/Parser_Run.thy ===== *)
theory Parser_Run
  imports Parser_Session
begin

text \<open>
  Runs of the parser over well-formed input. The first part takes the header state machine through the
  lines of a message, piece by piece; the second part does the same for the chunks of a body; the
  theorems compose them with the sending side of the message.
\<close>

section \<open>Runs of the header state machine\<close>

text \<open>\<open>runs p m xs q n\<close>: the bytes \<open>xs\<close> take the state machine from \<open>p\<close>, \<open>m\<close> to \<open>q\<close>, \<open>n\<close>.\<close>

definition runs :: "parser \<Rightarrow> http_message \<Rightarrow> string \<Rightarrow> parser \<Rightarrow> http_message \<Rightarrow> bool" where
  "runs p m xs q n = (\<forall>ys. headers_loop p m (xs @ ys) = headers_loop q n ys)"

lemma runs_Nil [simp, intro]: "runs p m [] p m"
  by (simp add: runs_def)

lemma runs_trans: "runs p m xs q n \<Longrightarrow> runs q n ys r k \<Longrightarrow> runs p m (xs @ ys) r k"
  by (simp add: runs_def)

lemma runs_step: "header_step c p m = (H_More, q, n) \<Longrightarrow> runs p m [c] q n"
  by (simp add: runs_def)

lemma runs_Cons: "header_step c p m = (H_More, q, n) \<Longrightarrow> runs q n xs r k \<Longrightarrow> runs p m (c # xs) r k"
  by (simp add: runs_def)

text \<open>One step, when raw headers are not saved.\<close>

lemma header_step_group:
  assumes "\<not> m_save_raw_headers p" and "m_headers_parse_state p = st"
  shows "header_group st = 0 \<Longrightarrow> header_step c p m = step_request_line st c p m"
    and "header_group st = 1 \<Longrightarrow> header_step c p m = step_version st c p m"
    and "header_group st = 2 \<Longrightarrow> header_step c p m = step_status st c p m"
    and "header_group st = 3 \<Longrightarrow> header_step c p m = step_newline st c p m"
    and "header_group st = 4 \<Longrightarrow> header_step c p m = step_header st c p m"
  using assms by (simp_all add: header_step_def)

section \<open>Numbers\<close>

lemma lower_digit_is_digit: "d < 10 \<Longrightarrow> is_digit (lower_digit d) \<and> digit16 (lower_digit d) = of_nat d"
  by (simp add: is_digit_def digit16_def lower_digit_def char_to_int_def)

definition value16 :: "16 word \<Rightarrow> string \<Rightarrow> 16 word" where
  "value16 v s = foldl (\<lambda>v c. v * 10 + digit16 c) v s"

lemma value16_simps [simp]: "value16 v [] = v" "value16 v (c # s) = value16 (v * 10 + digit16 c) s"
  by (simp_all add: value16_def)

lemma value16_append: "value16 v (s @ t) = value16 (value16 v s) t"
  by (simp add: value16_def)

lemma value16_to_base: "value16 0 (map lower_digit (to_base 10 n)) = of_nat n"
proof (induction "10 :: nat" n rule: to_base.induct)
  case (1 n)
  show ?case
  proof (cases "n < 10")
    case True
    then show ?thesis by (simp add: to_base.simps [of 10 n] lower_digit_is_digit)
  next
    case False
    have "of_nat (n div 10) * 10 + of_nat (n mod 10) = (of_nat (n div 10 * 10 + n mod 10) :: 16 word)"
      by (simp only: of_nat_add of_nat_mult of_nat_numeral)
    then show ?thesis using 1 False
      by (simp add: to_base.simps [of 10 n] value16_append lower_digit_is_digit)
  qed
qed

lemma value16_to_string: "value16 0 (to_string n) = of_nat n"
  by (simp add: to_string_def value16_to_base)

lemma to_string_digits: "list_all is_digit (to_string n)"
  using to_base_digits [of 10 n] by (auto simp: to_string_def list_all_iff lower_digit_is_digit)

lemma is_digit_not [simp]:
  "is_digit c \<Longrightarrow> c \<noteq> CHR ''.''" "is_digit c \<Longrightarrow> c \<noteq> SP" "is_digit c \<Longrightarrow> c \<noteq> CR" "is_digit c \<Longrightarrow> c \<noteq> LF"
  by (auto simp: is_digit_def char_to_int_def byte_val_def)

text \<open>A number in the version or the status code: the first digit leaves the start state.\<close>

lemma runs_number:
  assumes first: "\<And>c p m. \<not> m_save_raw_headers p \<Longrightarrow> is_digit c \<Longrightarrow> m_headers_parse_state p = st0 \<Longrightarrow>
      header_step c p m = (H_More, put_p (digit16 c) (p\<lparr>m_headers_parse_state := st1\<rparr>), put_m (digit16 c) m)"
    and more: "\<And>c v p m. \<not> m_save_raw_headers p \<Longrightarrow> is_digit c \<Longrightarrow> m_headers_parse_state p = st1 \<Longrightarrow>
      header_step c (put_p v p) (put_m v m) = (H_More, put_p (v * 10 + digit16 c) p, put_m (v * 10 + digit16 c) m)"
    and "\<not> m_save_raw_headers p" and "m_headers_parse_state p = st0"
  shows "runs p m (to_string n) (put_p (of_nat n) (p\<lparr>m_headers_parse_state := st1\<rparr>)) (put_m (of_nat n) m)"
proof -
  let ?q = "p\<lparr>m_headers_parse_state := st1\<rparr>"
  have tail: "runs (put_p v ?q) (put_m v m) s (put_p (value16 v s) ?q) (put_m (value16 v s) m)"
    if "list_all is_digit s" for v s
    using that more [of ?q] assms(3) by (induction s arbitrary: v) (auto intro!: runs_Cons)
  obtain c s where cs: "to_string n = c # s" using to_string_shape(1) [of n] by (cases "to_string n") auto
  then have "is_digit c" "list_all is_digit s" using to_string_digits [of n] by simp_all
  then have "runs p m (c # s) (put_p (value16 (digit16 c) s) ?q) (put_m (value16 (digit16 c) s) m)"
    using tail first assms(3,4) by (intro runs_Cons) auto
  moreover have "value16 (digit16 c) s = of_nat n" using value16_to_string [of n] cs by simp
  ultimately show ?thesis using cs by simp
qed

section \<open>The version\<close>

abbreviation at_state :: "header_parse_state_t \<Rightarrow> parser \<Rightarrow> parser" where
  "at_state st p \<equiv> p\<lparr>m_headers_parse_state := st\<rparr>"

text \<open>The message without the first line cache, with a version.\<close>

abbreviation with_version :: "16 word \<Rightarrow> 16 word \<Rightarrow> http_message \<Rightarrow> http_message" where
  "with_version major minor m \<equiv> m\<lparr>msg_first_line := [], msg_version_major := major, msg_version_minor := minor\<rparr>"

lemma runs_http_slash:
  assumes "\<not> m_save_raw_headers p" and "m_headers_parse_state p = PARSE_HTTP_VERSION_H"
  shows "runs p m STRING_HTTP_VERSION (at_state PARSE_HTTP_VERSION_MAJOR_START p) m"
  unfolding STRING_HTTP_VERSION_def
  using assms by (simp add: runs_def header_step_group(2) [OF _ refl])

lemma runs_major:
  assumes "\<not> m_save_raw_headers p" and "m_headers_parse_state p = PARSE_HTTP_VERSION_MAJOR_START"
  shows "runs p m (to_string i) (at_state PARSE_HTTP_VERSION_MAJOR p) (set_version_major (of_nat i) m)"
  using assms
  by (intro runs_number [where put_p = "\<lambda>v p. p" and put_m = set_version_major])
    (simp_all add: header_step_group(2) [OF _ refl] set_version_major_def clear_first_line_def)

lemma runs_minor:
  assumes "\<not> m_save_raw_headers p" and "m_headers_parse_state p = PARSE_HTTP_VERSION_MINOR_START"
  shows "runs p m (to_string i) (at_state PARSE_HTTP_VERSION_MINOR p) (set_version_minor (of_nat i) m)"
  using assms
  by (intro runs_number [where put_p = "\<lambda>v p. p" and put_m = set_version_minor])
    (simp_all add: header_step_group(2) [OF _ refl] set_version_minor_def clear_first_line_def)

lemma set_versions: "set_version_minor j (set_version_major i m) = with_version i j m"
  by (rule http_message.equality) (simp_all add: first_line_setters)

lemma runs_version:
  assumes "\<not> m_save_raw_headers p" and "m_headers_parse_state p = PARSE_HTTP_VERSION_H"
  shows "runs p m (STRING_HTTP_VERSION @ to_string i @ ''.'' @ to_string j)
     (at_state PARSE_HTTP_VERSION_MINOR p) (with_version (of_nat i) (of_nat j) m)"
proof -
  let ?m = "set_version_major (of_nat i) m"
  have dot: "runs (at_state PARSE_HTTP_VERSION_MAJOR p) ?m ''.'' (at_state PARSE_HTTP_VERSION_MINOR_START p) ?m"
    using assms(1) by (simp add: runs_def header_step_group(2) [OF _ refl])
  have "runs p m (STRING_HTTP_VERSION @ to_string i @ ''.'' @ to_string j)
     (at_state PARSE_HTTP_VERSION_MINOR p) (set_version_minor (of_nat j) ?m)"
    using runs_major [of "at_state PARSE_HTTP_VERSION_MAJOR_START p" m i]
      runs_minor [of "at_state PARSE_HTTP_VERSION_MINOR_START p" ?m j] assms(1)
    by (intro runs_trans [OF runs_http_slash [OF assms]] runs_trans [OF _ runs_trans [OF dot]]) simp_all
  then show ?thesis by (simp add: set_versions)
qed

section \<open>The status line\<close>

definition text_char :: "char \<Rightarrow> bool" where
  "text_char c = (\<not> is_control c)"

lemma control_newlines [simp]: "is_control CR" "is_control LF"
  by (simp_all add: is_control_def char_to_int_def byte_val_def)

lemma text_char_newlines: "text_char c \<Longrightarrow> c \<noteq> CR \<and> c \<noteq> LF \<and> \<not> is_control c"
  by (auto simp: text_char_def)

lemma runs_status_code:
  assumes "\<not> m_save_raw_headers p" and "m_headers_parse_state p = PARSE_STATUS_CODE_START"
  shows "runs p m (to_string i) (p\<lparr>m_headers_parse_state := PARSE_STATUS_CODE, m_status_code := of_nat i\<rparr>) m"
  using runs_number [where put_p = "\<lambda>v p. p\<lparr>m_status_code := v\<rparr>" and put_m = "\<lambda>v m. m" and
      ?st0.0 = PARSE_STATUS_CODE_START and ?st1.0 = PARSE_STATUS_CODE and p = p and m = m and n = i] assms
  by (simp add: header_step_group(3) [OF _ refl])

lemma runs_status_message:
  assumes "\<not> m_save_raw_headers p" and "m_headers_parse_state p = PARSE_STATUS_MESSAGE"
    and "list_all text_char s" and "length (m_status_message p) + length s \<le> STATUS_MESSAGE_MAX"
  shows "runs p m s (p\<lparr>m_status_message := m_status_message p @ s\<rparr>) m"
  using assms
proof (induction s arbitrary: p)
  case (Cons c s)
  let ?q = "p\<lparr>m_status_message := m_status_message p @ [c]\<rparr>"
  have "header_step c p m = (H_More, ?q, m)"
    using Cons.prems text_char_newlines [of c] by (simp add: header_step_group(3) [OF _ refl])
  moreover have "runs ?q m s (?q\<lparr>m_status_message := m_status_message ?q @ s\<rparr>) m"
    using Cons.prems by (intro Cons.IH) simp_all
  ultimately show ?case by (simp add: runs_Cons)
qed simp

definition status_line :: "nat \<Rightarrow> nat \<Rightarrow> nat \<Rightarrow> string \<Rightarrow> string" where
  "status_line i j code msg =
     (STRING_HTTP_VERSION @ to_string i @ ''.'' @ to_string j) @ [SP] @ to_string code @ [SP] @ msg @ STRING_CRLF"

lemma runs_status_line:
  assumes "\<not> m_save_raw_headers p" and "m_headers_parse_state p = PARSE_HTTP_VERSION_H" and "\<not> m_is_request p"
    and "list_all text_char msg" and "length msg \<le> STATUS_MESSAGE_MAX"
  shows "runs p m (status_line i j code msg)
     (p\<lparr>m_status_code := of_nat code, m_status_message := msg, m_headers_parse_state := PARSE_HEADER_START\<rparr>)
     (with_version (of_nat i) (of_nat j) m)"
proof -
  let ?m = "with_version (of_nat i) (of_nat j) m"
  let ?p1 = "at_state PARSE_STATUS_CODE_START p"
  let ?p2 = "p\<lparr>m_headers_parse_state := PARSE_STATUS_CODE, m_status_code := of_nat code\<rparr>"
  let ?p3 = "p\<lparr>m_status_code := of_nat code, m_status_message := [], m_headers_parse_state := PARSE_STATUS_MESSAGE\<rparr>"
  have sp1: "runs (at_state PARSE_HTTP_VERSION_MINOR p) ?m [SP] ?p1 ?m"
    using assms(1,3) by (simp add: runs_def header_step_group(2) [OF _ refl])
  have code: "runs ?p1 ?m (to_string code) ?p2 ?m" using runs_status_code [of ?p1 ?m code] assms(1) by simp
  have sp2: "runs ?p2 ?m [SP] ?p3 ?m"
    using assms(1) by (simp add: runs_def header_step_group(3) [OF _ refl])
  have message: "runs ?p3 ?m msg (?p3\<lparr>m_status_message := msg\<rparr>) ?m"
    using runs_status_message [of ?p3 msg ?m] assms by simp
  have crlf: "runs (?p3\<lparr>m_status_message := msg\<rparr>) ?m STRING_CRLF
      (p\<lparr>m_status_code := of_nat code, m_status_message := msg, m_headers_parse_state := PARSE_HEADER_START\<rparr>) ?m"
    using assms(1,3) by (simp add: runs_def STRING_CRLF_def header_step_group(3,4) [OF _ refl])
  show ?thesis
    unfolding status_line_def
    by (intro runs_trans [OF runs_version [OF assms(1,2)]] runs_trans [OF sp1] runs_trans [OF code]
        runs_trans [OF sp2] runs_trans [OF message] crlf)
qed

section \<open>Header lines\<close>

definition token_char :: "char \<Rightarrow> bool" where
  "token_char c = (\<not> bad_token c)"

definition value_char :: "char \<Rightarrow> bool" where
  "value_char c = (c = TAB \<or> \<not> is_control c)"

definition header_ok :: "string \<times> string \<Rightarrow> bool" where
  "header_ok h =
     (fst h \<noteq> [] \<and> list_all token_char (fst h) \<and> length (fst h) \<le> HEADER_NAME_MAX \<and>
      list_all value_char (snd h) \<and> length (snd h) \<le> HEADER_VALUE_MAX)"

lemma token_char_facts:
  assumes "token_char c"
  shows "\<not> bad_token c" "c \<noteq> CHR '':''" "c \<noteq> SP" "c \<noteq> TAB" "c \<noteq> CR" "c \<noteq> LF"
proof -
  show b: "\<not> bad_token c" using assms by (simp add: token_char_def)
  have "bad_token (CHR '':'')" "bad_token SP" "bad_token TAB" "bad_token CR" "bad_token LF"
    by (simp_all add: bad_token_def is_special_def)
  then show "c \<noteq> CHR '':''" "c \<noteq> SP" "c \<noteq> TAB" "c \<noteq> CR" "c \<noteq> LF" using b by metis+
qed

lemma runs_header_name:
  assumes "\<not> m_save_raw_headers p" and "m_headers_parse_state p = PARSE_HEADER_NAME"
    and "list_all token_char s" and "length (m_header_name p) + length s \<le> HEADER_NAME_MAX"
  shows "runs p m s (p\<lparr>m_header_name := m_header_name p @ s\<rparr>) m"
  using assms
proof (induction s arbitrary: p)
  case (Cons c s)
  let ?q = "p\<lparr>m_header_name := m_header_name p @ [c]\<rparr>"
  have "header_step c p m = (H_More, ?q, m)"
    using Cons.prems token_char_facts [of c] by (simp add: header_step_group(5) [OF _ refl])
  moreover have "runs ?q m s (?q\<lparr>m_header_name := m_header_name ?q @ s\<rparr>) m"
    using Cons.prems by (intro Cons.IH) simp_all
  ultimately show ?case by (simp add: runs_Cons)
qed simp

lemma value_char_facts: "value_char c \<Longrightarrow> c \<noteq> CR \<and> c \<noteq> LF \<and> \<not> (c \<noteq> TAB \<and> is_control c)"
  by (auto simp: value_char_def)

lemma runs_header_value:
  assumes "\<not> m_save_raw_headers p" and "m_headers_parse_state p = PARSE_HEADER_VALUE"
    and "list_all value_char s" and "length (m_header_value p) + length s \<le> HEADER_VALUE_MAX"
  shows "runs p m s (p\<lparr>m_header_value := m_header_value p @ s\<rparr>) m"
  using assms
proof (induction s arbitrary: p)
  case (Cons c s)
  let ?q = "p\<lparr>m_header_value := m_header_value p @ [c]\<rparr>"
  have "header_step c p m = (H_More, ?q, m)"
    using Cons.prems value_char_facts [of c] by (auto simp: header_step_group(5) [OF _ refl])
  moreover have "runs ?q m s (?q\<lparr>m_header_value := m_header_value ?q @ s\<rparr>) m"
    using Cons.prems by (intro Cons.IH) simp_all
  ultimately show ?case by (simp add: runs_Cons)
qed simp

definition header_line :: "string \<times> string \<Rightarrow> string" where
  "header_line h = fst h @ HEADER_NAME_VALUE_DELIMITER @ snd h @ STRING_CRLF"

text \<open>After the newline of a line the machine is at the start of a header, unless the request has version 0.\<close>

lemma runs_header_line:
  assumes "\<not> m_save_raw_headers p" and "m_headers_parse_state p = PARSE_HEADER_START" and "header_ok h"
    and "\<not> m_is_request p \<or> msg_version_major m \<noteq> 0"
  shows "runs p m (header_line h)
     (p\<lparr>m_header_name := fst h, m_header_value := snd h, m_headers_parse_state := PARSE_HEADER_START\<rparr>)
     (add_header (fst h) (snd h) m)"
proof -
  obtain c s where n: "fst h = c # s" using assms(3) by (cases "fst h") (auto simp: header_ok_def)
  have ok: "token_char c" "list_all token_char s" "Suc (length s) \<le> HEADER_NAME_MAX"
      "list_all value_char (snd h)" "length (snd h) \<le> HEADER_VALUE_MAX"
    using assms(3) n by (simp_all add: header_ok_def)
  let ?p1 = "p\<lparr>m_header_name := [c], m_headers_parse_state := PARSE_HEADER_NAME\<rparr>"
  let ?p2 = "?p1\<lparr>m_header_name := c # s\<rparr>"
  let ?p3 = "p\<lparr>m_header_name := c # s, m_header_value := [], m_headers_parse_state := PARSE_HEADER_VALUE\<rparr>"
  let ?p4 = "?p3\<lparr>m_header_value := snd h\<rparr>"
  have c: "runs p m [c] ?p1 m"
    using assms(1,2) token_char_facts [OF ok(1)]
    by (intro runs_step) (simp add: header_step_group(4) [OF _ refl] first_name_char_def)
  have name: "runs ?p1 m s ?p2 m"
    using runs_header_name [of ?p1 s m] assms(1) ok by simp
  have delim: "runs ?p2 m HEADER_NAME_VALUE_DELIMITER ?p3 m"
    using assms(1) by (simp add: runs_def HEADER_NAME_VALUE_DELIMITER_def header_step_group(5) [OF _ refl])
  have val: "runs ?p3 m (snd h) ?p4 m"
    using runs_header_value [of ?p3 "snd h" m] assms(1) ok by simp
  have crlf: "runs ?p4 m STRING_CRLF
      (p\<lparr>m_header_name := fst h, m_header_value := snd h, m_headers_parse_state := PARSE_HEADER_START\<rparr>)
      (add_header (fst h) (snd h) m)"
    using assms(1,4) by (auto simp: runs_def STRING_CRLF_def header_step_group(4,5) [OF _ refl] n add_header_def)
  have "runs p m ([c] @ s @ HEADER_NAME_VALUE_DELIMITER @ snd h @ STRING_CRLF)
      (p\<lparr>m_header_name := fst h, m_header_value := snd h, m_headers_parse_state := PARSE_HEADER_START\<rparr>)
      (add_header (fst h) (snd h) m)"
    by (intro runs_trans [OF c] runs_trans [OF name] runs_trans [OF delim] runs_trans [OF val] crlf)
  then show ?thesis by (simp add: header_line_def n)
qed

definition header_lines :: "(string \<times> string) list \<Rightarrow> string" where
  "header_lines hs = concat (map header_line hs)"

definition add_headers :: "(string \<times> string) list \<Rightarrow> http_message \<Rightarrow> http_message" where
  "add_headers hs m = m\<lparr>msg_headers := foldl (\<lambda>d h. dict_insert (fst h) (snd h) d) (msg_headers m) hs\<rparr>"

lemma add_headers_simps: "add_headers [] m = m" "add_headers (h # hs) m = add_headers hs (add_header (fst h) (snd h) m)"
  by (simp_all add: add_headers_def add_header_def)

lemma runs_header_lines:
  assumes "\<not> m_save_raw_headers p" and "m_headers_parse_state p = PARSE_HEADER_START" and "list_all header_ok hs"
    and "\<not> m_is_request p \<or> msg_version_major m \<noteq> 0"
  shows "\<exists>name val. runs p m (header_lines hs) (p\<lparr>m_header_name := name, m_header_value := val\<rparr>) (add_headers hs m)"
  using assms
proof (induction hs arbitrary: p m)
  case Nil
  have "runs p m (header_lines []) (p\<lparr>m_header_name := m_header_name p, m_header_value := m_header_value p\<rparr>) (add_headers [] m)"
    by (simp add: header_lines_def add_headers_simps)
  then show ?case by blast
next
  case (Cons h hs)
  let ?q = "p\<lparr>m_header_name := fst h, m_header_value := snd h, m_headers_parse_state := PARSE_HEADER_START\<rparr>"
  let ?m = "add_header (fst h) (snd h) m"
  have q: "?q = p\<lparr>m_header_name := fst h, m_header_value := snd h\<rparr>" using Cons.prems(2) by simp
  have "runs p m (header_line h) ?q ?m" using Cons.prems by (intro runs_header_line) simp_all
  moreover obtain name val where "runs ?q ?m (header_lines hs) (?q\<lparr>m_header_name := name, m_header_value := val\<rparr>) (add_headers hs ?m)"
    using Cons.IH [of ?q ?m] Cons.prems by (auto simp: add_header_def)
  ultimately have "runs p m (header_line h @ header_lines hs) (?q\<lparr>m_header_name := name, m_header_value := val\<rparr>) (add_headers hs ?m)"
    by (rule runs_trans)
  then show ?case unfolding q by (auto simp: header_lines_def add_headers_simps)
qed

lemma headers_loop_end:
  assumes "\<not> m_save_raw_headers p" and "m_headers_parse_state p = PARSE_HEADER_START"
  shows "headers_loop p m (STRING_CRLF @ rest) =
     (true_value, None, at_state PARSE_EXPECTING_FINAL_NEWLINE p, m, rest)"
  using assms by (simp add: STRING_CRLF_def header_step_group(4,5) [OF _ refl])

text \<open>The headers behind a first line, up to the empty line.\<close>

lemma headers_loop_block:
  assumes "runs p m line q n" and "\<not> m_save_raw_headers q" and "m_headers_parse_state q = PARSE_HEADER_START"
    and "list_all header_ok hs" and "\<not> m_is_request q \<or> msg_version_major n \<noteq> 0"
  obtains name val where "headers_loop p m (line @ header_lines hs @ STRING_CRLF @ rest) =
     (true_value, None, q\<lparr>m_header_name := name, m_header_value := val, m_headers_parse_state := PARSE_EXPECTING_FINAL_NEWLINE\<rparr>,
      add_headers hs n, rest)"
proof -
  obtain name val where r: "runs q n (header_lines hs) (q\<lparr>m_header_name := name, m_header_value := val\<rparr>) (add_headers hs n)"
    using runs_header_lines [OF assms(2-5)] by blast
  have "headers_loop p m (line @ header_lines hs @ STRING_CRLF @ rest) =
      headers_loop (q\<lparr>m_header_name := name, m_header_value := val\<rparr>) (add_headers hs n) (STRING_CRLF @ rest)"
    using assms(1) r by (simp add: runs_def)
  then show thesis using assms(2,3) that by (simp add: headers_loop_end)
qed

section \<open>From the headers to the content\<close>

text \<open>
  The fields of the parser that decide what follows the headers; the header machine changes none of
  the others that matter here.
\<close>

lemma parse_headers_block:
  assumes "m_read p = line @ header_lines hs @ STRING_CRLF @ rest"
    and "runs (p\<lparr>m_bytes_last_read := 0\<rparr>) m line q n" and "\<not> m_save_raw_headers q"
    and "m_headers_parse_state q = PARSE_HEADER_START"
    and "list_all header_ok hs" and "\<not> m_is_request q \<or> msg_version_major n \<noteq> 0"
  obtains r where "parse_headers p m = (true_value, None, r, add_headers hs n)" and "m_read r = rest"
    and "config r = config p" and "m_message_parse_state r = m_message_parse_state p"
    and "m_status_code r = m_status_code q" and "m_status_message r = m_status_message q"
    and "m_method r = m_method q" and "m_resource r = m_resource q" and "m_query_string r = m_query_string q"
proof -
  obtain name val where l: "headers_loop (p\<lparr>m_bytes_last_read := 0\<rparr>) m (m_read p) =
     (true_value, None, q\<lparr>m_header_name := name, m_header_value := val, m_headers_parse_state := PARSE_EXPECTING_FINAL_NEWLINE\<rparr>,
      add_headers hs n, rest)"
    using headers_loop_block [OF assms(2-6), of rest] assms(1) by metis
  then obtain r where r: "parse_headers p m = (true_value, None, r, add_headers hs n)" and "m_read r = rest"
      "m_status_code r = m_status_code q" "m_status_message r = m_status_message q"
      "m_method r = m_method q" "m_resource r = m_resource q" "m_query_string r = m_query_string q"
    by (simp add: parse_headers_def Let_def)
  then show thesis using that parse_headers_config [OF r] parse_headers_state [OF r] by blast
qed

lemma update_message_counters [simp]:
  "update_message_with_header_data (p\<lparr>m_bytes_content_remaining := i, m_bytes_content_read := j\<rparr>) m =
   update_message_with_header_data p m"
  by (simp add: update_message_with_header_data_def Let_def)

lemma update_message_headers [simp]:
  "has_header (update_message_with_header_data p m) k = has_header m k"
  "get_header (update_message_with_header_data p m) k = get_header m k"
  by (simp_all add: has_header_def get_header_def)

text \<open>A message with a content length: what the headers leave behind.\<close>

definition received :: "parser \<Rightarrow> http_message \<Rightarrow> http_message" where
  "received p m = update_message_with_header_data p (m\<lparr>msg_content_length := 0, msg_is_chunked := False\<rparr>)"

lemma finish_header_parsing_length:
  assumes "\<not> has_header m HEADER_TRANSFER_ENCODING" and "\<not> is_content_length_implied (received p m)"
    and "has_header m HEADER_CONTENT_LENGTH" and "stoul (get_header m HEADER_CONTENT_LENGTH) = Some len"
    and "len \<le> m_max_content_length p" and "\<not> m_parse_headers_only p"
  shows "finish_header_parsing p m =
    (if len = 0 then (true_value, None,
        p\<lparr>m_bytes_content_remaining := 0, m_bytes_content_read := 0, m_message_parse_state := PARSE_END\<rparr>, received p m)
     else (indeterminate_value, None,
        p\<lparr>m_bytes_content_read := 0, m_message_parse_state := PARSE_CONTENT, m_bytes_content_remaining := len\<rparr>,
        (received p m)\<lparr>msg_content_length := len, msg_content_buf := replicate len None\<rparr>))"
proof -
  have te: "update_transfer_encoding_using_header (set_content_length 0 m) = m\<lparr>msg_content_length := 0, msg_is_chunked := False\<rparr>"
    using assms(1) by (simp add: update_transfer_encoding_cases set_content_length_def has_header_def)
  have chunked: "\<not> msg_is_chunked (received p m)" by (simp add: received_def)
  have cl: "update_content_length_using_header (received p m) = Some ((received p m)\<lparr>msg_content_length := len\<rparr>)"
    using assms(3,4) by (simp add: update_content_length_cases received_def has_header_def get_header_def)
  have hcl: "has_header (received p m) HEADER_CONTENT_LENGTH" using assms(3) by (simp add: received_def has_header_def)
  have zero: "(received p m)\<lparr>msg_content_length := 0\<rparr> = received p m"
    by (rule http_message.equality) (simp_all add: received_def)
  have rec: "update_message_with_header_data (p\<lparr>m_bytes_content_remaining := 0, m_bytes_content_read := 0\<rparr>)
      (m\<lparr>msg_content_length := 0, msg_is_chunked := False\<rparr>) = received p m"
    by (simp add: received_def)
  show ?thesis
    unfolding finish_header_parsing_def Let_def te rec
    using chunked cl hcl assms(2,5,6) zero by (simp add: create_content_buffer_def content_resize_def)
qed

lemma consume_body:
  assumes "m_message_parse_state p = PARSE_CONTENT" and "\<not> m_payload_handler p" and "m_read p = body @ rest"
    and "m_bytes_content_read p = 0" and "m_bytes_content_remaining p = length body" and "body \<noteq> []"
    and "length (msg_content_buf m) = length body" and "length body \<le> m_max_content_length p" and "length body < 2 ^ 64"
  shows "\<exists>q. parse_switch p m = Inr (length body, true_value, None, q, m\<lparr>msg_content_buf := map Some body\<rparr>) \<and>
     m_read q = rest \<and> config q = config p"
proof -
  have inv: "content_inv p m" using assms by (simp add: content_inv_def)
  have rem: "m_bytes_content_remaining p \<noteq> 0" using assms(5,6) by simp
  have p: "put 0 body (msg_content_buf m) = map Some body" using assms(7) by (simp add: put_def)
  have "consume_content p m = Inr (true_value,
      rebook rest (length body) (szadd (m_bytes_total_read p) (length body)) (length body)
        (p\<lparr>m_bytes_content_remaining := 0\<rparr>), m\<lparr>msg_content_buf := map Some body\<rparr>)"
    using consume_content_eq [OF inv assms(1,2) rem] assms(3,4,5) p by simp
  then show ?thesis using assms(1) by (simp add: parse_switch_def rebook_def)
qed

lemma parse_loop_message:
  assumes "m_message_parse_state p = PARSE_START" and "\<not> m_payload_handler p" and "\<not> m_parse_headers_only p"
    and "parse_headers (p\<lparr>m_message_parse_state := PARSE_HEADERS\<rparr>) m = (true_value, None, r, n)"
    and "m_message_parse_state r = PARSE_HEADERS" and "config r = config p" and "m_read r = body @ rest"
    and "\<not> has_header n HEADER_TRANSFER_ENCODING" and "\<not> is_content_length_implied (received r n)"
    and "has_header n HEADER_CONTENT_LENGTH" and "stoul (get_header n HEADER_CONTENT_LENGTH) = Some (length body)"
    and "length body \<le> m_max_content_length p"
  shows "\<exists>k q buf. parse_loop p m 0 = Inr (k, true_value, None, q,
      (received r n)\<lparr>msg_content_length := length body, msg_content_buf := buf\<rparr>) \<and>
    content_bytes ((received r n)\<lparr>msg_content_length := length body, msg_content_buf := buf\<rparr>) = body \<and>
    m_read q = rest \<and> config q = config p"
proof -
  let ?N = "received r n" and ?h = "p\<lparr>m_message_parse_state := PARSE_HEADERS\<rparr>"
  have c: "m_max_content_length r = m_max_content_length p" "\<not> m_payload_handler r" "\<not> m_parse_headers_only r"
    using assms(2,3,6) by (simp_all add: config_def)
  have f: "finish_header_parsing r n =
    (if length body = 0 then (true_value, None,
        r\<lparr>m_bytes_content_remaining := 0, m_bytes_content_read := 0, m_message_parse_state := PARSE_END\<rparr>, ?N)
     else (indeterminate_value, None,
        r\<lparr>m_bytes_content_read := 0, m_message_parse_state := PARSE_CONTENT, m_bytes_content_remaining := length body\<rparr>,
        ?N\<lparr>msg_content_length := length body, msg_content_buf := replicate (length body) None\<rparr>))"
    using assms(8-12) c by (intro finish_header_parsing_length) simp_all
  have sw: "parse_switch p m = Inr (m_bytes_last_read r, finish_header_parsing r n)"
    unfolding parse_switch_start [OF assms(1)]
    using parse_switch_headers [of ?h m] assms(4,5) by (simp add: headers_turn_def)
  show ?thesis
  proof (cases "body = []")
    case True
    have z: "?N\<lparr>msg_content_length := 0, msg_content_buf := msg_content_buf ?N\<rparr> = ?N"
      by (rule http_message.equality) (simp_all add: received_def)
    have "parse_loop p m 0 = Inr (szadd 0 (m_bytes_last_read r), true_value, None,
        r\<lparr>m_bytes_content_remaining := 0, m_bytes_content_read := 0, m_message_parse_state := PARSE_END\<rparr>, ?N)"
      using parse_loop_step [of p m] sw f True by simp
    moreover have "content_bytes ?N = []" by (simp add: content_bytes_def received_def)
    ultimately show ?thesis
      using True z assms(6,7)
      by (intro exI [of _ "szadd 0 (m_bytes_last_read r)"] exI [of _ "r\<lparr>m_bytes_content_remaining := 0,
          m_bytes_content_read := 0, m_message_parse_state := PARSE_END\<rparr>"] exI [of _ "msg_content_buf ?N"]) simp
  next
    case False
    let ?q = "r\<lparr>m_bytes_content_read := 0, m_message_parse_state := PARSE_CONTENT, m_bytes_content_remaining := length body\<rparr>"
    let ?M = "?N\<lparr>msg_content_length := length body, msg_content_buf := replicate (length body) None\<rparr>"
    have "length body < 2 ^ 64" using assms(11) stoul_bound by blast
    then obtain q' where q': "parse_switch ?q ?M = Inr (length body, true_value, None, q', ?M\<lparr>msg_content_buf := map Some body\<rparr>)"
        "m_read q' = rest" "config q' = config ?q"
      using consume_body [of ?q body rest ?M] assms(7,12) c False by auto
    have "parse_loop p m 0 = parse_loop ?q ?M (szadd 0 (m_bytes_last_read r))"
      using parse_loop_step [of p m] sw f False assms(7) by (simp add: eof_def)
    also have "\<dots> = Inr (szadd (szadd 0 (m_bytes_last_read r)) (length body), true_value, None, q', ?M\<lparr>msg_content_buf := map Some body\<rparr>)"
      using parse_loop_step [OF q'(1)] by simp
    finally show ?thesis
      using q'(2,3) assms(6)
      by (intro exI [of _ "szadd (szadd 0 (m_bytes_last_read r)) (length body)"] exI [of _ q'] exI [of _ "map Some body"])
        (auto simp: content_bytes_def take_map)
  qed
qed

section \<open>The sending side\<close>

text \<open>Preparing a message changes only its headers and the first line cache.\<close>

definition send_frame :: "http_message \<Rightarrow> http_message" where
  "send_frame m = m\<lparr>msg_first_line := [], msg_headers := []\<rparr>"

lemma send_frame_ops [simp]:
  "send_frame (change_header k v m) = send_frame m" "send_frame (add_header k v m) = send_frame m"
  "send_frame (update_first_line m) = send_frame m" "send_frame (snd (get_first_line m)) = send_frame m"
  "send_frame (set_cookie k v m) = send_frame m"
  by (simp_all add: send_frame_def change_header_def add_header_def update_first_line_def get_first_line_def
      set_cookie_def Let_def)

lemma send_frame_prepare [simp]: "send_frame (prepare_headers_for_send ka uc m) = send_frame m"
  by (simp add: prepare_headers_for_send_def Let_def)

lemma send_frame_foldl:
  "(\<And>m i. send_frame (f m i) = send_frame m) \<Longrightarrow> send_frame (foldl f m is) = send_frame m"
  by (induction "is" arbitrary: m) simp_all

lemma send_frame_cookies [simp]: "send_frame (append_cookie_headers m) = send_frame m"
  by (simp add: append_cookie_headers_def send_frame_foldl)

lemma send_frame_fields:
  assumes "send_frame n = send_frame m"
  shows "msg_content_length n = msg_content_length m" "content_bytes n = content_bytes m"
    "content_readable n = content_readable m"
    "msg_first_line (update_first_line n) = msg_first_line (update_first_line m)"
proof -
  have f: "f n = f m" if "\<And>x. f (send_frame x) = f x" for f :: "http_message \<Rightarrow> 'b" using assms that by metis
  show "msg_content_length n = msg_content_length m" "content_bytes n = content_bytes m"
      "content_readable n = content_readable m"
      "msg_first_line (update_first_line n) = msg_first_line (update_first_line m)"
    by (rule f, simp add: send_frame_def content_bytes_def content_readable_def update_first_line_def get_version_string_def)+
qed

lemma first_line_prepared:
  assumes "first_line_fresh m"
  shows "fst (get_first_line (prepare_headers_for_send ka uc m)) = msg_first_line (update_first_line m)"
proof -
  let ?n = "prepare_headers_for_send ka uc m"
  have e: "msg_first_line (update_first_line ?n) = msg_first_line (update_first_line m)"
    by (rule send_frame_fields) simp
  have "msg_first_line ?n = msg_first_line m"
    by (simp add: prepare_headers_for_send_def change_header_def Let_def)
  then have "first_line_fresh ?n" using assms e by (simp add: first_line_fresh_def)
  then show ?thesis using get_first_line_fresh(1) e by simp
qed

lemma append_headers_text: "concat (append_headers m) = header_lines (msg_headers m) @ STRING_CRLF"
proof -
  have "concat (concat (map (\<lambda>i. [fst i, HEADER_NAME_VALUE_DELIMITER, snd i, STRING_CRLF]) hs)) = header_lines hs" for hs
    by (induction hs) (simp_all add: header_lines_def header_line_def)
  then show ?thesis by (simp add: append_headers_def)
qed

lemma send_buffers_text:
  assumes "send_buffers keep_alive False m = Some (bufs, m')" and "first_line_fresh m"
  shows "concat bufs = (msg_first_line (update_first_line m) @ STRING_CRLF) @ header_lines (msg_headers m') @
      STRING_CRLF @ content_bytes m" and "length (content_bytes m) = msg_content_length m"
    and "m' = append_cookie_headers (snd (get_first_line (prepare_headers_for_send keep_alive False m)))"
proof -
  let ?n = "prepare_headers_for_send keep_alive False m"
  define n' where "n' = append_cookie_headers (snd (get_first_line ?n))"
  have pb: "prepare_buffers_for_send keep_alive False m =
      ([msg_first_line (update_first_line m), STRING_CRLF] @ append_headers n', n')"
    using first_line_prepared [OF assms(2), of keep_alive False]
    by (cases "get_first_line ?n") (simp add: prepare_buffers_for_send_def n'_def Let_def)
  have fr: "send_frame n' = send_frame m" by (simp add: n'_def)
  note e = send_frame_fields [OF fr]
  show "m' = append_cookie_headers (snd (get_first_line ?n))"
    using assms(1) pb by (auto simp: send_buffers_def n'_def split: if_splits)
  then have m': "m' = n'" by (simp add: n'_def)
  show "length (content_bytes m) = msg_content_length m"
    using assms(1) pb e by (auto simp: send_buffers_def content_readable_def content_bytes_def split: if_splits)
  then show "concat bufs = (msg_first_line (update_first_line m) @ STRING_CRLF) @ header_lines (msg_headers m') @
      STRING_CRLF @ content_bytes m"
    using assms(1) pb e m' by (auto simp: send_buffers_def append_headers_text split: if_splits)
qed

lemma dict_ok_headers_grouped: "msg_dicts_ok m \<Longrightarrow> grouped (msg_headers m)"
  by (simp add: msg_dicts_ok_def)

lemma foldl_add_header_values:
  assumes "\<And>m i. \<exists>key v. msg_headers (f m i) = dict_insert key v (msg_headers m) \<and> \<not> iequals key k"
    and "grouped (msg_headers m)"
  shows "grouped (msg_headers (foldl f m xs)) \<and>
     mset (dict_values (msg_headers (foldl f m xs)) k) = mset (dict_values (msg_headers m) k)"
  using assms(2)
proof (induction xs arbitrary: m)
  case (Cons i xs)
  obtain key v where h: "msg_headers (f m i) = dict_insert key v (msg_headers m)" "\<not> iequals key k"
    using assms(1) by blast
  then have "grouped (msg_headers (f m i))" "mset (dict_values (msg_headers (f m i)) k) = mset (dict_values (msg_headers m) k)"
    using Cons.prems grouped_insert dict_values_insert by simp_all
  then show ?case using Cons.IH [of "f m i"] by simp
qed simp

lemma append_cookie_values:
  assumes "grouped (msg_headers m)" and "\<not> iequals HEADER_COOKIE k" and "\<not> iequals HEADER_SET_COOKIE k"
  shows "mset (dict_values (msg_headers (append_cookie_headers m)) k) = mset (dict_values (msg_headers m) k)"
proof (cases "msg_is_request m")
  case True
  then show ?thesis
    using foldl_add_header_values [of "\<lambda>m i. add_header HEADER_COOKIE (fst i @ COOKIE_NAME_VALUE_DELIMITER @ snd i) m" k m] assms
    by (auto simp: append_cookie_headers_def add_header_def)
next
  case False
  then show ?thesis
    using foldl_add_header_values [of "\<lambda>m i. set_cookie (fst i) (snd i) m" k m] assms
    by (auto simp: append_cookie_headers_def add_header_def set_cookie_def)
qed

lemma get_first_line_headers [simp]: "msg_headers (snd (get_first_line m)) = msg_headers m"
  by (simp add: get_first_line_def update_first_line_def Let_def)

lemma cookie_names_distinct [simp]:
  "\<not> iequals HEADER_COOKIE HEADER_CONTENT_LENGTH" "\<not> iequals HEADER_SET_COOKIE HEADER_CONTENT_LENGTH"
  "\<not> iequals HEADER_COOKIE HEADER_TRANSFER_ENCODING" "\<not> iequals HEADER_SET_COOKIE HEADER_TRANSFER_ENCODING"
  by code_simp+

text \<open>The framing headers of a prepared message, cookies included.\<close>

lemma prepared_values:
  fixes keep_alive :: bool
  assumes "msg_dicts_ok m" and "\<not> has_header m HEADER_TRANSFER_ENCODING" and "\<not> msg_do_not_send_content_length m"
  defines "n \<equiv> append_cookie_headers (snd (get_first_line (prepare_headers_for_send keep_alive False m)))"
  shows "dict_values (msg_headers n) HEADER_CONTENT_LENGTH = [to_string (msg_content_length m)]"
    and "dict_values (msg_headers n) HEADER_TRANSFER_ENCODING = []"
proof -
  let ?p = "prepare_headers_for_send keep_alive False m"
  let ?c = "if keep_alive then ''Keep-Alive'' else ''close''"
  have h: "msg_headers ?p = change_value HEADER_CONTENT_LENGTH (to_string (msg_content_length m))
      (change_value HEADER_CONNECTION ?c (msg_headers m))"
    using assms(3) by (simp add: prepare_headers_for_send_def change_header_def)
  have g: "grouped (msg_headers m)" "grouped (change_value HEADER_CONNECTION ?c (msg_headers m))"
    using dict_ok_headers_grouped [OF assms(1)] grouped_change by simp_all
  have gp: "grouped (msg_headers ?p)" using g h grouped_change by simp
  have cl: "dict_values (msg_headers ?p) HEADER_CONTENT_LENGTH = [to_string (msg_content_length m)]"
    using g h dict_values_change by simp
  have te: "dict_values (msg_headers ?p) HEADER_TRANSFER_ENCODING = []"
    using g h dict_values_change assms(2) has_header_values by simp
  have "mset (dict_values (msg_headers n) HEADER_CONTENT_LENGTH) = {#to_string (msg_content_length m)#}"
      "mset (dict_values (msg_headers n) HEADER_TRANSFER_ENCODING) = {#}"
    using append_cookie_values [of "snd (get_first_line ?p)"] gp cl te by (simp_all add: n_def)
  then show "dict_values (msg_headers n) HEADER_CONTENT_LENGTH = [to_string (msg_content_length m)]"
      "dict_values (msg_headers n) HEADER_TRANSFER_ENCODING = []"
    by (simp_all add: mset_single_iff)
qed

lemma add_headers_values:
  assumes "grouped (msg_headers m)"
  shows "mset (dict_values (msg_headers (add_headers hs m)) k) = mset (dict_values (msg_headers m) k) + mset (dict_values hs k)"
  using foldl_insert_values [OF assms, of hs k] by (simp add: add_headers_def dict_values_def iequal_to_def)

lemma added_framing:
  assumes "msg_headers m = []" and "dict_values hs HEADER_CONTENT_LENGTH = [v]"
    and "dict_values hs HEADER_TRANSFER_ENCODING = []"
  shows "has_header (add_headers hs m) HEADER_CONTENT_LENGTH" "get_header (add_headers hs m) HEADER_CONTENT_LENGTH = v"
    "\<not> has_header (add_headers hs m) HEADER_TRANSFER_ENCODING"
proof -
  have "grouped (msg_headers m)" using assms(1) by (simp add: grouped_def folded_keys_def)
  then have e: "mset (dict_values (msg_headers (add_headers hs m)) k) = mset (dict_values hs k)" for k
    using add_headers_values [of m hs k] assms(1) by (simp add: dict_values_def)
  have "dict_values (msg_headers (add_headers hs m)) HEADER_CONTENT_LENGTH = [v]"
      "dict_values (msg_headers (add_headers hs m)) HEADER_TRANSFER_ENCODING = []"
    using e [of HEADER_CONTENT_LENGTH] e [of HEADER_TRANSFER_ENCODING] assms(2,3) by (simp_all add: mset_single_iff)
  then show "has_header (add_headers hs m) HEADER_CONTENT_LENGTH" "get_header (add_headers hs m) HEADER_CONTENT_LENGTH = v"
      "\<not> has_header (add_headers hs m) HEADER_TRANSFER_ENCODING"
    by (simp_all add: has_header_values get_header_def get_value_values)
qed

text \<open>The end of a parse call whose loop has finished a response.\<close>

lemma parse_response_end:
  assumes "parse_loop p m 0 = Inr (k, true_value, None, q, n)" and "mark_missing m = m" and "\<not> m_is_request q"
  shows "\<exists>st. parse p m = Inr (true_value, None, q\<lparr>m_message_parse_state := PARSE_END, m_bytes_last_read := k\<rparr>,
     n\<lparr>msg_is_valid := True, msg_status := st\<rparr>)"
  using assms by (auto simp: parse_alt parse_end_def finish_def finish_state_def compute_msg_status_def Let_def)

section \<open>A response sent and parsed\<close>

definition sendable_response :: "nat \<Rightarrow> string \<Rightarrow> http_message \<Rightarrow> bool" where
  "sendable_response max_length request_method m =
     (\<not> msg_is_request m \<and> msg_dicts_ok m \<and> first_line_fresh m \<and>
      \<not> has_header m HEADER_TRANSFER_ENCODING \<and> \<not> msg_do_not_send_content_length m \<and>
      list_all text_char (resp_status_message m) \<and> length (resp_status_message m) \<le> STATUS_MESSAGE_MAX \<and>
      unat (resp_status_code m) < 2 ^ 16 \<and>
      \<not> is_content_length_implied (m\<lparr>resp_request_method := request_method\<rparr>) \<and>
      msg_content_length m \<le> max_length \<and> msg_content_length m < 2 ^ 64)"

lemma first_line_response:
  "\<not> msg_is_request m \<Longrightarrow> msg_first_line (update_first_line m) @ STRING_CRLF =
     status_line (unat (msg_version_major m)) (unat (msg_version_minor m)) (unat (resp_status_code m)) (resp_status_message m)"
  by (simp add: update_first_line_def get_version_string_def status_line_def)

lemma received_response:
  assumes "\<not> m_is_request r"
  shows "resp_status_code (received r n) = ucast (m_status_code r)" "resp_status_message (received r n) = m_status_message r"
    "msg_version_major (received r n) = msg_version_major n" "msg_version_minor (received r n) = msg_version_minor n"
    "msg_headers (received r n) = msg_headers n" "resp_request_method (received r n) = resp_request_method n"
    "msg_is_request (received r n) = msg_is_request n"
  using assms by (simp_all add: received_def update_message_with_header_data_def first_line_setters Let_def)

lemma ucast_status: "unat (w :: 32 word) < 2 ^ 16 \<Longrightarrow> ucast (of_nat (unat w) :: 16 word) = w"
  by (simp add: word_unat_eq_iff unsigned_ucast_eq unsigned_of_nat unsigned_take_bit_eq take_bit_nat_eq_self)

lemma response_roundtrip_lemma:
  assumes "sendable_response limit request_method m" and "send_buffers keep_alive False m = Some (bufs, m')"
    and "list_all header_ok (msg_headers m')"
  shows "\<exists>q n. parse (set_read_buffer (concat bufs @ rest) (new_parser False limit)) (new_response request_method) =
      Inr (true_value, None, q, n) \<and> m_read q = rest \<and> content_bytes n = content_bytes m \<and>
    resp_status_code n = resp_status_code m \<and> resp_status_message n = resp_status_message m \<and>
    msg_version_major n = msg_version_major m \<and> msg_version_minor n = msg_version_minor m \<and>
    (\<forall>k. mset (dict_values (msg_headers n) k) = mset (dict_values (msg_headers m') k))"
proof -
  let ?p = "set_read_buffer (concat bufs @ rest) (new_parser False limit)" and ?ma = "new_response request_method"
  let ?h = "?p\<lparr>m_message_parse_state := PARSE_HEADERS\<rparr>"
  let ?line = "status_line (unat (msg_version_major m)) (unat (msg_version_minor m)) (unat (resp_status_code m)) (resp_status_message m)"
  let ?nv = "with_version (msg_version_major m) (msg_version_minor m) ?ma"
  let ?n = "add_headers (msg_headers m') ?nv"
  note ok = assms(1) [unfolded sendable_response_def]
  have fresh: "first_line_fresh m" and req: "\<not> msg_is_request m" using ok by simp_all
  note sent = send_buffers_text [OF assms(2) fresh]
  have t: "m_read ?h = ?line @ header_lines (msg_headers m') @ STRING_CRLF @ (content_bytes m @ rest)"
    using sent(1) first_line_response [OF req] by (simp add: set_read_buffer_def)
  let ?qa = "(?h\<lparr>m_bytes_last_read := 0\<rparr>)\<lparr>m_status_code := of_nat (unat (resp_status_code m)),
      m_status_message := resp_status_message m, m_headers_parse_state := PARSE_HEADER_START\<rparr>"
  have run: "runs (?h\<lparr>m_bytes_last_read := 0\<rparr>) ?ma ?line ?qa ?nv"
    using runs_status_line [of "?h\<lparr>m_bytes_last_read := 0\<rparr>" "resp_status_message m" ?ma "unat (msg_version_major m)"
        "unat (msg_version_minor m)" "unat (resp_status_code m)"] ok
    by (simp add: set_read_buffer_def new_parser_def)
  obtain r where r: "parse_headers ?h ?ma = (true_value, None, r, ?n)" "m_read r = content_bytes m @ rest"
      "config r = config ?h" "m_message_parse_state r = PARSE_HEADERS"
      "m_status_code r = of_nat (unat (resp_status_code m))" "m_status_message r = resp_status_message m"
    by (rule parse_headers_block [OF t run]) (use assms(3) in \<open>simp_all add: set_read_buffer_def new_parser_def\<close>)
  have rr: "\<not> m_is_request r" using r(3) by (simp add: config_def set_read_buffer_def new_parser_def)
  have empty: "msg_headers ?nv = []" by (simp add: new_response_def empty_message_def)
  have fr: "has_header ?n HEADER_CONTENT_LENGTH" "get_header ?n HEADER_CONTENT_LENGTH = to_string (msg_content_length m)"
      "\<not> has_header ?n HEADER_TRANSFER_ENCODING"
    using added_framing [OF empty] prepared_values [of m keep_alive] ok sent(3) by simp_all
  have len: "stoul (get_header ?n HEADER_CONTENT_LENGTH) = Some (length (content_bytes m))"
    using fr(2) sent(2) ok stoul_to_string by simp
  have code: "resp_status_code (received r ?n) = resp_status_code m"
    using received_response(1) [OF rr] r(5) ok ucast_status by simp
  have impl: "\<not> is_content_length_implied (received r ?n)"
    using ok code received_response(6,7) [OF rr]
    by (auto simp: is_content_length_implied_def add_headers_def new_response_def empty_message_def)
  obtain k q buf where l: "parse_loop ?p ?ma 0 = Inr (k, true_value, None, q,
      (received r ?n)\<lparr>msg_content_length := length (content_bytes m), msg_content_buf := buf\<rparr>)"
    and b: "content_bytes ((received r ?n)\<lparr>msg_content_length := length (content_bytes m), msg_content_buf := buf\<rparr>) = content_bytes m"
    and q: "m_read q = rest" "config q = config ?p"
    using parse_loop_message [OF _ _ _ r(1) r(4) _ r(2) fr(3) impl fr(1) len] r(3) ok sent(2)
    by (auto simp: set_read_buffer_def new_parser_def config_def)
  have "\<not> m_is_request q" "mark_missing ?ma = ?ma"
    using q(2) by (simp_all add: config_def set_read_buffer_def new_parser_def mark_missing_def new_response_def empty_message_def)
  from parse_response_end [OF l this(2,1)] obtain st where
    "parse ?p ?ma = Inr (true_value, None, q\<lparr>m_message_parse_state := PARSE_END, m_bytes_last_read := k\<rparr>,
     (received r ?n)\<lparr>msg_content_length := length (content_bytes m), msg_content_buf := buf, msg_is_valid := True, msg_status := st\<rparr>)"
    by auto
  then show ?thesis
    using q(1) b code received_response [OF rr, of ?n] r(6) add_headers_values [of ?nv "msg_headers m'"] empty
    by (auto simp: content_bytes_def add_headers_def grouped_def folded_keys_def dict_values_def)
qed

section \<open>A request sent and parsed\<close>

definition uri_char :: "char \<Rightarrow> bool" where
  "uri_char c = (c \<noteq> SP \<and> \<not> is_control c)"

lemma runs_method_more:
  assumes "\<not> m_save_raw_headers p" and "m_headers_parse_state p = PARSE_METHOD"
    and "list_all token_char s" and "length (m_method p) + length s \<le> METHOD_MAX"
  shows "runs p m s (p\<lparr>m_method := m_method p @ s\<rparr>) m"
  using assms
proof (induction s arbitrary: p)
  case (Cons c s)
  let ?q = "p\<lparr>m_method := m_method p @ [c]\<rparr>"
  have "header_step c p m = (H_More, ?q, m)"
    using Cons.prems token_char_facts [of c] by (simp add: header_step_group(1) [OF _ refl])
  moreover have "runs ?q m s (?q\<lparr>m_method := m_method ?q @ s\<rparr>) m"
    using Cons.prems by (intro Cons.IH) simp_all
  ultimately show ?case by (simp add: runs_Cons)
qed simp

lemma runs_method:
  assumes "\<not> m_save_raw_headers p" and "m_headers_parse_state p = PARSE_METHOD_START"
    and "s \<noteq> []" and "list_all token_char s" and "length s \<le> METHOD_MAX"
  shows "runs p m (s @ [SP]) (p\<lparr>m_method := s, m_resource := [], m_headers_parse_state := PARSE_URI_STEM\<rparr>) m"
proof -
  obtain c t where s: "s = c # t" using assms(3) by (cases s) auto
  let ?p1 = "p\<lparr>m_method := [c], m_headers_parse_state := PARSE_METHOD\<rparr>"
  have "runs p m [c] ?p1 m"
    using assms token_char_facts [of c] s by (intro runs_step) (simp add: header_step_group(1) [OF _ refl])
  moreover have "runs ?p1 m t (?p1\<lparr>m_method := c # t\<rparr>) m"
    using runs_method_more [of ?p1 t m] assms s by simp
  moreover have "runs (?p1\<lparr>m_method := c # t\<rparr>) m [SP] (p\<lparr>m_method := s, m_resource := [], m_headers_parse_state := PARSE_URI_STEM\<rparr>) m"
    using assms(1) s by (simp add: runs_def header_step_group(1) [OF _ refl])
  ultimately have "runs p m ([c] @ t @ [SP]) (p\<lparr>m_method := s, m_resource := [], m_headers_parse_state := PARSE_URI_STEM\<rparr>) m"
    by (blast intro: runs_trans)
  then show ?thesis by (simp add: s)
qed

lemma uri_char_facts: "uri_char c \<Longrightarrow> c \<noteq> SP \<and> c \<noteq> CR \<and> c \<noteq> LF \<and> \<not> is_control c"
  by (auto simp: uri_char_def)

lemma runs_resource:
  assumes "\<not> m_save_raw_headers p" and "m_headers_parse_state p = PARSE_URI_STEM"
    and "list_all uri_char s" and "CHR ''?'' \<notin> set s" and "length (m_resource p) + length s \<le> RESOURCE_MAX"
  shows "runs p m s (p\<lparr>m_resource := m_resource p @ s\<rparr>) m"
  using assms
proof (induction s arbitrary: p)
  case (Cons c s)
  let ?q = "p\<lparr>m_resource := m_resource p @ [c]\<rparr>"
  have "header_step c p m = (H_More, ?q, m)"
    using Cons.prems uri_char_facts [of c] by (auto simp: header_step_group(1) [OF _ refl])
  moreover have "runs ?q m s (?q\<lparr>m_resource := m_resource ?q @ s\<rparr>) m"
    using Cons.prems by (intro Cons.IH) simp_all
  ultimately show ?case by (simp add: runs_Cons)
qed simp

lemma runs_query:
  assumes "\<not> m_save_raw_headers p" and "m_headers_parse_state p = PARSE_URI_QUERY"
    and "list_all uri_char s" and "length (m_query_string p) + length s \<le> QUERY_STRING_MAX"
  shows "runs p m s (p\<lparr>m_query_string := m_query_string p @ s\<rparr>) m"
  using assms
proof (induction s arbitrary: p)
  case (Cons c s)
  let ?q = "p\<lparr>m_query_string := m_query_string p @ [c]\<rparr>"
  have "header_step c p m = (H_More, ?q, m)"
    using Cons.prems uri_char_facts [of c] by (auto simp: header_step_group(1) [OF _ refl])
  moreover have "runs ?q m s (?q\<lparr>m_query_string := m_query_string ?q @ s\<rparr>) m"
    using Cons.prems by (intro Cons.IH) simp_all
  ultimately show ?case by (simp add: runs_Cons)
qed simp

definition query_part :: "string \<Rightarrow> string" where
  "query_part s = (if s \<noteq> [] then ''?'' @ s else [])"

lemma runs_query_part:
  assumes "\<not> m_save_raw_headers p" and "m_headers_parse_state p = PARSE_URI_STEM" and "m_query_string p = []"
    and "list_all uri_char s" and "length s \<le> QUERY_STRING_MAX"
  shows "runs p m (query_part s @ [SP]) (p\<lparr>m_query_string := s, m_headers_parse_state := PARSE_HTTP_VERSION_H\<rparr>) m"
proof (cases "s = []")
  case True
  have e: "p\<lparr>m_query_string := [], m_headers_parse_state := PARSE_HTTP_VERSION_H\<rparr> = at_state PARSE_HTTP_VERSION_H p"
    by (rule parser.equality) (simp_all add: assms(3))
  show ?thesis
    unfolding True e using assms(1,2) by (simp add: query_part_def runs_def header_step_group(1) [OF _ refl])
next
  case False
  let ?p1 = "p\<lparr>m_query_string := [], m_headers_parse_state := PARSE_URI_QUERY\<rparr>"
  have "runs p m ''?'' ?p1 m" using assms(1,2) by (simp add: runs_def header_step_group(1) [OF _ refl])
  moreover have "runs ?p1 m s (?p1\<lparr>m_query_string := s\<rparr>) m" using runs_query [of ?p1 s m] assms by simp
  moreover have "runs (?p1\<lparr>m_query_string := s\<rparr>) m [SP] (p\<lparr>m_query_string := s, m_headers_parse_state := PARSE_HTTP_VERSION_H\<rparr>) m"
    using assms(1) by (simp add: runs_def header_step_group(1) [OF _ refl])
  ultimately have "runs p m (''?'' @ s @ [SP]) (p\<lparr>m_query_string := s, m_headers_parse_state := PARSE_HTTP_VERSION_H\<rparr>) m"
    by (blast intro: runs_trans)
  then show ?thesis using False by (simp add: query_part_def)
qed

definition request_line :: "string \<Rightarrow> string \<Rightarrow> string \<Rightarrow> nat \<Rightarrow> nat \<Rightarrow> string" where
  "request_line method resource qs i j =
     (method @ [SP]) @ resource @ (query_part qs @ [SP]) @
     (STRING_HTTP_VERSION @ to_string i @ ''.'' @ to_string j) @ STRING_CRLF"

lemma runs_request_line:
  assumes "\<not> m_save_raw_headers p" and "m_headers_parse_state p = PARSE_METHOD_START" and "m_is_request p"
    and "m_query_string p = []" and "(of_nat i :: 16 word) \<noteq> 0"
    and "method \<noteq> []" and "list_all token_char method" and "length method \<le> METHOD_MAX"
    and "list_all uri_char resource" and "CHR ''?'' \<notin> set resource" and "length resource \<le> RESOURCE_MAX"
    and "list_all uri_char qs" and "length qs \<le> QUERY_STRING_MAX"
  shows "runs p m (request_line method resource qs i j)
     (p\<lparr>m_method := method, m_resource := resource, m_query_string := qs, m_headers_parse_state := PARSE_HEADER_START\<rparr>)
     (with_version (of_nat i) (of_nat j) m)"
proof -
  let ?p1 = "p\<lparr>m_method := method, m_resource := [], m_headers_parse_state := PARSE_URI_STEM\<rparr>"
  let ?p2 = "?p1\<lparr>m_resource := resource\<rparr>"
  let ?p3 = "p\<lparr>m_method := method, m_resource := resource, m_query_string := qs, m_headers_parse_state := PARSE_HTTP_VERSION_H\<rparr>"
  let ?m = "with_version (of_nat i) (of_nat j) m"
  have a: "runs p m (method @ [SP]) ?p1 m" using assms by (intro runs_method) simp_all
  have b: "runs ?p1 m resource ?p2 m" using runs_resource [of ?p1 resource m] assms by simp
  have c: "runs ?p2 m (query_part qs @ [SP]) ?p3 m"
    using runs_query_part [of ?p2 qs m] assms by simp
  have d: "runs ?p3 m (STRING_HTTP_VERSION @ to_string i @ ''.'' @ to_string j) (at_state PARSE_HTTP_VERSION_MINOR ?p3) ?m"
    using runs_version [of ?p3 m i j] assms(1) by simp
  have e: "runs (at_state PARSE_HTTP_VERSION_MINOR ?p3) ?m STRING_CRLF
     (p\<lparr>m_method := method, m_resource := resource, m_query_string := qs, m_headers_parse_state := PARSE_HEADER_START\<rparr>) ?m"
    using assms(1,3,5) by (simp add: runs_def STRING_CRLF_def header_step_group(2,4) [OF _ refl])
  show ?thesis
    unfolding request_line_def
    by (intro runs_trans [OF a] runs_trans [OF b] runs_trans [OF c] runs_trans [OF d] e)
qed

definition sendable_request :: "nat \<Rightarrow> http_message \<Rightarrow> bool" where
  "sendable_request max_length m =
     (msg_is_request m \<and> msg_dicts_ok m \<and> first_line_fresh m \<and> msg_version_major m \<noteq> 0 \<and>
      \<not> has_header m HEADER_TRANSFER_ENCODING \<and> \<not> msg_do_not_send_content_length m \<and>
      req_method m \<noteq> [] \<and> list_all token_char (req_method m) \<and> length (req_method m) \<le> METHOD_MAX \<and>
      list_all uri_char (req_resource m) \<and> CHR ''?'' \<notin> set (req_resource m) \<and> length (req_resource m) \<le> RESOURCE_MAX \<and>
      list_all uri_char (req_query_string m) \<and> length (req_query_string m) \<le> QUERY_STRING_MAX \<and>
      msg_content_length m \<le> max_length \<and> msg_content_length m < 2 ^ 64)"

lemma first_line_request:
  "msg_is_request m \<Longrightarrow> msg_first_line (update_first_line m) @ STRING_CRLF =
     request_line (req_method m) (req_resource m) (req_query_string m) (unat (msg_version_major m)) (unat (msg_version_minor m))"
  by (simp add: update_first_line_def get_version_string_def request_line_def query_part_def)

lemma received_request:
  assumes "m_is_request r"
  shows "req_method (received r n) = m_method r" "req_resource (received r n) = m_resource r"
    "req_query_string (received r n) = m_query_string r"
    "msg_version_major (received r n) = msg_version_major n" "msg_version_minor (received r n) = msg_version_minor n"
    "msg_headers (received r n) = msg_headers n" "msg_is_request (received r n) = msg_is_request n"
  using assms by (simp_all add: received_def update_message_with_header_data_def first_line_setters Let_def)

text \<open>Finishing a request parses form data, which changes the query parameters only.\<close>

lemma parse_request_end:
  assumes "parse_loop p m 0 = Inr (k, true_value, None, q, n)" and "mark_missing m = m"
    and "\<not> starts_with (get_header n HEADER_CONTENT_TYPE) CONTENT_TYPE_MULTIPART_FORM_DATA"
  shows "\<exists>st d. parse p m = Inr (true_value, None, q\<lparr>m_message_parse_state := PARSE_END, m_bytes_last_read := k\<rparr>,
     n\<lparr>msg_is_valid := True, msg_status := st, req_query_params := d\<rparr>)"
proof -
  let ?q = "q\<lparr>m_message_parse_state := PARSE_END\<rparr>"
  have "\<exists>n'. finish ?q n = Inr n'"
    using assms(3) by (auto simp: finish_def finish_state_def finish_form_data_def compute_msg_status_def get_header_def Let_def)
  then obtain n' where "finish ?q n = Inr n'" ..
  then obtain st d where "finish ?q n = Inr (n\<lparr>msg_is_valid := True, msg_status := st, req_query_params := d\<rparr>)"
    using finish_end [of ?q n n'] by auto
  then show ?thesis using assms(1,2) by (auto simp: parse_alt parse_end_def)
qed

lemma get_header_value_all:
  assumes "list_all P (dict_values d k)" and "mset (dict_values (msg_headers m) k) = mset (dict_values d k)" and "P []"
  shows "P (get_header m k)"
proof -
  have "set (dict_values (msg_headers m) k) = set (dict_values d k)" using assms(2) by (rule mset_eq_setD)
  then show ?thesis
    using assms(1,3) by (auto simp: get_header_def get_value_values list_all_iff split: list.splits)
qed

lemma request_roundtrip_lemma:
  assumes "sendable_request limit m" and "send_buffers keep_alive False m = Some (bufs, m')"
    and "list_all header_ok (msg_headers m')"
    and "list_all (\<lambda>v. \<not> starts_with v CONTENT_TYPE_MULTIPART_FORM_DATA) (dict_values (msg_headers m') HEADER_CONTENT_TYPE)"
  shows "\<exists>q n. parse (set_read_buffer (concat bufs @ rest) (new_parser True limit)) (empty_message True) =
      Inr (true_value, None, q, n) \<and> m_read q = rest \<and> content_bytes n = content_bytes m \<and>
    req_method n = req_method m \<and> req_resource n = req_resource m \<and> req_query_string n = req_query_string m \<and>
    msg_version_major n = msg_version_major m \<and> msg_version_minor n = msg_version_minor m \<and>
    (\<forall>k. mset (dict_values (msg_headers n) k) = mset (dict_values (msg_headers m') k))"
proof -
  let ?p = "set_read_buffer (concat bufs @ rest) (new_parser True limit)" and ?ma = "empty_message True"
  let ?h = "?p\<lparr>m_message_parse_state := PARSE_HEADERS\<rparr>"
  let ?line = "request_line (req_method m) (req_resource m) (req_query_string m) (unat (msg_version_major m)) (unat (msg_version_minor m))"
  let ?nv = "with_version (msg_version_major m) (msg_version_minor m) ?ma"
  let ?n = "add_headers (msg_headers m') ?nv"
  note ok = assms(1) [unfolded sendable_request_def]
  have fresh: "first_line_fresh m" and req: "msg_is_request m" using ok by simp_all
  note sent = send_buffers_text [OF assms(2) fresh]
  have t: "m_read ?h = ?line @ header_lines (msg_headers m') @ STRING_CRLF @ (content_bytes m @ rest)"
    using sent(1) first_line_request [OF req] by (simp add: set_read_buffer_def)
  let ?qa = "(?h\<lparr>m_bytes_last_read := 0\<rparr>)\<lparr>m_method := req_method m, m_resource := req_resource m,
      m_query_string := req_query_string m, m_headers_parse_state := PARSE_HEADER_START\<rparr>"
  have run: "runs (?h\<lparr>m_bytes_last_read := 0\<rparr>) ?ma ?line ?qa ?nv"
    using runs_request_line [of "?h\<lparr>m_bytes_last_read := 0\<rparr>" "unat (msg_version_major m)" "req_method m" "req_resource m"
        "req_query_string m" ?ma "unat (msg_version_minor m)"] ok
    by (simp add: set_read_buffer_def new_parser_def)
  obtain r where r: "parse_headers ?h ?ma = (true_value, None, r, ?n)" "m_read r = content_bytes m @ rest"
      "config r = config ?h" "m_message_parse_state r = PARSE_HEADERS"
      "m_method r = req_method m" "m_resource r = req_resource m" "m_query_string r = req_query_string m"
    by (rule parse_headers_block [OF t run]) (use assms(3) ok in \<open>simp_all add: set_read_buffer_def new_parser_def\<close>)
  have rr: "m_is_request r" using r(3) by (simp add: config_def set_read_buffer_def new_parser_def)
  have empty: "msg_headers ?nv = []" by (simp add: empty_message_def)
  have vals: "mset (dict_values (msg_headers ?n) k) = mset (dict_values (msg_headers m') k)" for k
    using add_headers_values [of ?nv "msg_headers m'"] empty by (simp add: grouped_def folded_keys_def dict_values_def)
  have fr: "has_header ?n HEADER_CONTENT_LENGTH" "get_header ?n HEADER_CONTENT_LENGTH = to_string (msg_content_length m)"
      "\<not> has_header ?n HEADER_TRANSFER_ENCODING"
    using added_framing [OF empty] prepared_values [of m keep_alive] ok sent(3) by simp_all
  have len: "stoul (get_header ?n HEADER_CONTENT_LENGTH) = Some (length (content_bytes m))"
    using fr(2) sent(2) ok stoul_to_string by simp
  have impl: "\<not> is_content_length_implied (received r ?n)"
    using received_request(7) [OF rr] by (simp add: is_content_length_implied_def add_headers_def empty_message_def)
  obtain k q buf where l: "parse_loop ?p ?ma 0 = Inr (k, true_value, None, q,
      (received r ?n)\<lparr>msg_content_length := length (content_bytes m), msg_content_buf := buf\<rparr>)"
    and b: "content_bytes ((received r ?n)\<lparr>msg_content_length := length (content_bytes m), msg_content_buf := buf\<rparr>) = content_bytes m"
    and q: "m_read q = rest" "config q = config ?p"
    using parse_loop_message [OF _ _ _ r(1) r(4) _ r(2) fr(3) impl fr(1) len] r(3) ok sent(2)
    by (auto simp: set_read_buffer_def new_parser_def config_def)
  have ct: "\<not> starts_with (get_header ?n HEADER_CONTENT_TYPE) CONTENT_TYPE_MULTIPART_FORM_DATA"
    using get_header_value_all [where d = "msg_headers m'" and k = HEADER_CONTENT_TYPE and m = ?n and
        P = "\<lambda>v. \<not> starts_with v CONTENT_TYPE_MULTIPART_FORM_DATA"]
      vals assms(4) by (simp add: starts_with_def CONTENT_TYPE_MULTIPART_FORM_DATA_def)
  have mm: "mark_missing ?ma = ?ma" by (simp add: mark_missing_def empty_message_def)
  from parse_request_end [OF l mm] obtain st d where
    "parse ?p ?ma = Inr (true_value, None, q\<lparr>m_message_parse_state := PARSE_END, m_bytes_last_read := k\<rparr>,
     (received r ?n)\<lparr>msg_content_length := length (content_bytes m), msg_content_buf := buf, msg_is_valid := True, msg_status := st,
       req_query_params := d\<rparr>)"
    using ct received_request(6) [OF rr] by (auto simp: get_header_def)
  then show ?thesis
    using q(1) b received_request [OF rr, of ?n] r(5-7) vals by (auto simp: content_bytes_def add_headers_def)
qed

section \<open>Properties\<close>

text \<open>C5: Response round trip. The bytes \<^verbatim>\<open>send\<close> writes for a response with content length, followed by
  anything, are parsed by a response parser in one call: it returns \<^verbatim>\<open>true\<close> without error, the parsed
  response has the status code, status message, version, headers and content of the sent one, and what
  follows is left unread. The response may have any well-formed headers and any content up to the
  limit of the parser; its status must not imply an empty body.\<close>

theorem response_roundtrip:
  assumes "sendable_response limit request_method m" and "send_buffers keep_alive False m = Some (bufs, m')"
    and "list_all header_ok (msg_headers m')"
  shows "\<exists>q n. parse (set_read_buffer (concat bufs @ rest) (new_parser False limit)) (new_response request_method) =
      Inr (true_value, None, q, n) \<and> m_read q = rest \<and> content_bytes n = content_bytes m \<and>
    resp_status_code n = resp_status_code m \<and> resp_status_message n = resp_status_message m \<and>
    msg_version_major n = msg_version_major m \<and> msg_version_minor n = msg_version_minor m \<and>
    (\<forall>k. mset (dict_values (msg_headers n) k) = mset (dict_values (msg_headers m') k))"
  using response_roundtrip_lemma [OF assms] .

theorem response_roundtrip_witness:
  "\<exists>bufs m' q n. send_buffers True False (set_content ''hi'' (new_response ''GET'')) = Some (bufs, m') \<and>
     parse (set_read_buffer (concat bufs @ ''rest'') (new_parser False 100)) (new_response ''GET'') =
       Inr (true_value, None, q, n) \<and> m_read q = ''rest'' \<and> content_bytes n = ''hi''"
proof -
  let ?m = "set_content ''hi'' (new_response ''GET'')"
  have s: "sendable_response 100 ''GET'' ?m" by code_simp
  have "case send_buffers True False ?m of None \<Rightarrow> False | Some (bufs, m') \<Rightarrow> list_all header_ok (msg_headers m')"
    by code_simp
  then obtain bufs m' where b: "send_buffers True False ?m = Some (bufs, m')" "list_all header_ok (msg_headers m')"
    by (auto split: option.splits)
  from response_roundtrip [OF s b, of "''rest''"] b(1) show ?thesis by (auto simp: set_content_bytes)
qed

text \<open>C6: Request round trip. The bytes \<^verbatim>\<open>send\<close> writes for a request, followed by anything, are parsed by
  a request parser in one call: it returns \<^verbatim>\<open>true\<close> without error, the parsed request has the method,
  resource, query string, version, headers and content of the sent one, and what follows is left unread.
  The request may have any well-formed headers and any content up to the limit of the parser, except
  multipart form data.\<close>

theorem request_roundtrip:
  assumes "sendable_request limit m" and "send_buffers keep_alive False m = Some (bufs, m')"
    and "list_all header_ok (msg_headers m')"
    and "list_all (\<lambda>v. \<not> starts_with v CONTENT_TYPE_MULTIPART_FORM_DATA) (dict_values (msg_headers m') HEADER_CONTENT_TYPE)"
  shows "\<exists>q n. parse (set_read_buffer (concat bufs @ rest) (new_parser True limit)) (empty_message True) =
      Inr (true_value, None, q, n) \<and> m_read q = rest \<and> content_bytes n = content_bytes m \<and>
    req_method n = req_method m \<and> req_resource n = req_resource m \<and> req_query_string n = req_query_string m \<and>
    msg_version_major n = msg_version_major m \<and> msg_version_minor n = msg_version_minor m \<and>
    (\<forall>k. mset (dict_values (msg_headers n) k) = mset (dict_values (msg_headers m') k))"
  using request_roundtrip_lemma [OF assms] .

theorem request_roundtrip_witness:
  "\<exists>bufs m' q n. send_buffers True False (set_query_string ''a=b'' (set_content ''hi'' (new_request ''/x''))) = Some (bufs, m') \<and>
     parse (set_read_buffer (concat bufs @ ''GET'') (new_parser True 100)) (empty_message True) =
       Inr (true_value, None, q, n) \<and> m_read q = ''GET'' \<and> req_resource n = ''/x'' \<and> content_bytes n = ''hi''"
proof -
  let ?m = "set_query_string ''a=b'' (set_content ''hi'' (new_request ''/x''))"
  have s: "sendable_request 100 ?m" by code_simp
  have "case send_buffers True False ?m of None \<Rightarrow> False | Some (bufs, m') \<Rightarrow> list_all header_ok (msg_headers m') \<and>
      list_all (\<lambda>v. \<not> starts_with v CONTENT_TYPE_MULTIPART_FORM_DATA) (dict_values (msg_headers m') HEADER_CONTENT_TYPE)"
    by code_simp
  then obtain bufs m' where b: "send_buffers True False ?m = Some (bufs, m')" "list_all header_ok (msg_headers m')"
      "list_all (\<lambda>v. \<not> starts_with v CONTENT_TYPE_MULTIPART_FORM_DATA) (dict_values (msg_headers m') HEADER_CONTENT_TYPE)"
    by (auto split: option.splits)
  have "content_bytes ?m = ''hi''" "req_resource ?m = ''/x''" by code_simp+
  with request_roundtrip [OF s b, of "''GET''"] b(1) show ?thesis by auto
qed

end
