(* ===== verification/Tcp_Connection.thy ===== *)
theory Tcp_Connection
  imports Pion_Prelude
begin

text \<open>
  TCP connections (\<^verbatim>\<open>include/pion/tcp/connection.hpp\<close>): the state \<^verbatim>\<open>tcp::connection\<close> keeps beside the
  socket of asio. The socket is reduced to what the class asks of it: whether it is open, the address of
  the peer, and the buffers handed to \<^verbatim>\<open>async_write\<close>, in order. The saved read position, a pair of
  pointers into the read buffer, is the text between them; \<^const>\<open>None\<close> is the pair of null pointers. The
  finished handler is a flag with the number of calls made, and so is \<^verbatim>\<open>cancel\<close>. The handlers of asynchronous operations are
  the events of the components that start them.
\<close>

datatype lifecycle_type = LIFECYCLE_CLOSE | LIFECYCLE_KEEPALIVE | LIFECYCLE_PIPELINED

definition READ_BUFFER_SIZE :: nat where "READ_BUFFER_SIZE = 8192"

record connection =
  c_is_open :: bool
  c_remote_ip :: nat
  c_written :: "string list"
  m_ssl_flag :: bool
  m_read_position :: "string option"
  m_lifecycle :: lifecycle_type
  m_finished_handler :: bool
  c_finished :: nat
  c_cancelled :: nat

text \<open>The constructors; a new connection has no socket yet and is closed after one message.\<close>

definition new_connection :: "bool \<Rightarrow> bool \<Rightarrow> connection" where
  "new_connection ssl_flag finished_handler =
     \<lparr> c_is_open = False, c_remote_ip = 0, c_written = [], m_ssl_flag = ssl_flag, m_read_position = None,
       m_lifecycle = LIFECYCLE_CLOSE, m_finished_handler = finished_handler, c_finished = 0,
       c_cancelled = 0 \<rparr>"

definition is_open :: "connection \<Rightarrow> bool" where
  "is_open c = c_is_open c"

definition close_connection :: "connection \<Rightarrow> connection" where
  "close_connection c = (if is_open c then c\<lparr>c_is_open := False\<rparr> else c)"

text \<open>\<^verbatim>\<open>cancel\<close>: the pending operations of the socket will end with an error; the calls are counted.\<close>

definition cancel_connection :: "connection \<Rightarrow> connection" where
  "cancel_connection c = c\<lparr>c_cancelled := c_cancelled c + 1\<rparr>"

text \<open>\<^verbatim>\<open>async_accept\<close> and a successful \<^verbatim>\<open>connect\<close>: the socket is open, with its peer.\<close>

definition open_connection :: "nat \<Rightarrow> connection \<Rightarrow> connection" where
  "open_connection ip c = c\<lparr>c_is_open := True, c_remote_ip := ip\<rparr>"

text \<open>
  \<^verbatim>\<open>connect\<close> with a host name: the endpoints of the resolver are tried in order, until one connects; the
  socket of a failed attempt is closed. \<open>try_connect\<close> stands for the connect operation of asio, which
  gives an error code or none.
\<close>

fun connect_loop :: "('e \<Rightarrow> 'err option) \<Rightarrow> ('e \<Rightarrow> nat) \<Rightarrow> 'err \<Rightarrow> 'e list \<Rightarrow> connection \<Rightarrow> 'err option \<times> connection" where
  "connect_loop try_connect ip ec [] c = (Some ec, c)"
| "connect_loop try_connect ip ec (ep # eps) c =
     (case try_connect ep of
        None \<Rightarrow> (None, open_connection (ip ep) c)
      | Some ec' \<Rightarrow> connect_loop try_connect ip ec' eps (close_connection (open_connection (ip ep) c)))"

definition connect_host ::
  "('e \<Rightarrow> 'err option) \<Rightarrow> ('e \<Rightarrow> nat) \<Rightarrow> 'err \<Rightarrow> 'err + 'e list \<Rightarrow> connection \<Rightarrow> 'err option \<times> connection" where
  "connect_host try_connect ip host_not_found resolved c =
     (case resolved of
        Inl ec \<Rightarrow> (Some ec, c)
      | Inr endpoints \<Rightarrow> connect_loop try_connect ip host_not_found endpoints c)"

definition async_write :: "string list \<Rightarrow> connection \<Rightarrow> connection" where
  "async_write buffers c = c\<lparr>c_written := c_written c @ buffers\<rparr>"

definition finish_connection :: "connection \<Rightarrow> connection" where
  "finish_connection c = (if m_finished_handler c then c\<lparr>c_finished := c_finished c + 1\<rparr> else c)"

definition set_lifecycle :: "lifecycle_type \<Rightarrow> connection \<Rightarrow> connection" where
  "set_lifecycle t c = c\<lparr>m_lifecycle := t\<rparr>"

definition get_keep_alive :: "connection \<Rightarrow> bool" where
  "get_keep_alive c = (m_lifecycle c \<noteq> LIFECYCLE_CLOSE)"

definition get_pipelined :: "connection \<Rightarrow> bool" where
  "get_pipelined c = (m_lifecycle c = LIFECYCLE_PIPELINED)"

definition save_read_pos :: "string option \<Rightarrow> connection \<Rightarrow> connection" where
  "save_read_pos pos c = c\<lparr>m_read_position := pos\<rparr>"

definition load_read_pos :: "connection \<Rightarrow> string option" where
  "load_read_pos c = m_read_position c"

lemmas connection_defs = is_open_def close_connection_def open_connection_def async_write_def
  finish_connection_def set_lifecycle_def get_keep_alive_def get_pipelined_def save_read_pos_def load_read_pos_def

section \<open>Lemmas\<close>

lemma connect_loop_result:
  "(fst (connect_loop try_connect ip ec eps c) = None \<longleftrightarrow> (\<exists>ep \<in> set eps. try_connect ep = None)) \<and>
   (fst (connect_loop try_connect ip ec eps c) = None \<longrightarrow> is_open (snd (connect_loop try_connect ip ec eps c))) \<and>
   (fst (connect_loop try_connect ip ec eps c) \<noteq> None \<longrightarrow> \<not> is_open c \<longrightarrow>
      \<not> is_open (snd (connect_loop try_connect ip ec eps c)))"
proof (induction eps arbitrary: ec c)
  case (Cons ep eps)
  show ?case
  proof (cases "try_connect ep")
    case (Some e)
    then show ?thesis using Cons.IH [of e "close_connection (open_connection (ip ep) c)"]
      by (auto simp: connection_defs)
  qed (auto simp: connection_defs)
qed simp

section \<open>Properties\<close>

text \<open>Connecting to a host succeeds exactly when the name resolves and one of its endpoints accepts; the
  socket is open after a success and closed after a failure.\<close>

theorem connect_host_result:
  assumes "\<not> is_open c"
  shows "(fst (connect_host try_connect ip host_not_found resolved c) = None \<longleftrightarrow>
       (\<exists>eps. resolved = Inr eps \<and> (\<exists>ep \<in> set eps. try_connect ep = None))) \<and>
    is_open (snd (connect_host try_connect ip host_not_found resolved c)) =
      (fst (connect_host try_connect ip host_not_found resolved c) = None)"
  using assms connect_loop_result [of try_connect ip host_not_found _ c]
  by (cases resolved) (auto simp: connect_host_def)

theorem connect_host_result_witness:
  "is_open (snd (connect_host (\<lambda>port :: nat. if port = 80 then None else Some ''refused'') (\<lambda>p. p) ''not found''
     (Inr [443, 80]) (new_connection False False)))"
proof -
  have c: "\<not> is_open (new_connection False False)" by (simp add: is_open_def new_connection_def)
  show ?thesis
    using connect_host_result [OF c, of "\<lambda>port :: nat. if port = 80 then None else Some ''refused''" "\<lambda>p. p" "''not found''" "Inr [443, 80]"]
    by auto
qed

end
