(* ===== verification/Http_Writer.thy ===== *)
theory Http_Writer
  imports Http_Message Tcp_Connection
begin

text \<open>
  The HTTP writers (\<^verbatim>\<open>include/pion/http/writer.hpp\<close>, \<^verbatim>\<open>src/http_writer.cpp\<close>,
  \<^verbatim>\<open>request_writer.hpp\<close>, \<^verbatim>\<open>response_writer.hpp\<close>). The record \<open>writer\<close> has the members of the base
  class, the message the derived class sends, and the connection. A buffer is the text it points to; the
  caches own what the buffers point to. The finished handler is the log of the results it was called
  with; \<^const>\<open>None\<close> is success.
\<close>

datatype write_error = Connection_reset | Write_failed

record writer =
  m_tcp_conn :: connection
  m_content_buffers :: "string list"
  m_binary_cache :: "string list"
  m_text_cache :: "string list"
  m_content_stream :: string
  m_content_length :: nat
  m_stream_is_empty :: bool
  m_client_supports_chunks :: bool
  m_sending_chunks :: bool
  m_sent_headers :: bool
  m_finished_log :: "write_error option list"
  m_http_message :: http_message

definition new_writer :: "connection \<Rightarrow> http_message \<Rightarrow> writer" where
  "new_writer tcp_conn message =
     \<lparr> m_tcp_conn = tcp_conn, m_content_buffers = [], m_binary_cache = [], m_text_cache = [],
       m_content_stream = [], m_content_length = 0, m_stream_is_empty = True,
       m_client_supports_chunks = True, m_sending_chunks = False, m_sent_headers = False,
       m_finished_log = [], m_http_message = message \<rparr>"

definition finished_writing :: "write_error option \<Rightarrow> writer \<Rightarrow> writer" where
  "finished_writing ec w = w\<lparr>m_finished_log := m_finished_log w @ [ec]\<rparr>"

definition writer_clear :: "writer \<Rightarrow> writer" where
  "writer_clear w = w\<lparr> m_content_buffers := [], m_binary_cache := [], m_text_cache := [],
     m_content_stream := [], m_stream_is_empty := True, m_content_length := 0 \<rparr>"

text \<open>The text a value prints as is appended to the stream.\<close>

definition write_text :: "string \<Rightarrow> writer \<Rightarrow> writer" where
  "write_text data w = w\<lparr>m_content_stream := m_content_stream w @ data, m_stream_is_empty := False\<rparr>"

definition flush_content_stream :: "writer \<Rightarrow> writer" where
  "flush_content_stream w =
     (if \<not> m_stream_is_empty w then
        (let string_to_add = m_content_stream w;
             w = (if string_to_add \<noteq> [] then
                    w\<lparr>m_content_stream := [], m_content_length := szadd (m_content_length w) (length string_to_add),
                      m_text_cache := m_text_cache w @ [string_to_add],
                      m_content_buffers := m_content_buffers w @ [string_to_add]\<rparr>
                  else w)
         in w\<lparr>m_stream_is_empty := True\<rparr>)
      else w)"

definition write_binary :: "string \<Rightarrow> writer \<Rightarrow> writer" where
  "write_binary data w =
     (if length data \<noteq> 0 then
        (let w = flush_content_stream w
         in w\<lparr>m_binary_cache := m_binary_cache w @ [data], m_content_buffers := m_content_buffers w @ [data],
              m_content_length := szadd (m_content_length w) (length data)\<rparr>)
      else w)"

definition write_no_copy :: "string \<Rightarrow> writer \<Rightarrow> writer" where
  "write_no_copy data w =
     (if data \<noteq> [] then
        (let w = flush_content_stream w
         in w\<lparr>m_content_buffers := m_content_buffers w @ [data],
              m_content_length := szadd (m_content_length w) (length data)\<rparr>)
      else w)"

section \<open>The derived classes\<close>

text \<open>
  The content of the message is taken over when there is some and it does not start with a null byte.
  \<^const>\<open>None\<close> is a buffer that reaches behind the content of the message.
\<close>

definition take_content :: "http_message \<Rightarrow> writer \<Rightarrow> writer option" where
  "take_content m w =
     (if 0 < msg_content_length m \<and> hd (content_bytes m) \<noteq> NUL
      then (if content_readable m then Some (write_no_copy (content_bytes m) w) else None)
      else Some w)"

definition request_writer :: "connection \<Rightarrow> http_message \<Rightarrow> writer option" where
  "request_writer tcp_conn request = take_content request (new_writer tcp_conn request)"

definition response_writer :: "connection \<Rightarrow> http_message \<Rightarrow> writer option" where
  "response_writer tcp_conn response =
     take_content response
       ((new_writer tcp_conn response)\<lparr>m_client_supports_chunks := msg_chunks_supported response\<rparr>)"

definition response_writer_for :: "connection \<Rightarrow> http_message \<Rightarrow> writer" where
  "response_writer_for tcp_conn request =
     (let response = response_for request
      in (new_writer tcp_conn response)\<lparr>m_client_supports_chunks := msg_chunks_supported response\<rparr>)"

definition writer_prepare_buffers :: "writer \<Rightarrow> string list \<times> writer" where
  "writer_prepare_buffers w =
     (let m = (if 0 < m_content_length w then set_content_length (m_content_length w) (m_http_message w)
               else m_http_message w);
          (buffers, m) = prepare_buffers_for_send (get_keep_alive (m_tcp_conn w)) (m_sending_chunks w) m
      in (buffers, w\<lparr>m_http_message := m\<rparr>))"

section \<open>Sending\<close>

definition prepare_write_buffers :: "bool \<Rightarrow> writer \<Rightarrow> string list \<times> writer" where
  "prepare_write_buffers send_final_chunk w =
     (let (write_buffers, w) =
            (if \<not> m_sent_headers w
             then (let (bs, w) = writer_prepare_buffers w in (bs, w\<lparr>m_sent_headers := True\<rparr>))
             else ([], w));
          chunking = (m_client_supports_chunks w \<and> m_sending_chunks w);
          (write_buffers, w) =
            (if 0 < m_content_length w then
               (if chunking then
                  (let cast_buf = to_hex (m_content_length w)
                   in (write_buffers @ [cast_buf, STRING_CRLF] @ m_content_buffers w @ [STRING_CRLF],
                       w\<lparr>m_text_cache := m_text_cache w @ [cast_buf]\<rparr>))
                else (write_buffers @ m_content_buffers w, w))
             else (write_buffers, w))
      in if send_final_chunk \<and> chunking
         then (write_buffers @ [''0'', STRING_CRLF, STRING_CRLF], w\<lparr>m_text_cache := m_text_cache w @ [''0'']\<rparr>)
         else (write_buffers, w))"

definition send_more_data :: "bool \<Rightarrow> writer \<Rightarrow> writer" where
  "send_more_data send_final_chunk w =
     (if is_open (m_tcp_conn w) then
        (let w = flush_content_stream w;
             (write_buffers, w) = prepare_write_buffers send_final_chunk w
         in w\<lparr>m_tcp_conn := async_write write_buffers (m_tcp_conn w)\<rparr>)
      else finished_writing (Some Connection_reset) w)"

definition send :: "writer \<Rightarrow> writer" where
  "send w = send_more_data False w"

definition send_chunk :: "writer \<Rightarrow> writer" where
  "send_chunk w =
     (let w = w\<lparr>m_sending_chunks := True\<rparr>;
          w = (if \<not> m_client_supports_chunks w
               then w\<lparr>m_tcp_conn := set_lifecycle LIFECYCLE_CLOSE (m_tcp_conn w)\<rparr> else w)
      in send_more_data False w)"

definition send_final_chunk :: "writer \<Rightarrow> writer" where
  "send_final_chunk w = send_more_data True (w\<lparr>m_sending_chunks := True\<rparr>)"

text \<open>The completion of a write: the request writer clears its content after a chunk.\<close>

definition request_handle_write :: "write_error option \<Rightarrow> writer \<Rightarrow> writer" where
  "request_handle_write ec w =
     finished_writing ec (if ec = None \<and> m_sending_chunks w then writer_clear w else w)"

definition response_handle_write :: "write_error option \<Rightarrow> writer \<Rightarrow> writer" where
  "response_handle_write ec w = finished_writing ec w"

section \<open>The payload\<close>

text \<open>
  What a client of the writers relies on: everything written is kept, in the order of the calls, until
  the writer is cleared.
\<close>

locale payload_sink =
  fixes inv :: "'w \<Rightarrow> bool" and content :: "'w \<Rightarrow> string"
    and put_op :: "'o \<Rightarrow> 'w \<Rightarrow> 'w" and data_of :: "'o \<Rightarrow> string" and clear_op :: "'w \<Rightarrow> 'w"
  assumes inv_put: "inv w \<Longrightarrow> inv (put_op x w)"
    and content_put: "inv w \<Longrightarrow> content (put_op x w) = content w @ data_of x"
    and inv_clear: "inv (clear_op w)"
    and content_clear: "content (clear_op w) = []"
begin

lemma content_puts: "inv w \<Longrightarrow> inv (foldl (\<lambda>w x. put_op x w) w xs) \<and>
    content (foldl (\<lambda>w x. put_op x w) w xs) = content w @ concat (map data_of xs)"
proof (induction xs arbitrary: w)
  case (Cons x xs)
  then show ?case using Cons.IH [of "put_op x w"] inv_put content_put by simp
qed simp

lemma content_after_clear: "content (foldl (\<lambda>w x. put_op x w) (clear_op w) xs) = concat (map data_of xs)"
  using content_puts [of "clear_op w" xs] inv_clear content_clear by simp

end

datatype write_call = Write_text string | Write_binary string | Write_no_copy string

fun write_call_data :: "write_call \<Rightarrow> string" where
  "write_call_data (Write_text d) = d"
| "write_call_data (Write_binary d) = d"
| "write_call_data (Write_no_copy d) = d"

fun do_write :: "write_call \<Rightarrow> writer \<Rightarrow> writer" where
  "do_write (Write_text d) w = write_text d w"
| "do_write (Write_binary d) w = write_binary d w"
| "do_write (Write_no_copy d) w = write_no_copy d w"

definition writer_ok :: "writer \<Rightarrow> bool" where
  "writer_ok w =
     ((m_stream_is_empty w \<longrightarrow> m_content_stream w = []) \<and>
      m_content_length w = length (concat (m_content_buffers w)) mod 2 ^ 64)"

definition writer_content :: "writer \<Rightarrow> string" where
  "writer_content w = concat (m_content_buffers w) @ m_content_stream w"

lemma szadd_mod: "szadd (a mod 18446744073709551616) b = (a + b) mod 18446744073709551616"
  by (simp add: szadd_def mod_simps)

lemma flush_writer:
  assumes "writer_ok w"
  shows "writer_ok (flush_content_stream w)" and "concat (m_content_buffers (flush_content_stream w)) = writer_content w"
    and "m_content_stream (flush_content_stream w) = []"
  using assms by (auto simp: flush_content_stream_def writer_ok_def writer_content_def szadd_mod ac_simps Let_def)

lemma flush_frame [simp]:
  "m_tcp_conn (flush_content_stream w) = m_tcp_conn w" "m_sending_chunks (flush_content_stream w) = m_sending_chunks w"
  "m_client_supports_chunks (flush_content_stream w) = m_client_supports_chunks w"
  "m_sent_headers (flush_content_stream w) = m_sent_headers w"
  "m_http_message (flush_content_stream w) = m_http_message w"
  "m_finished_log (flush_content_stream w) = m_finished_log w"
  by (simp_all add: flush_content_stream_def Let_def)

lemma do_write_ok:
  assumes "writer_ok w" shows "writer_ok (do_write x w) \<and> writer_content (do_write x w) = writer_content w @ write_call_data x"
proof (cases x)
  case (Write_text d)
  then show ?thesis using assms by (simp add: write_text_def writer_ok_def writer_content_def)
next
  case (Write_binary d)
  show ?thesis
    using flush_writer [OF assms] unfolding Write_binary
    by (auto simp: write_binary_def writer_ok_def writer_content_def szadd_mod ac_simps Let_def assms [unfolded writer_ok_def])
next
  case (Write_no_copy d)
  show ?thesis
    using flush_writer [OF assms] unfolding Write_no_copy
    by (auto simp: write_no_copy_def writer_ok_def writer_content_def szadd_mod ac_simps Let_def assms [unfolded writer_ok_def])
qed

lemma writer_ok_clear: "writer_ok (writer_clear w)" "writer_content (writer_clear w) = []"
  by (simp_all add: writer_clear_def writer_ok_def writer_content_def)

interpretation payload: payload_sink writer_ok writer_content do_write write_call_data writer_clear
  using do_write_ok writer_ok_clear by unfold_locales blast+

lemma do_write_frame [simp]:
  "m_tcp_conn (do_write x w) = m_tcp_conn w" "m_sending_chunks (do_write x w) = m_sending_chunks w"
  "m_client_supports_chunks (do_write x w) = m_client_supports_chunks w"
  "m_sent_headers (do_write x w) = m_sent_headers w" "m_http_message (do_write x w) = m_http_message w"
  by (cases x; simp add: write_text_def write_binary_def write_no_copy_def Let_def)+

section \<open>What is sent\<close>

text \<open>A chunk as the writer sends it, and the last one.\<close>

definition chunk_text :: "string \<Rightarrow> string" where
  "chunk_text d = to_hex (length d) @ STRING_CRLF @ d @ STRING_CRLF"

definition last_chunk_text :: string where
  "last_chunk_text = ''0'' @ STRING_CRLF @ STRING_CRLF"

definition body_text :: "bool \<Rightarrow> bool \<Rightarrow> string \<Rightarrow> string" where
  "body_text chunking final d =
     (if d = [] then [] else if chunking then chunk_text d else d) @
     (if final \<and> chunking then last_chunk_text else [])"

lemma prepare_write_sent:
  assumes "writer_ok w" and "m_content_stream w = []" and "m_sent_headers w"
    and "length (concat (m_content_buffers w)) < 2 ^ 64"
  shows "concat (fst (prepare_write_buffers final w)) =
      body_text (m_client_supports_chunks w \<and> m_sending_chunks w) final (concat (m_content_buffers w))"
    and "\<exists>cache. snd (prepare_write_buffers final w) = w\<lparr>m_text_cache := cache\<rparr>"
proof -
  have len: "m_content_length w = length (concat (m_content_buffers w))"
    using assms(1,4) by (simp add: writer_ok_def)
  then have z: "0 < m_content_length w \<longleftrightarrow> concat (m_content_buffers w) \<noteq> []" by simp
  show "concat (fst (prepare_write_buffers final w)) =
      body_text (m_client_supports_chunks w \<and> m_sending_chunks w) final (concat (m_content_buffers w))"
    using assms(3) z len
    by (auto simp: prepare_write_buffers_def body_text_def chunk_text_def last_chunk_text_def Let_def)
  have "w = w\<lparr>m_text_cache := m_text_cache w\<rparr>" by simp
  then have "\<exists>cache. w = w\<lparr>m_text_cache := cache\<rparr>" by blast
  then show "\<exists>cache. snd (prepare_write_buffers final w) = w\<lparr>m_text_cache := cache\<rparr>"
    using assms(3) by (auto simp: prepare_write_buffers_def Let_def)
qed

text \<open>One send on an open connection after the headers: exactly the body text goes to the connection.\<close>

lemma send_more_data_sent:
  assumes "writer_ok w" and "m_sent_headers w" and "is_open (m_tcp_conn w)" and "length (writer_content w) < 2 ^ 64"
  shows "concat (c_written (m_tcp_conn (send_more_data final w))) = concat (c_written (m_tcp_conn w)) @
      body_text (m_client_supports_chunks w \<and> m_sending_chunks w) final (writer_content w)"
    and "m_sent_headers (send_more_data final w)" and "is_open (m_tcp_conn (send_more_data final w))"
    and "m_client_supports_chunks (send_more_data final w) = m_client_supports_chunks w"
    and "m_sending_chunks (send_more_data final w) = m_sending_chunks w"
proof -
  let ?f = "flush_content_stream w"
  obtain bs v where p: "prepare_write_buffers final ?f = (bs, v)" by fastforce
  note f = flush_writer [OF assms(1)]
  obtain cache where v: "v = ?f\<lparr>m_text_cache := cache\<rparr>"
    using prepare_write_sent(2) [OF f(1,3), of final] assms(2,4) f(2) p by auto
  have b: "concat bs = body_text (m_client_supports_chunks w \<and> m_sending_chunks w) final (writer_content w)"
    using prepare_write_sent(1) [OF f(1,3), of final] assms(2,4) f(2) p by simp
  have s: "send_more_data final w = v\<lparr>m_tcp_conn := async_write bs (m_tcp_conn v)\<rparr>"
    using assms(3) p by (simp add: send_more_data_def)
  show "concat (c_written (m_tcp_conn (send_more_data final w))) = concat (c_written (m_tcp_conn w)) @
      body_text (m_client_supports_chunks w \<and> m_sending_chunks w) final (writer_content w)"
      "m_sent_headers (send_more_data final w)" "is_open (m_tcp_conn (send_more_data final w))"
      "m_client_supports_chunks (send_more_data final w) = m_client_supports_chunks w"
      "m_sending_chunks (send_more_data final w) = m_sending_chunks w"
    using assms(2,3) by (simp_all add: s v b async_write_def is_open_def)
qed

text \<open>The first send puts the headers in front and is otherwise the same.\<close>

definition headers_text :: "writer \<Rightarrow> string" where
  "headers_text w = concat (fst (writer_prepare_buffers w))"

lemma prepare_write_first:
  assumes "\<not> m_sent_headers w"
  shows "prepare_write_buffers final w =
     (let (bs, v) = writer_prepare_buffers w; (cs, u) = prepare_write_buffers final (v\<lparr>m_sent_headers := True\<rparr>) in (bs @ cs, u))"
  using assms by (auto simp: prepare_write_buffers_def Let_def split: prod.splits)

lemma writer_prepare_frame:
  assumes "writer_prepare_buffers w = (bs, v)" shows "\<exists>m. v = w\<lparr>m_http_message := m\<rparr>"
  using assms by (auto simp: writer_prepare_buffers_def Let_def split: prod.splits)

lemma send_more_data_first:
  assumes "\<not> m_sent_headers w" and "is_open (m_tcp_conn w)"
  shows "\<exists>m. send_more_data final w =
     send_more_data final (w\<lparr>m_sent_headers := True, m_http_message := m,
       m_tcp_conn := async_write (fst (writer_prepare_buffers (flush_content_stream w))) (m_tcp_conn w)\<rparr>)"
proof -
  let ?f = "flush_content_stream w"
  obtain bs v where p: "writer_prepare_buffers ?f = (bs, v)" by fastforce
  obtain m where v: "v = ?f\<lparr>m_http_message := m\<rparr>" using writer_prepare_frame [OF p] by blast
  obtain cs u where q: "prepare_write_buffers final (v\<lparr>m_sent_headers := True\<rparr>) = (cs, u)" by fastforce
  let ?w = "w\<lparr>m_sent_headers := True, m_http_message := m, m_tcp_conn := async_write bs (m_tcp_conn w)\<rparr>"
  have f: "flush_content_stream ?w = (v\<lparr>m_sent_headers := True\<rparr>)\<lparr>m_tcp_conn := async_write bs (m_tcp_conn w)\<rparr>"
    by (auto simp: v flush_content_stream_def Let_def)
  have r: "prepare_write_buffers final (x\<lparr>m_tcp_conn := c\<rparr>) =
      (let (cs, u) = prepare_write_buffers final x in (cs, u\<lparr>m_tcp_conn := c\<rparr>))" if "m_sent_headers x" for x c
    using that by (simp add: prepare_write_buffers_def Let_def)
  have c: "m_tcp_conn u = m_tcp_conn w"
  proof -
    have "m_tcp_conn (snd (prepare_write_buffers final x)) = m_tcp_conn x" if "m_sent_headers x" for x
      using that by (simp add: prepare_write_buffers_def Let_def)
    from this [of "v\<lparr>m_sent_headers := True\<rparr>"] q v show ?thesis by simp
  qed
  have "send_more_data final w = u\<lparr>m_tcp_conn := async_write (bs @ cs) (m_tcp_conn w)\<rparr>"
    using assms p q c by (simp add: send_more_data_def prepare_write_first)
  moreover have "send_more_data final ?w = u\<lparr>m_tcp_conn := async_write cs (async_write bs (m_tcp_conn w))\<rparr>"
    using assms(2) f q r [of "v\<lparr>m_sent_headers := True\<rparr>"] by (simp add: send_more_data_def async_write_def is_open_def)
  moreover have "async_write (bs @ cs) (m_tcp_conn w) = async_write cs (async_write bs (m_tcp_conn w))"
    by (simp add: async_write_def)
  ultimately have "send_more_data final w = send_more_data final ?w" by metis
  then show ?thesis using p by auto
qed

section \<open>A message in chunks\<close>

text \<open>
  The protocol of \<^verbatim>\<open>send_chunk\<close>: clear the writer, write the data of the next chunk, send it; the final
  chunk closes the message.
\<close>

definition send_piece :: "write_call list \<Rightarrow> writer \<Rightarrow> writer" where
  "send_piece calls w = send_chunk (foldl (\<lambda>w x. do_write x w) (writer_clear w) calls)"

definition send_pieces :: "write_call list list \<Rightarrow> writer \<Rightarrow> writer" where
  "send_pieces pieces w = send_final_chunk (writer_clear (foldl (\<lambda>w calls. send_piece calls w) w pieces))"

abbreviation piece_data :: "write_call list \<Rightarrow> string" where
  "piece_data calls \<equiv> concat (map write_call_data calls)"

lemma foldl_do_write_frame [simp]:
  "m_tcp_conn (foldl (\<lambda>w x. do_write x w) w xs) = m_tcp_conn w"
  "m_client_supports_chunks (foldl (\<lambda>w x. do_write x w) w xs) = m_client_supports_chunks w"
  "m_sent_headers (foldl (\<lambda>w x. do_write x w) w xs) = m_sent_headers w"
  "m_http_message (foldl (\<lambda>w x. do_write x w) w xs) = m_http_message w"
  by (induction xs arbitrary: w) simp_all

lemma clear_frame [simp]:
  "m_tcp_conn (writer_clear w) = m_tcp_conn w" "m_client_supports_chunks (writer_clear w) = m_client_supports_chunks w"
  "m_sent_headers (writer_clear w) = m_sent_headers w" "m_http_message (writer_clear w) = m_http_message w"
  by (simp_all add: writer_clear_def)

lemma writer_ok_flags [simp]:
  "writer_ok (w\<lparr>m_sending_chunks := b\<rparr>) = writer_ok w" "writer_content (w\<lparr>m_sending_chunks := b\<rparr>) = writer_content w"
  "writer_ok (w\<lparr>m_sent_headers := b\<rparr>) = writer_ok w" "writer_content (w\<lparr>m_sent_headers := b\<rparr>) = writer_content w"
  "writer_ok (w\<lparr>m_tcp_conn := c\<rparr>) = writer_ok w" "writer_content (w\<lparr>m_tcp_conn := c\<rparr>) = writer_content w"
  "writer_ok (w\<lparr>m_http_message := m\<rparr>) = writer_ok w" "writer_content (w\<lparr>m_http_message := m\<rparr>) = writer_content w"
  by (simp_all add: writer_ok_def writer_content_def)

text \<open>A writer that sends chunks to an open connection.\<close>

definition chunk_ready :: "writer \<Rightarrow> bool" where
  "chunk_ready w = (m_client_supports_chunks w \<and> is_open (m_tcp_conn w))"

definition written :: "writer \<Rightarrow> string" where
  "written w = concat (c_written (m_tcp_conn w))"

lemma send_piece_sent:
  assumes "chunk_ready w" and "m_sent_headers w" and "length (piece_data calls) < 2 ^ 64"
  shows "written (send_piece calls w) = written w @ body_text True False (piece_data calls)"
    and "chunk_ready (send_piece calls w)" and "m_sent_headers (send_piece calls w)"
proof -
  let ?v = "foldl (\<lambda>w x. do_write x w) (writer_clear w) calls"
  let ?u = "?v\<lparr>m_sending_chunks := True\<rparr>"
  have p: "writer_ok ?u" "writer_content ?u = piece_data calls"
    using payload.content_puts [of "writer_clear w" calls] writer_ok_clear by simp_all
  have s: "send_piece calls w = send_more_data False ?u"
    using assms(1) by (simp add: send_piece_def send_chunk_def chunk_ready_def)
  have fr: "m_sent_headers ?u" "is_open (m_tcp_conn ?u)" "length (writer_content ?u) < 2 ^ 64"
    using assms p(2) by (simp_all add: chunk_ready_def)
  show "written (send_piece calls w) = written w @ body_text True False (piece_data calls)"
      "chunk_ready (send_piece calls w)" "m_sent_headers (send_piece calls w)"
    using send_more_data_sent [OF p(1) fr, of False] p(2) assms(1)
    by (simp_all add: s written_def chunk_ready_def)
qed

lemma send_pieces_sent:
  assumes "chunk_ready w" and "m_sent_headers w" and "list_all (\<lambda>calls. length (piece_data calls) < 2 ^ 64) pieces"
  shows "written (send_pieces pieces w) =
     written w @ concat (map (\<lambda>calls. body_text True False (piece_data calls)) pieces) @ last_chunk_text"
proof -
  have *: "chunk_ready (foldl (\<lambda>w calls. send_piece calls w) w pieces) \<and>
      m_sent_headers (foldl (\<lambda>w calls. send_piece calls w) w pieces) \<and>
      written (foldl (\<lambda>w calls. send_piece calls w) w pieces) =
        written w @ concat (map (\<lambda>calls. body_text True False (piece_data calls)) pieces)"
    using assms
  proof (induction pieces arbitrary: w)
    case (Cons calls pieces)
    then show ?case using send_piece_sent [of w calls] by simp
  qed simp
  let ?v = "(writer_clear (foldl (\<lambda>w calls. send_piece calls w) w pieces))\<lparr>m_sending_chunks := True\<rparr>"
  have c: "writer_ok ?v" "writer_content ?v = []" using writer_ok_clear by simp_all
  have "m_sent_headers ?v" "is_open (m_tcp_conn ?v)" "length (writer_content ?v) < 2 ^ 64"
    using * c(2) by (simp_all add: chunk_ready_def)
  from send_more_data_sent(1) [OF c(1) this, of True] c(2) * show ?thesis
    by (simp add: send_pieces_def send_final_chunk_def written_def body_text_def chunk_ready_def)
qed

text \<open>The text of the headers of a chunked message does not depend on the content length.\<close>

lemma foldl_length:
  assumes "\<And>m x. f (m\<lparr>msg_content_length := n\<rparr>) x = (f m x)\<lparr>msg_content_length := n\<rparr>"
  shows "foldl f (m\<lparr>msg_content_length := n\<rparr>) xs = (foldl f m xs)\<lparr>msg_content_length := n\<rparr>"
  using assms by (induction xs arbitrary: m) simp_all

lemma append_cookie_length:
  "append_cookie_headers (m\<lparr>msg_content_length := n\<rparr>) = (append_cookie_headers m)\<lparr>msg_content_length := n\<rparr>"
proof (cases "msg_is_request m")
  case True
  have "foldl (\<lambda>m i. add_header HEADER_COOKIE (fst i @ COOKIE_NAME_VALUE_DELIMITER @ snd i) m) (m\<lparr>msg_content_length := n\<rparr>) xs =
      (foldl (\<lambda>m i. add_header HEADER_COOKIE (fst i @ COOKIE_NAME_VALUE_DELIMITER @ snd i) m) m xs)\<lparr>msg_content_length := n\<rparr>" for xs
    by (rule foldl_length) (simp add: add_header_def)
  then show ?thesis using True by (simp add: append_cookie_headers_def)
next
  case False
  have "foldl (\<lambda>m i. set_cookie (fst i) (snd i) m) (m\<lparr>msg_content_length := n\<rparr>) xs =
      (foldl (\<lambda>m i. set_cookie (fst i) (snd i) m) m xs)\<lparr>msg_content_length := n\<rparr>" for xs
    by (rule foldl_length) (simp add: add_header_def set_cookie_def)
  then show ?thesis using False by (simp add: append_cookie_headers_def)
qed

lemma prepare_headers_length:
  "prepare_headers_for_send ka True (m\<lparr>msg_content_length := n\<rparr>) = (prepare_headers_for_send ka True m)\<lparr>msg_content_length := n\<rparr>"
  by (simp add: prepare_headers_for_send_def change_header_def Let_def)

lemma get_first_line_length:
  "get_first_line (m\<lparr>msg_content_length := n\<rparr>) = (fst (get_first_line m), (snd (get_first_line m))\<lparr>msg_content_length := n\<rparr>)"
  by (simp add: get_first_line_def update_first_line_def get_version_string_def Let_def)

lemma chunked_headers_length:
  "fst (prepare_buffers_for_send ka True (set_content_length n m)) = fst (prepare_buffers_for_send ka True m)"
  by (simp add: prepare_buffers_for_send_def set_content_length_def prepare_headers_length get_first_line_length
      append_cookie_length append_headers_def split_beta Let_def)

text \<open>The first operation of a writer sends the headers, whatever it is.\<close>

lemma writer_headers_text:
  assumes "m_sending_chunks w"
  shows "fst (writer_prepare_buffers w) = fst (prepare_buffers_for_send (get_keep_alive (m_tcp_conn w)) True (m_http_message w))"
  using assms chunked_headers_length by (simp add: writer_prepare_buffers_def split_beta Let_def)

lemma send_pieces_text:
  assumes "chunk_ready w" and "\<not> m_sent_headers w" and "list_all (\<lambda>calls. length (piece_data calls) < 2 ^ 64) pieces"
  shows "written (send_pieces pieces w) = written w @
     concat (fst (prepare_buffers_for_send (get_keep_alive (m_tcp_conn w)) True (m_http_message w))) @
     concat (map (\<lambda>calls. body_text True False (piece_data calls)) pieces) @ last_chunk_text"
proof -
  let ?H = "fst (prepare_buffers_for_send (get_keep_alive (m_tcp_conn w)) True (m_http_message w))"
  have first: "\<exists>m. send_more_data final u = send_more_data final (u\<lparr>m_sent_headers := True, m_http_message := m,
       m_tcp_conn := async_write ?H (m_tcp_conn w)\<rparr>)"
    if u: "m_sending_chunks u" "m_tcp_conn u = m_tcp_conn w" "m_http_message u = m_http_message w" "\<not> m_sent_headers u" for final u
    using send_more_data_first [of u final] writer_headers_text [of "flush_content_stream u"] u assms(1)
    by (simp add: chunk_ready_def)
  let ?v = "\<lambda>m w. w\<lparr>m_sent_headers := True, m_http_message := m, m_tcp_conn := async_write ?H (m_tcp_conn w)\<rparr>"
  have v: "written (?v m w) = written w @ concat ?H" "chunk_ready (?v m w)" "m_sent_headers (?v m w)" for m
    using assms(1) by (simp_all add: written_def chunk_ready_def async_write_def is_open_def)
  have "\<exists>m. send_pieces pieces w = send_pieces pieces (?v m w)"
  proof (cases pieces)
    case Nil
    obtain m where "send_more_data True ((writer_clear w)\<lparr>m_sending_chunks := True\<rparr>) =
        send_more_data True (((writer_clear w)\<lparr>m_sending_chunks := True\<rparr>)\<lparr>m_sent_headers := True, m_http_message := m,
          m_tcp_conn := async_write ?H (m_tcp_conn w)\<rparr>)"
      using first [of "(writer_clear w)\<lparr>m_sending_chunks := True\<rparr>" True] assms(2) by auto
    moreover have "(writer_clear (?v m w))\<lparr>m_sending_chunks := True\<rparr> =
        ((writer_clear w)\<lparr>m_sending_chunks := True\<rparr>)\<lparr>m_sent_headers := True, m_http_message := m,
          m_tcp_conn := async_write ?H (m_tcp_conn w)\<rparr>"
      by (rule writer.equality) (simp_all add: writer_clear_def)
    ultimately show ?thesis unfolding Nil send_pieces_def send_final_chunk_def foldl_Nil by metis
  next
    case (Cons calls ps)
    let ?u = "(foldl (\<lambda>w x. do_write x w) (writer_clear w) calls)\<lparr>m_sending_chunks := True\<rparr>"
    obtain m where m: "send_more_data False ?u = send_more_data False (?u\<lparr>m_sent_headers := True, m_http_message := m,
          m_tcp_conn := async_write ?H (m_tcp_conn w)\<rparr>)"
      using first [of ?u False] assms(2) by auto
    have cl: "writer_clear (?v m w) = (writer_clear w)\<lparr>m_sent_headers := True, m_http_message := m,
          m_tcp_conn := async_write ?H (m_tcp_conn w)\<rparr>"
      by (rule writer.equality) (simp_all add: writer_clear_def)
    have fo: "foldl (\<lambda>w x. do_write x w) (x\<lparr>m_sent_headers := b, m_http_message := k, m_tcp_conn := c\<rparr>) xs =
        (foldl (\<lambda>w x. do_write x w) x xs)\<lparr>m_sent_headers := b, m_http_message := k, m_tcp_conn := c\<rparr>" for x b k c xs
    proof (induction xs arbitrary: x)
      case (Cons y ys)
      have "do_write y (x\<lparr>m_sent_headers := b, m_http_message := k, m_tcp_conn := c\<rparr>) =
          (do_write y x)\<lparr>m_sent_headers := b, m_http_message := k, m_tcp_conn := c\<rparr>"
        by (cases y) (auto simp: write_text_def write_binary_def write_no_copy_def flush_content_stream_def Let_def)
      then show ?case using Cons.IH by simp
    qed simp
    have "send_piece calls w = send_more_data False ?u"
      using assms(1) by (simp add: send_piece_def send_chunk_def chunk_ready_def)
    moreover have "send_piece calls (?v m w) = send_more_data False (?u\<lparr>m_sent_headers := True, m_http_message := m,
          m_tcp_conn := async_write ?H (m_tcp_conn w)\<rparr>)"
      using assms(1) unfolding send_piece_def cl fo
      by (simp add: send_chunk_def chunk_ready_def)
        (rule arg_cong [where f = "send_more_data False"], rule writer.equality, simp_all)
    ultimately have "send_piece calls w = send_piece calls (?v m w)" using m by simp
    then show ?thesis by (intro exI [of _ m]) (simp add: Cons send_pieces_def)
  qed
  then obtain m where "send_pieces pieces w = send_pieces pieces (?v m w)" ..
  then show ?thesis using send_pieces_sent [OF v(2,3) assms(3), of m] v(1) [of m] by simp
qed

section \<open>Properties\<close>

text \<open>C33: Nothing written is lost or reordered. However text, binary and uncopied data are mixed, the
  buffered content of a cleared writer is the concatenation of all data in the order of the calls, and
  after a flush its length counter is the length of the content, as long as that fits into \<^verbatim>\<open>size_t\<close>.\<close>

theorem writer_keeps_payload:
  "writer_content (foldl (\<lambda>w x. do_write x w) (writer_clear w) calls) = concat (map write_call_data calls) \<and>
   (length (concat (map write_call_data calls)) < 2 ^ 64 \<longrightarrow>
    m_content_length (flush_content_stream (foldl (\<lambda>w x. do_write x w) (writer_clear w) calls)) =
      length (concat (map write_call_data calls)))"
proof -
  let ?w = "foldl (\<lambda>w x. do_write x w) (writer_clear w) calls"
  have c: "writer_content ?w = concat (map write_call_data calls)" by (rule payload.content_after_clear)
  have "writer_ok ?w" using payload.content_puts writer_ok_clear by blast
  then show ?thesis using flush_writer [of ?w] c by (simp add: writer_ok_def)
qed

theorem writer_keeps_payload_witness:
  "m_content_length (flush_content_stream (foldl (\<lambda>w x. do_write x w)
     (writer_clear (new_writer (new_connection False False) (empty_message False)))
     [Write_text ''ab'', Write_binary ''c'', Write_text ''de''])) = 5"
  using writer_keeps_payload [of "new_writer (new_connection False False) (empty_message False)"
      "[Write_text ''ab'', Write_binary ''c'', Write_text ''de'']"] by simp

text \<open>A message sent in chunks. Over an open connection to a client that supports chunks, sending any
  sequence of chunks and the final one writes the headers once, then for each chunk with data its length
  in hexadecimal and the data, each followed by a line break, and at the end the empty chunk.\<close>

theorem chunked_message_text:
  assumes "m_client_supports_chunks w" and "is_open (m_tcp_conn w)" and "\<not> m_sent_headers w"
    and "list_all (\<lambda>calls. length (concat (map write_call_data calls)) < 2 ^ 64) pieces"
  shows "concat (c_written (m_tcp_conn (send_pieces pieces w))) = concat (c_written (m_tcp_conn w)) @
     concat (fst (prepare_buffers_for_send (get_keep_alive (m_tcp_conn w)) True (m_http_message w))) @
     concat (map (\<lambda>calls. let d = concat (map write_call_data calls)
       in if d = [] then [] else to_hex (length d) @ STRING_CRLF @ d @ STRING_CRLF) pieces) @
     ''0'' @ STRING_CRLF @ STRING_CRLF"
proof -
  have "(\<lambda>calls. let d = piece_data calls in if d = [] then [] else to_hex (length d) @ STRING_CRLF @ d @ STRING_CRLF) =
      (\<lambda>calls. body_text True False (piece_data calls))"
    by (rule ext) (simp add: body_text_def chunk_text_def Let_def)
  then show ?thesis
    using send_pieces_text [of w pieces] assms by (simp add: chunk_ready_def written_def last_chunk_text_def)
qed

theorem chunked_message_text_witness:
  "\<exists>h. concat (c_written (m_tcp_conn (send_pieces [[Write_text ''abc''], []]
      (new_writer (open_connection 1 (new_connection False False)) (new_response ''GET''))))) =
    h @ ''3'' @ STRING_CRLF @ ''abc'' @ STRING_CRLF @ ''0'' @ STRING_CRLF @ STRING_CRLF"
proof -
  let ?w = "new_writer (open_connection 1 (new_connection False False)) (new_response ''GET'')"
  have h: "to_hex (Suc (Suc (Suc 0))) = ''3''" by code_simp
  have "m_client_supports_chunks ?w" "is_open (m_tcp_conn ?w)" "\<not> m_sent_headers ?w"
    by (simp_all add: new_writer_def open_connection_def is_open_def)
  from chunked_message_text [OF this, of "[[Write_text ''abc''], []]"] show ?thesis
    by (simp add: h)
qed

text \<open>A closed connection is reported and not written to: a send calls the finished handler once, with a
  reset error, and leaves the connection as it was; the headers still count as unsent.\<close>

theorem send_on_closed:
  assumes "\<not> is_open (m_tcp_conn w)"
  shows "m_finished_log (send w) = m_finished_log w @ [Some Connection_reset] \<and> m_tcp_conn (send w) = m_tcp_conn w \<and>
    m_finished_log (send_final_chunk w) = m_finished_log w @ [Some Connection_reset] \<and>
    m_tcp_conn (send_final_chunk w) = m_tcp_conn w \<and> m_sent_headers (send_final_chunk w) = m_sent_headers w"
  using assms by (simp add: send_def send_final_chunk_def send_more_data_def finished_writing_def)

theorem send_on_closed_witness:
  "m_finished_log (send (new_writer (new_connection False False) (empty_message True))) = [Some Connection_reset]"
proof -
  let ?w = "new_writer (new_connection False False) (empty_message True)"
  have "\<not> is_open (m_tcp_conn ?w)" by (simp add: new_writer_def new_connection_def is_open_def)
  from send_on_closed [OF this] show ?thesis by (simp add: new_writer_def)
qed

end
