(* ===== verification/Parser_Chunks.thy ===== *)
theory Parser_Chunks
  imports Parser_Run Http_Writer
begin

text \<open>
  Chunked bodies: the chunk machine over a well-formed sequence of chunks, what happens when the chunk
  cache is full, and a chunked response parsed from its first byte to its last.
\<close>

section \<open>Runs of the chunk machine\<close>

definition cruns :: "parser \<Rightarrow> string \<Rightarrow> string \<Rightarrow> parser \<Rightarrow> string \<Rightarrow> bool" where
  "cruns p ch xs q ch' = (\<forall>ys. chunks_loop p ch (xs @ ys) = chunks_loop q ch' ys)"

lemma cruns_Nil [simp, intro]: "cruns p ch [] p ch"
  by (simp add: cruns_def)

lemma cruns_trans: "cruns p ch xs q ch' \<Longrightarrow> cruns q ch' ys r ch'' \<Longrightarrow> cruns p ch (xs @ ys) r ch''"
  by (simp add: cruns_def)

text \<open>A step that reads only the current byte.\<close>

lemma cruns_step:
  "(\<And>s. chunk_switch (m_chunked_content_parse_state p) c p ch (c # s) = (C_More, q, ch', c # s)) \<Longrightarrow> cruns p ch [c] q ch'"
  by (simp add: cruns_def)

lemma cruns_Cons:
  "cruns p ch [c] q ch' \<Longrightarrow> cruns q ch' xs r ch'' \<Longrightarrow> cruns p ch (c # xs) r ch''"
  using cruns_trans [of p ch "[c]"] by simp

abbreviation at_chunk :: "chunk_parse_state_t \<Rightarrow> parser \<Rightarrow> parser" where
  "at_chunk st p \<equiv> p\<lparr>m_chunked_content_parse_state := st\<rparr>"

lemma lower_digit_hex: "d < 16 \<Longrightarrow> is_hex_digit (lower_digit d)"
  by (simp add: is_hex_digit_def lower_digit_def char_to_int_def)

lemma to_hex_digits: "list_all is_hex_digit (to_hex n)"
  using to_base_digits [of 16 n] by (auto simp: to_hex_def list_all_iff lower_digit_hex)

lemma newline_not_hex [simp]: "\<not> is_hex_digit CR" "\<not> is_hex_digit LF"
  by (simp_all add: is_hex_digit_def char_to_int_def byte_val_def)

lemma to_hex_nonempty: "to_hex n \<noteq> []"
  by (simp add: to_hex_def)

lemma cruns_size_digits:
  assumes "m_chunked_content_parse_state p = PARSE_CHUNK_SIZE" and "list_all is_hex_digit s"
  shows "cruns p ch s (p\<lparr>m_chunk_size_str := m_chunk_size_str p @ s\<rparr>) ch"
  using assms
proof (induction s arbitrary: p)
  case (Cons c s)
  let ?q = "p\<lparr>m_chunk_size_str := m_chunk_size_str p @ [c]\<rparr>"
  have "cruns p ch [c] ?q ch" using Cons.prems by (intro cruns_step) simp
  moreover have "cruns ?q ch s (?q\<lparr>m_chunk_size_str := m_chunk_size_str ?q @ s\<rparr>) ch"
    using Cons.prems by (intro Cons.IH) simp_all
  ultimately show ?case by (simp add: cruns_Cons)
qed simp

lemma cruns_size:
  assumes "m_chunked_content_parse_state p = PARSE_CHUNK_SIZE_START"
  shows "cruns p ch (to_hex n) (p\<lparr>m_chunked_content_parse_state := PARSE_CHUNK_SIZE, m_chunk_size_str := to_hex n\<rparr>) ch"
proof -
  obtain c s where h: "to_hex n = c # s" using to_hex_nonempty [of n] by (cases "to_hex n") auto
  let ?q = "p\<lparr>m_chunk_size_str := [c], m_chunked_content_parse_state := PARSE_CHUNK_SIZE\<rparr>"
  have d: "is_hex_digit c" "list_all is_hex_digit s" using to_hex_digits [of n] h by simp_all
  have "cruns p ch [c] ?q ch" using assms d by (intro cruns_step) simp
  moreover have "cruns ?q ch s (p\<lparr>m_chunked_content_parse_state := PARSE_CHUNK_SIZE, m_chunk_size_str := to_hex n\<rparr>) ch"
    using cruns_size_digits [of ?q s ch] d h by simp
  ultimately show ?thesis using h by (simp add: cruns_Cons)
qed

text \<open>The hexadecimal size reads back, up to the range of \<^verbatim>\<open>long\<close>.\<close>

lemma lower_digit_plain16:
  "d < 16 \<Longrightarrow> \<not> isspace (lower_digit d) \<and> lower_digit d \<noteq> CHR ''-'' \<and> lower_digit d \<noteq> CHR ''+'' \<and>
     lower_digit d \<noteq> CHR ''x'' \<and> lower_digit d \<noteq> CHR ''X'' \<and> is_base_digit 16 (lower_digit d)"
proof -
  have "\<forall>d \<in> set [0..<16]. \<not> isspace (lower_digit d) \<and> lower_digit d \<noteq> CHR ''-'' \<and> lower_digit d \<noteq> CHR ''+'' \<and>
     lower_digit d \<noteq> CHR ''x'' \<and> lower_digit d \<noteq> CHR ''X'' \<and> is_base_digit 16 (lower_digit d)"
    by code_simp
  then show "d < 16 \<Longrightarrow> ?thesis" by simp
qed

lemma to_hex_plain:
  "c \<in> set (to_hex n) \<Longrightarrow> \<not> isspace c \<and> c \<noteq> CHR ''-'' \<and> c \<noteq> CHR ''+'' \<and> c \<noteq> CHR ''x'' \<and> c \<noteq> CHR ''X'' \<and> is_base_digit 16 c"
  using to_base_digits [of 16 n] lower_digit_plain16 by (auto simp: to_hex_def)

lemma skip_0x_plain: "CHR ''x'' \<notin> set s \<Longrightarrow> CHR ''X'' \<notin> set s \<Longrightarrow> skip_0x b s = s"
  by (auto simp: skip_0x_def split: list.splits)

lemma parse_long_to_hex: "parse_long 16 (to_hex n) = (True, False, n)"
proof -
  obtain c s where h: "to_hex n = c # s" using to_hex_nonempty [of n] by (cases "to_hex n") auto
  note c = to_hex_plain [of c n]
  have sk: "skip_space (to_hex n) = to_hex n" using c h by (simp add: skip_space_def)
  have sg: "split_sign (to_hex n) = (False, to_hex n)" using c h by (simp add: split_sign_def)
  have x: "skip_0x 16 (to_hex n) = to_hex n" using to_hex_plain [of _ n] by (intro skip_0x_plain) auto
  have tw: "takeWhile (is_base_digit 16) (to_hex n) = to_hex n" using to_hex_plain [of _ n] by (intro takeWhile_all) auto
  show ?thesis by (simp add: parse_long_def sk sg x tw to_hex_nonempty)
qed

lemma strtol_to_hex: "n < 2 ^ 63 \<Longrightarrow> nat (strtol 16 (to_hex n)) = n"
  by (simp add: strtol_def parse_long_to_hex long_max_def)

lemma cruns_data:
  assumes "m_chunked_content_parse_state p = PARSE_CHUNK" and "\<not> m_payload_handler p" and "d \<noteq> []"
    and "m_bytes_read_in_current_chunk p + length d = m_size_of_current_chunk p"
    and "length ch + length d \<le> m_max_content_length p"
  shows "cruns p ch d (p\<lparr>m_bytes_read_in_current_chunk := m_size_of_current_chunk p,
     m_chunked_content_parse_state := PARSE_EXPECTING_CR_AFTER_CHUNK\<rparr>) (ch @ d)"
  using assms
proof (induction d arbitrary: p ch)
  case (Cons c d)
  let ?q = "p\<lparr>m_bytes_read_in_current_chunk := m_bytes_read_in_current_chunk p + 1\<rparr>"
  show ?case
  proof (cases "d = []")
    case True
    have "cruns p ch [c] (p\<lparr>m_bytes_read_in_current_chunk := m_size_of_current_chunk p,
     m_chunked_content_parse_state := PARSE_EXPECTING_CR_AFTER_CHUNK\<rparr>) (ch @ [c])"
      using Cons.prems True by (intro cruns_step) (simp add: chunk_data_def)
    then show ?thesis using True by simp
  next
    case False
    then have "Suc (m_bytes_read_in_current_chunk p) \<noteq> m_size_of_current_chunk p"
      using Cons.prems(4) by (cases d) auto
    then have "cruns p ch [c] ?q (ch @ [c])"
      using Cons.prems by (intro cruns_step) (auto simp: chunk_data_def)
    moreover have "cruns ?q (ch @ [c]) d (?q\<lparr>m_bytes_read_in_current_chunk := m_size_of_current_chunk ?q,
     m_chunked_content_parse_state := PARSE_EXPECTING_CR_AFTER_CHUNK\<rparr>) ((ch @ [c]) @ d)"
      using Cons.prems False by (intro Cons.IH) simp_all
    ultimately show ?thesis by (simp add: cruns_Cons)
  qed
qed simp

lemma cruns_chunk:
  assumes "m_chunked_content_parse_state p = PARSE_CHUNK_SIZE_START" and "\<not> m_payload_handler p" and "d \<noteq> []"
    and "length ch + length d \<le> m_max_content_length p" and "length d < 2 ^ 63"
  shows "cruns p ch (chunk_text d) (p\<lparr>m_chunk_size_str := to_hex (length d), m_size_of_current_chunk := length d,
     m_bytes_read_in_current_chunk := length d\<rparr>) (ch @ d)"
proof -
  let ?n = "length d"
  let ?p1 = "p\<lparr>m_chunked_content_parse_state := PARSE_CHUNK_SIZE, m_chunk_size_str := to_hex ?n\<rparr>"
  let ?p2 = "p\<lparr>m_chunk_size_str := to_hex ?n, m_bytes_read_in_current_chunk := 0, m_size_of_current_chunk := ?n,
     m_chunked_content_parse_state := PARSE_CHUNK\<rparr>"
  let ?p3 = "?p2\<lparr>m_bytes_read_in_current_chunk := ?n, m_chunked_content_parse_state := PARSE_EXPECTING_CR_AFTER_CHUNK\<rparr>"
  let ?p4 = "p\<lparr>m_chunk_size_str := to_hex ?n, m_size_of_current_chunk := ?n, m_bytes_read_in_current_chunk := ?n\<rparr>"
  have size: "cruns p ch (to_hex ?n) ?p1 ch" by (rule cruns_size [OF assms(1)])
  have nl: "cruns ?p1 ch STRING_CRLF ?p2 ch"
    using assms(3,5) strtol_to_hex [of ?n] by (simp add: cruns_def STRING_CRLF_def Let_def)
  have data: "cruns ?p2 ch d ?p3 (ch @ d)" using cruns_data [of ?p2 d ch] assms by simp
  have e: "?p3\<lparr>m_chunked_content_parse_state := PARSE_CHUNK_SIZE_START\<rparr> = ?p4"
    by (rule parser.equality) (simp_all add: assms(1))
  have "cruns ?p3 (ch @ d) STRING_CRLF (?p3\<lparr>m_chunked_content_parse_state := PARSE_CHUNK_SIZE_START\<rparr>) (ch @ d)"
    by (simp add: cruns_def STRING_CRLF_def)
  then have "cruns ?p3 (ch @ d) STRING_CRLF ?p4 (ch @ d)" unfolding e .
  then show ?thesis
    unfolding chunk_text_def by (intro cruns_trans [OF size] cruns_trans [OF nl] cruns_trans [OF data])
qed

lemma cruns_chunks:
  assumes "m_chunked_content_parse_state p = PARSE_CHUNK_SIZE_START" and "\<not> m_payload_handler p"
    and "list_all (\<lambda>d. d \<noteq> [] \<and> length d < 2 ^ 63) ds"
    and "length ch + length (concat ds) \<le> m_max_content_length p"
  shows "\<exists>q. cruns p ch (concat (map chunk_text ds)) q (ch @ concat ds) \<and> config q = config p \<and>
     m_chunked_content_parse_state q = PARSE_CHUNK_SIZE_START \<and> m_message_parse_state q = m_message_parse_state p"
  using assms
proof (induction ds arbitrary: p ch)
  case Nil
  then show ?case by (intro exI [of _ p]) simp
next
  case (Cons d ds)
  let ?q = "p\<lparr>m_chunk_size_str := to_hex (length d), m_size_of_current_chunk := length d, m_bytes_read_in_current_chunk := length d\<rparr>"
  have a: "cruns p ch (chunk_text d) ?q (ch @ d)" using Cons.prems by (intro cruns_chunk) simp_all
  obtain q where q: "cruns ?q (ch @ d) (concat (map chunk_text ds)) q ((ch @ d) @ concat ds)" "config q = config ?q"
     "m_chunked_content_parse_state q = PARSE_CHUNK_SIZE_START" "m_message_parse_state q = m_message_parse_state ?q"
    using Cons.IH [of ?q "ch @ d"] Cons.prems by auto
  then show ?case using cruns_trans [OF a q(1)] by (intro exI [of _ q]) simp
qed

lemma chunks_loop_last:
  assumes "m_chunked_content_parse_state p = PARSE_CHUNK_SIZE_START"
  shows "\<exists>q. chunks_loop p ch (last_chunk_text @ rest) = (true_value, None, q, ch, rest) \<and>
     config q = config p \<and> m_message_parse_state q = m_message_parse_state p"
proof -
  have z: "nat (strtol 16 ''0'') = 0" by code_simp
  have h: "is_hex_digit (CHR ''0'')" by code_simp
  show ?thesis
    using assms z h by (simp add: last_chunk_text_def STRING_CRLF_def Let_def)
qed

section \<open>A full chunk cache\<close>

text \<open>
  A byte that does not fit into the cache is skipped without being counted, so the chunk is never
  complete: from then on the machine swallows whatever follows.
\<close>

lemma chunks_loop_full:
  assumes "m_chunked_content_parse_state p = PARSE_CHUNK" and "\<not> m_payload_handler p"
    and "m_bytes_read_in_current_chunk p < m_size_of_current_chunk p"
    and "m_max_content_length p \<le> length ch"
  shows "chunks_loop p ch s = (indeterminate_value, None, p, ch, [])"
  using assms by (induction s) (simp_all add: chunk_data_def)

lemma parse_chunks_full:
  assumes "m_message_parse_state p = PARSE_CHUNKS" and "m_chunked_content_parse_state p = PARSE_CHUNK"
    and "\<not> m_payload_handler p" and "m_bytes_read_in_current_chunk p < m_size_of_current_chunk p"
    and "m_max_content_length p \<le> length (msg_chunk_cache m)"
  shows "\<exists>q n. parse p m = Inr (indeterminate_value, None, q, n) \<and>
     m_message_parse_state q = PARSE_CHUNKS \<and> m_chunked_content_parse_state q = PARSE_CHUNK \<and> config q = config p \<and>
     m_bytes_read_in_current_chunk q = m_bytes_read_in_current_chunk p \<and>
     m_size_of_current_chunk q = m_size_of_current_chunk p \<and> msg_chunk_cache n = msg_chunk_cache m"
proof -
  let ?q = "p\<lparr>m_read := [], m_bytes_last_read := length (m_read p), m_bytes_total_read := szadd (m_bytes_total_read p) (length (m_read p)),
     m_bytes_content_read := szadd (m_bytes_content_read p) (length (m_read p))\<rparr>"
  have l: "chunks_loop (p\<lparr>m_bytes_last_read := 0\<rparr>) (msg_chunk_cache m) (m_read p) =
      (indeterminate_value, None, p\<lparr>m_bytes_last_read := 0\<rparr>, msg_chunk_cache m, [])"
    using assms by (intro chunks_loop_full) simp_all
  have c: "parse_chunks p (msg_chunk_cache (mark_missing m)) = (indeterminate_value, None, ?q, msg_chunk_cache m)"
    using l by (simp add: parse_chunks_def mark_missing_def Let_def)
  have s: "parse_switch p (mark_missing m) = Inr (length (m_read p), indeterminate_value, None, ?q,
      (mark_missing m)\<lparr>msg_chunk_cache := msg_chunk_cache m\<rparr>)"
    using assms(1) c by (simp add: parse_switch_def)
  show ?thesis
    using parse_loop_step [OF s, of 0] assms(1,2) by (simp add: parse_alt parse_end_def eof_def)
qed

text \<open>Feeding buffers one after the other while the parser asks for more.\<close>

fun feed :: "parser \<Rightarrow> http_message \<Rightarrow> string list \<Rightarrow> fault + parse_result" where
  "feed p m [] = Inr (indeterminate_value, None, p, m)"
| "feed p m (s # ss) =
     (case parse (set_read_buffer s p) m of
        Inl e \<Rightarrow> Inl e
      | Inr (rc, ec, q, n) \<Rightarrow> if rc = indeterminate_value then feed q n ss else Inr (rc, ec, q, n))"

lemma feed_full:
  assumes "m_message_parse_state p = PARSE_CHUNKS" and "m_chunked_content_parse_state p = PARSE_CHUNK"
    and "\<not> m_payload_handler p" and "m_bytes_read_in_current_chunk p < m_size_of_current_chunk p"
    and "m_max_content_length p \<le> length (msg_chunk_cache m)"
  shows "\<exists>q n. feed p m ss = Inr (indeterminate_value, None, q, n) \<and> msg_chunk_cache n = msg_chunk_cache m"
  using assms
proof (induction ss arbitrary: p m)
  case (Cons s ss)
  let ?p = "set_read_buffer s p"
  obtain q n where r: "parse ?p m = Inr (indeterminate_value, None, q, n)" "m_message_parse_state q = PARSE_CHUNKS"
     "m_chunked_content_parse_state q = PARSE_CHUNK" "config q = config ?p"
     "m_bytes_read_in_current_chunk q = m_bytes_read_in_current_chunk ?p"
     "m_size_of_current_chunk q = m_size_of_current_chunk ?p" "msg_chunk_cache n = msg_chunk_cache m"
    using parse_chunks_full [of ?p m] Cons.prems by (auto simp: set_read_buffer_def)
  then show ?case
    using Cons.IH [of q n] Cons.prems by (auto simp: set_read_buffer_def config_def)
qed simp

section \<open>A chunked response\<close>

lemma chunks_turn_body:
  assumes "m_message_parse_state p = PARSE_CHUNKS" and "m_chunked_content_parse_state p = PARSE_CHUNK_SIZE_START"
    and "\<not> m_payload_handler p" and "msg_chunk_cache m = []"
    and "m_read p = concat (map chunk_text ds) @ last_chunk_text @ rest"
    and "list_all (\<lambda>d. d \<noteq> [] \<and> length d < 2 ^ 63) ds" and "length (concat ds) \<le> m_max_content_length p"
  shows "\<exists>k q. parse_switch p m = Inr (k, true_value, None, q, concatenate_chunks (m\<lparr>msg_chunk_cache := concat ds\<rparr>)) \<and>
     m_read q = rest \<and> config q = config p"
proof -
  let ?p = "p\<lparr>m_bytes_last_read := 0\<rparr>"
  obtain q1 where q1: "cruns ?p [] (concat (map chunk_text ds)) q1 (concat ds)" "config q1 = config ?p"
     "m_chunked_content_parse_state q1 = PARSE_CHUNK_SIZE_START" "m_message_parse_state q1 = PARSE_CHUNKS"
    using cruns_chunks [of ?p ds "[]"] assms by auto
  obtain q2 where q2: "chunks_loop q1 (concat ds) (last_chunk_text @ rest) = (true_value, None, q2, concat ds, rest)"
     "config q2 = config q1" "m_message_parse_state q2 = PARSE_CHUNKS"
    using chunks_loop_last [OF q1(3), of "concat ds" rest] q1(4) by auto
  have l: "chunks_loop ?p [] (m_read p) = (true_value, None, q2, concat ds, rest)"
    using q1(1) q2(1) assms(5) by (simp add: cruns_def)
  let ?k = "length (m_read p) - length rest"
  let ?q = "q2\<lparr>m_read := rest, m_bytes_last_read := ?k, m_bytes_total_read := szadd (m_bytes_total_read q2) ?k,
     m_bytes_content_read := szadd (m_bytes_content_read q2) ?k\<rparr>"
  have c: "parse_chunks p (msg_chunk_cache m) = (true_value, None, ?q, concat ds)"
    using l assms(4) by (simp add: parse_chunks_def Let_def)
  have "\<not> m_payload_handler ?q" using q2(2) q1(2) assms(3) by (simp add: config_def)
  then show ?thesis
    using assms(1) c q2(2,3) q1(2) by (intro exI [of _ ?k] exI [of _ ?q]) (simp add: parse_switch_def)
qed

lemma finish_header_parsing_chunked:
  assumes "has_header m HEADER_TRANSFER_ENCODING" and "REGEX_ICASE_CHUNKED (get_header m HEADER_TRANSFER_ENCODING)"
    and "\<not> m_parse_headers_only p"
  shows "finish_header_parsing p m = (indeterminate_value, None,
     p\<lparr>m_bytes_content_remaining := 0, m_bytes_content_read := 0, m_message_parse_state := PARSE_CHUNKS\<rparr>,
     update_message_with_header_data p (m\<lparr>msg_content_length := 0, msg_is_chunked := True\<rparr>))"
proof -
  have te: "update_transfer_encoding_using_header (set_content_length 0 m) = m\<lparr>msg_content_length := 0, msg_is_chunked := True\<rparr>"
    using assms(1,2) by (simp add: update_transfer_encoding_cases set_content_length_def has_header_def get_header_def)
  show ?thesis
    unfolding finish_header_parsing_def Let_def te using assms(3) by simp
qed

definition received_chunked :: "parser \<Rightarrow> http_message \<Rightarrow> string \<Rightarrow> http_message" where
  "received_chunked p m body =
     concatenate_chunks ((update_message_with_header_data p (m\<lparr>msg_content_length := 0, msg_is_chunked := True\<rparr>))
       \<lparr>msg_chunk_cache := body\<rparr>)"

lemma parse_loop_chunked:
  assumes "m_message_parse_state p = PARSE_START" and "\<not> m_payload_handler p" and "\<not> m_parse_headers_only p"
    and "parse_headers (p\<lparr>m_message_parse_state := PARSE_HEADERS\<rparr>) m = (true_value, None, r, n)"
    and "m_message_parse_state r = PARSE_HEADERS" and "config r = config p"
    and "m_chunked_content_parse_state r = PARSE_CHUNK_SIZE_START" and "msg_chunk_cache n = []"
    and "m_read r = concat (map chunk_text ds) @ last_chunk_text @ rest"
    and "has_header n HEADER_TRANSFER_ENCODING" and "REGEX_ICASE_CHUNKED (get_header n HEADER_TRANSFER_ENCODING)"
    and "list_all (\<lambda>d. d \<noteq> [] \<and> length d < 2 ^ 63) ds" and "length (concat ds) \<le> m_max_content_length p"
  shows "\<exists>k q. parse_loop p m 0 = Inr (k, true_value, None, q, received_chunked r n (concat ds)) \<and>
    m_read q = rest \<and> config q = config p"
proof -
  let ?N = "update_message_with_header_data r (n\<lparr>msg_content_length := 0, msg_is_chunked := True\<rparr>)"
  let ?h = "p\<lparr>m_message_parse_state := PARSE_HEADERS\<rparr>"
  let ?q = "r\<lparr>m_bytes_content_remaining := 0, m_bytes_content_read := 0, m_message_parse_state := PARSE_CHUNKS\<rparr>"
  have c: "m_max_content_length r = m_max_content_length p" "\<not> m_payload_handler r" "\<not> m_parse_headers_only r"
    using assms(2,3,6) by (simp_all add: config_def)
  have sw: "parse_switch p m = Inr (m_bytes_last_read r, indeterminate_value, None, ?q, ?N)"
    unfolding parse_switch_start [OF assms(1)]
    using parse_switch_headers [of ?h m] assms(4,5) finish_header_parsing_chunked [OF assms(10,11) c(3)]
    by (simp add: headers_turn_def)
  obtain k q where q: "parse_switch ?q ?N = Inr (k, true_value, None, q, concatenate_chunks (?N\<lparr>msg_chunk_cache := concat ds\<rparr>))"
     "m_read q = rest" "config q = config ?q"
    using chunks_turn_body [of ?q ?N ds rest] assms(7-9,12,13) c by auto
  have "m_read ?q \<noteq> []" using assms(9) by (simp add: last_chunk_text_def)
  then have "parse_loop p m 0 = parse_loop ?q ?N (szadd 0 (m_bytes_last_read r))"
    using parse_loop_step [OF sw, of 0] by (simp add: eof_def)
  also have "\<dots> = Inr (szadd (szadd 0 (m_bytes_last_read r)) k, true_value, None, q, received_chunked r n (concat ds))"
    using parse_loop_step [OF q(1)] by (simp add: received_chunked_def)
  finally show ?thesis using q(2,3) assms(6) by auto
qed

lemma prepare_buffers_text:
  assumes "first_line_fresh m"
  shows "concat (fst (prepare_buffers_for_send ka uc m)) =
    (msg_first_line (update_first_line m) @ STRING_CRLF) @ header_lines (msg_headers (snd (prepare_buffers_for_send ka uc m))) @ STRING_CRLF"
  using first_line_prepared [OF assms, of ka uc]
  by (simp add: prepare_buffers_for_send_def split_beta Let_def append_headers_text)

lemma prepared_chunked_values:
  assumes "msg_dicts_ok m" and "msg_chunks_supported m"
  shows "dict_values (msg_headers (snd (prepare_buffers_for_send ka True m))) HEADER_TRANSFER_ENCODING = [''chunked'']"
proof -
  let ?p = "prepare_headers_for_send ka True m"
  let ?c = "if ka then ''Keep-Alive'' else ''close''"
  have h: "msg_headers ?p = change_value HEADER_TRANSFER_ENCODING ''chunked'' (change_value HEADER_CONNECTION ?c (msg_headers m))"
    using assms(2) by (simp add: prepare_headers_for_send_def change_header_def)
  have g: "grouped (change_value HEADER_CONNECTION ?c (msg_headers m))" "grouped (msg_headers ?p)"
    using dict_ok_headers_grouped [OF assms(1)] h grouped_change by simp_all
  have "mset (dict_values (msg_headers (append_cookie_headers (snd (get_first_line ?p)))) HEADER_TRANSFER_ENCODING) = {#''chunked''#}"
    using append_cookie_values [of "snd (get_first_line ?p)"] g h dict_values_change by simp
  then show ?thesis
    by (simp add: prepare_buffers_for_send_def split_beta Let_def mset_single_iff)
qed

lemma parse_headers_chunk_state:
  "parse_headers p m = (rc, ec, q, n) \<Longrightarrow> m_chunked_content_parse_state q = m_chunked_content_parse_state p"
  by (erule parse_headers_loop, cases "rc = false_value") (auto simp: header_frame_def)

definition sendable_chunked :: "http_message \<Rightarrow> bool" where
  "sendable_chunked m =
     (\<not> msg_is_request m \<and> msg_dicts_ok m \<and> first_line_fresh m \<and> msg_chunks_supported m \<and>
      list_all text_char (resp_status_message m) \<and> length (resp_status_message m) \<le> STATUS_MESSAGE_MAX \<and>
      unat (resp_status_code m) < 2 ^ 16)"

lemma received_chunked_response:
  assumes "\<not> m_is_request r"
  shows "resp_status_code (received_chunked r n body) = ucast (m_status_code r)"
    "resp_status_message (received_chunked r n body) = m_status_message r"
    "content_bytes (received_chunked r n body) = body" "msg_headers (received_chunked r n body) = msg_headers n"
  using assms concatenate_chunks_bytes
  by (simp_all add: received_chunked_def concatenate_chunks_result update_message_with_header_data_def first_line_setters
      content_bytes_def take_map Let_def)

lemma body_texts: "concat (map (\<lambda>d. body_text True False d) ds) = concat (map chunk_text (filter (\<lambda>d. d \<noteq> []) ds))"
  by (induction ds) (simp_all add: body_text_def)

lemma concat_filter_nonempty: "concat (filter (\<lambda>d. d \<noteq> []) ds) = concat ds"
  by (induction ds) simp_all

lemma chunked_response_lemma:
  assumes "sendable_chunked m" and "prepare_buffers_for_send ka True m = (bufs, m')"
    and "list_all header_ok (msg_headers m')" and "list_all (\<lambda>d. length d < 2 ^ 63) ds" and "length (concat ds) \<le> limit"
  shows "\<exists>q n. parse (set_read_buffer (concat bufs @ concat (map (body_text True False) ds) @ last_chunk_text @ rest)
        (new_parser False limit)) (new_response request_method) =
      Inr (true_value, None, q, n) \<and> m_read q = rest \<and> content_bytes n = concat ds \<and>
    resp_status_code n = resp_status_code m \<and> resp_status_message n = resp_status_message m \<and>
    (\<forall>k. mset (dict_values (msg_headers n) k) = mset (dict_values (msg_headers m') k))"
proof -
  let ?ds = "filter (\<lambda>d. d \<noteq> []) ds"
  let ?body = "concat (map chunk_text ?ds) @ last_chunk_text @ rest"
  let ?p = "set_read_buffer (concat bufs @ concat (map (body_text True False) ds) @ last_chunk_text @ rest) (new_parser False limit)"
  let ?ma = "new_response request_method" and ?h = "?p\<lparr>m_message_parse_state := PARSE_HEADERS\<rparr>"
  let ?line = "status_line (unat (msg_version_major m)) (unat (msg_version_minor m)) (unat (resp_status_code m)) (resp_status_message m)"
  let ?nv = "with_version (msg_version_major m) (msg_version_minor m) ?ma"
  let ?n = "add_headers (msg_headers m') ?nv"
  note ok = assms(1) [unfolded sendable_chunked_def]
  have t: "m_read ?h = ?line @ header_lines (msg_headers m') @ STRING_CRLF @ ?body"
    using prepare_buffers_text [of m ka True] assms(2) ok first_line_response [of m] body_texts [of ds]
    by (simp add: set_read_buffer_def)
  let ?qa = "(?h\<lparr>m_bytes_last_read := 0\<rparr>)\<lparr>m_status_code := of_nat (unat (resp_status_code m)),
      m_status_message := resp_status_message m, m_headers_parse_state := PARSE_HEADER_START\<rparr>"
  have run: "runs (?h\<lparr>m_bytes_last_read := 0\<rparr>) ?ma ?line ?qa ?nv"
    using runs_status_line [of "?h\<lparr>m_bytes_last_read := 0\<rparr>" "resp_status_message m" ?ma "unat (msg_version_major m)"
        "unat (msg_version_minor m)" "unat (resp_status_code m)"] ok
    by (simp add: set_read_buffer_def new_parser_def)
  obtain r where r: "parse_headers ?h ?ma = (true_value, None, r, ?n)" "m_read r = ?body"
      "config r = config ?h" "m_message_parse_state r = PARSE_HEADERS"
      "m_status_code r = of_nat (unat (resp_status_code m))" "m_status_message r = resp_status_message m"
    by (rule parse_headers_block [OF t run]) (use assms(3) in \<open>simp_all add: set_read_buffer_def new_parser_def\<close>)
  have rr: "\<not> m_is_request r" using r(3) by (simp add: config_def set_read_buffer_def new_parser_def)
  have start: "m_chunked_content_parse_state r = PARSE_CHUNK_SIZE_START"
    using parse_headers_chunk_state [OF r(1)] by (simp add: set_read_buffer_def new_parser_def)
  have empty: "msg_headers ?nv = []" by (simp add: new_response_def empty_message_def)
  have vals: "mset (dict_values (msg_headers ?n) k) = mset (dict_values (msg_headers m') k)" for k
    using add_headers_values [of ?nv "msg_headers m'"] empty by (simp add: grouped_def folded_keys_def dict_values_def)
  have te: "dict_values (msg_headers ?n) HEADER_TRANSFER_ENCODING = [''chunked'']"
    using vals [of HEADER_TRANSFER_ENCODING] prepared_chunked_values [of m ka] ok assms(2) by (simp add: mset_single_iff)
  have ch: "has_header ?n HEADER_TRANSFER_ENCODING" "REGEX_ICASE_CHUNKED (get_header ?n HEADER_TRANSFER_ENCODING)"
  proof -
    show "has_header ?n HEADER_TRANSFER_ENCODING" using te by (simp add: has_header_values)
    have "get_header ?n HEADER_TRANSFER_ENCODING = ''chunked''" using te by (simp add: get_header_def get_value_values)
    moreover have "REGEX_ICASE_CHUNKED ''chunked''" by code_simp
    ultimately show "REGEX_ICASE_CHUNKED (get_header ?n HEADER_TRANSFER_ENCODING)" by simp
  qed
  have ds: "list_all (\<lambda>d. d \<noteq> [] \<and> length d < 2 ^ 63) ?ds" using assms(4) by (auto simp: list_all_iff)
  obtain k q where l: "parse_loop ?p ?ma 0 = Inr (k, true_value, None, q, received_chunked r ?n (concat ds))"
    and q: "m_read q = rest" "config q = config ?p"
    using parse_loop_chunked [OF _ _ _ r(1) r(4) _ start _ r(2) ch ds] r(3) assms(5) concat_filter_nonempty [of ds]
    by (auto simp: set_read_buffer_def new_parser_def config_def add_headers_def new_response_def empty_message_def)
  have "\<not> m_is_request q" "mark_missing ?ma = ?ma"
    using q(2) by (simp_all add: config_def set_read_buffer_def new_parser_def mark_missing_def new_response_def empty_message_def)
  from parse_response_end [OF l this(2,1)] obtain st where
    e: "parse ?p ?ma = Inr (true_value, None, q\<lparr>m_message_parse_state := PARSE_END, m_bytes_last_read := k\<rparr>,
     (received_chunked r ?n (concat ds))\<lparr>msg_is_valid := True, msg_status := st\<rparr>)"
    by blast
  have c: "content_bytes ((received_chunked r ?n (concat ds))\<lparr>msg_is_valid := True, msg_status := st\<rparr>) = concat ds"
    using received_chunked_response(3) [OF rr, of ?n "concat ds"] by (simp add: content_bytes_def)
  show ?thesis
    unfolding e using q(1) c received_chunked_response [OF rr, of ?n "concat ds"] r(5,6) vals ok ucast_status by simp
qed

section \<open>Properties\<close>

text \<open>C4: Chunked transfer, end to end. What a writer sends in chunks to an open connection, whatever the
  chunks and however their data was written, is parsed by a response parser, whatever follows: it returns
  \<^verbatim>\<open>true\<close> without error, the content is the concatenation of all data written, status and headers are
  those of the response, and what follows is left unread.\<close>

theorem chunked_end_to_end:
  assumes "m_client_supports_chunks w" and "is_open (m_tcp_conn w)" and "\<not> m_sent_headers w" and "c_written (m_tcp_conn w) = []"
    and "sendable_chunked (m_http_message w)"
    and "prepare_buffers_for_send (get_keep_alive (m_tcp_conn w)) True (m_http_message w) = (bufs, m')"
    and "list_all header_ok (msg_headers m')"
    and "length (concat (map (\<lambda>calls. concat (map write_call_data calls)) pieces)) \<le> limit" and "limit < 2 ^ 63"
  shows "\<exists>q n. parse (set_read_buffer (concat (c_written (m_tcp_conn (send_pieces pieces w))) @ rest) (new_parser False limit))
        (new_response request_method) = Inr (true_value, None, q, n) \<and> m_read q = rest \<and>
    content_bytes n = concat (map (\<lambda>calls. concat (map write_call_data calls)) pieces) \<and>
    resp_status_code n = resp_status_code (m_http_message w) \<and> resp_status_message n = resp_status_message (m_http_message w) \<and>
    (\<forall>k. mset (dict_values (msg_headers n) k) = mset (dict_values (msg_headers m') k))"
proof -
  let ?ds = "map piece_data pieces"
  have le: "length d \<le> limit" if "d \<in> set ?ds" for d
  proof -
    have "length d \<le> length (concat ?ds)" using that by (auto simp: length_concat intro!: member_le_sum_list)
    then show ?thesis using assms(8) by simp
  qed
  have small: "list_all (\<lambda>d. length d < 2 ^ 63) ?ds"
    unfolding list_all_iff using le assms(9) by (meson le_less_trans)
  then have small': "list_all (\<lambda>calls. length (piece_data calls) < 2 ^ 64) pieces" by (auto simp: list_all_iff)
  have m: "concat (map (\<lambda>calls. body_text True False (piece_data calls)) pieces) = concat (map (body_text True False) ?ds)"
    by (simp add: comp_def)
  have "concat (c_written (m_tcp_conn (send_pieces pieces w))) =
      concat bufs @ concat (map (body_text True False) ?ds) @ last_chunk_text"
    using send_pieces_text [of w pieces] small' assms(1-4,6) unfolding m by (simp add: chunk_ready_def written_def)
  then show ?thesis
    using chunked_response_lemma [OF assms(5-7) small assms(8), of rest request_method] by (simp only: append.assoc)
qed

theorem chunked_end_to_end_witness:
  "\<exists>q n. parse (set_read_buffer (concat (c_written (m_tcp_conn (send_pieces [[Write_text ''Hello, ''], [Write_binary ''world'', Write_text ''!'']]
        (new_writer (open_connection 1 (new_connection False False)) ((new_response ''GET'')\<lparr>msg_chunks_supported := True\<rparr>))))) @ ''HTTP'') (new_parser False 100))
        (new_response ''GET'') = Inr (true_value, None, q, n) \<and> m_read q = ''HTTP'' \<and> content_bytes n = ''Hello, world!''"
proof -
  let ?r = "(new_response ''GET'')\<lparr>msg_chunks_supported := True\<rparr>"
  let ?w = "new_writer (open_connection 1 (new_connection False False)) ?r"
  have a: "m_client_supports_chunks ?w" "is_open (m_tcp_conn ?w)" "\<not> m_sent_headers ?w" "c_written (m_tcp_conn ?w) = []"
      "m_http_message ?w = ?r" "get_keep_alive (m_tcp_conn ?w) = False"
    by (simp_all add: new_writer_def open_connection_def is_open_def new_connection_def get_keep_alive_def)
  have s: "sendable_chunked ?r" by code_simp
  obtain bufs m' where b: "prepare_buffers_for_send False True ?r = (bufs, m')" by fastforce
  have "list_all header_ok (msg_headers (snd (prepare_buffers_for_send False True ?r)))" by code_simp
  then have h: "list_all header_ok (msg_headers m')" using b by simp
  show ?thesis
    using chunked_end_to_end [of ?w bufs m' "[[Write_text ''Hello, ''], [Write_binary ''world'', Write_text ''!'']]" 100 "''HTTP''" "''GET''"]
      a s b h by auto
qed

text \<open>C34: A chunked body that does not fit never ends. Once the chunk cache has reached the configured maximum
  in the middle of a chunk, every further byte is consumed and none is counted: however many buffers
  follow, with whatever content, the parser without payload handler asks for more and neither completes
  the message nor reports an error.\<close>

theorem chunk_overflow_never_ends:
  assumes "m_message_parse_state p = PARSE_CHUNKS" and "m_chunked_content_parse_state p = PARSE_CHUNK"
    and "\<not> m_payload_handler p" and "m_bytes_read_in_current_chunk p < m_size_of_current_chunk p"
    and "m_max_content_length p \<le> length (msg_chunk_cache m)"
  shows "\<exists>q n. feed p m buffers = Inr (indeterminate_value, None, q, n) \<and> msg_chunk_cache n = msg_chunk_cache m"
  using feed_full [OF assms] .

theorem chunk_overflow_never_ends_witness:
  "\<exists>q n r k. parse (set_read_buffer (''POST / HTTP/1.1'' @ STRING_CRLF @ ''Transfer-Encoding: chunked'' @ STRING_CRLF @ STRING_CRLF @
        ''4'' @ STRING_CRLF @ ''abc'') (new_parser True 2)) (empty_message True) = Inr (indeterminate_value, None, q, n) \<and>
     feed q n [''d'', STRING_CRLF, ''0'', STRING_CRLF, STRING_CRLF] = Inr (indeterminate_value, None, r, k)"
proof -
  let ?p = "set_read_buffer (''POST / HTTP/1.1'' @ STRING_CRLF @ ''Transfer-Encoding: chunked'' @ STRING_CRLF @ STRING_CRLF @
        ''4'' @ STRING_CRLF @ ''abc'') (new_parser True 2)"
  have "case parse ?p (empty_message True) of Inl _ \<Rightarrow> False | Inr (rc, ec, q, n) \<Rightarrow>
      rc = indeterminate_value \<and> ec = None \<and> m_message_parse_state q = PARSE_CHUNKS \<and>
      m_chunked_content_parse_state q = PARSE_CHUNK \<and> \<not> m_payload_handler q \<and>
      m_bytes_read_in_current_chunk q < m_size_of_current_chunk q \<and> m_max_content_length q \<le> length (msg_chunk_cache n)"
    by code_simp
  then obtain q n where r: "parse ?p (empty_message True) = Inr (indeterminate_value, None, q, n)"
      "m_message_parse_state q = PARSE_CHUNKS" "m_chunked_content_parse_state q = PARSE_CHUNK" "\<not> m_payload_handler q"
      "m_bytes_read_in_current_chunk q < m_size_of_current_chunk q" "m_max_content_length q \<le> length (msg_chunk_cache n)"
    by (cases "parse ?p (empty_message True)") auto
  from chunk_overflow_never_ends [OF r(2-6), of "[''d'', STRING_CRLF, ''0'', STRING_CRLF, STRING_CRLF]"] r(1) show ?thesis
    by blast
qed

text \<open>A request line without version is accepted, as HTTP/0.9 has it, but not with a space behind the
  resource: in the state that expects the version the code overwrites the state it has just set for the
  end of the line, and the request is refused with a version error, whatever follows.\<close>

theorem space_before_line_end:
  "\<exists>q n q' n'. parse (set_read_buffer (''GET / '' @ STRING_CRLF @ rest) (new_parser True 100)) (empty_message True) =
       Inr (false_value, Some ERROR_VERSION_CHAR, q, n) \<and>
     parse (set_read_buffer (''GET /'' @ STRING_CRLF @ rest) (new_parser True 100)) (empty_message True) =
       Inr (true_value, None, q', n')"
proof -
  let ?p = "\<lambda>s. set_read_buffer s (new_parser True 100)" and ?m = "empty_message True"
  have inv: "\<not> m_payload_handler (?p s)" "content_inv (?p s) ?m" for s
    by (simp_all add: set_read_buffer_def new_parser_def content_inv_def)
  have ap: "(?p s)\<lparr>m_read := m_read (?p s) @ rest\<rparr> = ?p (s @ rest)" for s by (simp add: set_read_buffer_def)
  have "case parse (?p (''GET / '' @ STRING_CRLF)) ?m of Inl _ \<Rightarrow> False | Inr (rc, ec, q, n) \<Rightarrow> rc = false_value \<and> ec = Some ERROR_VERSION_CHAR"
    by code_simp
  then obtain q n where a: "parse (?p (''GET / '' @ STRING_CRLF)) ?m = Inr (false_value, Some ERROR_VERSION_CHAR, q, n)"
    by (cases "parse (?p (''GET / '' @ STRING_CRLF)) ?m") auto
  have "case parse (?p (''GET /'' @ STRING_CRLF)) ?m of Inl _ \<Rightarrow> False | Inr (rc, ec, q, n) \<Rightarrow> rc = true_value \<and> ec = None"
    by code_simp
  then obtain q' n' where b: "parse (?p (''GET /'' @ STRING_CRLF)) ?m = Inr (true_value, None, q', n')"
    by (cases "parse (?p (''GET /'' @ STRING_CRLF)) ?m") auto
  show ?thesis
    using parse_pipelined_lemma [OF inv a, of rest] parse_pipelined_lemma [OF inv b, of rest] unfolding ap by auto
qed

text \<open>A multipart body in which the boundary follows directly on the empty line of a part makes the parser
  compute a negative length: parsing the request ends in a length error exception instead of a result.\<close>

theorem multipart_empty_field_throws:
  "parse (set_read_buffer (''POST / HTTP/1.1'' @ STRING_CRLF @ ''Content-Type: multipart/form-data; boundary=B'' @ STRING_CRLF @
      ''Content-Length: 54'' @ STRING_CRLF @ STRING_CRLF @
      ''--B'' @ STRING_CRLF @ ''Content-Disposition: form-data; name='' @ [DQUOTE] @ ''a'' @ [DQUOTE] @ STRING_CRLF @ STRING_CRLF @ ''--B--'')
     (new_parser True 1000)) (empty_message True) = Inl Length_error"
  by code_simp

end
