(* ===== verification/Ordered_Map.thy ===== *)
theory Ordered_Map
  imports Pion_Prelude "HOL-Library.Char_ord" "HOL-Library.List_Lexorder"
begin

text \<open>
  The ordered containers of the standard library as the program uses them: \<^verbatim>\<open>std::map<std::string, T>\<close>
  is a list of pairs and \<^verbatim>\<open>std::set<std::string>\<close> a list, both strictly increasing in the key.
  Strings compare byte by byte as unsigned characters, a proper prefix being smaller, which is the order
  of the library theories imported here. The second part is the search that the HTTP server, the
  authentication and the plug-in manager share: from the last key that is not greater than a resource
  downward, to the first key that is the resource or one of its parent paths.
\<close>

type_synonym 'v omap = "(string \<times> 'v) list"

definition omap_ok :: "'v omap \<Rightarrow> bool" where
  "omap_ok m = sorted_wrt (<) (map fst m)"

definition omap_find :: "'v omap \<Rightarrow> string \<Rightarrow> 'v option" where
  "omap_find m k = map_of m k"

text \<open>\<^verbatim>\<open>insert\<close> leaves the map alone when the key is present.\<close>

fun omap_insert :: "string \<Rightarrow> 'v \<Rightarrow> 'v omap \<Rightarrow> 'v omap" where
  "omap_insert k v [] = [(k, v)]"
| "omap_insert k v (e # m) =
     (if k < fst e then (k, v) # e # m else if k = fst e then e # m else e # omap_insert k v m)"

text \<open>Assignment to the value an iterator points to.\<close>

definition omap_assign :: "string \<Rightarrow> 'v \<Rightarrow> 'v omap \<Rightarrow> 'v omap" where
  "omap_assign k v m = map (\<lambda>e. if fst e = k then (k, v) else e) m"

definition omap_erase :: "string \<Rightarrow> 'v omap \<Rightarrow> 'v omap" where
  "omap_erase k m = filter (\<lambda>e. fst e \<noteq> k) m"

text \<open>The elements before the iterator \<^verbatim>\<open>upper_bound\<close> returns.\<close>

definition omap_upto :: "string \<Rightarrow> 'v omap \<Rightarrow> 'v omap" where
  "omap_upto k m = takeWhile (\<lambda>e. fst e \<le> k) m"

text \<open>A set is a map to the unit type.\<close>

definition oset_insert :: "string \<Rightarrow> unit omap \<Rightarrow> unit omap" where
  "oset_insert k s = omap_insert k () s"

section \<open>Lemmas on the containers\<close>

lemma omap_ok_Nil [simp]: "omap_ok []"
  by (simp add: omap_ok_def)

lemma omap_ok_Cons: "omap_ok (e # m) \<longleftrightarrow> (\<forall>e' \<in> set m. fst e < fst e') \<and> omap_ok m"
  by (simp add: omap_ok_def)

lemma omap_find_Nil [simp]: "omap_find [] k = None"
  by (simp add: omap_find_def)

lemma omap_find_Cons: "omap_find (e # m) k = (if fst e = k then Some (snd e) else omap_find m k)"
  by (cases e) (simp add: omap_find_def)

lemma omap_find_member: "omap_find m k = Some v \<Longrightarrow> (k, v) \<in> set m"
  by (simp add: omap_find_def map_of_SomeD)

lemma omap_ok_distinct: "omap_ok m \<Longrightarrow> distinct (map fst m)"
  by (simp add: omap_ok_def strict_sorted_iff)

lemma member_omap_find: "omap_ok m \<Longrightarrow> (k, v) \<in> set m \<Longrightarrow> omap_find m k = Some v"
  by (simp add: omap_find_def omap_ok_distinct)

lemma omap_find_None: "omap_find m k = None \<longleftrightarrow> k \<notin> fst ` set m"
  by (simp add: omap_find_def map_of_eq_None_iff)

lemma set_omap_insert: "set (omap_insert k v m) \<subseteq> insert (k, v) (set m)"
  by (induction m) auto

lemma omap_ok_insert [simp]:
  assumes "omap_ok m" shows "omap_ok (omap_insert k v m)"
  using assms
proof (induction m)
  case (Cons e m)
  have "fst e < fst e'" if "\<not> k < fst e" "k \<noteq> fst e" "e' \<in> set (omap_insert k v m)" for e'
    using that Cons.prems set_omap_insert [of k v m] by (auto simp: omap_ok_Cons)
  then show ?case using Cons by (auto simp: omap_ok_Cons intro: less_trans)
qed (simp add: omap_ok_def)

lemma omap_find_insert:
  assumes "omap_ok m"
  shows "omap_find (omap_insert k v m) k' = (if k' = k \<and> omap_find m k = None then Some v else omap_find m k')"
  using assms
proof (induction m)
  case (Cons e m)
  have "omap_find m k = None" if "k < fst e"
    using that Cons.prems by (auto simp: omap_find_None omap_ok_Cons)
  then show ?case using Cons by (auto simp: omap_find_Cons omap_ok_Cons)
qed (simp add: omap_find_Cons)

lemma map_fst_omap_assign [simp]: "map fst (omap_assign k v m) = map fst m"
  by (induction m) (auto simp: omap_assign_def)

lemma omap_ok_assign [simp]: "omap_ok (omap_assign k v m) = omap_ok m"
  by (simp add: omap_ok_def)

lemma omap_find_assign:
  "omap_find (omap_assign k v m) k' = (if k' = k \<and> omap_find m k \<noteq> None then Some v else omap_find m k')"
  by (induction m) (auto simp: omap_assign_def omap_find_Cons)

lemma omap_ok_filter: "omap_ok m \<Longrightarrow> omap_ok (filter P m)"
  by (induction m) (auto simp: omap_ok_Cons)

lemma omap_ok_erase [simp]: "omap_ok m \<Longrightarrow> omap_ok (omap_erase k m)"
  by (simp add: omap_erase_def omap_ok_filter)

lemma omap_find_erase: "omap_find (omap_erase k m) k' = (if k' = k then None else omap_find m k')"
  by (induction m) (auto simp: omap_erase_def omap_find_Cons)

lemma omap_find_filter:
  "omap_ok m \<Longrightarrow> omap_find (filter P m) k = (case omap_find m k of None \<Rightarrow> None | Some v \<Rightarrow> if P (k, v) then Some v else None)"
proof (induction m)
  case (Cons e m)
  have "omap_find m (fst e) = None" using Cons.prems by (auto simp: omap_find_None omap_ok_Cons)
  then show ?case using Cons by (cases e) (auto simp: omap_find_Cons omap_ok_Cons)
qed simp

lemma set_omap_upto: "omap_ok m \<Longrightarrow> set (omap_upto k m) = {e \<in> set m. fst e \<le> k}"
  by (induction m) (auto simp: omap_upto_def omap_ok_Cons)

lemma omap_ok_upto: "omap_ok m \<Longrightarrow> omap_ok (omap_upto k m)"
  by (induction m) (auto simp: omap_upto_def omap_ok_Cons dest: set_takeWhileD)

section \<open>Search for a resource\<close>

text \<open>
  The test on a key, as all three searches write it: the resource starts with the key, and is the key or
  goes on with a slash.
\<close>

definition resource_matches :: "string \<Rightarrow> string \<Rightarrow> bool" where
  "resource_matches resource key =
     ((key = [] \<or> take (length key) resource = key) \<and>
      (length resource = length key \<or> resource ! length key = CHR ''/''))"

text \<open>The loop that steps an iterator downward until the test holds or the first element was tested.\<close>

definition search_down :: "('a \<Rightarrow> bool) \<Rightarrow> 'a list \<Rightarrow> 'a option" where
  "search_down P es = List.find P (rev es)"

definition search_resource :: "'v omap \<Rightarrow> string \<Rightarrow> (string \<times> 'v) option" where
  "search_resource m resource = search_down (\<lambda>e. resource_matches resource (fst e)) (omap_upto resource m)"

text \<open>The keys that match are the resource itself and its parent paths; indexing stays inside of the resource.\<close>

lemma resource_matches_iff:
  "resource_matches resource key \<longleftrightarrow> resource = key \<or> (\<exists>rest. resource = key @ CHR ''/'' # rest)" (is "?l \<longleftrightarrow> ?r")
proof
  assume l: ?l
  then have t: "take (length key) resource = key" by (auto simp: resource_matches_def)
  show ?r
  proof (cases "length resource = length key")
    case False
    then have "length key < length resource" using t by (metis length_take min_def nat_less_le not_le)
    then show ?thesis using l False t
      by (metis append_take_drop_id Cons_nth_drop_Suc resource_matches_def)
  qed (use t in simp)
qed (auto simp: resource_matches_def)

lemma append_le: "(xs :: string) \<le> xs @ ys"
  by (induction xs) auto

lemma resource_matches_le: "resource_matches resource key \<Longrightarrow> key \<le> resource"
  by (auto simp: resource_matches_iff append_le)

lemma resource_matches_take: "resource_matches resource key \<Longrightarrow> key = take (length key) resource"
  by (auto simp: resource_matches_iff)

lemma matches_length_le:
  assumes "resource_matches resource k" and "resource_matches resource k'" and "k' \<le> k"
  shows "length k' \<le> length k"
proof (rule ccontr)
  assume *: "\<not> length k' \<le> length k"
  then have "k = take (length k) k'"
    using assms(1,2) [THEN resource_matches_take] by (metis min_def nle_le take_take)
  then have "k \<le> k'" using append_le [of k "drop (length k) k'"] by (metis append_take_drop_id)
  with assms(3) have "k = k'" by simp
  with * show False by simp
qed

lemma search_down_None: "search_down P es = None \<longleftrightarrow> (\<forall>e \<in> set es. \<not> P e)"
  by (auto simp: search_down_def find_None_iff)

lemma search_down_Some:
  assumes "omap_ok es" and "search_down P es = Some e"
  shows "e \<in> set es \<and> P e \<and> (\<forall>e' \<in> set es. P e' \<longrightarrow> fst e' \<le> fst e)"
  using assms
proof (induction es rule: rev_induct)
  case (snoc x es)
  have s: "omap_ok es" "\<forall>e' \<in> set es. fst e' < fst x"
    using snoc.prems(1) by (auto simp: omap_ok_def sorted_wrt_append)
  show ?case
  proof (cases "P x")
    case True
    then show ?thesis using snoc.prems(2) s(2) by (auto simp: search_down_def intro: less_imp_le)
  next
    case False
    then have "search_down P es = Some e" using snoc.prems(2) by (simp add: search_down_def)
    then show ?thesis using snoc.IH s False by auto
  qed
qed (simp add: search_down_def)

text \<open>The search decides whether any key matches, and finds the longest of the keys that do.\<close>

lemma search_resource_None:
  assumes "omap_ok m"
  shows "search_resource m resource = None \<longleftrightarrow> (\<forall>k. resource_matches resource k \<longrightarrow> omap_find m k = None)"
  using assms resource_matches_le [of resource]
  by (force simp: search_resource_def search_down_None set_omap_upto omap_find_None image_iff)

lemma search_resource_Some:
  assumes "omap_ok m" and "search_resource m resource = Some (k, v)"
  shows "omap_find m k = Some v" and "resource_matches resource k"
    and "resource_matches resource k' \<Longrightarrow> omap_find m k' \<noteq> None \<Longrightarrow> length k' \<le> length k"
proof -
  have *: "(k, v) \<in> set (omap_upto resource m)" "resource_matches resource k"
      "\<forall>e' \<in> set (omap_upto resource m). resource_matches resource (fst e') \<longrightarrow> fst e' \<le> k"
    using search_down_Some [OF omap_ok_upto [OF assms(1)], of "\<lambda>e. resource_matches resource (fst e)" resource "(k, v)"]
      assms(2) by (auto simp: search_resource_def)
  show "omap_find m k = Some v" using *(1) assms(1) by (simp add: set_omap_upto member_omap_find)
  show "resource_matches resource k" by (rule *(2))
  assume m: "resource_matches resource k'" "omap_find m k' \<noteq> None"
  then obtain v' where "(k', v') \<in> set m" by (auto dest: omap_find_member)
  then have "k' \<le> k" using *(3) m(1) resource_matches_le [OF m(1)] assms(1) by (auto simp: set_omap_upto)
  then show "length k' \<le> length k" using matches_length_le *(2) m(1) by blast
qed

text \<open>
  The contract of such a search, for the components that rely on it: a table with a lookup by exact key,
  and a search that gives the value of the longest matching key.
\<close>

locale resource_search =
  fixes inv :: "'m \<Rightarrow> bool" and lookup :: "'m \<Rightarrow> string \<Rightarrow> 'v option" and search :: "'m \<Rightarrow> string \<Rightarrow> 'v option"
  assumes search_none: "inv m \<Longrightarrow> search m r = None \<longleftrightarrow> (\<forall>k. resource_matches r k \<longrightarrow> lookup m k = None)"
    and search_some: "inv m \<Longrightarrow> search m r = Some v \<Longrightarrow> \<exists>k. lookup m k = Some v \<and> resource_matches r k \<and>
      (\<forall>k'. resource_matches r k' \<longrightarrow> lookup m k' \<noteq> None \<longrightarrow> length k' \<le> length k)"
begin

lemma search_longest:
  assumes "inv m" and "lookup m k = Some v" and "resource_matches r k"
    and "\<And>k'. resource_matches r k' \<Longrightarrow> lookup m k' \<noteq> None \<Longrightarrow> length k' \<le> length k"
  shows "search m r = Some v"
proof -
  have "search m r \<noteq> None" using search_none [OF assms(1)] assms(2,3) by auto
  then obtain v' where v': "search m r = Some v'" by auto
  then obtain k' where k': "lookup m k' = Some v'" "resource_matches r k'" "length k \<le> length k'"
    using search_some [OF assms(1) v'] assms(2,3) by auto
  then have "length k' = length k" using assms(4) [of k'] by simp
  then have "k' = k" using resource_matches_take [OF assms(3)] resource_matches_take [OF k'(2)] by metis
  then show ?thesis using v' k'(1) assms(2) by simp
qed

lemma search_exact:
  assumes "inv m" and "lookup m r = Some v"
  shows "search m r = Some v"
  by (rule search_longest [OF assms]) (auto simp: resource_matches_iff)

lemma search_iff:
  assumes "inv m"
  shows "search m r = Some v \<longleftrightarrow> (\<exists>k. lookup m k = Some v \<and> resource_matches r k \<and>
      (\<forall>k'. resource_matches r k' \<longrightarrow> lookup m k' \<noteq> None \<longrightarrow> length k' \<le> length k))"
  using search_some [OF assms] search_longest [OF assms] by blast

end

interpretation ordered: resource_search omap_ok omap_find "\<lambda>m r. map_option snd (search_resource m r)"
proof (unfold_locales, goal_cases)
  case (1 m r)
  then show ?case using search_resource_None by simp
next
  case (2 m r v)
  then obtain k where k: "search_resource m r = Some (k, v)" by (auto simp: map_option_case split: option.splits)
  show ?case using search_resource_Some [OF 2(1) k] by blast
qed

end
