(* ===== verification/User_Manager.thy ===== *)
theory User_Manager
  imports Algorithm Ordered_Map
begin

text \<open>
  Users and their passwords (\<^verbatim>\<open>include/pion/user.hpp\<close>). The class keeps plain passwords in a build
  without OpenSSL and digests in a build with it; the parameter \<open>crypto\<close> is the build: \<^const>\<open>None\<close>
  without OpenSSL, and \<open>Some (SHA256, SHA1)\<close> with its two digest functions. A \<^verbatim>\<open>user_ptr\<close> is shared
  between the manager and whoever looked the user up, so the users live in a store and a pointer is an
  index into it. The mutex makes every operation atomic.
\<close>

type_synonym crypto = "((string \<Rightarrow> string) \<times> (string \<Rightarrow> string)) option"

abbreviation SHA256_DIGEST_LENGTH :: nat where "SHA256_DIGEST_LENGTH \<equiv> 32"
abbreviation SHA_DIGEST_LENGTH :: nat where "SHA_DIGEST_LENGTH \<equiv> 20"

datatype password_hash_type_t = EMPTY | SHA_1 | SHA_256

record user =
  m_username :: string
  m_password :: string
  m_password_hash_type :: password_hash_type_t
  m_password_hash :: string

text \<open>The hash array is not initialised; it is not read while the hash type is \<^const>\<open>EMPTY\<close>.\<close>

definition new_user :: "string \<Rightarrow> user" where
  "new_user username =
     \<lparr> m_username = username, m_password = [], m_password_hash_type = EMPTY,
       m_password_hash = replicate SHA256_DIGEST_LENGTH NUL \<rparr>"

definition match_password :: "crypto \<Rightarrow> string \<Rightarrow> user \<Rightarrow> bool" where
  "match_password crypto password u =
     (case crypto of
        Some (SHA256, SHA1) \<Rightarrow>
          (if m_password_hash_type u = SHA_256 then
             take SHA256_DIGEST_LENGTH (SHA256 password) = take SHA256_DIGEST_LENGTH (m_password_hash u)
           else if m_password_hash_type u = SHA_1 then
             take SHA_DIGEST_LENGTH (SHA1 password) = take SHA_DIGEST_LENGTH (m_password_hash u)
           else False)
      | None \<Rightarrow> m_password u = password)"

text \<open>Each byte of the digest is printed with \<^verbatim>\<open>%.2x\<close>.\<close>

definition hex_byte :: "char \<Rightarrow> string" where
  "hex_byte c = [lower_digit (byte_val c div 16), lower_digit (byte_val c mod 16)]"

definition set_password :: "crypto \<Rightarrow> string \<Rightarrow> user \<Rightarrow> user" where
  "set_password crypto password u =
     (case crypto of
        Some (SHA256, SHA1) \<Rightarrow>
          (let hash = take SHA256_DIGEST_LENGTH (SHA256 password)
           in u\<lparr>m_password_hash := hash, m_password_hash_type := SHA_256, m_password := concat (map hex_byte hash)\<rparr>)
      | None \<Rightarrow> u\<lparr>m_password := password\<rparr>)"

definition new_user_password :: "crypto \<Rightarrow> string \<Rightarrow> string \<Rightarrow> user" where
  "new_user_password crypto username password = set_password crypto password (new_user username)"

text \<open>
  The conversion of \<^verbatim>\<open>set_password_hash\<close> from text to bytes. It reads two characters at a time: at an
  odd length it steps over the end of the string, and behind the last byte of the array it writes out of
  bounds; both are \<^const>\<open>None\<close>.
\<close>

fun hash_loop :: "string \<Rightarrow> nat \<Rightarrow> string \<Rightarrow> string option" where
  "hash_loop hash hash_pos [] = Some hash"
| "hash_loop hash hash_pos [a] = None"
| "hash_loop hash hash_pos (a # b # str) =
     (if hash_pos < length hash
      then hash_loop (hash[hash_pos := int_to_char (strtol 16 [a, b])]) (hash_pos + 1) str else None)"

definition set_password_hash :: "string \<Rightarrow> user \<Rightarrow> user option" where
  "set_password_hash password_hash u =
     (let u = (if length password_hash = SHA256_DIGEST_LENGTH * 2 then u\<lparr>m_password_hash_type := SHA_256\<rparr>
               else if length password_hash = SHA_DIGEST_LENGTH * 2 then u\<lparr>m_password_hash_type := SHA_1\<rparr>
               else u);
          u = u\<lparr>m_password := password_hash\<rparr>
      in map_option (\<lambda>hash. u\<lparr>m_password_hash := hash\<rparr>) (hash_loop (m_password_hash u) 0 password_hash))"

section \<open>The user manager\<close>

record user_manager =
  um_store :: "user list"
  m_users :: "nat omap"

definition new_user_manager :: user_manager where
  "new_user_manager = \<lparr>um_store = [], m_users = []\<rparr>"

definition users_empty :: "user_manager \<Rightarrow> bool" where
  "users_empty um = (m_users um = [])"

text \<open>\<^verbatim>\<open>new user\<close>: the next index of the store.\<close>

definition insert_user :: "string \<Rightarrow> user \<Rightarrow> user_manager \<Rightarrow> user_manager" where
  "insert_user username u um =
     um\<lparr>um_store := um_store um @ [u], m_users := omap_insert username (length (um_store um)) (m_users um)\<rparr>"

definition add_user :: "crypto \<Rightarrow> string \<Rightarrow> string \<Rightarrow> user_manager \<Rightarrow> bool \<times> user_manager" where
  "add_user crypto username password um =
     (case omap_find (m_users um) username of
        Some _ \<Rightarrow> (False, um)
      | None \<Rightarrow> (True, insert_user username (new_user_password crypto username password) um))"

definition update_user :: "crypto \<Rightarrow> string \<Rightarrow> string \<Rightarrow> user_manager \<Rightarrow> bool \<times> user_manager" where
  "update_user crypto username password um =
     (case omap_find (m_users um) username of
        None \<Rightarrow> (False, um)
      | Some i \<Rightarrow> (True, um\<lparr>um_store := (um_store um)[i := set_password crypto password (um_store um ! i)]\<rparr>))"

definition add_user_hash :: "string \<Rightarrow> string \<Rightarrow> user_manager \<Rightarrow> (bool \<times> user_manager) option" where
  "add_user_hash username password_hash um =
     (case omap_find (m_users um) username of
        Some _ \<Rightarrow> Some (False, um)
      | None \<Rightarrow> map_option (\<lambda>u. (True, insert_user username u um)) (set_password_hash password_hash (new_user username)))"

definition update_user_hash :: "string \<Rightarrow> string \<Rightarrow> user_manager \<Rightarrow> (bool \<times> user_manager) option" where
  "update_user_hash username password_hash um =
     (case omap_find (m_users um) username of
        None \<Rightarrow> Some (False, um)
      | Some i \<Rightarrow> map_option (\<lambda>u. (True, um\<lparr>um_store := (um_store um)[i := u]\<rparr>))
                   (set_password_hash password_hash (um_store um ! i)))"

definition remove_user :: "string \<Rightarrow> user_manager \<Rightarrow> bool \<times> user_manager" where
  "remove_user username um =
     (case omap_find (m_users um) username of
        None \<Rightarrow> (False, um)
      | Some _ \<Rightarrow> (True, um\<lparr>m_users := omap_erase username (m_users um)\<rparr>))"

definition get_user :: "string \<Rightarrow> user_manager \<Rightarrow> nat option" where
  "get_user username um = omap_find (m_users um) username"

definition get_user_password :: "crypto \<Rightarrow> string \<Rightarrow> string \<Rightarrow> user_manager \<Rightarrow> nat option" where
  "get_user_password crypto username password um =
     (case omap_find (m_users um) username of
        None \<Rightarrow> None
      | Some i \<Rightarrow> if \<not> match_password crypto password (um_store um ! i) then None else Some i)"

section \<open>Invariant\<close>

text \<open>The map is ordered, its pointers are valid, no two names share a user, and a user has the name it is listed under.\<close>

definition users_ok :: "user_manager \<Rightarrow> bool" where
  "users_ok um =
     (omap_ok (m_users um) \<and> distinct (map snd (m_users um)) \<and>
      list_all (\<lambda>(name, i). i < length (um_store um) \<and> m_username (um_store um ! i) = name) (m_users um))"

lemma users_okD:
  assumes "users_ok um" and "omap_find (m_users um) name = Some i"
  shows "i < length (um_store um)" and "m_username (um_store um ! i) = name"
  using assms omap_find_member [OF assms(2)] by (auto simp: users_ok_def list_all_iff)

lemma users_ok_same:
  assumes "users_ok um" and "omap_find (m_users um) name = Some i" and "omap_find (m_users um) name' = Some i"
  shows "name' = name"
  using users_okD(2) [OF assms(1)] assms(2,3) by metis

lemma username_setters [simp]:
  "m_username (set_password crypto password u) = m_username u"
  "m_username (new_user username) = username"
  "m_username (new_user_password crypto username password) = username"
  by (simp_all add: set_password_def new_user_def new_user_password_def Let_def split: option.split prod.split)

lemma username_set_password_hash:
  assumes "set_password_hash password_hash u = Some u'"
  shows "m_username u' = m_username u"
  using assms unfolding set_password_hash_def Let_def by (auto simp: map_option_case split: option.split_asm if_split_asm)

lemma users_ok_new [simp]: "users_ok new_user_manager"
  by (simp add: users_ok_def new_user_manager_def)

lemma snd_omap_insert: "snd ` set (omap_insert k v m) \<subseteq> insert v (snd ` set m)"
  using set_omap_insert [of k v m] by force

lemma distinct_omap_insert: "distinct (map snd m) \<Longrightarrow> v \<notin> snd ` set m \<Longrightarrow> distinct (map snd (omap_insert k v m))"
proof (induction m)
  case (Cons e m)
  then show ?case using snd_omap_insert [of k v m] by auto
qed simp

lemma users_ok_insert:
  assumes "users_ok um" and "m_username u = name"
  shows "users_ok (insert_user name u um)"
proof -
  have "\<forall>e \<in> set (m_users um). snd e < length (um_store um)" using assms(1) by (auto simp: users_ok_def list_all_iff)
  then have "length (um_store um) \<notin> snd ` set (m_users um)" by auto
  then have d: "distinct (map snd (m_users (insert_user name u um)))"
    using assms(1) by (simp add: users_ok_def insert_user_def distinct_omap_insert)
  have "i < length (um_store um @ [u]) \<and> m_username ((um_store um @ [u]) ! i) = n"
    if "(n, i) \<in> set (omap_insert name (length (um_store um)) (m_users um))" for n i
  proof (cases "(n, i) \<in> set (m_users um)")
    case True
    then show ?thesis using assms(1) by (auto simp: users_ok_def list_all_iff nth_append)
  next
    case False
    then have "n = name" "i = length (um_store um)"
      using that set_omap_insert [of name "length (um_store um)" "m_users um"] by auto
    then show ?thesis using assms(2) by simp
  qed
  then show ?thesis using d assms(1) by (auto simp: users_ok_def insert_user_def list_all_iff)
qed

lemma users_ok_update:
  assumes "users_ok um" and "i < length (um_store um)" and "m_username u = m_username (um_store um ! i)"
  shows "users_ok (um\<lparr>um_store := (um_store um)[i := u]\<rparr>)"
  using assms by (auto simp: users_ok_def list_all_iff nth_list_update)

lemma users_ok_remove: "users_ok um \<Longrightarrow> users_ok (um\<lparr>m_users := omap_erase name (m_users um)\<rparr>)"
  by (auto simp: users_ok_def list_all_iff omap_erase_def omap_ok_filter distinct_map_filter)

section \<open>The contract of a user manager\<close>

text \<open>
  What a client sees of a user: nothing but which passwords it accepts. The credential of a user is the
  password, or the digest it is compared with.
\<close>

datatype credential = Plain string | Sha256 string | Sha1 string | Unusable

fun accepts :: "crypto \<Rightarrow> credential \<Rightarrow> string \<Rightarrow> bool" where
  "accepts crypto (Plain p) password = (password = p)"
| "accepts crypto (Sha256 h) password =
     (case crypto of None \<Rightarrow> False | Some (SHA256, SHA1) \<Rightarrow> take SHA256_DIGEST_LENGTH (SHA256 password) = h)"
| "accepts crypto (Sha1 h) password =
     (case crypto of None \<Rightarrow> False | Some (SHA256, SHA1) \<Rightarrow> take SHA_DIGEST_LENGTH (SHA1 password) = h)"
| "accepts crypto Unusable password = False"

definition password_credential :: "crypto \<Rightarrow> string \<Rightarrow> credential" where
  "password_credential crypto password =
     (case crypto of None \<Rightarrow> Plain password
      | Some (SHA256, SHA1) \<Rightarrow> Sha256 (take SHA256_DIGEST_LENGTH (SHA256 password)))"

definition user_credential :: "crypto \<Rightarrow> user \<Rightarrow> credential" where
  "user_credential crypto u =
     (case crypto of
        None \<Rightarrow> Plain (m_password u)
      | Some _ \<Rightarrow> (case m_password_hash_type u of
            SHA_256 \<Rightarrow> Sha256 (take SHA256_DIGEST_LENGTH (m_password_hash u))
          | SHA_1 \<Rightarrow> Sha1 (take SHA_DIGEST_LENGTH (m_password_hash u))
          | EMPTY \<Rightarrow> Unusable))"

definition user_table :: "crypto \<Rightarrow> user_manager \<Rightarrow> string \<Rightarrow> credential option" where
  "user_table crypto um name = map_option (\<lambda>i. user_credential crypto (um_store um ! i)) (omap_find (m_users um) name)"

lemma match_password_accepts: "match_password crypto password u = accepts crypto (user_credential crypto u) password"
  by (auto simp: match_password_def user_credential_def split: option.split prod.split password_hash_type_t.split)

lemma user_credential_set_password [simp]:
  "user_credential crypto (set_password crypto password u) = password_credential crypto password"
  "user_credential crypto (new_user_password crypto name password) = password_credential crypto password"
  by (simp_all add: user_credential_def set_password_def password_credential_def new_user_password_def Let_def
      split: option.split prod.split)

lemma password_credential_accepts [simp]: "accepts crypto (password_credential crypto password) password"
  by (simp add: password_credential_def split: option.split prod.split)

text \<open>
  The contract: a table from names to credentials, with operations that report whether they had an
  effect, and a check that succeeds exactly with a password the credential of the name accepts.
\<close>

locale credential_table =
  fixes inv :: "'s \<Rightarrow> bool" and table :: "'s \<Rightarrow> string \<Rightarrow> 'c option" and cred_of :: "string \<Rightarrow> 'c"
    and accept :: "'c \<Rightarrow> string \<Rightarrow> bool"
    and add :: "string \<Rightarrow> string \<Rightarrow> 's \<Rightarrow> bool \<times> 's" and upd :: "string \<Rightarrow> string \<Rightarrow> 's \<Rightarrow> bool \<times> 's"
    and rem :: "string \<Rightarrow> 's \<Rightarrow> bool \<times> 's" and check :: "string \<Rightarrow> string \<Rightarrow> 's \<Rightarrow> 'u option"
  assumes inv_add: "inv s \<Longrightarrow> inv (snd (add n p s))"
    and inv_upd: "inv s \<Longrightarrow> inv (snd (upd n p s))"
    and inv_rem: "inv s \<Longrightarrow> inv (snd (rem n s))"
    and table_add: "inv s \<Longrightarrow> table (snd (add n p s)) = (if table s n = None then (table s)(n \<mapsto> cred_of p) else table s)"
    and table_upd: "inv s \<Longrightarrow> table (snd (upd n p s)) = (if table s n = None then table s else (table s)(n \<mapsto> cred_of p))"
    and table_rem: "inv s \<Longrightarrow> table (snd (rem n s)) = (table s)(n := None)"
    and check_iff: "inv s \<Longrightarrow> (check n p s \<noteq> None) \<longleftrightarrow> (\<exists>c. table s n = Some c \<and> accept c p)"
    and accept_cred: "accept (cred_of p) p"
begin

text \<open>The operations of a table, and what they mean on the map of credentials.\<close>

lemma check_after_add: "inv s \<Longrightarrow> table s n = None \<Longrightarrow> check n p (snd (add n p s)) \<noteq> None"
  by (simp add: check_iff inv_add table_add accept_cred del: not_None_eq)

lemma check_after_upd: "inv s \<Longrightarrow> table s n \<noteq> None \<Longrightarrow> check n p (snd (upd n p s)) \<noteq> None"
  by (simp add: check_iff inv_upd table_upd accept_cred del: not_None_eq)

lemma check_after_rem: "inv s \<Longrightarrow> check n p (snd (rem n s)) = None"
  using check_iff [OF inv_rem, of s n p n] by (auto simp: table_rem)

lemma check_other:
  assumes "inv s" and "n' \<noteq> n"
  shows "(check n' p' (snd (add n p s)) \<noteq> None) = (check n' p' s \<noteq> None)"
    and "(check n' p' (snd (upd n p s)) \<noteq> None) = (check n' p' s \<noteq> None)"
    and "(check n' p' (snd (rem n s)) \<noteq> None) = (check n' p' s \<noteq> None)"
  using assms by (simp_all add: check_iff inv_add inv_upd inv_rem table_add table_upd table_rem del: not_None_eq)

end

lemma user_table_insert:
  assumes "users_ok um" and "omap_find (m_users um) name = None"
  shows "user_table crypto (insert_user name u um) = (user_table crypto um)(name \<mapsto> user_credential crypto u)"
proof
  fix n
  have "i < length (um_store um)" if "omap_find (m_users um) n = Some i" for i
    using users_okD [OF assms(1) that] by simp
  then show "user_table crypto (insert_user name u um) n = ((user_table crypto um)(name \<mapsto> user_credential crypto u)) n"
    using assms by (auto simp: user_table_def insert_user_def omap_find_insert users_ok_def nth_append map_option_case
        split: option.split)
qed

lemma user_table_update:
  assumes "users_ok um" and "omap_find (m_users um) name = Some i"
  shows "user_table crypto (um\<lparr>um_store := (um_store um)[i := u]\<rparr>) = (user_table crypto um)(name \<mapsto> user_credential crypto u)"
proof
  fix n
  show "user_table crypto (um\<lparr>um_store := (um_store um)[i := u]\<rparr>) n = ((user_table crypto um)(name \<mapsto> user_credential crypto u)) n"
  proof (cases "n = name")
    case True
    then show ?thesis using users_okD(1) [OF assms] assms(2) by (simp add: user_table_def)
  next
    case False
    then have "omap_find (m_users um) n \<noteq> Some i" using users_ok_same [OF assms, of n] by blast
    then show ?thesis using False by (cases "omap_find (m_users um) n") (simp_all add: user_table_def)
  qed
qed

interpretation users: credential_table users_ok "user_table crypto" "password_credential crypto" "accepts crypto"
  "add_user crypto" "update_user crypto" remove_user "get_user_password crypto" for crypto
proof (unfold_locales, goal_cases)
  case (1 s n p)
  then show ?case by (auto simp: add_user_def users_ok_insert split: option.split)
next
  case (2 s n p)
  then show ?case using users_okD [OF 2] by (auto simp: update_user_def users_ok_update split: option.split)
next
  case (3 s n)
  then show ?case by (auto simp: remove_user_def users_ok_remove split: option.split)
next
  case (4 s n p)
  then show ?case by (cases "omap_find (m_users s) n") (auto simp: add_user_def user_table_insert user_table_def [of _ s n])
next
  case (5 s n p)
  then show ?case by (cases "omap_find (m_users s) n") (auto simp: update_user_def user_table_update user_table_def [of _ s n])
next
  case (6 s n)
  then show ?case
    by (cases "omap_find (m_users s) n") (auto simp: remove_user_def user_table_def omap_find_erase fun_eq_iff)
next
  case (7 s n p)
  then show ?case by (auto simp: get_user_password_def user_table_def match_password_accepts split: option.split)
next
  case (8 p)
  then show ?case by simp
qed

section \<open>Digests as text\<close>

lemma strtol_hex_digits:
  assumes "digit_value a = Some hi" and "digit_value b = Some lo"
  shows "strtol 16 [a, b] = int (hi * 16 + lo)"
proof -
  have b: "hi < 16" "lo < 16" using assms digit_value_bound by auto
  have n: "\<not> isspace c" "c \<noteq> CHR ''-''" "c \<noteq> CHR ''+''" if "digit_value c = Some d" for c d
    using that by (auto simp: digit_value_def isspace_def byte_val_def Let_def split: if_splits)
  have "parse_long 16 [a, b] = (True, False, hi * 16 + lo)"
    using assms b n [OF assms(1)]
    by (simp add: parse_long_def skip_space_def split_sign_def skip_0x_def is_base_digit_def digits_value_def)
  then show ?thesis using b by (simp add: strtol_def long_max_def)
qed

lemma strtol_hex_byte: "hex_byte c = [a, b] \<Longrightarrow> int_to_char (strtol 16 [a, b]) = c"
  using byte_val_less [of c]
  by (auto simp: hex_byte_def strtol_hex_digits [of _ "byte_val c div 16" _ "byte_val c mod 16"]
      int_to_char_byte simp del: byte_val_less)

lemma hash_loop_hex:
  "pos + length bs \<le> length hash \<Longrightarrow>
   hash_loop hash pos (concat (map hex_byte bs)) = Some (take pos hash @ bs @ drop (pos + length bs) hash)"
proof (induction bs arbitrary: pos hash)
  case (Cons c bs)
  obtain a b where h: "hex_byte c = [a, b]" by (simp add: hex_byte_def)
  show ?case
    using Cons.prems Cons.IH [of "pos + 1" "hash[pos := c]"] h strtol_hex_byte [OF h]
    by (simp add: take_Suc_conv_app_nth)
qed simp

lemma hash_loop_defined:
  "pos \<le> length hash \<Longrightarrow> hash_loop hash pos s \<noteq> None \<longleftrightarrow> even (length s) \<and> pos + length s div 2 \<le> length hash"
  by (induction hash pos s rule: hash_loop.induct) auto

section \<open>Properties\<close>

text \<open>The operations of a manager as a sequence, and their meaning on the table of credentials.\<close>

datatype user_op = Add_user string string | Update_user string string | Remove_user string

fun run_user_op :: "crypto \<Rightarrow> user_op \<Rightarrow> user_manager \<Rightarrow> user_manager" where
  "run_user_op crypto (Add_user n p) um = snd (add_user crypto n p um)"
| "run_user_op crypto (Update_user n p) um = snd (update_user crypto n p um)"
| "run_user_op crypto (Remove_user n) um = snd (remove_user n um)"

fun spec_user_op :: "crypto \<Rightarrow> user_op \<Rightarrow> (string \<rightharpoonup> credential) \<Rightarrow> (string \<rightharpoonup> credential)" where
  "spec_user_op crypto (Add_user n p) t = (if t n = None then t(n \<mapsto> password_credential crypto p) else t)"
| "spec_user_op crypto (Update_user n p) t = (if t n = None then t else t(n \<mapsto> password_credential crypto p))"
| "spec_user_op crypto (Remove_user n) t = t(n := None)"

lemma run_user_op_refines:
  assumes "users_ok um"
  shows "users_ok (run_user_op crypto x um)"
    and "user_table crypto (run_user_op crypto x um) = spec_user_op crypto x (user_table crypto um)"
  using assms by (cases x; simp add: users.inv_add users.inv_upd users.inv_rem users.table_add users.table_upd users.table_rem)+

lemma run_user_ops_refine:
  assumes "users_ok um"
  shows "users_ok (fold (run_user_op crypto) ops um) \<and>
    user_table crypto (fold (run_user_op crypto) ops um) = fold (spec_user_op crypto) ops (user_table crypto um)"
  using assms by (induction ops arbitrary: um) (auto simp: run_user_op_refines)

text \<open>C31: Users. After any sequence of additions, password changes and removals, looking up a name with a
  password succeeds exactly when the table that the sequence describes has a credential for the name that
  accepts the password, in a build with digests and in one without.\<close>

theorem user_manager_refines:
  "get_user_password crypto name password (fold (run_user_op crypto) ops new_user_manager) \<noteq> None \<longleftrightarrow>
     (\<exists>c. fold (spec_user_op crypto) ops Map.empty name = Some c \<and> accepts crypto c password)"
proof -
  have "user_table crypto new_user_manager = Map.empty" by (simp add: user_table_def new_user_manager_def fun_eq_iff)
  then show ?thesis
    using run_user_ops_refine [OF users_ok_new, of crypto ops] users.check_iff [of _ crypto name password] by simp
qed

text \<open>Stored digests. The text that \<^verbatim>\<open>get_password\<close> gives for a user, stored with \<^verbatim>\<open>set_password_hash\<close> in
  any user, makes that user accept exactly the passwords the first one accepts. Storing is free of
  undefined behaviour exactly for texts of even length up to twice the size of the hash array; a text of
  another size is reported but stored all the same.\<close>

theorem password_hash_roundtrip:
  assumes "\<And>x. length (sha x) = SHA256_DIGEST_LENGTH" and "length (m_password_hash u') = SHA256_DIGEST_LENGTH"
  shows "(\<exists>v. set_password_hash (m_password (set_password (Some (sha, sha')) password u)) u' = Some v \<and>
      (\<forall>x. match_password (Some (sha, sha')) x v \<longleftrightarrow> sha x = sha password)) \<and>
    (set_password_hash str u' \<noteq> None \<longleftrightarrow> even (length str) \<and> length str \<le> 2 * SHA256_DIGEST_LENGTH)"
proof (intro conjI)
  let ?h = "concat (map hex_byte (sha password))"
  have l: "length ?h = 64" using assms(1) by (simp add: length_concat hex_byte_def comp_def sum_list_triv)
  have t: "take 32 (sha x) = sha x" for x using assms(1) by simp
  have p: "m_password (set_password (Some (sha, sha')) password u) = ?h" by (simp add: set_password_def t Let_def)
  have "hash_loop (m_password_hash u') 0 ?h = Some (sha password)"
    using hash_loop_hex [of 0 "sha password" "m_password_hash u'"] assms by simp
  then have "set_password_hash ?h u' =
      Some (u'\<lparr>m_password_hash_type := SHA_256, m_password := ?h, m_password_hash := sha password\<rparr>)"
    using l by (simp add: set_password_hash_def Let_def)
  then show "\<exists>v. set_password_hash (m_password (set_password (Some (sha, sha')) password u)) u' = Some v \<and>
      (\<forall>x. match_password (Some (sha, sha')) x v \<longleftrightarrow> sha x = sha password)"
    unfolding p by (simp add: match_password_def t)
  show "set_password_hash str u' \<noteq> None \<longleftrightarrow> even (length str) \<and> length str \<le> 2 * SHA256_DIGEST_LENGTH"
    using hash_loop_defined [of 0 "m_password_hash u'" str] assms(2) by (auto simp: set_password_hash_def Let_def)
qed

theorem password_hash_roundtrip_witness:
  "\<exists>v. set_password_hash (m_password (set_password (Some (\<lambda>x. take 32 (x @ replicate 32 NUL), \<lambda>x. [])) ''pw'' (new_user ''a'')))
       (new_user ''b'') = Some v \<and>
     match_password (Some (\<lambda>x. take 32 (x @ replicate 32 NUL), \<lambda>x. [])) ''pw'' v \<and>
     set_password_hash (replicate 66 (CHR ''0'')) (new_user ''b'') = None"
proof -
  let ?sha = "\<lambda>x. take 32 (x @ replicate 32 NUL)"
  have l: "length (m_password_hash (new_user ''b'')) = SHA256_DIGEST_LENGTH" by (simp add: new_user_def)
  have s: "length (?sha x) = SHA256_DIGEST_LENGTH" for x :: string by simp
  show ?thesis
    using password_hash_roundtrip [where sha = ?sha and u' = "new_user ''b''" and sha' = "\<lambda>x. []" and password = "''pw''"
        and u = "new_user ''a''" and str = "replicate 66 (CHR ''0'')", OF s l] by auto
qed

end
