(* ===== verification/Http_Auth.thy ===== *)
theory Http_Auth
  imports User_Manager Http_Writer
begin

text \<open>
  Authentication of requests (\<^verbatim>\<open>src/http_auth.cpp\<close>, \<^verbatim>\<open>src/http_basic_auth.cpp\<close>,
  \<^verbatim>\<open>src/http_cookie_auth.cpp\<close> and their headers). The record \<open>auth\<close> is the base class; the members
  that \<^verbatim>\<open>basic_auth\<close> and \<^verbatim>\<open>cookie_auth\<close> both declare are \<open>auth_cache\<close>. A request handler takes the
  request, the connection and the state, and returns them updated with its boolean result. The clock is
  an argument, in nanoseconds. The mutexes make each handler atomic on the cache.
\<close>

text \<open>\<^verbatim>\<open>http::server::strip_trailing_slash\<close>\<close>

definition strip_trailing_slash :: "string \<Rightarrow> string" where
  "strip_trailing_slash str = (if str \<noteq> [] \<and> last str = CHR ''/'' then butlast str else str)"

section \<open>The base class\<close>

record auth =
  m_user_manager :: user_manager
  m_restrict_list :: "unit omap"
  m_white_list :: "unit omap"

definition add_restrict :: "string \<Rightarrow> 'a auth_scheme \<Rightarrow> 'a auth_scheme" where
  "add_restrict resource a = a\<lparr>m_restrict_list := oset_insert (strip_trailing_slash resource) (m_restrict_list a)\<rparr>"

definition add_permit :: "string \<Rightarrow> 'a auth_scheme \<Rightarrow> 'a auth_scheme" where
  "add_permit resource a = a\<lparr>m_white_list := oset_insert (strip_trailing_slash resource) (m_white_list a)\<rparr>"

definition find_resource :: "unit omap \<Rightarrow> string \<Rightarrow> bool" where
  "find_resource resource_set resource =
     (case search_down (\<lambda>i. resource_matches resource (fst i)) (omap_upto resource resource_set) of
        Some _ \<Rightarrow> True | None \<Rightarrow> False)"

definition need_authentication :: "http_message \<Rightarrow> 'a auth_scheme \<Rightarrow> bool" where
  "need_authentication request a =
     (if users_empty (m_user_manager a) then False
      else
        (let resource = strip_trailing_slash (req_resource request)
         in if m_restrict_list a = [] then False
            else if find_resource (m_restrict_list a) resource then
              (if m_white_list a = [] then True else \<not> find_resource (m_white_list a) resource)
            else False))"

definition auth_add_user :: "crypto \<Rightarrow> string \<Rightarrow> string \<Rightarrow> 'a auth_scheme \<Rightarrow> bool \<times> 'a auth_scheme" where
  "auth_add_user crypto username password a =
     (let (r, um) = add_user crypto username password (m_user_manager a) in (r, a\<lparr>m_user_manager := um\<rparr>))"

definition auth_update_user :: "crypto \<Rightarrow> string \<Rightarrow> string \<Rightarrow> 'a auth_scheme \<Rightarrow> bool \<times> 'a auth_scheme" where
  "auth_update_user crypto username password a =
     (let (r, um) = update_user crypto username password (m_user_manager a) in (r, a\<lparr>m_user_manager := um\<rparr>))"

definition auth_remove_user :: "string \<Rightarrow> 'a auth_scheme \<Rightarrow> bool \<times> 'a auth_scheme" where
  "auth_remove_user username a =
     (let (r, um) = remove_user username (m_user_manager a) in (r, a\<lparr>m_user_manager := um\<rparr>))"

section \<open>Responses\<close>

text \<open>
  The handlers answer with a response writer whose finished handler is \<^verbatim>\<open>connection::finish\<close>: what the
  writer has reported by the end of the call was reported to the connection.
\<close>

definition edit_response :: "(http_message \<Rightarrow> http_message) \<Rightarrow> writer \<Rightarrow> writer" where
  "edit_response f w = w\<lparr>m_http_message := f (m_http_message w)\<rparr>"

definition send_and_finish :: "writer \<Rightarrow> connection" where
  "send_and_finish w = (let w = send w in (finish_connection ^^ length (m_finished_log w)) (m_tcp_conn w))"

definition HTML_HEAD :: "string \<Rightarrow> string" where
  "HTML_HEAD title = '' <!DOCTYPE HTML PUBLIC '' @ [DQUOTE] @ ''-//W3C//DTD HTML 4.01 Transitional//EN'' @ [DQUOTE] @
     [DQUOTE] @ ''http://www.w3.org/TR/1999/REC-html401-19991224/loose.dtd'' @ [DQUOTE] @ ''>'' @
     ''<HTML>'' @ ''<HEAD>'' @ ''<TITLE>'' @ title @ ''</TITLE>'' @
     ''<META HTTP-EQUIV='' @ [DQUOTE] @ ''Content-Type'' @ [DQUOTE] @ '' CONTENT='' @ [DQUOTE] @
     ''text/html; charset=ISO-8859-1'' @ [DQUOTE] @ ''>'' @ ''</HEAD>''"

definition UNAUTHORIZED_CONTENT :: string where
  "UNAUTHORIZED_CONTENT = HTML_HEAD ''Error'' @ ''<BODY><H1>401 Unauthorized.</H1></BODY>'' @ ''</HTML> ''"

definition REDIRECT_CONTENT :: string where
  "REDIRECT_CONTENT = HTML_HEAD ''Redirect'' @ ''<BODY><H1>302 Found.</H1></BODY>'' @ ''</HTML> ''"

section \<open>The cache of active users\<close>

definition seconds :: "nat \<Rightarrow> int" where
  "seconds n = int n * 1000000000"

record auth_cache = auth +
  m_cache_cleanup_time :: int
  m_user_cache :: "(int \<times> nat) omap"

text \<open>The clean-up: every so often, the entries that were not used for as long are erased.\<close>

definition expire_cache :: "nat \<Rightarrow> int \<Rightarrow> 'a auth_cache_scheme \<Rightarrow> 'a auth_cache_scheme" where
  "expire_cache expiration time_now a =
     (if m_cache_cleanup_time a + seconds expiration < time_now then
        a\<lparr>m_user_cache := filter (\<lambda>i. \<not> fst (snd i) + seconds expiration < time_now) (m_user_cache a),
          m_cache_cleanup_time := time_now\<rparr>
      else a)"

text \<open>A credential found in the cache: the request gets the user, and the entry the time of its use.\<close>

definition use_cache_entry ::
  "string \<Rightarrow> nat \<Rightarrow> int \<Rightarrow> http_message \<Rightarrow> 'a auth_cache_scheme \<Rightarrow> http_message \<times> 'a auth_cache_scheme" where
  "use_cache_entry key user time_now request a =
     (request\<lparr>req_user_record := Some user\<rparr>, a\<lparr>m_user_cache := omap_assign key (time_now, user) (m_user_cache a)\<rparr>)"

section \<open>Basic authentication\<close>

definition BASIC_CACHE_EXPIRATION :: nat where "BASIC_CACHE_EXPIRATION = 300"

record basic_auth = auth_cache +
  m_realm :: string

definition new_basic_auth :: "user_manager \<Rightarrow> string \<Rightarrow> int \<Rightarrow> basic_auth" where
  "new_basic_auth um realm now =
     \<lparr> m_user_manager = um, m_restrict_list = [], m_white_list = [], m_cache_cleanup_time = now, m_user_cache = [],
       m_realm = realm \<rparr>"

text \<open>An unknown option is only printed.\<close>

definition basic_set_option :: "string \<Rightarrow> string \<Rightarrow> basic_auth \<Rightarrow> basic_auth" where
  "basic_set_option name value a = (if name = ''realm'' then a\<lparr>m_realm := value\<rparr> else a)"

definition parse_authorization :: "string \<Rightarrow> string option" where
  "parse_authorization authorization =
     (if \<not> starts_with authorization ''Basic '' then None
      else (let credentials = drop 6 authorization in if credentials = [] then None else Some credentials))"

text \<open>\<^const>\<open>Inl\<close> is a failure inside of the base64 decoder: a read outside of its table.\<close>

definition parse_credentials :: "string \<Rightarrow> b64_error + (string \<times> string) option" where
  "parse_credentials credentials =
     (case base64_decode credentials of
        Inl e \<Rightarrow> Inl e
      | Inr (ok, user_password) \<Rightarrow>
          Inr (if \<not> ok then None
               else (case find_sub '':'' user_password of
                       None \<Rightarrow> None
                     | Some i \<Rightarrow> if i = 0 then None else Some (take i user_password, drop (i + 1) user_password))))"

definition basic_unauthorized :: "http_message \<Rightarrow> connection \<Rightarrow> basic_auth \<Rightarrow> connection" where
  "basic_unauthorized request tcp_conn a =
     send_and_finish (write_no_copy UNAUTHORIZED_CONTENT (edit_response
       (add_header ''WWW-Authenticate'' (''Basic realm='' @ [DQUOTE] @ m_realm a @ [DQUOTE]) \<circ>
        set_status_message RESPONSE_MESSAGE_UNAUTHORIZED \<circ> set_status_code RESPONSE_CODE_UNAUTHORIZED)
       (response_writer_for tcp_conn request)))"

definition basic_handle_request ::
  "crypto \<Rightarrow> int \<Rightarrow> http_message \<Rightarrow> connection \<Rightarrow> basic_auth \<Rightarrow> b64_error + bool \<times> http_message \<times> connection \<times> basic_auth" where
  "basic_handle_request crypto time_now request tcp_conn a =
     (if \<not> need_authentication request a then Inr (True, request, tcp_conn, a)
      else
        (let a = expire_cache BASIC_CACHE_EXPIRATION time_now a;
             authorization = get_header request HEADER_AUTHORIZATION;
             denied = Inr (False, request, basic_unauthorized request tcp_conn a, a)
         in if authorization = [] then denied
            else (case parse_authorization authorization of
                None \<Rightarrow> denied
              | Some credentials \<Rightarrow>
                  (case omap_find (m_user_cache a) credentials of
                     Some (t, user) \<Rightarrow>
                       (let (request, a) = use_cache_entry credentials user time_now request a
                        in Inr (True, request, tcp_conn, a))
                   | None \<Rightarrow>
                       (case parse_credentials credentials of
                          Inl e \<Rightarrow> Inl e
                        | Inr None \<Rightarrow> denied
                        | Inr (Some (username, password)) \<Rightarrow>
                            (case get_user_password crypto username password (m_user_manager a) of
                               None \<Rightarrow> denied
                             | Some user \<Rightarrow>
                                 Inr (True, request\<lparr>req_user_record := Some user\<rparr>, tcp_conn,
                                   a\<lparr>m_user_cache := omap_insert credentials (time_now, user) (m_user_cache a)\<rparr>)))))))"

section \<open>Authentication with cookies\<close>

definition COOKIE_CACHE_EXPIRATION :: nat where "COOKIE_CACHE_EXPIRATION = 3600"
definition RANDOM_COOKIE_BYTES :: nat where "RANDOM_COOKIE_BYTES = 20"
definition AUTH_COOKIE_NAME :: string where "AUTH_COOKIE_NAME = ''pion_session_id''"

text \<open>
  The random numbers come from a generator of the standard library through a distribution whose results
  the standard leaves open: \<open>distrib\<close> draws a number and gives the next state of the generator.
\<close>

record 'g cookie_auth = auth_cache +
  m_login :: string
  m_logout :: string
  m_redirect :: string
  m_random_gen :: 'g

fun draw :: "('g \<Rightarrow> nat \<times> 'g) \<Rightarrow> nat \<Rightarrow> 'g \<Rightarrow> string \<times> 'g" where
  "draw distrib 0 g = ([], g)"
| "draw distrib (Suc n) g = (let (b, g) = distrib g; (bs, g) = draw distrib n g in (byte_char b # bs, g))"

text \<open>The constructor throws away the first hundred numbers.\<close>

definition new_cookie_auth ::
  "('g \<Rightarrow> nat \<times> 'g) \<Rightarrow> user_manager \<Rightarrow> string \<Rightarrow> string \<Rightarrow> string \<Rightarrow> 'g \<Rightarrow> int \<Rightarrow> 'g cookie_auth" where
  "new_cookie_auth distrib um login logout redirect seed now =
     \<lparr> m_user_manager = um, m_restrict_list = [], m_white_list = [], m_cache_cleanup_time = now, m_user_cache = [],
       m_login = login, m_logout = logout, m_redirect = redirect, m_random_gen = snd (draw distrib 100 seed) \<rparr>"

definition cookie_set_option :: "string \<Rightarrow> string \<Rightarrow> 'g cookie_auth \<Rightarrow> 'g cookie_auth" where
  "cookie_set_option name value a =
     (if name = ''login'' then a\<lparr>m_login := value\<rparr>
      else if name = ''logout'' then a\<lparr>m_logout := value\<rparr>
      else if name = ''redirect'' then a\<lparr>m_redirect := value\<rparr>
      else a)"

definition session_cookie :: "string \<Rightarrow> bool \<Rightarrow> http_message \<Rightarrow> http_message" where
  "session_cookie new_cookie delete_it response =
     (if delete_it then response_delete_cookie_path AUTH_COOKIE_NAME [] response
      else if new_cookie \<noteq> [] then set_cookie_path AUTH_COOKIE_NAME new_cookie [] response
      else response)"

definition handle_redirection :: "http_message \<Rightarrow> connection \<Rightarrow> string \<Rightarrow> string \<Rightarrow> bool \<Rightarrow> connection" where
  "handle_redirection request tcp_conn redirection_url new_cookie delete_it =
     send_and_finish (write_no_copy REDIRECT_CONTENT (edit_response
       (session_cookie new_cookie delete_it \<circ> add_header HEADER_LOCATION redirection_url \<circ>
        set_status_message RESPONSE_MESSAGE_FOUND \<circ> set_status_code RESPONSE_CODE_FOUND)
       (response_writer_for tcp_conn request)))"

definition handle_ok :: "http_message \<Rightarrow> connection \<Rightarrow> string \<Rightarrow> bool \<Rightarrow> connection" where
  "handle_ok request tcp_conn new_cookie delete_it =
     send_and_finish (edit_response
       (session_cookie new_cookie delete_it \<circ>
        set_status_message RESPONSE_MESSAGE_NO_CONTENT \<circ> set_status_code RESPONSE_CODE_NO_CONTENT)
       (response_writer_for tcp_conn request))"

definition cookie_unauthorized :: "http_message \<Rightarrow> connection \<Rightarrow> 'g cookie_auth \<Rightarrow> connection" where
  "cookie_unauthorized request tcp_conn a =
     (if m_redirect a \<noteq> [] then handle_redirection request tcp_conn (m_redirect a) [] False
      else
        send_and_finish (write_no_copy UNAUTHORIZED_CONTENT (edit_response
          (set_status_message RESPONSE_MESSAGE_UNAUTHORIZED \<circ> set_status_code RESPONSE_CODE_UNAUTHORIZED)
          (response_writer_for tcp_conn request))))"

text \<open>\<^verbatim>\<open>process_login\<close>: whether the request was a login or a logout, and the answer sent for it.\<close>

definition process_login ::
  "crypto \<Rightarrow> ('g \<Rightarrow> nat \<times> 'g) \<Rightarrow> int \<Rightarrow> http_message \<Rightarrow> connection \<Rightarrow> 'g cookie_auth \<Rightarrow> bool \<times> connection \<times> 'g cookie_auth" where
  "process_login crypto distrib time_now request tcp_conn a =
     (let resource = strip_trailing_slash (req_resource request)
      in if resource \<noteq> m_login a \<and> resource \<noteq> m_logout a then (False, tcp_conn, a)
         else
           (let redirect_url = get_query request ''url'';
                answer = (\<lambda>new_cookie delete_it a.
                  (True, if redirect_url \<noteq> [] then handle_redirection request tcp_conn redirect_url new_cookie delete_it
                         else handle_ok request tcp_conn new_cookie delete_it, a))
            in if resource = m_login a then
                 (case get_user_password crypto (get_query request ''user'') (get_query request ''pass'') (m_user_manager a) of
                    None \<Rightarrow> (True, cookie_unauthorized request tcp_conn a, a)
                  | Some user \<Rightarrow>
                      (let (rand_binary, g) = draw distrib RANDOM_COOKIE_BYTES (m_random_gen a);
                           new_cookie = base64_encode rand_binary
                       in answer new_cookie False
                            (a\<lparr>m_random_gen := g, m_user_cache := omap_insert new_cookie (time_now, user) (m_user_cache a)\<rparr>)))
               else
                 (let auth_cookie = get_cookie request AUTH_COOKIE_NAME
                  in answer [] True
                       (if auth_cookie \<noteq> [] then a\<lparr>m_user_cache := omap_erase auth_cookie (m_user_cache a)\<rparr> else a))))"

definition cookie_handle_request ::
  "crypto \<Rightarrow> ('g \<Rightarrow> nat \<times> 'g) \<Rightarrow> int \<Rightarrow> http_message \<Rightarrow> connection \<Rightarrow> 'g cookie_auth \<Rightarrow>
     bool \<times> http_message \<times> connection \<times> 'g cookie_auth" where
  "cookie_handle_request crypto distrib time_now request tcp_conn a =
     (let (processed, tcp_conn, a) = process_login crypto distrib time_now request tcp_conn a
      in if processed then (False, request, tcp_conn, a)
         else if \<not> need_authentication request a then (True, request, tcp_conn, a)
         else if m_redirect a \<noteq> [] \<and> m_redirect a = req_resource request then (True, request, tcp_conn, a)
         else
           (let a = expire_cache COOKIE_CACHE_EXPIRATION time_now a;
                auth_cookie = get_cookie request AUTH_COOKIE_NAME;
                denied = (False, request, cookie_unauthorized request tcp_conn a, a)
            in if auth_cookie = [] then denied
               else (case omap_find (m_user_cache a) auth_cookie of
                   None \<Rightarrow> denied
                 | Some (t, user) \<Rightarrow>
                     (let (request, a) = use_cache_entry auth_cookie user time_now request a
                      in (True, request, tcp_conn, a)))))"

end
