(* ===== verification/Auth_Props.thy ===== *)
theory Auth_Props
  imports Http_Auth
begin

text \<open>
  Correctness of the authentication: which resources are restricted, that access is granted only on
  credentials the user manager accepted, how long a cached credential lives, and the sessions of the
  cookie authentication. Both classes keep the same kind of cache; what its operations preserve is proved
  once.
\<close>

section \<open>Restricted resources\<close>

lemma find_resource_iff: "omap_ok s \<Longrightarrow> find_resource s r \<longleftrightarrow> (\<exists>k. resource_matches r k \<and> omap_find s k \<noteq> None)"
  using ordered.search_none [of s r] by (auto simp: find_resource_def search_resource_def split: option.split)

lemma oset_insert_ok: "omap_ok s \<Longrightarrow> omap_ok (oset_insert k s)"
  by (simp add: oset_insert_def)

lemma oset_insert_find: "omap_ok s \<Longrightarrow> omap_find (oset_insert k s) k' = Some () \<longleftrightarrow> k' = k \<or> omap_find s k' = Some ()"
  by (auto simp: oset_insert_def omap_find_insert)

lemma oset_inserts:
  "omap_ok s \<Longrightarrow> omap_ok (fold oset_insert ks s) \<and>
    (omap_find (fold oset_insert ks s) k = Some () \<longleftrightarrow> k \<in> set ks \<or> omap_find s k = Some ())"
  by (induction ks arbitrary: s) (auto simp: oset_insert_ok oset_insert_find)

lemma fold_add_restrict: "fold add_restrict rs a = a\<lparr>m_restrict_list := fold oset_insert (map strip_trailing_slash rs) (m_restrict_list a)\<rparr>"
  by (induction rs arbitrary: a) (simp_all add: add_restrict_def)

lemma fold_add_permit: "fold add_permit ps a = a\<lparr>m_white_list := fold oset_insert (map strip_trailing_slash ps) (m_white_list a)\<rparr>"
  by (induction ps arbitrary: a) (simp_all add: add_permit_def)

lemma find_resource_inserts:
  "find_resource (fold oset_insert ks []) r \<longleftrightarrow> (\<exists>k \<in> set ks. resource_matches r k)"
proof -
  have "omap_ok (fold oset_insert ks [])" using oset_inserts [of "[]" ks] by simp
  then show ?thesis using oset_inserts [of "[]" ks] by (auto simp: find_resource_iff)
qed

lemma find_resource_Nil [simp]: "\<not> find_resource [] r"
  by (simp add: find_resource_def omap_upto_def search_down_def)

lemma need_authentication_iff:
  "need_authentication request a \<longleftrightarrow> \<not> users_empty (m_user_manager a) \<and>
     find_resource (m_restrict_list a) (strip_trailing_slash (req_resource request)) \<and>
     \<not> find_resource (m_white_list a) (strip_trailing_slash (req_resource request))"
  by (auto simp: need_authentication_def Let_def)

section \<open>The cache\<close>

text \<open>
  What holds of a cache at a time: it is ordered, each entry satisfies \<open>P\<close>, was used at most \<open>expiration\<close>
  before the last clean-up and not in the future.
\<close>

definition cache_inv :: "(string \<Rightarrow> nat \<Rightarrow> bool) \<Rightarrow> nat \<Rightarrow> int \<Rightarrow> 'a auth_cache_scheme \<Rightarrow> bool" where
  "cache_inv P expiration now a =
     (omap_ok (m_user_cache a) \<and> m_cache_cleanup_time a \<le> now \<and>
      (\<forall>k t u. (k, (t, u)) \<in> set (m_user_cache a) \<longrightarrow>
         P k u \<and> t \<le> now \<and> m_cache_cleanup_time a - seconds expiration \<le> t))"

lemma cache_inv_later: "cache_inv P e now a \<Longrightarrow> now \<le> now' \<Longrightarrow> cache_inv P e now' a"
  unfolding cache_inv_def by force

lemma cache_inv_mono: "cache_inv P e now a \<Longrightarrow> (\<And>k u. P k u \<Longrightarrow> Q k u) \<Longrightarrow> cache_inv Q e now a"
  unfolding cache_inv_def by blast

lemma cache_inv_expire: "cache_inv P e now a \<Longrightarrow> cache_inv P e now (expire_cache e now a)"
  by (auto simp: cache_inv_def expire_cache_def omap_ok_filter)

lemma cache_inv_use:
  assumes "cache_inv P e now a" and "omap_find (m_user_cache a) key = Some (t, user)"
  shows "cache_inv P e now (snd (use_cache_entry key user now request a))"
proof -
  have k: "P key user" using assms omap_find_member [OF assms(2)] by (auto simp: cache_inv_def)
  have s: "seconds e \<ge> 0" by (simp add: seconds_def)
  have m: "(k, (t', u)) \<in> set (m_user_cache a) \<or> (k = key \<and> t' = now \<and> u = user)"
    if "(k, (t', u)) \<in> set (omap_assign key (now, user) (m_user_cache a))" for k t' u
    using that by (auto simp: omap_assign_def split: if_splits)
  show ?thesis
    unfolding cache_inv_def use_cache_entry_def
    using assms(1) k s by (auto simp: cache_inv_def dest!: m)
qed

lemma cache_inv_insert:
  assumes "cache_inv P e now a" and "P key user"
  shows "cache_inv P e now (a\<lparr>m_user_cache := omap_insert key (now, user) (m_user_cache a)\<rparr>)"
proof -
  have s: "seconds e \<ge> 0" by (simp add: seconds_def)
  have m: "(k, (t', u)) \<in> set (m_user_cache a) \<or> (k = key \<and> t' = now \<and> u = user)"
    if "(k, (t', u)) \<in> set (omap_insert key (now, user) (m_user_cache a))" for k t' u
    using that set_omap_insert [of key "(now, user)" "m_user_cache a"] by auto
  show ?thesis
    unfolding cache_inv_def
    using assms s by (auto simp: cache_inv_def dest!: m)
qed

lemma cache_inv_erase:
  "cache_inv P e now a \<Longrightarrow> cache_inv P e now (a\<lparr>m_user_cache := omap_erase key (m_user_cache a)\<rparr>)"
  by (auto simp: cache_inv_def omap_erase_def omap_ok_filter)

lemma cache_inv_frame [simp]:
  "cache_inv P e now (a\<lparr>m_user_manager := um\<rparr>) = cache_inv P e now a"
  "cache_inv P e now (a\<lparr>m_restrict_list := rs\<rparr>) = cache_inv P e now a"
  "cache_inv P e now (a\<lparr>m_white_list := ws\<rparr>) = cache_inv P e now a"
  by (simp_all add: cache_inv_def)

text \<open>An entry that a clean-up leaves was used within twice the expiration time.\<close>

lemma cache_idle:
  assumes "cache_inv P e now a" and "omap_find (m_user_cache (expire_cache e now' a)) key = Some (t, user)"
  shows "now' \<le> t + 2 * seconds e"
proof (cases "m_cache_cleanup_time a + seconds e < now'")
  case True
  then show ?thesis
    using omap_find_member [OF assms(2)] by (auto simp: expire_cache_def seconds_def)
next
  case False
  then have "(key, (t, user)) \<in> set (m_user_cache a)" using omap_find_member [OF assms(2)] by (simp add: expire_cache_def)
  then have "m_cache_cleanup_time a - seconds e \<le> t" using assms(1) by (auto simp: cache_inv_def)
  then show ?thesis using False by simp
qed

lemma expire_keeps:
  assumes "omap_ok (m_user_cache a)" and "omap_find (m_user_cache a) key = Some (t, user)" and "now' \<le> t + seconds e"
  shows "omap_find (m_user_cache (expire_cache e now' a)) key = Some (t, user)"
  using assms by (simp add: expire_cache_def omap_find_filter)

lemma expire_frame [simp]:
  "m_user_manager (expire_cache e now a) = m_user_manager a"
  "m_restrict_list (expire_cache e now a) = m_restrict_list a"
  "m_white_list (expire_cache e now a) = m_white_list a"
  by (simp_all add: expire_cache_def)

lemma expire_subset: "omap_ok (m_user_cache a) \<Longrightarrow> omap_find (m_user_cache a) key = None \<Longrightarrow>
    omap_find (m_user_cache (expire_cache e now a)) key = None"
  by (simp add: expire_cache_def omap_find_filter)

section \<open>Runs of the basic authentication\<close>

text \<open>A credential was accepted by one of the user managers of the history.\<close>

definition accepted_by :: "crypto \<Rightarrow> user_manager list \<Rightarrow> string \<Rightarrow> nat \<Rightarrow> bool" where
  "accepted_by crypto ums key user =
     (\<exists>um \<in> set ums. \<exists>name password. parse_credentials key = Inr (Some (name, password)) \<and>
        get_user_password crypto name password um = Some user)"

text \<open>
  The states that a \<^verbatim>\<open>basic_auth\<close> object reaches, with the user managers it had, newest first, and the
  time of the last request.
\<close>

inductive basic_run :: "crypto \<Rightarrow> user_manager list \<Rightarrow> int \<Rightarrow> basic_auth \<Rightarrow> bool" for crypto where
  start: "basic_run crypto [um] now (new_basic_auth um realm now)"
| change_users: "basic_run crypto ums now a \<Longrightarrow> basic_run crypto (um # ums) now (a\<lparr>m_user_manager := um\<rparr>)"
| restrict: "basic_run crypto ums now a \<Longrightarrow> basic_run crypto ums now (add_restrict resource a)"
| permit: "basic_run crypto ums now a \<Longrightarrow> basic_run crypto ums now (add_permit resource a)"
| option: "basic_run crypto ums now a \<Longrightarrow> basic_run crypto ums now (basic_set_option name value a)"
| request: "basic_run crypto ums now a \<Longrightarrow> now \<le> now' \<Longrightarrow>
    basic_handle_request crypto now' req conn a = Inr (r, req', conn', a') \<Longrightarrow> basic_run crypto ums now' a'"

text \<open>The branches of a request that was answered.\<close>

lemma basic_handle_request_cases:
  assumes "basic_handle_request crypto now req conn a = Inr (r, req', conn', a')"
  obtains (free) "\<not> need_authentication req a" "r" "req' = req" "conn' = conn" "a' = a"
  | (denied) "need_authentication req a" "\<not> r" "req' = req" "a' = expire_cache BASIC_CACHE_EXPIRATION now a"
      "conn' = basic_unauthorized req conn a'"
  | (cached) key t user where "need_authentication req a" "r" "parse_authorization (get_header req HEADER_AUTHORIZATION) = Some key"
      "omap_find (m_user_cache (expire_cache BASIC_CACHE_EXPIRATION now a)) key = Some (t, user)"
      "(req', a') = use_cache_entry key user now req (expire_cache BASIC_CACHE_EXPIRATION now a)" "conn' = conn"
  | (fresh) key user name password where "need_authentication req a" "r"
      "parse_authorization (get_header req HEADER_AUTHORIZATION) = Some key"
      "parse_credentials key = Inr (Some (name, password))" "get_user_password crypto name password (m_user_manager a) = Some user"
      "req' = req\<lparr>req_user_record := Some user\<rparr>" "conn' = conn"
      "a' = (expire_cache BASIC_CACHE_EXPIRATION now a)\<lparr>m_user_cache := omap_insert key (now, user)
          (m_user_cache (expire_cache BASIC_CACHE_EXPIRATION now a))\<rparr>"
      "omap_find (m_user_cache (expire_cache BASIC_CACHE_EXPIRATION now a)) key = None"
proof (cases "need_authentication req a")
  case False
  then show thesis using assms by (intro free) (simp_all add: basic_handle_request_def)
next
  case need: True
  let ?a = "expire_cache BASIC_CACHE_EXPIRATION now a" and ?h = "get_header req HEADER_AUTHORIZATION"
  let ?denied = "Inr (False, req, basic_unauthorized req conn ?a, ?a) :: b64_error + bool \<times> http_message \<times> connection \<times> basic_auth"
  have d: thesis if "?denied = Inr (r, req', conn', a')" using that need by (intro denied) auto
  show thesis
  proof (cases "parse_authorization ?h")
    case None
    then have "basic_handle_request crypto now req conn a = ?denied"
      unfolding basic_handle_request_def Let_def using need by simp
    then show thesis using assms by (intro d) auto
  next
    case (Some key)
    then have h: "?h \<noteq> []" by (auto simp: parse_authorization_def starts_with_def)
    show thesis
    proof (cases "omap_find (m_user_cache ?a) key")
      case hit: (Some e)
      obtain t user where [simp]: "e = (t, user)" by (cases e)
      have "basic_handle_request crypto now req conn a =
          Inr (True, fst (use_cache_entry key user now req ?a), conn, snd (use_cache_entry key user now req ?a))"
        unfolding basic_handle_request_def Let_def using need h Some hit by (simp add: split_beta)
      then show thesis using assms hit by (intro cached [OF need _ Some, of t user]) simp_all
    next
      case miss: None
      have step: "basic_handle_request crypto now req conn a =
          (case parse_credentials key of Inl e \<Rightarrow> Inl e | Inr None \<Rightarrow> ?denied
           | Inr (Some (username, password)) \<Rightarrow>
               (case get_user_password crypto username password (m_user_manager ?a) of None \<Rightarrow> ?denied
                | Some user \<Rightarrow> Inr (True, req\<lparr>req_user_record := Some user\<rparr>, conn,
                    ?a\<lparr>m_user_cache := omap_insert key (now, user) (m_user_cache ?a)\<rparr>)))"
        unfolding basic_handle_request_def Let_def using need h Some miss by simp
      show thesis
      proof (cases "parse_credentials key")
        case (Inr c)
        show thesis
        proof (cases c)
          case None
          then show thesis using assms step Inr by (intro d) auto
        next
          case creds: (Some up)
          obtain name password where up: "up = (name, password)" by (cases up)
          show thesis
          proof (cases "get_user_password crypto name password (m_user_manager a)")
            case None
            then show thesis using assms step Inr creds up by (intro d) auto
          next
            case user: (Some user)
            then show thesis using assms step Inr creds up miss by (intro fresh [OF need _ Some _ user]) simp_all
          qed
        qed
      qed (use assms step in simp)
    qed
  qed
qed

lemma basic_run_inv:
  "basic_run crypto ums now a \<Longrightarrow>
     m_user_manager a \<in> set ums \<and> cache_inv (accepted_by crypto ums) BASIC_CACHE_EXPIRATION now a"
proof (induction rule: basic_run.induct)
  case (start um now realm)
  then show ?case by (simp add: new_basic_auth_def cache_inv_def)
next
  case (change_users ums now a um)
  have "accepted_by crypto (um # ums) k u" if "accepted_by crypto ums k u" for k u
    using that by (auto simp: accepted_by_def)
  then have "cache_inv (accepted_by crypto (um # ums)) BASIC_CACHE_EXPIRATION now a"
    using change_users.IH cache_inv_mono by blast
  then show ?case by simp
next
  case (request ums now a now' req conn r req' conn' a')
  let ?a = "expire_cache BASIC_CACHE_EXPIRATION now' a" and ?P = "accepted_by crypto ums"
  have e: "cache_inv ?P BASIC_CACHE_EXPIRATION now' a" "cache_inv ?P BASIC_CACHE_EXPIRATION now' ?a"
    using request.IH request.hyps(2) cache_inv_later cache_inv_expire by blast+
  from request.hyps(3) show ?case
  proof (cases rule: basic_handle_request_cases)
    case free
    then show ?thesis using e(1) request.IH by simp
  next
    case denied
    then show ?thesis using e(2) request.IH by simp
  next
    case (cached key t user)
    then have "a' = snd (use_cache_entry key user now' req ?a)" by (metis snd_conv)
    then show ?thesis using cache_inv_use [OF e(2) cached(4)] request.IH by (simp add: use_cache_entry_def)
  next
    case (fresh key user name password)
    then have "?P key user" using request.IH by (auto simp: accepted_by_def)
    then show ?thesis using fresh(8) cache_inv_insert [OF e(2)] request.IH by simp
  qed
qed (simp_all add: add_restrict_def add_permit_def basic_set_option_def, simp add: cache_inv_def)

section \<open>Runs of the cookie authentication\<close>

text \<open>The branches of \<^verbatim>\<open>process_login\<close> and of a request that is neither login nor logout.\<close>

lemma process_login_cases:
  assumes "process_login crypto distrib now req conn a = (r, conn', a')"
  obtains (other) "\<not> r" "conn' = conn" "a' = a"
  | (refused) "r" "strip_trailing_slash (req_resource req) = m_login a"
      "get_user_password crypto (get_query req ''user'') (get_query req ''pass'') (m_user_manager a) = None" "a' = a"
  | (login) user bytes g where "r" "strip_trailing_slash (req_resource req) = m_login a"
      "get_user_password crypto (get_query req ''user'') (get_query req ''pass'') (m_user_manager a) = Some user"
      "draw distrib RANDOM_COOKIE_BYTES (m_random_gen a) = (bytes, g)"
      "a' = a\<lparr>m_random_gen := g, m_user_cache := omap_insert (base64_encode bytes) (now, user) (m_user_cache a)\<rparr>"
  | (logout) "r" "strip_trailing_slash (req_resource req) = m_logout a"
      "a' = (if get_cookie req AUTH_COOKIE_NAME \<noteq> []
             then a\<lparr>m_user_cache := omap_erase (get_cookie req AUTH_COOKIE_NAME) (m_user_cache a)\<rparr> else a)"
proof -
  let ?r = "strip_trailing_slash (req_resource req)"
  let ?u = "get_user_password crypto (get_query req ''user'') (get_query req ''pass'') (m_user_manager a)"
  note d = assms [unfolded process_login_def Let_def]
  consider "?r \<noteq> m_login a" "?r \<noteq> m_logout a" | "?r = m_login a" "?u = None"
    | user where "?r = m_login a" "?u = Some user" | "?r \<noteq> m_login a" "?r = m_logout a" by blast
  then show thesis
  proof cases
    case 1
    then show thesis using d by (intro other) simp_all
  next
    case 2
    then show thesis using d by (intro refused) (simp_all split: if_splits)
  next
    case (3 user)
    obtain bytes g where b: "draw distrib RANDOM_COOKIE_BYTES (m_random_gen a) = (bytes, g)"
      by (cases "draw distrib RANDOM_COOKIE_BYTES (m_random_gen a)")
    then show thesis using d 3 by (intro login [of user bytes g]) simp_all
  next
    case 4
    then show thesis using d by (intro logout) auto
  qed
qed

lemma cookie_handle_request_cases:
  assumes "cookie_handle_request crypto distrib now req conn a = (r, req', conn', a')"
  obtains (session) conn1 where "process_login crypto distrib now req conn a = (True, conn1, a')" "\<not> r" "req' = req" "conn' = conn1"
  | (free) "\<not> need_authentication req a \<or> (m_redirect a \<noteq> [] \<and> m_redirect a = req_resource req)" "r" "req' = req" "a' = a"
  | (denied) "need_authentication req a" "\<not> r" "req' = req" "a' = expire_cache COOKIE_CACHE_EXPIRATION now a"
  | (cached) t user where "need_authentication req a" "r" "get_cookie req AUTH_COOKIE_NAME \<noteq> []"
      "omap_find (m_user_cache (expire_cache COOKIE_CACHE_EXPIRATION now a)) (get_cookie req AUTH_COOKIE_NAME) = Some (t, user)"
      "(req', a') = use_cache_entry (get_cookie req AUTH_COOKIE_NAME) user now req (expire_cache COOKIE_CACHE_EXPIRATION now a)"
proof (cases "process_login crypto distrib now req conn a")
  case (fields processed conn1 a1)
  let ?a = "expire_cache COOKIE_CACHE_EXPIRATION now a" and ?c = "get_cookie req AUTH_COOKIE_NAME"
  note d = assms [unfolded cookie_handle_request_def fields Let_def split]
  show thesis
  proof (cases processed)
    case True
    then show thesis using d fields by (intro session [of conn1]) simp_all
  next
    case False
    from fields False have a1: "a1 = a" "conn1 = conn" by (auto elim: process_login_cases)
    show thesis
    proof (cases "need_authentication req a \<and> \<not> (m_redirect a \<noteq> [] \<and> m_redirect a = req_resource req)")
      case no: False
      then show thesis using d False a1 by (intro free) (auto split: if_splits)
    next
      case need: True
      show thesis
      proof (cases "?c = [] \<or> omap_find (m_user_cache ?a) ?c = None")
        case True
        then show thesis using d False a1 need by (intro denied) (auto split: if_splits)
      next
        case False
        then obtain t user where "omap_find (m_user_cache ?a) ?c = Some (t, user)" by auto
        then show thesis
          using d \<open>\<not> processed\<close> a1 need False by (intro cached [of t user]) (auto simp: split_beta split: if_splits)
      qed
    qed
  qed
qed

text \<open>A session of a user: a login with a password that one of the user managers of the history accepted.\<close>

definition logged_in :: "crypto \<Rightarrow> user_manager list \<Rightarrow> string \<Rightarrow> nat \<Rightarrow> bool" where
  "logged_in crypto ums key user =
     ((\<exists>bytes. length bytes = RANDOM_COOKIE_BYTES \<and> key = base64_encode bytes) \<and>
      (\<exists>um \<in> set ums. \<exists>name password. get_user_password crypto name password um = Some user))"

inductive cookie_run :: "crypto \<Rightarrow> ('g \<Rightarrow> nat \<times> 'g) \<Rightarrow> user_manager list \<Rightarrow> int \<Rightarrow> 'g cookie_auth \<Rightarrow> bool" for crypto distrib where
  start: "cookie_run crypto distrib [um] now (new_cookie_auth distrib um login logout redirect seed now)"
| change_users: "cookie_run crypto distrib ums now a \<Longrightarrow> cookie_run crypto distrib (um # ums) now (a\<lparr>m_user_manager := um\<rparr>)"
| restrict: "cookie_run crypto distrib ums now a \<Longrightarrow> cookie_run crypto distrib ums now (add_restrict resource a)"
| permit: "cookie_run crypto distrib ums now a \<Longrightarrow> cookie_run crypto distrib ums now (add_permit resource a)"
| option: "cookie_run crypto distrib ums now a \<Longrightarrow> cookie_run crypto distrib ums now (cookie_set_option name value a)"
| request: "cookie_run crypto distrib ums now a \<Longrightarrow> now \<le> now' \<Longrightarrow>
    cookie_handle_request crypto distrib now' req conn a = (r, req', conn', a') \<Longrightarrow> cookie_run crypto distrib ums now' a'"

lemma cache_inv_set_option [simp]: "cache_inv P e now (cookie_set_option name value a) = cache_inv P e now a"
  by (simp add: cache_inv_def cookie_set_option_def)

lemma cache_inv_random [simp]: "cache_inv P e now (a\<lparr>m_random_gen := g\<rparr>) = cache_inv P e now a"
  by (simp add: cache_inv_def)

lemma length_draw: "draw distrib n g = (bytes, g') \<Longrightarrow> length bytes = n"
  by (induction n arbitrary: g bytes g') (auto split: prod.splits)

lemma cookie_run_inv:
  "cookie_run crypto distrib ums now a \<Longrightarrow>
     m_user_manager a \<in> set ums \<and> cache_inv (logged_in crypto ums) COOKIE_CACHE_EXPIRATION now a"
proof (induction rule: cookie_run.induct)
  case (start um now login logout redirect seed)
  then show ?case by (simp add: new_cookie_auth_def cache_inv_def)
next
  case (change_users ums now a um)
  have "logged_in crypto (um # ums) k u" if "logged_in crypto ums k u" for k u
    using that by (auto simp: logged_in_def)
  then have "cache_inv (logged_in crypto (um # ums)) COOKIE_CACHE_EXPIRATION now a"
    using change_users.IH cache_inv_mono by blast
  then show ?case by simp
next
  case (request ums now a now' req conn r req' conn' a')
  let ?a = "expire_cache COOKIE_CACHE_EXPIRATION now' a" and ?P = "logged_in crypto ums"
  have e: "cache_inv ?P COOKIE_CACHE_EXPIRATION now' a" "cache_inv ?P COOKIE_CACHE_EXPIRATION now' ?a"
    using request.IH request.hyps(2) cache_inv_later cache_inv_expire by blast+
  from request.hyps(3) show ?case
  proof (cases rule: cookie_handle_request_cases)
    case (session conn1)
    from session(1) show ?thesis
    proof (cases rule: process_login_cases)
      case (login user bytes g)
      have "?P (base64_encode bytes) user"
        using request.IH length_draw [OF login(4)] login(3) unfolding logged_in_def by blast
      then show ?thesis using login(5) cache_inv_insert [of ?P _ now' "a\<lparr>m_random_gen := g\<rparr>"] e(1) request.IH by simp
    next
      case logout
      then show ?thesis using e(1) request.IH cache_inv_erase by auto
    qed (use e(1) request.IH in simp_all)
  next
    case free
    then show ?thesis using e(1) request.IH by simp
  next
    case denied
    then show ?thesis using e(2) request.IH by simp
  next
    case (cached t user)
    then have "a' = snd (use_cache_entry (get_cookie req AUTH_COOKIE_NAME) user now' req ?a)" by (metis snd_conv)
    then show ?thesis using cache_inv_use [OF e(2) cached(4)] request.IH by (simp add: use_cache_entry_def)
  qed
qed (simp_all add: add_restrict_def add_permit_def, simp add: cookie_set_option_def)

lemma basic_granted:
  assumes "basic_run crypto ums now a" and "now \<le> now'" and "need_authentication req a"
    and "basic_handle_request crypto now' req conn a = Inr (True, req', conn', a')"
  shows "\<exists>key name password user um. parse_authorization (get_header req HEADER_AUTHORIZATION) = Some key \<and>
     parse_credentials key = Inr (Some (name, password)) \<and> um \<in> set ums \<and>
     get_user_password crypto name password um = Some user \<and> req_user_record req' = Some user \<and>
     (um = m_user_manager a \<or> (\<exists>t. now' \<le> t + 2 * seconds BASIC_CACHE_EXPIRATION \<and>
        omap_find (m_user_cache a) key = Some (t, user)))"
  using assms(4)
proof (cases rule: basic_handle_request_cases)
  case (cached key t user)
  note inv = basic_run_inv [OF assms(1)]
  have "omap_find (m_user_cache a) key = Some (t, user)"
    using cached(4) inv by (auto simp: expire_cache_def cache_inv_def omap_find_filter split: if_splits option.splits)
  moreover have "accepted_by crypto ums key user"
    using omap_find_member [OF calculation] inv by (auto simp: cache_inv_def)
  moreover have "now' \<le> t + 2 * seconds BASIC_CACHE_EXPIRATION" using cache_idle cached(4) inv by blast
  moreover have "req_user_record req' = Some user" using cached(5) by (simp add: use_cache_entry_def)
  ultimately show ?thesis using cached(3) unfolding accepted_by_def by blast
next
  case (fresh key user name password)
  then show ?thesis using basic_run_inv [OF assms(1)] by auto
qed (use assms(3) in simp_all)

section \<open>Properties\<close>

text \<open>Restricted resources. After any resources were restricted and any permitted, a request needs
  authentication exactly when there are users, its resource is a restricted one or lies below one, and it
  is neither a permitted one nor below one; a trailing slash makes no difference.\<close>

theorem restricted_resources:
  "need_authentication request (fold add_permit ps (fold add_restrict rs (a\<lparr>m_restrict_list := [], m_white_list := []\<rparr>))) \<longleftrightarrow>
     \<not> users_empty (m_user_manager a) \<and>
     (\<exists>r \<in> set rs. strip_trailing_slash (req_resource request) = strip_trailing_slash r \<or>
        (\<exists>rest. strip_trailing_slash (req_resource request) = strip_trailing_slash r @ CHR ''/'' # rest)) \<and>
     \<not> (\<exists>p \<in> set ps. strip_trailing_slash (req_resource request) = strip_trailing_slash p \<or>
        (\<exists>rest. strip_trailing_slash (req_resource request) = strip_trailing_slash p @ CHR ''/'' # rest))"
  by (simp add: need_authentication_iff fold_add_restrict fold_add_permit find_resource_inserts resource_matches_iff)

text \<open>C29: Basic authentication is sound. In every state that the object reaches, a request for a restricted
  resource that is let through carries credentials which decode to a name and a password that the user
  manager accepts now, or accepted earlier in the run, for the user the request is given; and in the
  second case the credentials were last used at most twice the expiration time ago.\<close>

theorem basic_auth_sound:
  assumes "basic_run crypto ums now a" and "now \<le> now'" and "need_authentication req a"
    and "basic_handle_request crypto now' req conn a = Inr (True, req', conn', a')"
  shows "\<exists>key name password user um. parse_authorization (get_header req HEADER_AUTHORIZATION) = Some key \<and>
     parse_credentials key = Inr (Some (name, password)) \<and> um \<in> set ums \<and>
     get_user_password crypto name password um = Some user \<and> req_user_record req' = Some user \<and>
     (um = m_user_manager a \<or> (\<exists>t. now' \<le> t + 2 * seconds BASIC_CACHE_EXPIRATION \<and>
        omap_find (m_user_cache a) key = Some (t, user)))"
  by (rule basic_granted [OF assms])

text \<open>A state with one user and a restricted resource, and a request with the credentials of that user.\<close>

definition example_users :: user_manager where
  "example_users = snd (add_user None ''joe'' ''pw'' new_user_manager)"

definition example_basic :: basic_auth where
  "example_basic = add_restrict ''/secret'' (new_basic_auth example_users ''PION'' 0)"

definition example_request :: http_message where
  "example_request = add_header HEADER_AUTHORIZATION (''Basic '' @ base64_encode ''joe:pw'') (new_request ''/secret/file'')"

lemma example_basic_run: "basic_run None [example_users] 0 example_basic"
  unfolding example_basic_def by (intro basic_run.restrict basic_run.start)

lemma example_basic_granted:
  "case basic_handle_request None 0 example_request (new_connection False False) example_basic of
     Inl _ \<Rightarrow> False | Inr (r, req', conn', a') \<Rightarrow> r \<and> need_authentication example_request example_basic \<and>
       need_authentication example_request (a'\<lparr>m_user_manager := snd (remove_user ''joe'' (snd (add_user None ''ann'' ''x'' (m_user_manager a'))))\<rparr>)"
  by code_simp

theorem basic_auth_sound_witness:
  "\<exists>key name password user. parse_authorization (get_header example_request HEADER_AUTHORIZATION) = Some key \<and>
     parse_credentials key = Inr (Some (name, password)) \<and> get_user_password None name password example_users = Some user"
proof -
  obtain req' conn' a' where g: "basic_handle_request None 0 example_request (new_connection False False) example_basic =
      Inr (True, req', conn', a')" and n: "need_authentication example_request example_basic"
    using example_basic_granted by (auto split: sum.splits)
  from basic_auth_sound [OF example_basic_run _ n g] show ?thesis by force
qed

text \<open>No revocation. Once credentials were accepted, they go on to be accepted for the whole expiration time
  after their last use, for the user they were accepted for, whatever becomes of the user manager in the
  meantime: removing the user or changing the password has no effect on them.\<close>

theorem basic_no_revocation:
  assumes "basic_run crypto ums now a" and "now \<le> now'" and "need_authentication req a"
    and "basic_handle_request crypto now' req conn a = Inr (True, req', conn', a')"
    and "need_authentication req (a'\<lparr>m_user_manager := um\<rparr>)" and "now'' \<le> now' + seconds BASIC_CACHE_EXPIRATION"
  shows "\<exists>req'' a''. basic_handle_request crypto now'' req conn (a'\<lparr>m_user_manager := um\<rparr>) = Inr (True, req'', conn, a'') \<and>
    req_user_record req'' = req_user_record req'"
proof -
  let ?a = "expire_cache BASIC_CACHE_EXPIRATION now' a"
  have ok: "omap_ok (m_user_cache ?a)" "omap_ok (m_user_cache a)"
    using basic_run_inv [OF assms(1)] by (auto simp: cache_inv_def expire_cache_def omap_ok_filter)
  obtain key user where k: "parse_authorization (get_header req HEADER_AUTHORIZATION) = Some key"
      "omap_find (m_user_cache a') key = Some (now', user)" "req_user_record req' = Some user" "omap_ok (m_user_cache a')"
    using assms(4)
  proof (cases rule: basic_handle_request_cases)
    case (cached key t user)
    then show thesis using that [of key user] ok by (simp add: use_cache_entry_def omap_find_assign)
  next
    case (fresh key user name password)
    then show thesis using that [of key user] ok by (simp add: omap_find_insert)
  qed (use assms(3) in simp_all)
  let ?b = "a'\<lparr>m_user_manager := um\<rparr>"
  have h: "get_header req HEADER_AUTHORIZATION \<noteq> []" using k(1) by (auto simp: parse_authorization_def starts_with_def)
  have "omap_find (m_user_cache (expire_cache BASIC_CACHE_EXPIRATION now'' ?b)) key = Some (now', user)"
    using expire_keeps [of ?b key now' user now''] k assms(6) by simp
  then have "basic_handle_request crypto now'' req conn ?b =
      Inr (True, fst (use_cache_entry key user now'' req (expire_cache BASIC_CACHE_EXPIRATION now'' ?b)), conn,
        snd (use_cache_entry key user now'' req (expire_cache BASIC_CACHE_EXPIRATION now'' ?b)))"
    unfolding basic_handle_request_def Let_def using assms(5) h k(1) by (simp add: split_beta)
  then show ?thesis using k(3) by (simp add: use_cache_entry_def)
qed

theorem basic_no_revocation_witness:
  "\<exists>req' a' req'' a''. basic_handle_request None 0 example_request (new_connection False False) example_basic =
        Inr (True, req', new_connection False False, a') \<and>
     basic_handle_request None 1000 example_request (new_connection False False)
        (a'\<lparr>m_user_manager := snd (remove_user ''joe'' (snd (add_user None ''ann'' ''x'' (m_user_manager a'))))\<rparr>) =
        Inr (True, req'', new_connection False False, a'')"
proof -
  let ?c = "new_connection False False"
  obtain req' conn' a' where g: "basic_handle_request None 0 example_request ?c example_basic = Inr (True, req', conn', a')"
      and n: "need_authentication example_request example_basic"
      "need_authentication example_request
         (a'\<lparr>m_user_manager := snd (remove_user ''joe'' (snd (add_user None ''ann'' ''x'' (m_user_manager a'))))\<rparr>)"
    using example_basic_granted by (auto split: sum.splits)
  have "conn' = ?c" using g by (auto elim: basic_handle_request_cases)
  with basic_no_revocation [OF example_basic_run _ n(1) g n(2), of 1000] g show ?thesis
    by (auto simp: seconds_def BASIC_CACHE_EXPIRATION_def)
qed

text \<open>Credentials with a byte above 127 index the decoding table of the base64 decoder with a negative number:
  the request of any client who has such a byte at the start of the credentials makes the server read
  outside of the table.\<close>

theorem basic_bad_byte:
  assumes "need_authentication req a" and "get_header req HEADER_AUTHORIZATION = ''Basic '' @ c # rest" and "128 \<le> byte_val c"
    and "omap_ok (m_user_cache a)" and "omap_find (m_user_cache a) (c # rest) = None"
  shows "basic_handle_request crypto now req conn a = Inl Out_of_bounds_read"
proof -
  have p: "parse_authorization (get_header req HEADER_AUTHORIZATION) = Some (c # rest)"
    using assms(2) by (simp add: parse_authorization_def starts_with_def)
  have "decode_entry c = None"
    using assms(3) char_to_int_nonneg_iff [of c] by (simp add: decode_entry_def Let_def)
  then have b: "parse_credentials (c # rest) = Inl Out_of_bounds_read" by (simp add: parse_credentials_def base64_decode_def)
  show ?thesis
    unfolding basic_handle_request_def Let_def
    using assms(1,2) p b expire_subset [OF assms(4,5), of BASIC_CACHE_EXPIRATION now] by simp
qed

theorem basic_bad_byte_witness:
  "basic_handle_request None 0 (add_header HEADER_AUTHORIZATION (''Basic '' @ [CHR 0xFF]) (new_request ''/secret''))
     (new_connection False False) example_basic = Inl Out_of_bounds_read"
proof -
  let ?q = "add_header HEADER_AUTHORIZATION (''Basic '' @ [CHR 0xFF]) (new_request ''/secret'')"
  have "need_authentication ?q example_basic \<and> get_header ?q HEADER_AUTHORIZATION = ''Basic '' @ CHR 0xFF # [] \<and>
      128 \<le> byte_val (CHR 0xFF) \<and> m_user_cache example_basic = []" by code_simp
  then show ?thesis using basic_bad_byte [of ?q example_basic "CHR 0xFF" "[]"] by simp
qed


text \<open>A generator that counts, the state of an object before and after a login, and the requests of a session.\<close>

definition count_up :: "nat \<Rightarrow> nat \<times> nat" where
  "count_up n = (n mod 256, n + 1)"

definition example_cookie :: "nat cookie_auth" where
  "example_cookie = add_restrict ''/secret'' (new_cookie_auth count_up example_users ''/login'' ''/logout'' [] 0 0)"

definition example_login :: http_message where
  "example_login = add_query ''user'' ''joe'' (add_query ''pass'' ''pw'' (new_request ''/login''))"

definition example_bytes :: string where
  "example_bytes = map byte_char [100..<120]"

definition with_session :: "string \<Rightarrow> http_message" where
  "with_session resource = add_cookie AUTH_COOKIE_NAME (base64_encode example_bytes) (new_request resource)"

lemma example_cookie_run: "cookie_run None count_up [example_users] 0 example_cookie"
  unfolding example_cookie_def by (intro cookie_run.restrict cookie_run.start)

lemma example_session:
  "case cookie_handle_request None count_up 0 example_login (new_connection False False) example_cookie of
     (r1, req1, conn1, a1) \<Rightarrow> \<not> r1 \<and> need_authentication (with_session ''/secret'') a1 \<and> m_redirect a1 = [] \<and>
       (case cookie_handle_request None count_up 5 (with_session ''/secret'') (new_connection False False) a1 of (r2, _) \<Rightarrow> r2)"
  by code_simp


text \<open>Sessions. A login with a valid name and password is answered and creates a session under a fresh cookie;
  for the expiration time, a request with this cookie for a restricted resource is let through as that
  user. A logout with the cookie ends the session: the same request is refused from then on.\<close>

theorem cookie_sessions:
  assumes "strip_trailing_slash (req_resource login) = m_login a"
    and "get_user_password crypto (get_query login ''user'') (get_query login ''pass'') (m_user_manager a) = Some user"
    and "draw distrib RANDOM_COOKIE_BYTES (m_random_gen a) = (bytes, g)"
    and "omap_ok (m_user_cache a)" and "omap_find (m_user_cache a) (base64_encode bytes) = None"
    and "need_authentication req a" and "get_cookie req AUTH_COOKIE_NAME = base64_encode bytes"
    and "strip_trailing_slash (req_resource req) \<noteq> m_login a" and "strip_trailing_slash (req_resource req) \<noteq> m_logout a"
    and "m_redirect a = [] \<or> m_redirect a \<noteq> req_resource req"
    and "strip_trailing_slash (req_resource logout) = m_logout a" and "m_logout a \<noteq> m_login a"
    and "get_cookie logout AUTH_COOKIE_NAME = base64_encode bytes"
    and "now' \<le> now + seconds COOKIE_CACHE_EXPIRATION"
  shows "\<exists>conn1 a1 req' a2 conn3 a3 conn4 a4.
     cookie_handle_request crypto distrib now login conn a = (False, login, conn1, a1) \<and>
     cookie_handle_request crypto distrib now' req conn a1 = (True, req', conn, a2) \<and> req_user_record req' = Some user \<and>
     cookie_handle_request crypto distrib later logout conn a2 = (False, logout, conn3, a3) \<and>
     cookie_handle_request crypto distrib afterwards req conn a3 = (False, req, conn4, a4)"
proof -
  let ?k = "base64_encode bytes"
  have k: "?k \<noteq> []" using length_draw [OF assms(3)] by (cases bytes rule: base64_encode.cases) (auto simp: RANDOM_COOKIE_BYTES_def)
  let ?a1 = "a\<lparr>m_random_gen := g, m_user_cache := omap_insert ?k (now, user) (m_user_cache a)\<rparr>"
  obtain conn1 where l: "cookie_handle_request crypto distrib now login conn a = (False, login, conn1, ?a1)"
    using assms(1,2,3) by (simp add: cookie_handle_request_def process_login_def Let_def)
  let ?e1 = "expire_cache COOKIE_CACHE_EXPIRATION now' ?a1"
  have f1: "omap_find (m_user_cache ?e1) ?k = Some (now, user)"
    using expire_keeps [of ?a1 ?k now user now' COOKIE_CACHE_EXPIRATION] assms(4,5,14) by (simp add: omap_find_insert)
  have o: "process_login crypto distrib t req conn b = (False, conn, b)"
    if "m_login b = m_login a" "m_logout b = m_logout a" for t b
    using that assms(8,9) by (simp add: process_login_def)
  have need: "need_authentication req b" if "m_user_manager b = m_user_manager a" "m_restrict_list b = m_restrict_list a"
      "m_white_list b = m_white_list a" for b :: "'a cookie_auth"
    using assms(6) that by (simp add: need_authentication_iff)
  obtain req' a2 where u: "use_cache_entry ?k user now' req ?e1 = (req', a2)" by (cases "use_cache_entry ?k user now' req ?e1")
  have r: "cookie_handle_request crypto distrib now' req conn ?a1 = (True, req', conn, a2)"
    using o [of ?a1] need [of ?a1] assms(7,10) k f1 u by (auto simp: cookie_handle_request_def Let_def)
  have a2: "m_login a2 = m_login a" "m_logout a2 = m_logout a" "m_redirect a2 = m_redirect a" "omap_ok (m_user_cache a2)"
      "m_user_manager a2 = m_user_manager a" "m_restrict_list a2 = m_restrict_list a" "m_white_list a2 = m_white_list a"
    using u assms(4) by (auto simp: use_cache_entry_def expire_cache_def omap_ok_filter)
  let ?a3 = "a2\<lparr>m_user_cache := omap_erase ?k (m_user_cache a2)\<rparr>"
  obtain conn3 where lo: "cookie_handle_request crypto distrib later logout conn a2 = (False, logout, conn3, ?a3)"
    using assms(11,12,13) a2 k by (simp add: cookie_handle_request_def process_login_def Let_def)
  have f3: "omap_find (m_user_cache (expire_cache COOKIE_CACHE_EXPIRATION afterwards ?a3)) ?k = None"
    using expire_subset [of ?a3 ?k] a2(4) by (simp add: omap_find_erase)
  obtain conn4 a4 where d: "cookie_handle_request crypto distrib afterwards req conn ?a3 = (False, req, conn4, a4)"
    using o [of ?a3] need [of ?a3] a2 assms(7,10) k f3 by (auto simp: cookie_handle_request_def Let_def)
  have "req_user_record req' = Some user" using u by (auto simp: use_cache_entry_def)
  with l r lo d show ?thesis by blast
qed

lemma example_resources:
  "strip_trailing_slash (req_resource example_login) = ''/login''" "strip_trailing_slash (req_resource (with_session ''/secret'')) = ''/secret''"
  "strip_trailing_slash (req_resource (with_session ''/logout/'')) = ''/logout''"
  by code_simp+

lemma example_fields:
  "m_login example_cookie = ''/login''" "m_logout example_cookie = ''/logout''" "m_redirect example_cookie = []"
  "m_user_cache example_cookie = []"
  by (simp_all add: example_cookie_def add_restrict_def new_cookie_auth_def)

lemma example_sessions:
  "get_user_password None (get_query example_login ''user'') (get_query example_login ''pass'') (m_user_manager example_cookie) = Some 0"
  "need_authentication (with_session ''/secret'') example_cookie"
  "draw count_up RANDOM_COOKIE_BYTES (m_random_gen example_cookie) = (example_bytes, 120)"
  by code_simp+

lemma example_cookies: "get_cookie (with_session r) AUTH_COOKIE_NAME = base64_encode example_bytes"
  by (simp add: with_session_def get_cookie_def add_cookie_def new_request_def empty_message_def get_value_def dict_find_def dict_insert_def
      iequal_to_def iequals_to_lower equal_range_def)

theorem cookie_sessions_witness:
  "\<exists>a1 req' a2 a3 conn1 conn3 conn4 a4. let c = new_connection False False in
     cookie_handle_request None count_up 0 example_login c example_cookie = (False, example_login, conn1, a1) \<and>
     cookie_handle_request None count_up 5 (with_session ''/secret'') c a1 = (True, req', c, a2) \<and>
     req_user_record req' = Some 0 \<and>
     cookie_handle_request None count_up 6 (with_session ''/logout/'') c a2 = (False, with_session ''/logout/'', conn3, a3) \<and>
     cookie_handle_request None count_up 7 (with_session ''/secret'') c a3 = (False, with_session ''/secret'', conn4, a4)"
proof -
  let ?l = example_login and ?a = example_cookie and ?q = "with_session ''/secret''" and ?o = "with_session ''/logout/''"
  have c: "omap_ok (m_user_cache ?a)" "omap_find (m_user_cache ?a) k = None" "m_redirect ?a = [] \<or> x" for k x
    by (simp_all add: example_fields)
  have r: "strip_trailing_slash (req_resource ?l) = m_login ?a" "strip_trailing_slash (req_resource ?q) \<noteq> m_login ?a"
      "strip_trailing_slash (req_resource ?q) \<noteq> m_logout ?a" "strip_trailing_slash (req_resource ?o) = m_logout ?a"
      "m_logout ?a \<noteq> m_login ?a"
    by (simp_all add: example_fields example_resources)
  have t: "(5 :: int) \<le> 0 + seconds COOKIE_CACHE_EXPIRATION" by (simp add: seconds_def COOKIE_CACHE_EXPIRATION_def)
  show ?thesis
    unfolding Let_def
    using cookie_sessions [OF r(1) example_sessions(1,3) c(1,2) example_sessions(2) example_cookies r(2,3) c(3) r(4,5)
        example_cookies t, where conn = "new_connection False False" and later = 6 and afterwards = 7] by blast
qed

end
