(* ===== verification/Http_Reader.thy ===== *)
theory Http_Reader
  imports Http_Parser Tcp_Connection
begin

text \<open>
  Reading of messages from a connection: the asynchronous readers (\<^verbatim>\<open>src/http_reader.cpp\<close>,
  \<^verbatim>\<open>include/pion/http/reader.hpp\<close>, \<^verbatim>\<open>request_reader.hpp\<close>, \<^verbatim>\<open>response_reader.hpp\<close>), the read
  timer (\<^verbatim>\<open>src/tcp_timer.cpp\<close>), and the blocking \<^verbatim>\<open>message::receive\<close> and \<^verbatim>\<open>message::read\<close>
  (\<^verbatim>\<open>src/http_message.cpp\<close>). A reader is its parser, its message, its connection and its timer. An
  operation on the socket is started by setting \<open>rd_reading\<close>, and its completion is an event with the
  bytes read or an error; the finished handler is the log of its calls. What leaves the parser as an
  exception leaves the reader as one.
\<close>

datatype read_error = Parser_error error_value_t | Operation_canceled | End_of_file | Io_error | Other_error

section \<open>The timer\<close>

record timer =
  m_timer_active :: bool
  m_was_cancelled :: bool

definition new_timer :: timer where
  "new_timer = \<lparr>m_timer_active = False, m_was_cancelled = False\<rparr>"

definition timer_start :: "timer \<Rightarrow> timer" where
  "timer_start t = t\<lparr>m_timer_active := True\<rparr>"

definition timer_cancel :: "timer \<Rightarrow> timer" where
  "timer_cancel t = t\<lparr>m_was_cancelled := True\<rparr>"

definition timer_callback :: "timer \<Rightarrow> connection \<Rightarrow> timer \<times> connection" where
  "timer_callback t c =
     (let t = t\<lparr>m_timer_active := False\<rparr> in (t, if \<not> m_was_cancelled t then cancel_connection c else c))"

section \<open>The reader\<close>

definition DEFAULT_READ_TIMEOUT :: nat where "DEFAULT_READ_TIMEOUT = 10"

record reader =
  rd_parser :: parser
  rd_message :: http_message
  rd_conn :: connection
  rd_timer :: "timer option"
  rd_timeout :: nat
  rd_reading :: bool
  rd_finished :: "read_error option list"

definition new_request_reader :: "connection \<Rightarrow> reader" where
  "new_request_reader tcp_conn =
     \<lparr> rd_parser = new_parser True DEFAULT_CONTENT_MAX,
       rd_message = (empty_message True)\<lparr>msg_remote_ip := c_remote_ip tcp_conn\<rparr>,
       rd_conn = tcp_conn, rd_timer = None, rd_timeout = DEFAULT_READ_TIMEOUT, rd_reading = False, rd_finished = [] \<rparr>"

definition new_response_reader :: "connection \<Rightarrow> http_message \<Rightarrow> reader" where
  "new_response_reader tcp_conn request =
     \<lparr> rd_parser = new_parser False DEFAULT_CONTENT_MAX,
       rd_message = (response_for request)\<lparr>msg_remote_ip := c_remote_ip tcp_conn\<rparr>,
       rd_conn = tcp_conn, rd_timer = None, rd_timeout = DEFAULT_READ_TIMEOUT, rd_reading = False, rd_finished = [] \<rparr>"

definition set_timeout :: "nat \<Rightarrow> reader \<Rightarrow> reader" where
  "set_timeout n r = r\<lparr>rd_timeout := n\<rparr>"

definition rd_set_lifecycle :: "lifecycle_type \<Rightarrow> reader \<Rightarrow> reader" where
  "rd_set_lifecycle t r = r\<lparr>rd_conn := set_lifecycle t (rd_conn r)\<rparr>"

definition finished_reading :: "read_error option \<Rightarrow> reader \<Rightarrow> reader" where
  "finished_reading ec r = r\<lparr>rd_finished := rd_finished r @ [ec]\<rparr>"

definition read_bytes :: "reader \<Rightarrow> reader" where
  "read_bytes r = r\<lparr>rd_reading := True\<rparr>"

definition read_bytes_with_timeout :: "reader \<Rightarrow> reader" where
  "read_bytes_with_timeout r =
     read_bytes (r\<lparr>rd_timer := (if 0 < rd_timeout r then Some (timer_start new_timer) else None)\<rparr>)"

text \<open>The bytes in the parser's read buffer are parsed.\<close>

definition consume_bytes :: "reader \<Rightarrow> fault + reader" where
  "consume_bytes r =
     (case parse (rd_parser r) (rd_message r) of
        Inl e \<Rightarrow> Inl e
      | Inr (result, ec, p, m) \<Rightarrow>
          (let r = r\<lparr>rd_parser := p, rd_message := m\<rparr>
           in if result = true_value then
                (let r = (if check_keep_alive m then
                            (if eof p then rd_set_lifecycle LIFECYCLE_KEEPALIVE r
                             else (let r = rd_set_lifecycle LIFECYCLE_PIPELINED r
                                   in r\<lparr>rd_conn := save_read_pos (Some (m_read p)) (rd_conn r)\<rparr>))
                          else rd_set_lifecycle LIFECYCLE_CLOSE r)
                 in Inr (finished_reading (map_option Parser_error ec) r))
              else if result = false_value then
                (let r = rd_set_lifecycle LIFECYCLE_CLOSE r
                 in Inr (finished_reading (map_option Parser_error ec) (r\<lparr>rd_message := m\<lparr>msg_is_valid := False\<rparr>\<rparr>)))
              else Inr (read_bytes_with_timeout r)))"

definition receive :: "reader \<Rightarrow> fault + reader" where
  "receive r =
     (if get_pipelined (rd_conn r) then
        (let r = rd_set_lifecycle LIFECYCLE_CLOSE r;
             pos = (case load_read_pos (rd_conn r) of Some bytes \<Rightarrow> bytes | None \<Rightarrow> [])
         in consume_bytes (r\<lparr>rd_parser := (rd_parser r)\<lparr>m_read := pos\<rparr>\<rparr>))
      else Inr (read_bytes_with_timeout (rd_set_lifecycle LIFECYCLE_CLOSE r)))"

definition handle_read_error :: "read_error \<Rightarrow> reader \<Rightarrow> fault + reader" where
  "handle_read_error read_error r =
     (let r = rd_set_lifecycle LIFECYCLE_CLOSE r
      in case check_premature_eof (rd_parser r) (rd_message r) of
           Inl e \<Rightarrow> Inl e
         | Inr (premature, p, m) \<Rightarrow>
             (let r = r\<lparr>rd_parser := p, rd_message := m\<rparr>
              in Inr (if \<not> premature then finished_reading None r else finished_reading (Some read_error) r)))"

text \<open>The completion of a read operation: with an error, or with bytes in the read buffer of the connection.\<close>

definition consume_read :: "read_error + string \<Rightarrow> reader \<Rightarrow> fault + reader" where
  "consume_read result r =
     (let r = r\<lparr>rd_timer := None, rd_reading := False\<rparr>
      in case result of
           Inl read_error \<Rightarrow> handle_read_error read_error r
         | Inr bytes \<Rightarrow>
             (let r = r\<lparr>rd_parser := set_read_buffer bytes (rd_parser r)\<rparr>
              in if eof (rd_parser r) then Inr (finished_reading (Some End_of_file) r) else consume_bytes r))"

section \<open>Blocking reads\<close>

text \<open>
  \<^verbatim>\<open>message::receive\<close>: the loop reads from the connection until the parser has decided. Each
  \<^verbatim>\<open>read_some\<close> gives bytes, possibly none, or an error; \<^const>\<open>None\<close> is a call that has not returned
  yet, at the end of the results given. The result is the error code, the number of bytes the parser has
  read in total, and the state; the flag says that the end of the connection was the end of the content.
\<close>

datatype recv_end = Parsed tribool | Ended_by_eof | Premature_eof

fun receive_loop ::
  "(read_error + string) list \<Rightarrow> parser \<Rightarrow> http_message \<Rightarrow> fault + (recv_end \<times> read_error option \<times> parser \<times> http_message) option" where
  "receive_loop reads p m =
     (case parse p m of
        Inl e \<Rightarrow> Inl e
      | Inr (result, ec, p, m) \<Rightarrow>
          if result \<noteq> indeterminate_value then Inr (Some (Parsed result, map_option Parser_error ec, p, m))
          else (case reads of
              [] \<Rightarrow> Inr None
            | read # reads \<Rightarrow>
                (case read of
                   Inr (b # bytes) \<Rightarrow> receive_loop reads (set_read_buffer (b # bytes) p) m
                 | _ \<Rightarrow>
                   (case check_premature_eof p m of
                      Inl e \<Rightarrow> Inl e
                    | Inr (premature, p, m) \<Rightarrow>
                        Inr (Some (if premature
                          then (Premature_eof, Some (case read of Inl e \<Rightarrow> e | Inr _ \<Rightarrow> Io_error), p, m)
                          else (Ended_by_eof, None, p, m)))))))"

definition receive_lifecycle :: "recv_end \<Rightarrow> parser \<Rightarrow> http_message \<Rightarrow> connection \<Rightarrow> connection" where
  "receive_lifecycle how p m tcp_conn =
     (if how = Premature_eof \<or> how = Parsed false_value then tcp_conn
      else if how \<noteq> Ended_by_eof \<and> check_keep_alive m then
        (if eof p then set_lifecycle LIFECYCLE_KEEPALIVE tcp_conn
         else save_read_pos (Some (m_read p)) (set_lifecycle LIFECYCLE_PIPELINED tcp_conn))
      else (let tcp_conn = set_lifecycle LIFECYCLE_CLOSE tcp_conn
            in if m_parse_headers_only p then save_read_pos (Some (m_read p)) tcp_conn else tcp_conn))"

definition message_receive ::
  "(read_error + string) list \<Rightarrow> parser \<Rightarrow> http_message \<Rightarrow> connection \<Rightarrow>
     fault + (nat \<times> read_error option \<times> http_message \<times> connection) option" where
  "message_receive reads p m tcp_conn =
     (let m = clear m;
          loop = (\<lambda>reads p.
            case receive_loop reads p m of
              Inl e \<Rightarrow> Inl e
            | Inr None \<Rightarrow> Inr None
            | Inr (Some (how, ec, p, m)) \<Rightarrow> Inr (Some (m_bytes_total_read p, ec, m, receive_lifecycle how p m tcp_conn)))
      in if get_pipelined tcp_conn then
           loop reads (set_read_buffer (case load_read_pos tcp_conn of Some bytes \<Rightarrow> bytes | None \<Rightarrow> []) p)
         else
           (case reads of
              [] \<Rightarrow> Inr None
            | Inl e # _ \<Rightarrow> Inr (Some (0, Some e, m, tcp_conn))
            | Inr bytes # reads \<Rightarrow> loop reads (set_read_buffer bytes p)))"

text \<open>
  \<^verbatim>\<open>message::read\<close>: one byte at a time from a stream, until the parser has decided or the stream fails at
  its end, which sets the error code. The result of the parser starts as \<^verbatim>\<open>false\<close>.
\<close>

fun read_loop :: "string \<Rightarrow> parser \<Rightarrow> http_message \<Rightarrow> tribool \<Rightarrow>
    fault + tribool \<times> read_error option \<times> parser \<times> http_message" where
  "read_loop [] p m parse_result = Inr (parse_result, Some Io_error, p, m)"
| "read_loop (c # str) p m parse_result =
     (case parse (set_read_buffer [c] p) m of
        Inl e \<Rightarrow> Inl e
      | Inr (result, ec, p, m) \<Rightarrow>
          if result \<noteq> indeterminate_value then Inr (result, map_option Parser_error ec, p, m)
          else read_loop str p m result)"

definition message_read ::
  "string \<Rightarrow> parser \<Rightarrow> http_message \<Rightarrow> fault + nat \<times> read_error option \<times> http_message" where
  "message_read str p m =
     (case read_loop str p (clear m) false_value of
        Inl e \<Rightarrow> Inl e
      | Inr (result, ec, p, m) \<Rightarrow>
          if result = indeterminate_value then
            (case check_premature_eof p m of
               Inl e \<Rightarrow> Inl e
             | Inr (premature, p, m) \<Rightarrow>
                 Inr (m_bytes_total_read p, if premature then ec else None, m))
          else Inr (m_bytes_total_read p, ec, m))"

end
