(* ===== verification/Http_Server.thy ===== *)
theory Http_Server
  imports Http_Auth Http_Reader
begin

text \<open>
  The HTTP server (\<^verbatim>\<open>src/http_server.cpp\<close>, \<^verbatim>\<open>include/pion/http/server.hpp\<close>): registration of
  resources and redirections, the dispatch of a request, and the standard answers. A request handler is
  code of the application: a function that takes the request, the connection and the state \<open>'w\<close> of the
  application, and returns or throws. The server is polymorphic in that state and in the generator of
  the cookie authentication.
\<close>

datatype 'w outcome =
    Returns http_message connection 'w
  | Throws string http_message connection 'w
  | Throws_bad_alloc http_message connection 'w

type_synonym 'w request_handler_t = "http_message \<Rightarrow> connection \<Rightarrow> 'w \<Rightarrow> 'w outcome"
type_synonym 'w error_handler_t = "string \<Rightarrow> 'w request_handler_t"

datatype 'g auth_ptr = No_auth | Basic_auth basic_auth | Cookie_auth "'g cookie_auth"

definition MAX_REDIRECTS :: nat where "MAX_REDIRECTS = 10"

record ('w, 'g) http_server =
  m_resources :: "'w request_handler_t omap"
  m_redirects :: "string omap"
  m_bad_request_handler :: "'w request_handler_t"
  m_not_found_handler :: "'w request_handler_t"
  m_server_error_handler :: "'w error_handler_t"
  m_auth_ptr :: "'g auth_ptr"
  srv_max_content_length :: nat

section \<open>The standard answers\<close>

text \<open>What all of them do: a response with a status, some content, and the end of the connection's turn.\<close>

definition answer_with ::
  "(http_message \<Rightarrow> http_message) \<Rightarrow> write_call list \<Rightarrow> 'w request_handler_t" where
  "answer_with edit content request tcp_conn world =
     Returns request
       (send_and_finish (foldl (\<lambda>w x. do_write x w) (edit_response edit (response_writer_for tcp_conn request)) content)) world"

definition BAD_REQUEST_HTML :: string where
  "BAD_REQUEST_HTML =
     ''<html><head>'' @ [LF] @ ''<title>400 Bad Request</title>'' @ [LF] @ ''</head><body>'' @ [LF] @
     ''<h1>Bad Request</h1>'' @ [LF] @
     ''<p>Your browser sent a request that this server could not understand.</p>'' @ [LF] @ ''</body></html>'' @ [LF]"

definition handle_bad_request :: "'w request_handler_t" where
  "handle_bad_request =
     answer_with (set_status_message RESPONSE_MESSAGE_BAD_REQUEST \<circ> set_status_code RESPONSE_CODE_BAD_REQUEST)
       [Write_no_copy BAD_REQUEST_HTML]"

definition NOT_FOUND_HTML_START :: string where
  "NOT_FOUND_HTML_START =
     ''<html><head>'' @ [LF] @ ''<title>404 Not Found</title>'' @ [LF] @ ''</head><body>'' @ [LF] @
     ''<h1>Not Found</h1>'' @ [LF] @ ''<p>The requested URL ''"

definition NOT_FOUND_HTML_FINISH :: string where
  "NOT_FOUND_HTML_FINISH = '' was not found on this server.</p>'' @ [LF] @ ''</body></html>'' @ [LF]"

definition handle_not_found_request :: "'w request_handler_t" where
  "handle_not_found_request request =
     answer_with (set_status_message RESPONSE_MESSAGE_NOT_FOUND \<circ> set_status_code RESPONSE_CODE_NOT_FOUND)
       [Write_no_copy NOT_FOUND_HTML_START, Write_text (xml_encode (req_resource request)), Write_no_copy NOT_FOUND_HTML_FINISH]
       request"

definition SERVER_ERROR_HTML_START :: string where
  "SERVER_ERROR_HTML_START =
     ''<html><head>'' @ [LF] @ ''<title>500 Server Error</title>'' @ [LF] @ ''</head><body>'' @ [LF] @
     ''<h1>Internal Server Error</h1>'' @ [LF] @ ''<p>The server encountered an internal error: <strong>''"

definition SERVER_ERROR_HTML_FINISH :: string where
  "SERVER_ERROR_HTML_FINISH = ''</strong></p>'' @ [LF] @ ''</body></html>'' @ [LF]"

definition handle_server_error :: "'w error_handler_t" where
  "handle_server_error error_msg =
     answer_with (set_status_message RESPONSE_MESSAGE_SERVER_ERROR \<circ> set_status_code RESPONSE_CODE_SERVER_ERROR)
       [Write_no_copy SERVER_ERROR_HTML_START, Write_text (xml_encode error_msg), Write_no_copy SERVER_ERROR_HTML_FINISH]"

definition FORBIDDEN_HTML_START :: string where
  "FORBIDDEN_HTML_START =
     ''<html><head>'' @ [LF] @ ''<title>403 Forbidden</title>'' @ [LF] @ ''</head><body>'' @ [LF] @
     ''<h1>Forbidden</h1>'' @ [LF] @ ''<p>User not authorized to access the requested URL ''"

definition FORBIDDEN_HTML_MIDDLE :: string where
  "FORBIDDEN_HTML_MIDDLE = ''</p><p><strong>'' @ [LF]"

definition FORBIDDEN_HTML_FINISH :: string where
  "FORBIDDEN_HTML_FINISH = ''</strong></p>'' @ [LF] @ ''</body></html>'' @ [LF]"

definition handle_forbidden_request :: "'w error_handler_t" where
  "handle_forbidden_request error_msg request =
     answer_with (set_status_message RESPONSE_MESSAGE_FORBIDDEN \<circ> set_status_code RESPONSE_CODE_FORBIDDEN)
       [Write_no_copy FORBIDDEN_HTML_START, Write_text (xml_encode (req_resource request)),
        Write_no_copy FORBIDDEN_HTML_MIDDLE, Write_text error_msg, Write_no_copy FORBIDDEN_HTML_FINISH] request"

definition NOT_ALLOWED_HTML_START :: string where
  "NOT_ALLOWED_HTML_START =
     ''<html><head>'' @ [LF] @ ''<title>405 Method Not Allowed</title>'' @ [LF] @ ''</head><body>'' @ [LF] @
     ''<h1>Not Allowed</h1>'' @ [LF] @ ''<p>The requested method ''"

definition NOT_ALLOWED_HTML_FINISH :: string where
  "NOT_ALLOWED_HTML_FINISH = '' is not allowed on this server.</p>'' @ [LF] @ ''</body></html>'' @ [LF]"

definition handle_method_not_allowed :: "'w error_handler_t" where
  "handle_method_not_allowed allowed_methods request =
     answer_with ((if allowed_methods \<noteq> [] then add_header ''Allow'' allowed_methods else id) \<circ>
         set_status_message RESPONSE_MESSAGE_METHOD_NOT_ALLOWED \<circ> set_status_code RESPONSE_CODE_METHOD_NOT_ALLOWED)
       [Write_no_copy NOT_ALLOWED_HTML_START, Write_text (xml_encode (req_method request)), Write_no_copy NOT_ALLOWED_HTML_FINISH]
       request"

section \<open>Configuration\<close>

definition new_http_server :: "('w, 'g) http_server" where
  "new_http_server =
     \<lparr> m_resources = [], m_redirects = [], m_bad_request_handler = handle_bad_request,
       m_not_found_handler = handle_not_found_request, m_server_error_handler = handle_server_error,
       m_auth_ptr = No_auth, srv_max_content_length = DEFAULT_CONTENT_MAX \<rparr>"

definition add_resource :: "string \<Rightarrow> 'w request_handler_t \<Rightarrow> ('w, 'g) http_server \<Rightarrow> ('w, 'g) http_server" where
  "add_resource resource handler s =
     s\<lparr>m_resources := omap_insert (strip_trailing_slash resource) handler (m_resources s)\<rparr>"

definition remove_resource :: "string \<Rightarrow> ('w, 'g) http_server \<Rightarrow> ('w, 'g) http_server" where
  "remove_resource resource s = s\<lparr>m_resources := omap_erase (strip_trailing_slash resource) (m_resources s)\<rparr>"

definition add_redirect :: "string \<Rightarrow> string \<Rightarrow> ('w, 'g) http_server \<Rightarrow> ('w, 'g) http_server" where
  "add_redirect requested_resource new_resource s =
     s\<lparr>m_redirects := omap_insert (strip_trailing_slash requested_resource) (strip_trailing_slash new_resource) (m_redirects s)\<rparr>"

definition set_bad_request_handler :: "'w request_handler_t \<Rightarrow> ('w, 'g) http_server \<Rightarrow> ('w, 'g) http_server" where
  "set_bad_request_handler h s = s\<lparr>m_bad_request_handler := h\<rparr>"

definition set_not_found_handler :: "'w request_handler_t \<Rightarrow> ('w, 'g) http_server \<Rightarrow> ('w, 'g) http_server" where
  "set_not_found_handler h s = s\<lparr>m_not_found_handler := h\<rparr>"

definition set_error_handler :: "'w error_handler_t \<Rightarrow> ('w, 'g) http_server \<Rightarrow> ('w, 'g) http_server" where
  "set_error_handler h s = s\<lparr>m_server_error_handler := h\<rparr>"

definition set_authentication :: "'g auth_ptr \<Rightarrow> ('w, 'g) http_server \<Rightarrow> ('w, 'g) http_server" where
  "set_authentication auth s = s\<lparr>m_auth_ptr := auth\<rparr>"

definition server_clear :: "('w, 'g) http_server \<Rightarrow> ('w, 'g) http_server" where
  "server_clear s = s\<lparr>m_resources := []\<rparr>"

section \<open>Dispatch\<close>

definition find_request_handler :: "string \<Rightarrow> ('w, 'g) http_server \<Rightarrow> 'w request_handler_t option" where
  "find_request_handler resource s =
     (if m_resources s = [] then None
      else (case search_down (\<lambda>i. resource_matches resource (fst i)) (omap_upto resource (m_resources s)) of
              Some i \<Rightarrow> Some (snd i)
            | None \<Rightarrow> None))"

text \<open>
  The loop over the redirections, with the number of redirections so far; \<^const>\<open>Inl\<close> is the exit when
  there are too many.
\<close>

function redirect_loop :: "string omap \<Rightarrow> nat \<Rightarrow> string \<Rightarrow> http_message \<Rightarrow> http_message + string \<times> http_message" where
  "redirect_loop redirects num_redirects resource_requested request =
     (case omap_find redirects resource_requested of
        None \<Rightarrow> Inr (resource_requested, request)
      | Some new_resource \<Rightarrow>
          (if MAX_REDIRECTS < num_redirects + 1 then Inl request
           else redirect_loop redirects (num_redirects + 1) new_resource (change_resource new_resource request)))"
  by pat_completeness auto
termination by (relation "measure (\<lambda>(_, n, _). MAX_REDIRECTS + 1 - n)") (auto simp: MAX_REDIRECTS_def)

declare redirect_loop.simps [simp del]

text \<open>The environment of a request: the build, the generator and the clock that the authentication uses.\<close>

record 'g environment =
  env_crypto :: crypto
  env_distrib :: "'g \<Rightarrow> nat \<times> 'g"
  env_now :: int

definition auth_handle_request ::
  "'g environment \<Rightarrow> http_message \<Rightarrow> connection \<Rightarrow> 'g auth_ptr \<Rightarrow> b64_error + bool \<times> http_message \<times> connection \<times> 'g auth_ptr" where
  "auth_handle_request env request tcp_conn auth =
     (case auth of
        No_auth \<Rightarrow> Inr (True, request, tcp_conn, No_auth)
      | Basic_auth a \<Rightarrow>
          (case basic_handle_request (env_crypto env) (env_now env) request tcp_conn a of
             Inl e \<Rightarrow> Inl e
           | Inr (r, request, tcp_conn, a) \<Rightarrow> Inr (r, request, tcp_conn, Basic_auth a))
      | Cookie_auth a \<Rightarrow>
          (case cookie_handle_request (env_crypto env) (env_distrib env) (env_now env) request tcp_conn a of
             (r, request, tcp_conn, a) \<Rightarrow> Inr (r, request, tcp_conn, Cookie_auth a)))"

text \<open>
  The error code a request arrives with: an error of the parser, or one of the connection. What is logged
  in either case is left out.
\<close>

definition is_parser_error :: "read_error option \<Rightarrow> bool" where
  "is_parser_error ec = (case ec of Some (Parser_error _) \<Rightarrow> True | _ \<Rightarrow> False)"

text \<open>The call of a request handler, with the recovery from exceptions other than \<^verbatim>\<open>bad_alloc\<close>.\<close>

definition call_handler :: "('w, 'g) http_server \<Rightarrow> 'w request_handler_t \<Rightarrow> 'w request_handler_t" where
  "call_handler s handler request tcp_conn world =
     (case handler request tcp_conn world of
        Throws what request tcp_conn world \<Rightarrow> m_server_error_handler s what request tcp_conn world
      | other \<Rightarrow> other)"

definition TOO_MANY_REDIRECTS :: string where
  "TOO_MANY_REDIRECTS = ''Maximum number of redirects (server::MAX_REDIRECTS) exceeded for requested resource''"

definition handle_request ::
  "'g environment \<Rightarrow> http_message \<Rightarrow> connection \<Rightarrow> read_error option \<Rightarrow> 'w \<Rightarrow> ('w, 'g) http_server \<Rightarrow>
     b64_error + 'w outcome \<times> ('w, 'g) http_server" where
  "handle_request env request tcp_conn ec world s =
     (if ec \<noteq> None \<or> \<not> msg_is_valid request then
        (let tcp_conn = set_lifecycle LIFECYCLE_CLOSE tcp_conn
         in Inr (if is_open tcp_conn \<and> is_parser_error ec
                 then m_bad_request_handler s request tcp_conn world
                 else Returns request (finish_connection tcp_conn) world, s))
      else
        (case redirect_loop (m_redirects s) 0 (strip_trailing_slash (req_resource request)) request of
           Inl request \<Rightarrow> Inr (m_server_error_handler s TOO_MANY_REDIRECTS request tcp_conn world, s)
         | Inr (resource_requested, request) \<Rightarrow>
             (case auth_handle_request env request tcp_conn (m_auth_ptr s) of
                Inl e \<Rightarrow> Inl e
              | Inr (granted, request, tcp_conn, auth) \<Rightarrow>
                  (let s = s\<lparr>m_auth_ptr := auth\<rparr>
                   in if \<not> granted then Inr (Returns request tcp_conn world, s)
                      else (case find_request_handler resource_requested s of
                          Some handler \<Rightarrow> Inr (call_handler s handler request tcp_conn world, s)
                        | None \<Rightarrow> Inr (m_not_found_handler s request tcp_conn world, s))))))"

section \<open>Connections\<close>

text \<open>
  A new connection gets a reader with the content limit of the server; when the reader has delivered its
  message, the server handles it.
\<close>

definition handle_connection :: "connection \<Rightarrow> ('w, 'g) http_server \<Rightarrow> fault + reader" where
  "handle_connection tcp_conn s =
     (let r = new_request_reader tcp_conn
      in receive (r\<lparr>rd_parser := (rd_parser r)\<lparr>m_max_content_length := srv_max_content_length s\<rparr>\<rparr>))"

definition handle_delivered ::
  "'g environment \<Rightarrow> reader \<Rightarrow> 'w \<Rightarrow> ('w, 'g) http_server \<Rightarrow> (b64_error + 'w outcome \<times> ('w, 'g) http_server) option" where
  "handle_delivered env r world s =
     (case rd_finished r of
        [] \<Rightarrow> None
      | ec # _ \<Rightarrow> Some (handle_request env (rd_message r) (rd_conn r) ec world s))"

end
