(* ===== verification/Server_Props.thy ===== *)
theory Server_Props
  imports Http_Server Auth_Props
begin

text \<open>
  Correctness of the HTTP server: which handler serves a resource, where redirections lead, and that a
  restricted resource is reached only by authenticated requests.
\<close>

section \<open>Resources\<close>

text \<open>The table of resources meets the contract of the search.\<close>

interpretation handlers: resource_search "\<lambda>s. omap_ok (m_resources s)" "\<lambda>s. omap_find (m_resources s)"
  "\<lambda>s r. find_request_handler r s"
proof -
  have e: "find_request_handler r s = map_option snd (search_resource (m_resources s) r)" for r and s :: "('w, 'g) http_server"
    by (auto simp: find_request_handler_def search_resource_def omap_upto_def search_down_def split: option.split)
  show "resource_search (\<lambda>s :: ('w, 'g) http_server. omap_ok (m_resources s)) (\<lambda>s. omap_find (m_resources s)) (\<lambda>s r. find_request_handler r s)"
    unfolding e
  proof (unfold_locales, goal_cases)
    case (1 s r)
    then show ?case by (rule ordered.search_none)
  next
    case (2 s r v)
    then show ?case by (rule ordered.search_some)
  qed
qed

text \<open>The operations that the configuration of a server consists of keep its tables ordered.\<close>

definition server_ok :: "('w, 'g) http_server \<Rightarrow> bool" where
  "server_ok s = (omap_ok (m_resources s) \<and> omap_ok (m_redirects s))"

lemma server_ok_operations [simp]:
  "server_ok new_http_server" "server_ok s \<Longrightarrow> server_ok (add_resource r h s)"
  "server_ok s \<Longrightarrow> server_ok (remove_resource r s)" "server_ok s \<Longrightarrow> server_ok (add_redirect r r' s)"
  "server_ok s \<Longrightarrow> server_ok (set_authentication auth s)" "server_ok s \<Longrightarrow> server_ok (server_clear s)"
  by (simp_all add: server_ok_def new_http_server_def add_resource_def remove_resource_def add_redirect_def
      set_authentication_def server_clear_def)

section \<open>Redirections\<close>

text \<open>Where some number of redirections lead from a resource; \<^const>\<open>None\<close> when there are fewer.\<close>

fun hops :: "string omap \<Rightarrow> nat \<Rightarrow> string \<Rightarrow> string option" where
  "hops redirects 0 r = Some r"
| "hops redirects (Suc n) r = (case omap_find redirects r of None \<Rightarrow> None | Some r' \<Rightarrow> hops redirects n r')"

lemma change_resource_twice [simp]: "change_resource r' (change_resource r q) = change_resource r' q"
  by (simp add: change_resource_def)

text \<open>The loop follows the redirections to their end, or exits when there are more than the maximum.\<close>

lemma redirect_loop_end:
  "hops redirects k r = Some r' \<Longrightarrow> omap_find redirects r' = None \<Longrightarrow> n + k \<le> MAX_REDIRECTS \<Longrightarrow>
     redirect_loop redirects n r q = Inr (r', if k = 0 then q else change_resource r' q)"
proof (induction k arbitrary: n r q)
  case 0
  then show ?case by (simp add: redirect_loop.simps)
next
  case (Suc k)
  then obtain r1 where "omap_find redirects r = Some r1" "hops redirects k r1 = Some r'" by (auto split: option.splits)
  then show ?case using Suc.IH [of r1 "n + 1" "change_resource r1 q"] Suc.prems
    by (auto simp: redirect_loop.simps [of _ n])
qed

lemma redirect_loop_too_many:
  "hops redirects (k + 1) r \<noteq> None \<Longrightarrow> n + k = MAX_REDIRECTS \<Longrightarrow> \<exists>q'. redirect_loop redirects n r q = Inl q'"
proof (induction k arbitrary: n r q)
  case 0
  then show ?case by (subst redirect_loop.simps) (auto split: option.splits)
next
  case (Suc k)
  then obtain r1 where "omap_find redirects r = Some r1" "hops redirects (k + 1) r1 \<noteq> None" by (auto split: option.splits)
  then show ?case using Suc.IH [of r1 "n + 1" "change_resource r1 q"] Suc.prems
    by (auto simp: redirect_loop.simps [of _ n])
qed

lemma hops_dichotomy:
  "hops redirects n r = None \<Longrightarrow> \<exists>k r'. k < n \<and> hops redirects k r = Some r' \<and> omap_find redirects r' = None"
proof (induction n arbitrary: r)
  case (Suc n)
  show ?case
  proof (cases "omap_find redirects r")
    case None
    then show ?thesis by (intro exI [of _ 0] exI [of _ r]) simp
  next
    case (Some r1)
    then obtain k r' where "k < n" "hops redirects k r1 = Some r'" "omap_find redirects r' = None"
      using Suc.IH [of r1] Suc.prems by auto
    then show ?thesis using Some by (intro exI [of _ "Suc k"] exI [of _ r']) simp
  qed
qed simp

section \<open>Dispatch\<close>

text \<open>A request that reaches the authentication, with the resource its redirections lead to.\<close>

lemma handle_request_end:
  assumes "msg_is_valid q" and "k \<le> MAX_REDIRECTS" and "hops (m_redirects s) k (strip_trailing_slash (req_resource q)) = Some r"
    and "omap_find (m_redirects s) r = None"
  shows "handle_request env q conn None w s =
     (case auth_handle_request env (if k = 0 then q else change_resource r q) conn (m_auth_ptr s) of
        Inl e \<Rightarrow> Inl e
      | Inr (granted, q', conn', auth) \<Rightarrow>
          Inr (if \<not> granted then Returns q' conn' w
               else (case find_request_handler r s of
                   Some h \<Rightarrow> call_handler s h q' conn' w
                 | None \<Rightarrow> m_not_found_handler s q' conn' w), s\<lparr>m_auth_ptr := auth\<rparr>))"
proof -
  have f: "find_request_handler r (s\<lparr>m_auth_ptr := auth\<rparr>) = find_request_handler r s" for auth
    by (simp add: find_request_handler_def)
  have c: "call_handler (s\<lparr>m_auth_ptr := auth\<rparr>) h = call_handler s h" for auth h
    by (intro ext) (simp add: call_handler_def split: outcome.split)
  have l: "redirect_loop (m_redirects s) 0 (strip_trailing_slash (req_resource q)) q = Inr (r, if k = 0 then q else change_resource r q)"
    using redirect_loop_end [OF assms(3,4), of 0] assms(2) by simp
  show ?thesis
    unfolding handle_request_def l using assms(1)
    by (simp add: f c Let_def split: sum.split prod.split option.split)
qed

section \<open>Properties\<close>

text \<open>C10: Dispatch. A valid request whose redirections end within the maximum at a resource, and that the
  authentication lets through, is served by the handler registered for the longest path that is the
  resource or one of its parents; an exception of the handler is answered by the server error handler.
  Where no such path is registered, the not found handler serves it.\<close>

theorem request_dispatch:
  assumes "server_ok s" and "msg_is_valid q" and "k \<le> MAX_REDIRECTS"
    and "hops (m_redirects s) k (strip_trailing_slash (req_resource q)) = Some r" and "omap_find (m_redirects s) r = None"
    and "auth_handle_request env (if k = 0 then q else change_resource r q) conn (m_auth_ptr s) = Inr (True, q', conn', auth)"
  shows "(omap_find (m_resources s) key = Some h \<and> resource_matches r key \<and>
      (\<forall>key'. resource_matches r key' \<longrightarrow> omap_find (m_resources s) key' \<noteq> None \<longrightarrow> length key' \<le> length key) \<longrightarrow>
      handle_request env q conn None w s =
        Inr (case h q' conn' w of Throws what q2 conn2 w2 \<Rightarrow> m_server_error_handler s what q2 conn2 w2 | other \<Rightarrow> other,
             s\<lparr>m_auth_ptr := auth\<rparr>)) \<and>
    ((\<forall>key'. resource_matches r key' \<longrightarrow> omap_find (m_resources s) key' = None) \<longrightarrow>
      handle_request env q conn None w s = Inr (m_not_found_handler s q' conn' w, s\<lparr>m_auth_ptr := auth\<rparr>))"
proof -
  have ok: "omap_ok (m_resources s)" using assms(1) by (simp add: server_ok_def)
  have h: "handle_request env q conn None w s = Inr (case find_request_handler r s of
      Some h \<Rightarrow> call_handler s h q' conn' w | None \<Rightarrow> m_not_found_handler s q' conn' w, s\<lparr>m_auth_ptr := auth\<rparr>)"
    unfolding handle_request_end [OF assms(2-5), of env conn w] assms(6) by simp
  have "find_request_handler r s = Some h" if "omap_find (m_resources s) key = Some h \<and> resource_matches r key \<and>
      (\<forall>key'. resource_matches r key' \<longrightarrow> omap_find (m_resources s) key' \<noteq> None \<longrightarrow> length key' \<le> length key)"
    using that handlers.search_longest [where m = s and k = key and v = h and r = r] ok by blast
  moreover have "find_request_handler r s = None" if "\<forall>key'. resource_matches r key' \<longrightarrow> omap_find (m_resources s) key' = None"
    using that handlers.search_none [where m = s and r = r] ok by blast
  ultimately show ?thesis using h by (simp add: call_handler_def)
qed

text \<open>A server with two nested resources; the handlers note in the state of the application which was called.\<close>

definition note_call :: "string \<Rightarrow> string list request_handler_t" where
  "note_call name q conn w = Returns q conn (w @ [name])"

definition example_server :: "(string list, nat) http_server" where
  "example_server = add_redirect ''/old/'' ''/a/b'' (add_resource ''/a'' (note_call ''outer'')
     (add_resource ''/a/b/'' (note_call ''inner'') new_http_server))"

definition example_env :: "nat environment" where
  "example_env = \<lparr>env_crypto = None, env_distrib = count_up, env_now = 0\<rparr>"

definition valid_request :: "string \<Rightarrow> http_message" where
  "valid_request resource = (new_request resource)\<lparr>msg_is_valid := True\<rparr>"

lemma example_server_fields:
  "m_resources example_server = [(''/a'', note_call ''outer''), (''/a/b'', note_call ''inner'')]"
  "m_redirects example_server = [(''/old'', ''/a/b'')]" "m_auth_ptr example_server = No_auth"
  by (simp_all add: example_server_def add_redirect_def add_resource_def new_http_server_def strip_trailing_slash_def)

theorem request_dispatch_witness:
  "\<exists>s'. handle_request example_env (valid_request ''/old/'') (new_connection False False) None [] example_server =
     Inr (Returns (change_resource ''/a/b'' (valid_request ''/old/'')) (new_connection False False) [''inner''], s')"
proof -
  let ?q = "valid_request ''/old/''" and ?s = example_server and ?c = "new_connection False False"
  have v: "msg_is_valid ?q" "strip_trailing_slash (req_resource ?q) = ''/old''"
    by (simp_all add: valid_request_def new_request_def strip_trailing_slash_def)
  have h: "hops (m_redirects ?s) 1 (strip_trailing_slash (req_resource ?q)) = Some ''/a/b''" "omap_find (m_redirects ?s) ''/a/b'' = None"
    by (simp_all add: v example_server_fields omap_find_def)
  have ok: "server_ok ?s" "(1 :: nat) \<le> MAX_REDIRECTS" by (simp_all add: example_server_def MAX_REDIRECTS_def)
  have a: "auth_handle_request example_env (if (1 :: nat) = 0 then ?q else change_resource ''/a/b'' ?q) ?c (m_auth_ptr ?s) =
      Inr (True, change_resource ''/a/b'' ?q, ?c, No_auth)"
    by (simp add: example_server_fields auth_handle_request_def)
  have f: "omap_find (m_resources ?s) ''/a/b'' = Some (note_call ''inner'')" by (simp add: example_server_fields omap_find_def)
  have m: "resource_matches ''/a/b'' ''/a/b''" by (simp add: resource_matches_def)
  have l: "resource_matches ''/a/b'' key' \<Longrightarrow> length key' \<le> length ''/a/b''" for key'
    using resource_matches_take [of "''/a/b''" key'] by (metis length_take min.cobounded1)
  from request_dispatch [OF ok(1) v(1) ok(2) h a, where key = "''/a/b''" and h = "note_call ''inner''" and w = "[]"] f m l
  have "handle_request example_env ?q ?c None [] ?s =
      Inr (Returns (change_resource ''/a/b'' ?q) ?c ([] @ [''inner'']), ?s\<lparr>m_auth_ptr := No_auth\<rparr>)"
    unfolding note_call_def by (simp only: outcome.case) blast
  then show ?thesis by auto
qed

text \<open>Redirections end. Whatever redirections are configured, cycles included, a valid request is led to a
  resource without redirection in at most ten steps, or, exactly when there are more, answered with the
  server error of too many redirections, before the authentication and without calling a handler.\<close>

theorem redirects_bounded:
  assumes "msg_is_valid q"
  shows "(hops (m_redirects s) (MAX_REDIRECTS + 1) (strip_trailing_slash (req_resource q)) = None \<longrightarrow>
       (\<exists>k r q'. k \<le> MAX_REDIRECTS \<and> hops (m_redirects s) k (strip_trailing_slash (req_resource q)) = Some r \<and>
         omap_find (m_redirects s) r = None \<and>
         redirect_loop (m_redirects s) 0 (strip_trailing_slash (req_resource q)) q = Inr (r, q'))) \<and>
     (hops (m_redirects s) (MAX_REDIRECTS + 1) (strip_trailing_slash (req_resource q)) \<noteq> None \<longrightarrow>
       (\<exists>q'. handle_request env q conn None w s = Inr (m_server_error_handler s TOO_MANY_REDIRECTS q' conn w, s)))"
proof (intro conjI impI)
  let ?r = "strip_trailing_slash (req_resource q)"
  assume "hops (m_redirects s) (MAX_REDIRECTS + 1) ?r = None"
  from hops_dichotomy [OF this] obtain k r where k: "k < MAX_REDIRECTS + 1" "hops (m_redirects s) k ?r = Some r"
      "omap_find (m_redirects s) r = None" by blast
  then show "\<exists>k r q'. k \<le> MAX_REDIRECTS \<and> hops (m_redirects s) k ?r = Some r \<and> omap_find (m_redirects s) r = None \<and>
      redirect_loop (m_redirects s) 0 ?r q = Inr (r, q')"
    using redirect_loop_end [OF k(2,3), of 0 q] by (auto simp: less_Suc_eq_le)
next
  let ?r = "strip_trailing_slash (req_resource q)"
  assume "hops (m_redirects s) (MAX_REDIRECTS + 1) ?r \<noteq> None"
  then obtain q' where "redirect_loop (m_redirects s) 0 ?r q = Inl q'"
    using redirect_loop_too_many [of "m_redirects s" MAX_REDIRECTS ?r 0 q] by auto
  then show "\<exists>q'. handle_request env q conn None w s = Inr (m_server_error_handler s TOO_MANY_REDIRECTS q' conn w, s)"
    using assms by (auto simp: handle_request_def)
qed

theorem redirects_bounded_witness:
  "\<exists>q'. handle_request example_env (valid_request ''/x'') (new_connection False False) None ([] :: string list)
       (add_redirect ''/x'' ''/y'' (add_redirect ''/y'' ''/x'' new_http_server)) =
     Inr (handle_server_error TOO_MANY_REDIRECTS q' (new_connection False False) [],
       add_redirect ''/x'' ''/y'' (add_redirect ''/y'' ''/x'' new_http_server))"
proof -
  let ?s = "add_redirect ''/x'' ''/y'' (add_redirect ''/y'' ''/x'' new_http_server) :: (string list, nat) http_server"
  have v: "msg_is_valid (valid_request ''/x'')" "strip_trailing_slash (req_resource (valid_request ''/x'')) = ''/x''"
    by (simp_all add: valid_request_def new_request_def strip_trailing_slash_def)
  have r: "m_redirects ?s = [(''/x'', ''/y''), (''/y'', ''/x'')]" "m_server_error_handler ?s = handle_server_error"
    by (simp_all add: add_redirect_def new_http_server_def strip_trailing_slash_def)
  have "hops (m_redirects ?s) (MAX_REDIRECTS + 1) ''/x'' \<noteq> None"
    unfolding r by (simp add: MAX_REDIRECTS_def omap_find_def eval_nat_numeral)
  then show ?thesis
    using redirects_bounded [OF v(1), of ?s example_env "new_connection False False" "[]"] unfolding v(2) r(2) by blast
qed

text \<open>C9: Restricted resources are guarded. With basic authentication in any state it reaches, a valid request that is
  led to a resource that needs authentication is answered with the 401 page and reaches no handler, or it
  carries credentials that the user manager accepts now or accepted earlier, used at most twice the
  expiration time ago.\<close>

theorem restricted_guarded:
  assumes "basic_run (env_crypto env) ums now a" and "now \<le> env_now env" and "m_auth_ptr s = Basic_auth a"
    and "msg_is_valid q" and "k \<le> MAX_REDIRECTS" and "hops (m_redirects s) k (strip_trailing_slash (req_resource q)) = Some r"
    and "omap_find (m_redirects s) r = None" and "need_authentication (if k = 0 then q else change_resource r q) a"
    and "handle_request env q conn None w s = Inr (out, s')"
  shows "(\<exists>a' q'. out = Returns q' (basic_unauthorized q' conn a') w \<and> s' = s\<lparr>m_auth_ptr := Basic_auth a'\<rparr>) \<or>
    (\<exists>key name password user um. parse_authorization (get_header q HEADER_AUTHORIZATION) = Some key \<and>
       parse_credentials key = Inr (Some (name, password)) \<and> um \<in> set ums \<and>
       get_user_password (env_crypto env) name password um = Some user \<and>
       (um = m_user_manager a \<or> (\<exists>t. env_now env \<le> t + 2 * seconds BASIC_CACHE_EXPIRATION \<and>
          omap_find (m_user_cache a) key = Some (t, user))))"
proof -
  let ?q = "if k = 0 then q else change_resource r q"
  have hd: "get_header ?q key = get_header q key" for key by (simp add: get_header_def change_resource_def)
  note h = assms(9) [unfolded handle_request_end [OF assms(4-7), of env conn w] assms(3) auth_handle_request_def]
  show ?thesis
  proof (cases "basic_handle_request (env_crypto env) (env_now env) ?q conn a")
    case (Inl e)
    then show ?thesis using h by simp
  next
    case (Inr x)
    obtain granted q' conn' a' where x: "x = (granted, q', conn', a')" by (cases x)
    note b = Inr [unfolded x]
    show ?thesis
    proof (cases granted)
      case True
      with b have "basic_handle_request (env_crypto env) (env_now env) ?q conn a = Inr (True, q', conn', a')" by simp
      from basic_granted [OF assms(1,2,8) this] show ?thesis unfolding hd by blast
    next
      case False
      from b have "q' = ?q" "conn' = basic_unauthorized ?q conn a'"
        using False assms(8) by (auto elim: basic_handle_request_cases)
      then have "out = Returns q' (basic_unauthorized q' conn a') w" "s' = s\<lparr>m_auth_ptr := Basic_auth a'\<rparr>"
        using h b False by simp_all
      then show ?thesis by blast
    qed
  qed
qed

theorem restricted_guarded_witness:
  "\<exists>a' q'. handle_request example_env (valid_request ''/secret/file'') (new_connection False False) None ([] :: string list)
      (set_authentication (Basic_auth example_basic) (add_resource ''/secret'' (note_call ''secret'') new_http_server)) =
    Inr (Returns q' (basic_unauthorized q' (new_connection False False) a') [],
      (set_authentication (Basic_auth a') (add_resource ''/secret'' (note_call ''secret'') new_http_server)))"
proof -
  let ?q = "valid_request ''/secret/file''" and ?c = "new_connection False False"
  let ?s = "set_authentication (Basic_auth example_basic) (add_resource ''/secret'' (note_call ''secret'') new_http_server) :: (string list, nat) http_server"
  have v: "msg_is_valid ?q" by (simp add: valid_request_def)
  have f: "m_auth_ptr ?s = Basic_auth example_basic" "m_redirects ?s = []"
    by (simp_all add: set_authentication_def add_resource_def new_http_server_def)
  let ?r = "strip_trailing_slash (req_resource ?q)"
  have r: "hops (m_redirects ?s) 0 ?r = Some ?r" "omap_find (m_redirects ?s) ?r = None" by (simp_all add: f)
  have e: "env_crypto example_env = None" "env_now example_env = 0" by (simp_all add: example_env_def)
  have "need_authentication ?q example_basic \<and> parse_authorization (get_header ?q HEADER_AUTHORIZATION) = None" by code_simp
  then have n: "need_authentication (if (0 :: nat) = 0 then ?q else change_resource ?r ?q) example_basic"
      and p: "parse_authorization (get_header ?q HEADER_AUTHORIZATION) = None" by simp_all
  have "case handle_request example_env ?q ?c None [] ?s of Inl _ \<Rightarrow> False | Inr _ \<Rightarrow> True" by code_simp
  then obtain out s' where o: "handle_request example_env ?q ?c None [] ?s = Inr (out, s')" by (auto split: sum.splits)
  have b: "basic_run (env_crypto example_env) [example_users] 0 example_basic" "0 \<le> env_now example_env"
    using example_basic_run by (simp_all add: e)
  from restricted_guarded [OF b f(1) v _ r n o] p o show ?thesis
    by (auto simp: set_authentication_def)
qed

end
