(* ===== verification/Reader_Props.thy ===== *)
theory Reader_Props
  imports Http_Reader Parser_Session
begin

text \<open>
  Correctness of reading: however the bytes of a message arrive, the readers deliver the message that
  parsing them at once gives, and what was read behind it is left for the next message.
\<close>

section \<open>Pieces\<close>

text \<open>Parsing of buffers one after the other until the parser decides, with the buffers not looked at.\<close>

fun parse_pieces :: "parser \<Rightarrow> http_message \<Rightarrow> string list \<Rightarrow>
    fault + tribool \<times> error_value_t option \<times> parser \<times> http_message \<times> string list" where
  "parse_pieces p m [] = Inr (indeterminate_value, None, p, m, [])"
| "parse_pieces p m (b # bs) =
     (case parse (set_read_buffer b p) m of
        Inl e \<Rightarrow> Inl e
      | Inr (rc, ec, q, n) \<Rightarrow> if rc = indeterminate_value \<and> bs \<noteq> [] then parse_pieces q n bs else Inr (rc, ec, q, n, bs))"

lemma buffer_inv_content: "\<not> m_payload_handler p \<Longrightarrow> buffer_inv p m \<longleftrightarrow> content_inv p m"
  by (simp add: buffer_inv_def)

lemma content_inv_read [simp]: "content_inv (set_read_buffer s p) m = content_inv p m"
  by (simp add: content_inv_def set_read_buffer_def)

lemma parse_keeps:
  assumes "\<not> m_payload_handler p" and "content_inv p m" and "parse p m = Inr (rc, ec, q, n)"
  shows "\<not> m_payload_handler q" and "content_inv q n"
proof -
  have "buffer_inv q n \<and> config q = config p" using parse_buffer(2) [OF _ assms(3)] assms(1,2) by (simp add: buffer_inv_def)
  then show "\<not> m_payload_handler q" "content_inv q n" using assms(1) by (auto simp: config_def buffer_inv_def)
qed

lemma parse_pieces_concat:
  "bs \<noteq> [] \<Longrightarrow> [] \<notin> set bs \<Longrightarrow> \<not> m_payload_handler p \<Longrightarrow> content_inv p m \<Longrightarrow>
   parse_pieces p m bs = Inr (rc, ec, q, n, rest) \<Longrightarrow>
   parse_core (parse (set_read_buffer (concat bs) p) m) = Inr (core (rc, ec, q\<lparr>m_read := m_read q @ concat rest\<rparr>, n))"
proof (induction bs arbitrary: p m)
  case (Cons b bs)
  let ?p = "set_read_buffer b p"
  have h: "\<not> m_payload_handler ?p" "content_inv ?p m" "m_read ?p = b" using Cons.prems by (simp_all add: set_read_buffer_def)
  obtain rc1 ec1 q1 n1 where s: "parse ?p m = Inr (rc1, ec1, q1, n1)"
    using Cons.prems(5) by (auto split: sum.splits)
  have r: "set_read_buffer (concat (b # bs)) p = ?p\<lparr>m_read := m_read ?p @ concat bs\<rparr>" by (simp add: set_read_buffer_def)
  show ?case
  proof (cases "rc1 = indeterminate_value \<and> bs \<noteq> []")
    case True
    have ne: "concat bs \<noteq> []" using True Cons.prems(2) by (cases bs) auto
    have "parse_core (parse (?p\<lparr>m_read := m_read ?p @ concat bs\<rparr>) m) = parse_core (parse (q1\<lparr>m_read := concat bs\<rparr>) n1)"
      using parse_fragments_lemma [OF h(1,2) ne] s True by simp
    also have "\<dots> = Inr (core (rc, ec, q\<lparr>m_read := m_read q @ concat rest\<rparr>, n))"
      using Cons.IH [of q1 n1] parse_keeps [OF h(1,2) s] True Cons.prems s by (simp add: set_read_buffer_def)
    finally show ?thesis unfolding r .
  next
    case False
    then have e: "rc = rc1" "ec = ec1" "q = q1" "n = n1" "rest = bs" using Cons.prems(5) s by auto
    show ?thesis
    proof (cases "bs = []")
      case True
      then show ?thesis unfolding r using s e by (simp add: parse_core_def)
    next
      case bs: False
      then have "rc1 \<noteq> indeterminate_value" using False by simp
      from parse_pipelined_lemma [OF h(1,2) s this, of "concat bs"] show ?thesis
        unfolding r e by (simp add: parse_core_def)
    qed
  qed
qed simp

text \<open>An exception in a piece is an exception of the whole.\<close>

lemma parse_fault_append:
  assumes "\<not> m_payload_handler p" and "content_inv p m" and "parse p m = Inl e"
  shows "parse (p\<lparr>m_read := m_read p @ ys\<rparr>) m = Inl e"
proof (cases "ys = []")
  case True
  then show ?thesis using assms(3) by simp
next
  case False
  have "buffer_inv p (mark_missing m)" using assms(2) by (simp add: buffer_inv_def)
  then obtain k rc ec q n where l: "parse_loop p (mark_missing m) 0 = Inr (k, rc, ec, q, n)"
    using parse_loop_buffer [OF refl] by (metis old.sum.exhaust prod_cases5)
  have e: "parse_end rc q n = Inl e" using assms(3) l by (auto simp: parse_alt split: sum.splits prod.splits)
  then have rc: "rc = true_value" by (auto simp: parse_end_def split: if_splits)
  have "parse_loop (p\<lparr>m_read := m_read p @ ys\<rparr>) (mark_missing m) 0 = Inr (k, rc, ec, q\<lparr>m_read := m_read q @ ys\<rparr>, n)"
    using parse_loop_append [OF l assms(1) _ False] assms(2) rc by simp
  then show ?thesis using e by (simp add: parse_alt parse_end_with_read)
qed

lemma parse_pieces_fault:
  "[] \<notin> set bs \<Longrightarrow> \<not> m_payload_handler p \<Longrightarrow> content_inv p m \<Longrightarrow> parse_pieces p m bs = Inl e \<Longrightarrow>
   parse (set_read_buffer (concat bs) p) m = Inl e"
proof (induction bs arbitrary: p m)
  case (Cons b bs)
  let ?p = "set_read_buffer b p"
  have h: "\<not> m_payload_handler ?p" "content_inv ?p m" "m_read ?p = b" using Cons.prems by (simp_all add: set_read_buffer_def)
  have r: "set_read_buffer (concat (b # bs)) p = ?p\<lparr>m_read := m_read ?p @ concat bs\<rparr>" by (simp add: set_read_buffer_def)
  show ?case
  proof (cases "parse ?p m")
    case (Inl e')
    then have "e' = e" using Cons.prems(4) by simp
    then show ?thesis unfolding r using parse_fault_append [OF h(1,2)] Inl by simp
  next
    case (Inr x)
    obtain rc1 ec1 q1 n1 where x: "x = (rc1, ec1, q1, n1)" by (cases x)
    have c: "rc1 = indeterminate_value" "bs \<noteq> []" "parse_pieces q1 n1 bs = Inl e"
      using Cons.prems(4) Inr x by (auto split: if_splits)
    have ne: "concat bs \<noteq> []" using c(2) Cons.prems(1) by (cases bs) auto
    have "parse_core (parse (?p\<lparr>m_read := m_read ?p @ concat bs\<rparr>) m) = parse_core (parse (q1\<lparr>m_read := concat bs\<rparr>) n1)"
      using parse_fragments_lemma [OF h(1,2) ne] Inr x c(1) by simp
    moreover have "parse (q1\<lparr>m_read := concat bs\<rparr>) n1 = Inl e"
      using Cons.IH [of q1 n1] parse_keeps [OF h(1,2)] Inr x c Cons.prems(1) by (simp add: set_read_buffer_def)
    ultimately show ?thesis
      unfolding r by (cases "parse (?p\<lparr>m_read := m_read ?p @ concat bs\<rparr>) m") (simp_all add: parse_core_def)
  qed
qed simp

text \<open>A message that ends in the last piece is found there and nowhere before.\<close>

lemma parse_pieces_complete:
  assumes "bs \<noteq> []" and "[] \<notin> set bs" and "\<not> m_payload_handler p" and "content_inv p m"
    and "parse (set_read_buffer (concat bs) p) m = Inr (true_value, ec, q, n)" and "length (m_read q) < length (last bs)"
  shows "\<exists>k. parse_pieces p m bs = Inr (true_value, ec, q\<lparr>m_bytes_last_read := k\<rparr>, n, [])"
proof (cases "parse_pieces p m bs")
  case (Inl e)
  then show ?thesis using parse_pieces_fault [OF assms(2-4)] assms(5) by simp
next
  case (Inr x)
  obtain rc ec' q' n' rest where x: "x = (rc, ec', q', n', rest)" by (cases x)
  have c: "core (rc, ec', q'\<lparr>m_read := m_read q' @ concat rest\<rparr>, n') = core (true_value, ec, q, n)"
    using parse_pieces_concat [OF assms(1-4)] Inr x assms(5) by (simp add: parse_core_def)
  then have e: "rc = true_value" "ec' = ec" "n' = n" by (simp_all add: core_def)
  have q: "q\<lparr>m_bytes_last_read := 0\<rparr> = q'\<lparr>m_read := m_read q' @ concat rest, m_bytes_last_read := 0\<rparr>"
    using c e(1) by (simp add: core_def)
  then have "m_read (q\<lparr>m_bytes_last_read := 0\<rparr>) = m_read (q'\<lparr>m_read := m_read q' @ concat rest, m_bytes_last_read := 0\<rparr>)" by simp
  then have r: "m_read q = m_read q' @ concat rest" by simp
  have suffix: "\<exists>xs. bs = xs @ rest" using Inr [unfolded x]
  proof (induction bs arbitrary: p m)
    case (Cons b bs)
    then show ?case by (auto split: sum.splits prod.splits if_splits) (metis append_Cons)+
  qed simp
  have "rest = []"
  proof (rule ccontr)
    assume "rest \<noteq> []"
    then have "last bs = last rest" "length (last rest) \<le> length (concat rest)"
      using suffix by (auto simp: length_concat intro: member_le_sum_list)
    then show False using r assms(6) by simp
  qed
  have "(q\<lparr>m_bytes_last_read := 0\<rparr>)\<lparr>m_bytes_last_read := m_bytes_last_read q'\<rparr> =
      (q'\<lparr>m_read := m_read q' @ concat rest, m_bytes_last_read := 0\<rparr>)\<lparr>m_bytes_last_read := m_bytes_last_read q'\<rparr>"
    unfolding q ..
  then have "q' = q\<lparr>m_bytes_last_read := m_bytes_last_read q'\<rparr>" using \<open>rest = []\<close> by simp
  then show ?thesis using Inr x e \<open>rest = []\<close> by metis
qed

section \<open>The asynchronous reader\<close>

text \<open>The results of read operations are delivered as long as the reader has started one.\<close>

fun reader_reads :: "(read_error + string) list \<Rightarrow> reader \<Rightarrow> fault + reader" where
  "reader_reads [] r = Inr r"
| "reader_reads (x # xs) r =
     (if rd_reading r then (case consume_read x r of Inl e \<Rightarrow> Inl e | Inr r \<Rightarrow> reader_reads xs r) else Inr r)"

text \<open>What a connection is left with after a message with some bytes behind it.\<close>

definition after_message :: "http_message \<Rightarrow> string \<Rightarrow> connection \<Rightarrow> connection" where
  "after_message n rest c =
     (if \<not> check_keep_alive n then set_lifecycle LIFECYCLE_CLOSE c
      else if rest = [] then set_lifecycle LIFECYCLE_KEEPALIVE c
      else save_read_pos (Some rest) (set_lifecycle LIFECYCLE_PIPELINED c))"

lemma consume_bytes_true:
  assumes "parse (rd_parser r) (rd_message r) = Inr (true_value, ec, q, n)"
  shows "consume_bytes r = Inr (finished_reading (map_option Parser_error ec)
     (r\<lparr>rd_parser := q, rd_message := n, rd_conn := after_message n (m_read q) (rd_conn r)\<rparr>))"
  using assms by (simp add: consume_bytes_def after_message_def rd_set_lifecycle_def eof_def save_read_pos_def set_lifecycle_def Let_def)

lemma consume_bytes_more:
  assumes "parse (rd_parser r) (rd_message r) = Inr (indeterminate_value, ec, q, n)"
  shows "consume_bytes r = Inr (read_bytes_with_timeout (r\<lparr>rd_parser := q, rd_message := n\<rparr>))"
  using assms by (simp add: consume_bytes_def Let_def)

lemma reader_reads_true:
  "[] \<notin> set bs \<Longrightarrow> rd_reading r \<Longrightarrow> parse_pieces (rd_parser r) (rd_message r) bs = Inr (true_value, ec, q, n, []) \<Longrightarrow>
   \<exists>t. reader_reads (map Inr bs) r = Inr (finished_reading (map_option Parser_error ec)
     (r\<lparr>rd_timer := t, rd_reading := False, rd_parser := q, rd_message := n, rd_conn := after_message n (m_read q) (rd_conn r)\<rparr>))"
proof (induction bs arbitrary: r)
  case (Cons b bs)
  let ?r = "r\<lparr>rd_timer := None, rd_reading := False, rd_parser := set_read_buffer b (rd_parser r)\<rparr>"
  have b: "consume_read (Inr b) r = consume_bytes ?r"
    using Cons.prems(1) by (auto simp: consume_read_def eof_def set_read_buffer_def Let_def)
  obtain rc1 ec1 q1 n1 where s: "parse (rd_parser ?r) (rd_message ?r) = Inr (rc1, ec1, q1, n1)"
    using Cons.prems(3) by (auto split: sum.splits)
  show ?case
  proof (cases "rc1 = indeterminate_value \<and> bs \<noteq> []")
    case True
    let ?again = "read_bytes_with_timeout (?r\<lparr>rd_parser := q1, rd_message := n1\<rparr>)"
    have c: "consume_read (Inr b) r = Inr ?again" unfolding b using consume_bytes_more [of ?r] s True by simp
    have f: "rd_reading ?again" "rd_parser ?again = q1" "rd_message ?again = n1" "rd_conn ?again = rd_conn r" "rd_finished ?again = rd_finished r"
        "rd_timeout ?again = rd_timeout r"
      by (simp_all add: read_bytes_with_timeout_def read_bytes_def)
    have "parse_pieces (rd_parser ?again) (rd_message ?again) bs = Inr (true_value, ec, q, n, [])"
      using Cons.prems(3) s True f(2,3) by simp
    then obtain t where "reader_reads (map Inr bs) ?again = Inr (finished_reading (map_option Parser_error ec)
        (?again\<lparr>rd_timer := t, rd_reading := False, rd_parser := q, rd_message := n, rd_conn := after_message n (m_read q) (rd_conn ?again)\<rparr>))"
      using Cons.IH [of ?again] Cons.prems(1) f(1) by auto
    moreover have "?again\<lparr>rd_timer := t, rd_reading := False, rd_parser := q, rd_message := n, rd_conn := c'\<rparr> =
        r\<lparr>rd_timer := t, rd_reading := False, rd_parser := q, rd_message := n, rd_conn := c'\<rparr>" for t c'
      by (simp add: read_bytes_with_timeout_def read_bytes_def)
    ultimately show ?thesis using c Cons.prems(2) f(4) by auto
  next
    case False
    then have e: "rc1 = true_value" "ec1 = ec" "q1 = q" "n1 = n" "bs = []" using Cons.prems(3) s by auto
    show ?thesis
      using b consume_bytes_true [of ?r ec q n] s e Cons.prems(2) by (auto intro!: exI [of _ None])
  qed
qed simp

abbreviation fresh_parser :: parser where
  "fresh_parser \<equiv> new_parser True DEFAULT_CONTENT_MAX"

abbreviation fresh_request :: "connection \<Rightarrow> http_message" where
  "fresh_request conn \<equiv> (empty_message True)\<lparr>msg_remote_ip := c_remote_ip conn\<rparr>"

lemma new_request_reader_fields [simp]:
  "rd_parser (new_request_reader conn) = fresh_parser" "rd_message (new_request_reader conn) = fresh_request conn"
  "rd_conn (new_request_reader conn) = conn" "rd_finished (new_request_reader conn) = []"
  "rd_reading (new_request_reader conn) = False"
  by (simp_all add: new_request_reader_def)

lemma new_parser_inv: "\<not> m_payload_handler (new_parser r limit)" "content_inv (new_parser r limit) m"
  by (simp_all add: new_parser_def content_inv_def)

lemma reader_delivers:
  assumes "\<not> get_pipelined conn" and "bs \<noteq> []" and "[] \<notin> set bs"
    and "parse (set_read_buffer (concat bs) fresh_parser) (fresh_request conn) = Inr (true_value, ec, q, n)"
    and "length (m_read q) < length (last bs)"
  shows "\<exists>r r'. receive (new_request_reader conn) = Inr r \<and> reader_reads (map Inr bs) r = Inr r' \<and>
    rd_finished r' = [map_option Parser_error ec] \<and> rd_message r' = n \<and> \<not> rd_reading r' \<and>
    rd_conn r' = after_message n (m_read q) (set_lifecycle LIFECYCLE_CLOSE conn)"
proof -
  let ?r = "read_bytes_with_timeout (rd_set_lifecycle LIFECYCLE_CLOSE (new_request_reader conn))"
  have v: "receive (new_request_reader conn) = Inr ?r" using assms(1) by (simp add: receive_def)
  have f: "rd_reading ?r" "rd_parser ?r = fresh_parser" "rd_message ?r = fresh_request conn"
      "rd_conn ?r = set_lifecycle LIFECYCLE_CLOSE conn" "rd_finished ?r = []"
    by (simp_all add: read_bytes_with_timeout_def read_bytes_def rd_set_lifecycle_def)
  from parse_pieces_complete [OF assms(2,3) new_parser_inv assms(4,5)] obtain k where
    "parse_pieces (rd_parser ?r) (rd_message ?r) bs = Inr (true_value, ec, q\<lparr>m_bytes_last_read := k\<rparr>, n, [])"
    unfolding f by blast
  from reader_reads_true [OF assms(3) f(1) this] show ?thesis
    unfolding v f(4) by (auto simp: finished_reading_def f(5))
qed

lemma receive_pipelined:
  assumes "check_keep_alive n" and "rest \<noteq> []"
    and "parse (set_read_buffer rest fresh_parser) (fresh_request c) = Inr (true_value, ec, q, n')"
  shows "\<exists>r. receive (new_request_reader (after_message n rest c)) = Inr r \<and> rd_message r = n' \<and>
    rd_finished r = [map_option Parser_error ec] \<and> \<not> rd_reading r \<and>
    rd_conn r = after_message n' (m_read q) (set_lifecycle LIFECYCLE_CLOSE (save_read_pos (Some rest) c))"
proof -
  let ?c = "after_message n rest c"
  have c: "get_pipelined ?c" "load_read_pos (set_lifecycle t ?c) = Some rest" "c_remote_ip ?c = c_remote_ip c"
      "set_lifecycle t ?c = set_lifecycle t (save_read_pos (Some rest) c)" for t
    using assms(1,2) by (simp_all add: after_message_def connection_defs)
  let ?r = "(rd_set_lifecycle LIFECYCLE_CLOSE (new_request_reader ?c))\<lparr>rd_parser := set_read_buffer rest fresh_parser\<rparr>"
  have "receive (new_request_reader ?c) = consume_bytes ?r"
    using c by (simp add: receive_def rd_set_lifecycle_def set_read_buffer_def)
  moreover have "parse (rd_parser ?r) (rd_message ?r) = Inr (true_value, ec, q, n')"
    using assms(3) c(3) by (simp add: rd_set_lifecycle_def)
  ultimately show ?thesis
    using consume_bytes_true [of ?r] c(4) by (simp add: finished_reading_def rd_set_lifecycle_def)
qed

section \<open>Byte by byte\<close>

lemma read_loop_pieces:
  "str \<noteq> [] \<Longrightarrow> parse_pieces p m (map (\<lambda>c. [c]) str) = Inr (true_value, ec, q, n, []) \<Longrightarrow>
   read_loop (str @ behind) p m res = Inr (true_value, map_option Parser_error ec, q, n)"
proof (induction str arbitrary: p m res)
  case (Cons c str)
  obtain rc1 ec1 q1 n1 where s: "parse (set_read_buffer [c] p) m = Inr (rc1, ec1, q1, n1)"
    using Cons.prems(2) by (auto split: sum.splits)
  show ?case
  proof (cases "rc1 = indeterminate_value \<and> str \<noteq> []")
    case True
    then show ?thesis using s Cons by simp
  next
    case False
    then show ?thesis using s Cons.prems by auto
  qed
qed simp

section \<open>Properties\<close>

text \<open>C11: Reading is independent of how the bytes arrive. A request that ends in the last of some buffers, none of
  them empty, is delivered once, after the last of them was read: the message and the error code are those
  of parsing all bytes at once. The connection is set to be kept alive if the message allows it, and bytes
  behind the message are saved for the next one.\<close>

theorem reader_reassembles:
  assumes "\<not> get_pipelined conn" and "bs \<noteq> []" and "[] \<notin> set bs"
    and "parse (set_read_buffer (concat bs) (new_parser True DEFAULT_CONTENT_MAX))
      ((empty_message True)\<lparr>msg_remote_ip := c_remote_ip conn\<rparr>) = Inr (true_value, ec, q, n)"
    and "length (m_read q) < length (last bs)"
  shows "\<exists>r r'. receive (new_request_reader conn) = Inr r \<and> reader_reads (map Inr bs) r = Inr r' \<and>
    rd_finished r' = [map_option Parser_error ec] \<and> rd_message r' = n \<and> \<not> rd_reading r' \<and>
    rd_conn r' = after_message n (m_read q) (set_lifecycle LIFECYCLE_CLOSE conn)"
  by (rule reader_delivers [OF assms])

theorem reader_reassembles_witness:
  "\<exists>r r' n. receive (new_request_reader (new_connection False False)) = Inr r \<and>
     reader_reads [Inr ''GET / HT'', Inr (''TP/1.1'' @ [CR, LF, CR]), Inr [LF]] r = Inr r' \<and>
     rd_finished r' = [None] \<and> rd_message r' = n \<and> req_resource n = ''/''"
proof -
  let ?c = "new_connection False False" and ?bs = "[''GET / HT'', ''TP/1.1'' @ [CR, LF, CR], [LF]]"
  have "case parse (set_read_buffer (concat ?bs) fresh_parser) (fresh_request ?c) of
      Inl _ \<Rightarrow> False | Inr (rc, ec, q, n) \<Rightarrow> rc = true_value \<and> ec = None \<and> m_read q = [] \<and> req_resource n = ''/''"
    by code_simp
  then obtain q n where p: "parse (set_read_buffer (concat ?bs) fresh_parser) (fresh_request ?c) = Inr (true_value, None, q, n)"
      "m_read q = []" "req_resource n = ''/''" by (auto split: sum.splits)
  have c: "\<not> get_pipelined ?c" by (simp add: new_connection_def get_pipelined_def)
  from reader_reassembles [OF c _ _ p(1)] p(2,3) show ?thesis by auto
qed

text \<open>C12: Pipelining. When the last buffer of a request that keeps the connection alive also holds the next
  request, the next reader on the connection delivers that request without reading from the socket, and
  leaves what is behind it for the one after.\<close>

theorem pipelined_requests:
  assumes "\<not> get_pipelined conn" and "bs \<noteq> []" and "[] \<notin> set bs"
    and "parse (set_read_buffer (concat bs) (new_parser True DEFAULT_CONTENT_MAX))
      ((empty_message True)\<lparr>msg_remote_ip := c_remote_ip conn\<rparr>) = Inr (true_value, ec, q, n)"
    and "length (m_read q) < length (last bs)" and "check_keep_alive n" and "m_read q \<noteq> []"
    and "parse (set_read_buffer (m_read q) (new_parser True DEFAULT_CONTENT_MAX))
      ((empty_message True)\<lparr>msg_remote_ip := c_remote_ip conn\<rparr>) = Inr (true_value, ec', q', n')"
  shows "\<exists>r r' r''. receive (new_request_reader conn) = Inr r \<and> reader_reads (map Inr bs) r = Inr r' \<and>
    receive (new_request_reader (rd_conn r')) = Inr r'' \<and> rd_message r'' = n' \<and>
    rd_finished r'' = [map_option Parser_error ec'] \<and> \<not> rd_reading r'' \<and>
    rd_conn r'' = after_message n' (m_read q') (set_lifecycle LIFECYCLE_CLOSE (save_read_pos (Some (m_read q)) conn))"
proof -
  let ?c = "set_lifecycle LIFECYCLE_CLOSE conn"
  obtain r r' where r: "receive (new_request_reader conn) = Inr r" "reader_reads (map Inr bs) r = Inr r'"
      "rd_conn r' = after_message n (m_read q) ?c"
    using reader_delivers [OF assms(1-5)] by blast
  have "parse (set_read_buffer (m_read q) fresh_parser) (fresh_request ?c) = Inr (true_value, ec', q', n')"
    using assms(8) by (simp add: set_lifecycle_def)
  from receive_pipelined [OF assms(6,7) this] r show ?thesis by (auto simp: set_lifecycle_def save_read_pos_def)
qed

theorem pipelined_requests_witness:
  "\<exists>r r' r''. receive (new_request_reader (new_connection False False)) = Inr r \<and>
     reader_reads [Inr (''GET /a HTTP/1.1'' @ [CR, LF, CR, LF] @ ''GET /b HTTP/1.1'' @ [CR, LF, CR, LF])] r = Inr r' \<and>
     receive (new_request_reader (rd_conn r')) = Inr r'' \<and> req_resource (rd_message r'') = ''/b''"
proof -
  let ?c = "new_connection False False" and ?b = "''GET /a HTTP/1.1'' @ [CR, LF, CR, LF] @ ''GET /b HTTP/1.1'' @ [CR, LF, CR, LF]"
  have "case parse (set_read_buffer (concat [?b]) fresh_parser) (fresh_request ?c) of
      Inl _ \<Rightarrow> False | Inr (rc, ec, q, n) \<Rightarrow> rc = true_value \<and> ec = None \<and> check_keep_alive n \<and>
        m_read q = ''GET /b HTTP/1.1'' @ [CR, LF, CR, LF] \<and>
        (case parse (set_read_buffer (m_read q) fresh_parser) (fresh_request ?c) of
          Inl _ \<Rightarrow> False | Inr (rc, ec, q, n) \<Rightarrow> rc = true_value \<and> req_resource n = ''/b'')"
    by code_simp
  then obtain q n ec' q' n' where p: "parse (set_read_buffer (concat [?b]) fresh_parser) (fresh_request ?c) = Inr (true_value, None, q, n)"
      "check_keep_alive n" "m_read q = ''GET /b HTTP/1.1'' @ [CR, LF, CR, LF]"
      "parse (set_read_buffer (m_read q) fresh_parser) (fresh_request ?c) = Inr (true_value, ec', q', n')" "req_resource n' = ''/b''"
    by (auto split: sum.splits)
  have c: "\<not> get_pipelined ?c" by (simp add: new_connection_def get_pipelined_def)
  have l: "length (m_read q) < length (last [?b])" "m_read q \<noteq> []" using p(3) by simp_all
  from pipelined_requests [OF c _ _ p(1) l(1) p(2) l(2) p(4)] p(5) show ?thesis by auto
qed

text \<open>C13: Reading from a stream one byte at a time gives the message, the error code and the byte count of parsing
  the whole text at once, and reads nothing behind the message.\<close>

theorem message_read_equals_parse:
  assumes "parse (set_read_buffer str (new_parser is_request limit)) (clear m) = Inr (true_value, ec, q, n)"
    and "m_read q = []" and "str \<noteq> []"
  shows "message_read (str @ behind) (new_parser is_request limit) m =
    Inr (m_bytes_total_read q, map_option Parser_error ec, n)"
proof -
  let ?bs = "map (\<lambda>c. [c]) str"
  have c: "concat ?bs = str" by (induction str) simp_all
  have l: "last ?bs = [last str]" using assms(3) by (simp add: last_map)
  have "\<exists>k. parse_pieces (new_parser is_request limit) (clear m) ?bs = Inr (true_value, ec, q\<lparr>m_bytes_last_read := k\<rparr>, n, [])"
    by (rule parse_pieces_complete [OF _ _ new_parser_inv]) (use assms c l in auto)
  then obtain k where "parse_pieces (new_parser is_request limit) (clear m) ?bs = Inr (true_value, ec, q\<lparr>m_bytes_last_read := k\<rparr>, n, [])" ..
  from read_loop_pieces [OF assms(3) this] show ?thesis by (simp add: message_read_def)
qed

theorem message_read_equals_parse_witness:
  "\<exists>n. message_read (''GET /a HTTP/1.1'' @ [CR, LF, CR, LF] @ ''GET /b'') (new_parser True 10) (empty_message True) = Inr (19, None, n)"
proof -
  let ?s = "''GET /a HTTP/1.1'' @ [CR, LF, CR, LF]"
  have "case parse (set_read_buffer ?s (new_parser True 10)) (clear (empty_message True)) of
      Inl _ \<Rightarrow> False | Inr (rc, ec, q, n) \<Rightarrow> rc = true_value \<and> ec = None \<and> m_read q = [] \<and> m_bytes_total_read q = 19"
    by code_simp
  then obtain q n where p: "parse (set_read_buffer ?s (new_parser True 10)) (clear (empty_message True)) = Inr (true_value, None, q, n)"
      "m_read q = []" "m_bytes_total_read q = 19" by (auto split: sum.splits)
  from message_read_equals_parse [OF p(1,2), of "''GET /b''"] p(3) show ?thesis by auto
qed

end
