(* ===== verification/Spdy_Parser.thy ===== *)
theory Spdy_Parser
  imports Tribool Algorithm Ordered_Map "HOL-Library.Monad_Syntax"
begin

text \<open>
  The SPDY frame parser and the decompressor of its header blocks. A packet is the list of the bytes that
  may be read from \<^verbatim>\<open>packet_ptr\<close> on, and a pointer of the parser is an offset into it. Reading
  behind the packet, or behind the buffer of the decompressor, is \<^const>\<open>None\<close> in the operations and the
  fault \<open>Read_outside\<close> of the whole parser. The argument \<open>length_packet\<close> is separate from the packet, as in
  the code, and all arithmetic on it wraps around at 32 bits.

  zlib is a parameter: a record of the four functions that the decompressor calls, on a stream state of
  any type. \<^verbatim>\<open>assert\<close> stops the program unless the library was built with \<^verbatim>\<open>NDEBUG\<close>.
\<close>

section \<open>Types\<close>

type_synonym u32 = "32 word"

definition MIN_SPDY_VERSION :: "16 word" where "MIN_SPDY_VERSION = 3"

definition SPDY_DATA :: "16 word" where "SPDY_DATA = 0"
definition SPDY_SYN_STREAM :: "16 word" where "SPDY_SYN_STREAM = 1"
definition SPDY_SYN_REPLY :: "16 word" where "SPDY_SYN_REPLY = 2"
definition SPDY_RST_STREAM :: "16 word" where "SPDY_RST_STREAM = 3"
definition SPDY_SETTINGS :: "16 word" where "SPDY_SETTINGS = 4"
definition SPDY_PING :: "16 word" where "SPDY_PING = 6"
definition SPDY_GOAWAY :: "16 word" where "SPDY_GOAWAY = 7"
definition SPDY_HEADERS :: "16 word" where "SPDY_HEADERS = 8"
definition SPDY_WINDOW_UPDATE :: "16 word" where "SPDY_WINDOW_UPDATE = 9"
definition SPDY_CREDENTIAL :: "16 word" where "SPDY_CREDENTIAL = 10"
definition SPDY_INVALID :: "16 word" where "SPDY_INVALID = 11"

definition SPDY_FLAG_FIN :: u8 where "SPDY_FLAG_FIN = 1"

definition NON_SPDY :: u32 where "NON_SPDY = 0"
definition HTTP_REQUEST :: u32 where "HTTP_REQUEST = 1"
definition HTTP_RESPONSE :: u32 where "HTTP_RESPONSE = 2"
definition HTTP_DATA :: u32 where "HTTP_DATA = 3"
definition SPDY_CONTROL :: u32 where "SPDY_CONTROL = 4"

lemmas spdy_consts = MIN_SPDY_VERSION_def SPDY_DATA_def SPDY_SYN_STREAM_def SPDY_SYN_REPLY_def
  SPDY_RST_STREAM_def SPDY_SETTINGS_def SPDY_PING_def SPDY_GOAWAY_def SPDY_HEADERS_def
  SPDY_WINDOW_UPDATE_def SPDY_CREDENTIAL_def SPDY_INVALID_def

record spdy_control_frame_info =
  fr_control_bit :: bool
  fr_version :: "16 word"
  fr_type :: "16 word"
  fr_flags :: u8
  fr_length :: u32

record http_protocol_info =
  hi_http_headers :: "string omap"
  hi_http_type :: u32
  hi_stream_id :: u32
  hi_data_offset :: u32
  hi_data_size :: u32
  hi_last_chunk :: bool

definition new_http_protocol_info :: http_protocol_info where
  "new_http_protocol_info = \<lparr>hi_http_headers = [], hi_http_type = NON_SPDY, hi_stream_id = 0,
     hi_data_offset = 0, hi_data_size = 0, hi_last_chunk = False\<rparr>"

datatype spdy_frame_type = spdy_data_frame | spdy_control_frame | spdy_invalid_frame

datatype spdy_error = ERROR_INVALID_SPDY_FRAME | ERROR_INVALID_SPDY_VERSION | ERROR_DECOMPRESSION |
  ERROR_PROTOCOL_ERROR | ERROR_INTERNAL_SPDY_ERROR | ERROR_MISSING_HEADER_DATA

fun spdy_error_message :: "spdy_error \<Rightarrow> string" where
  "spdy_error_message ERROR_INVALID_SPDY_FRAME = ''invalid spdy frame''"
| "spdy_error_message ERROR_INVALID_SPDY_VERSION = ''invalid spdy version''"
| "spdy_error_message ERROR_DECOMPRESSION = ''error in decompression''"
| "spdy_error_message ERROR_MISSING_HEADER_DATA = ''missing header data''"
| "spdy_error_message _ = ''SPDYParser error''"

datatype spdy_fault = Read_outside | Assert_failed

text \<open>The states of zlib streams have the type \<open>'z\<close>. \<^verbatim>\<open>inflate\<close> gets the input that is left and the
  space that is left in the output buffer, and returns its code, the new stream, the bytes it wrote and the
  number of input bytes it did not consume.\<close>

record 'z zlib =
  inflateInit2 :: "int \<times> 'z"
  inflate :: "'z \<Rightarrow> u8 list \<Rightarrow> nat \<Rightarrow> int \<times> 'z \<times> u8 list \<times> nat"
  inflateSetDictionary :: "'z \<Rightarrow> u8 list \<Rightarrow> int \<times> 'z"
  adler :: "'z \<Rightarrow> 64 word"
  adler32 :: "64 word \<Rightarrow> u8 list \<Rightarrow> 64 word"

definition Z_OK :: int where "Z_OK = 0"
definition Z_NEED_DICT :: int where "Z_NEED_DICT = 2"

record 'z decompressor =
  m_request_zstream :: 'z
  m_response_zstream :: 'z
  m_dictionary_id :: u32
  m_uncompressed_header :: "u8 list"

record spdy_parser =
  m_read_ptr :: "nat option"
  m_uncompressed_ptr :: "nat option"
  m_current_data_chunk_ptr :: "nat option"
  m_last_data_chunk_ptr :: "nat option"
  m_logged :: "string list"

definition new_spdy_parser :: spdy_parser where
  "new_spdy_parser = \<lparr>m_read_ptr = None, m_uncompressed_ptr = None, m_current_data_chunk_ptr = None,
     m_last_data_chunk_ptr = None, m_logged = []\<rparr>"

definition get_spdy_data_content :: "spdy_parser \<Rightarrow> nat option" where
  "get_spdy_data_content p = m_last_data_chunk_ptr p"

definition get_spdy_read_pointer :: "spdy_parser \<Rightarrow> nat option" where
  "get_spdy_read_pointer p = m_read_ptr p"

definition set_read_ptr :: "nat \<Rightarrow> spdy_parser \<Rightarrow> spdy_parser" where
  "set_read_ptr ptr p = p\<lparr>m_read_ptr := Some ptr, m_current_data_chunk_ptr := Some ptr\<rparr>"

definition log_spdy :: "string \<Rightarrow> spdy_parser \<Rightarrow> spdy_parser" where
  "log_spdy msg p = p\<lparr>m_logged := m_logged p @ [msg]\<rparr>"

text \<open>The bytes from a pointer on, and moving the read pointer.\<close>

definition from_ptr :: "u8 list \<Rightarrow> nat option \<Rightarrow> u8 list" where
  "from_ptr pkt ptr = (case ptr of None \<Rightarrow> [] | Some i \<Rightarrow> drop i pkt)"

definition move_read_ptr :: "nat \<Rightarrow> spdy_parser \<Rightarrow> spdy_parser" where
  "move_read_ptr n p = p\<lparr>m_read_ptr := map_option (\<lambda>i. i + n) (m_read_ptr p)\<rparr>"

definition u8_char :: "u8 \<Rightarrow> char" where
  "u8_char b = byte_char (unat b)"

definition char_u8 :: "char \<Rightarrow> u8" where
  "char_u8 c = of_nat (byte_val c)"

section \<open>The decompressor\<close>

definition MAX_UNCOMPRESSED_DATA_BUF_SIZE :: nat where "MAX_UNCOMPRESSED_DATA_BUF_SIZE = 16384"

text \<open>The dictionary, with the zero byte that ends the literal and that \<^verbatim>\<open>sizeof\<close> counts.\<close>

definition SPDY_ZLIB_DICTIONARY :: "u8 list" where
  "SPDY_ZLIB_DICTIONARY = map char_u8 (
    ''optionsgetheadpostputdeletetraceacceptaccept-charsetaccept-encodingaccept-'' @
    ''languageauthorizationexpectfromhostif-modified-sinceif-matchif-none-matchi'' @
    ''f-rangeif-unmodifiedsincemax-forwardsproxy-authorizationrangerefererteuser'' @
    ''-agent10010120020120220320420520630030130230330430530630740040140240340440'' @
    ''5406407408409410411412413414415416417500501502503504505accept-rangesageeta'' @
    ''glocationproxy-authenticatepublicretry-afterservervarywarningwww-authentic'' @
    ''ateallowcontent-basecontent-encodingcache-controlconnectiondatetrailertran'' @
    ''sfer-encodingupgradeviawarningcontent-languagecontent-lengthcontent-locati'' @
    ''oncontent-md5content-rangecontent-typeetagexpireslast-modifiedset-cookieMo'' @
    ''ndayTuesdayWednesdayThursdayFridaySaturdaySundayJanFebMarAprMayJunJulAugSe'' @
    ''pOctNovDecchunkedtext/htmlimage/pngimage/jpgimage/gifapplication/xmlapplic'' @
    ''ation/xhtmltext/plainpublicmax-agecharset=iso-8859-1utf-8gzipdeflateHTTP/1'' @
    ''.1statusversionurl'' @ [NUL])"

text \<open>The constructor. The buffer, and the dictionary id when a stream cannot be initialised, keep what was
  in memory: \<open>uninit_id\<close> and \<open>uninit_buf\<close>.\<close>

definition new_decompressor :: "'z zlib \<Rightarrow> u32 \<Rightarrow> u8 list \<Rightarrow> 'z decompressor" where
  "new_decompressor zl uninit_id uninit_buf =
     (let (retcode, request) = inflateInit2 zl; (retcode', response) = inflateInit2 zl;
          id = (if retcode = Z_OK \<and> retcode' = Z_OK
                then ucast (adler32 zl (adler32 zl 0 []) SPDY_ZLIB_DICTIONARY) else uninit_id)
      in \<lparr>m_request_zstream = request, m_response_zstream = response, m_dictionary_id = id,
          m_uncompressed_header = uninit_buf\<rparr>)"

text \<open>Inflation of one header block with one of the streams. The result is the success, the stream, and the
  buffer, whose front was overwritten by the output. The length of the output is computed and dropped.\<close>

definition spdy_decompress_header ::
  "'z zlib \<Rightarrow> u32 \<Rightarrow> u8 list \<Rightarrow> 'z \<Rightarrow> u8 list \<Rightarrow> bool \<times> 'z \<times> u8 list" where
  "spdy_decompress_header zl dictionary_id buf decomp input =
     (let (retcode, decomp, out, avail_in) = inflate zl decomp input MAX_UNCOMPRESSED_DATA_BUF_SIZE;
          (retcode, decomp, out, avail_in) =
            (if retcode = Z_NEED_DICT \<and> adler zl decomp = ucast dictionary_id
             then let (retcode, decomp) = inflateSetDictionary zl decomp SPDY_ZLIB_DICTIONARY
                  in if retcode = Z_OK
                     then let (retcode, decomp, out', avail_in) =
                            inflate zl decomp (drop (length input - avail_in) input)
                              (MAX_UNCOMPRESSED_DATA_BUF_SIZE - length out)
                          in (retcode, decomp, out @ out', avail_in)
                     else (retcode, decomp, out, avail_in)
             else (retcode, decomp, out, avail_in))
      in (retcode = Z_OK \<and> avail_in = 0, decomp, out @ drop (length out) buf))"

text \<open>\<^const>\<open>None\<close>: the range handed to zlib leaves the packet, or no stream was selected. Otherwise the
  success and the new state.\<close>

definition decompress ::
  "'z zlib \<Rightarrow> u8 list \<Rightarrow> u32 \<Rightarrow> spdy_control_frame_info \<Rightarrow> u32 \<Rightarrow> 'z decompressor \<Rightarrow>
    (bool \<times> 'z decompressor) option" where
  "decompress zl compressed_data stream_id frame header_block_length d =
     (let request =
        (if stream_id mod 2 = 0 then Some False
         else if fr_type frame = SPDY_HEADERS then Some False
         else if fr_type frame = SPDY_SYN_STREAM then Some True
         else if fr_type frame = SPDY_SYN_REPLY then Some False
         else None)
      in case request of None \<Rightarrow> None
         | Some req \<Rightarrow>
             if length compressed_data < unat header_block_length then None
             else let (ok, z, buf) = spdy_decompress_header zl (m_dictionary_id d) (m_uncompressed_header d)
                        (if req then m_request_zstream d else m_response_zstream d)
                        (take (unat header_block_length) compressed_data)
                  in Some (ok, if req then d\<lparr>m_request_zstream := z, m_uncompressed_header := buf\<rparr>
                               else d\<lparr>m_response_zstream := z, m_uncompressed_header := buf\<rparr>))"

section \<open>Recognising frames\<close>

definition rst_stream_status :: "u32 \<Rightarrow> string option" where
  "rst_stream_status code =
     (if code = 1 then Some ''PROTOCOL_ERROR''
      else if code = 2 then Some ''INVALID_STREAM''
      else if code = 3 then Some ''REFUSED_STREAM''
      else if code = 4 then Some ''UNSUPPORTED_VERSION''
      else if code = 5 then Some ''CANCEL''
      else if code = 6 then Some ''INTERNAL_ERROR''
      else if code = 7 then Some ''FLOW_CONTROL_ERROR''
      else if code = 8 then Some ''STREAM_IN_USE''
      else if code = 9 then Some ''STREAM_ALREADY_CLOSED''
      else if code = 10 then Some ''INVALID_CREDENTIALS''
      else if code = 11 then Some ''FRAME_TOO_LARGE''
      else if code = 12 then Some ''INVALID''
      else None)"

definition is_spdy_control_frame :: "u8 list \<Rightarrow> bool option" where
  "is_spdy_control_frame pkt = do {
     byte_value \<leftarrow> buf_uint16 pkt;
     if drop_bit 15 byte_value = 0 then Some False
     else do {
       let version = byte_value AND 0x7FFF;
       if version < 1 \<or> 3 < version then Some False
       else do {
         type \<leftarrow> buf_uint16 (drop 2 pkt);
         Some (\<not> SPDY_INVALID \<le> type)
       }
     }
   }"

definition get_spdy_frame_type :: "u8 list \<Rightarrow> spdy_frame_type option" where
  "get_spdy_frame_type pkt =
     (case pkt of [] \<Rightarrow> None
      | first_byte # _ \<Rightarrow> Some (if first_byte = 0x80 then spdy_control_frame
          else if first_byte = 0 then spdy_data_frame else spdy_invalid_frame))"

definition get_control_frame_stream_id :: "u8 list \<Rightarrow> u32 option" where
  "get_control_frame_stream_id pkt = do {
     four_bytes \<leftarrow> buf_uint32 (drop 8 pkt);
     Some (four_bytes AND 0x7FFFFFFF)
   }"

section \<open>The frame header\<close>

text \<open>The three statements that step over \<open>n\<close> bytes: of the read pointer, the packet length and the offset.\<close>

definition skip_bytes ::
  "nat \<Rightarrow> spdy_parser \<times> u32 \<times> http_protocol_info \<Rightarrow> spdy_parser \<times> u32 \<times> http_protocol_info" where
  "skip_bytes n = (\<lambda>(p, length_packet, info).
     (move_read_ptr n p, length_packet - of_nat n,
      info\<lparr>hi_data_offset := hi_data_offset info + of_nat n\<rparr>))"

text \<open>The second half, the same for both kinds of frames: flags, length and, in a control frame, the
  stream id.\<close>

definition populate_rest ::
  "u8 list \<Rightarrow> bool \<Rightarrow> 16 word \<Rightarrow> 16 word \<Rightarrow> u32 \<Rightarrow> spdy_parser \<times> u32 \<times> http_protocol_info \<Rightarrow>
    ((spdy_control_frame_info \<times> u32) \<times> spdy_parser \<times> u32 \<times> http_protocol_info) option" where
  "populate_rest pkt control_bit version type stream_id s =
     (let s = skip_bytes 2 s in
      case from_ptr pkt (m_read_ptr (fst s)) of [] \<Rightarrow> None
      | flags # _ \<Rightarrow> do {
          four_bytes \<leftarrow> buf_uint32 (from_ptr pkt (m_read_ptr (fst s)));
          let frame = \<lparr>fr_control_bit = control_bit, fr_version = version, fr_type = type, fr_flags = flags,
                       fr_length = four_bytes AND 0xFFFFFF\<rparr>;
          let (p, length_packet, info) = skip_bytes 4 s;
          let info = info\<lparr>hi_data_size := fr_length frame\<rparr>;
          if control_bit then do {
            four_bytes \<leftarrow> buf_uint32 (from_ptr pkt (m_read_ptr p));
            Some ((frame, four_bytes AND 0x7FFFFFFF), p, length_packet, info)
          }
          else Some ((frame, stream_id), p, length_packet, info)
        })"

text \<open>\<^const>\<open>Inl\<close> is the return value false, with the error that was set.\<close>

definition populate_frame ::
  "u8 list \<Rightarrow> spdy_parser \<times> u32 \<times> http_protocol_info \<Rightarrow>
    ((spdy_error + spdy_control_frame_info \<times> u32) \<times> spdy_parser \<times> u32 \<times> http_protocol_info) option" where
  "populate_frame pkt s = do {
     byte_value \<leftarrow> buf_uint16 (from_ptr pkt (m_read_ptr (fst s)));
     if drop_bit 15 byte_value \<noteq> 0 then do {
       let version = byte_value AND 0x7FFF;
       let s = skip_bytes 2 s;
       type \<leftarrow> buf_uint16 (from_ptr pkt (m_read_ptr (fst s)));
       if SPDY_INVALID \<le> type
       then Some (Inl ERROR_INVALID_SPDY_FRAME, log_spdy ''Invalid SPDY Frame'' (fst s), snd s)
       else do {
         (f, s) \<leftarrow> populate_rest pkt True version type 0 s;
         Some (Inr f, s)
       }
     }
     else do {
       four_bytes \<leftarrow> buf_uint32 (from_ptr pkt (m_read_ptr (fst s)));
       let stream_id = four_bytes AND 0x7FFFFFFF;
       let (p, length_packet, info) = s;
       let s = skip_bytes 2 (p, length_packet, info\<lparr>hi_stream_id := stream_id\<rparr>);
       (f, s) \<leftarrow> populate_rest pkt False 0 SPDY_DATA stream_id s;
       Some (Inr f, s)
     }
   }"

section \<open>Payloads\<close>

text \<open>A string of \<open>n\<close> bytes at an offset of the buffer, read byte by byte.\<close>

definition read_chars :: "u8 list \<Rightarrow> nat \<Rightarrow> nat \<Rightarrow> string option" where
  "read_chars buf ptr n = (if ptr + n \<le> length buf then Some (map u8_char (take n (drop ptr buf))) else None)"

text \<open>The loop over the name/value pairs. A name that was already there keeps its first value.\<close>

fun name_value_pairs :: "nat \<Rightarrow> u8 list \<Rightarrow> nat \<Rightarrow> string omap \<Rightarrow> (nat \<times> string omap) option" where
  "name_value_pairs 0 buf ptr headers = Some (ptr, headers)"
| "name_value_pairs (Suc n) buf ptr headers = do {
     length_name \<leftarrow> buf_uint16 (drop ptr buf);
     name \<leftarrow> read_chars buf (ptr + 2) (unat length_name);
     let ptr = ptr + 2 + unat length_name;
     length_value \<leftarrow> buf_uint16 (drop ptr buf);
     val \<leftarrow> read_chars buf (ptr + 2) (unat length_value);
     name_value_pairs n buf (ptr + 2 + unat length_value) (omap_insert name val headers)
   }"

definition parse_header_payload ::
  "'z zlib \<Rightarrow> u8 list \<Rightarrow> spdy_control_frame_info \<Rightarrow> spdy_parser \<Rightarrow> 'z decompressor \<Rightarrow> http_protocol_info \<Rightarrow>
    (spdy_error option \<times> spdy_parser \<times> 'z decompressor \<times> http_protocol_info) option" where
  "parse_header_payload zl pkt frame p d info = do {
     four_bytes \<leftarrow> buf_uint32 (from_ptr pkt (m_read_ptr p));
     let stream_id = four_bytes AND 0x7FFFFFFF;
     let p = move_read_ptr 4 p;
     let info = info\<lparr>hi_stream_id := stream_id\<rparr>;
     let p = (if fr_type frame = SPDY_SYN_STREAM then move_read_ptr 2 (move_read_ptr 4 p)
              else if fr_type frame = SPDY_SYN_REPLY \<or> fr_type frame = SPDY_HEADERS then move_read_ptr 2 p
              else p);
     if fr_type frame = SPDY_SYN_STREAM \<or> fr_type frame = SPDY_SYN_REPLY \<or> fr_type frame = SPDY_HEADERS
     then do {
       let header_block_length = fr_length frame - (if fr_type frame = SPDY_SYN_STREAM then 10 else 6);
       (ok, d) \<leftarrow> decompress zl (from_ptr pkt (m_read_ptr p)) stream_id frame header_block_length d;
       if \<not> ok then Some (Some ERROR_DECOMPRESSION, p\<lparr>m_uncompressed_ptr := None\<rparr>, d, info)
       else do {
         num_name_val_pairs \<leftarrow> buf_uint16 (m_uncompressed_header d);
         (ptr, headers) \<leftarrow> name_value_pairs (unat num_name_val_pairs) (m_uncompressed_header d) 2
           (hi_http_headers info);
         Some (None, p\<lparr>m_uncompressed_ptr := Some ptr\<rparr>, d, info\<lparr>hi_http_headers := headers\<rparr>)
       }
     }
     else Some (Some ERROR_INVALID_SPDY_FRAME, log_spdy ''Invalid SPDY Frame Type'' p, d, info)
   }"

definition parse_spdy_data :: "spdy_control_frame_info \<Rightarrow> http_protocol_info \<Rightarrow> http_protocol_info" where
  "parse_spdy_data frame info =
     (if fr_flags frame AND SPDY_FLAG_FIN \<noteq> 0 then info\<lparr>hi_last_chunk := True\<rparr> else info)"

definition parse_spdy_rst_stream :: "u8 list \<Rightarrow> spdy_control_frame_info \<Rightarrow> spdy_parser \<Rightarrow> spdy_parser option" where
  "parse_spdy_rst_stream pkt frame p =
     (if fr_flags frame \<noteq> 0 \<or> fr_length frame \<noteq> 8 then Some p
      else do {
        let p = move_read_ptr 4 p;
        status_code \<leftarrow> buf_uint32 (from_ptr pkt (m_read_ptr p));
        Some (log_spdy (case rst_stream_status status_code of
            Some str \<Rightarrow> ''SPDY Status Code is : '' @ str
          | None \<Rightarrow> ''SPDY RST Invalid status code : '' @ to_string (unat status_code)) p)
      })"

definition parse_spdy_ping_frame :: "u8 list \<Rightarrow> spdy_control_frame_info \<Rightarrow> spdy_parser \<Rightarrow> spdy_parser option" where
  "parse_spdy_ping_frame pkt frame p =
     (if fr_length frame \<noteq> 4 then Some p
      else do {
        ping_id \<leftarrow> buf_uint32 (from_ptr pkt (m_read_ptr p));
        Some (log_spdy (''SPDY Ping ID is : '' @ to_string (unat ping_id)) (move_read_ptr 4 p))
      })"

definition parse_spdy_settings_frame :: "spdy_parser \<Rightarrow> spdy_parser" where
  "parse_spdy_settings_frame p = p"

definition parse_spdy_goaway_frame ::
  "u8 list \<Rightarrow> spdy_control_frame_info \<Rightarrow> spdy_parser \<Rightarrow> (spdy_error option \<times> spdy_parser) option" where
  "parse_spdy_goaway_frame pkt frame p =
     (if fr_length frame \<noteq> 4 then Some (None, p)
      else do {
        let p = move_read_ptr 4 p;
        status_code \<leftarrow> buf_uint32 (from_ptr pkt (m_read_ptr p));
        Some (if status_code = 1 then (Some ERROR_PROTOCOL_ERROR, log_spdy ''There was a Protocol Error'' p)
          else if status_code = 11 then (Some ERROR_INTERNAL_SPDY_ERROR, log_spdy ''There was an Internal Error'' p)
          else (None, log_spdy (''SPDY Status Code is : '' @ to_string (unat status_code)) p))
      })"

definition parse_spdy_window_update_frame :: "spdy_parser \<Rightarrow> spdy_parser" where
  "parse_spdy_window_update_frame p = p"

section \<open>Frames\<close>

text \<open>The two case distinctions on the frame type: what kind of message it is, and the parser of its payload.\<close>

definition frame_http_type :: "spdy_control_frame_info \<Rightarrow> http_protocol_info \<Rightarrow> http_protocol_info" where
  "frame_http_type frame info =
     (if fr_type frame = SPDY_SYN_STREAM then info\<lparr>hi_http_type := HTTP_REQUEST\<rparr>
      else if fr_type frame = SPDY_SYN_REPLY then info\<lparr>hi_http_type := HTTP_RESPONSE\<rparr>
      else if fr_type frame = SPDY_DATA then info\<lparr>hi_http_type := HTTP_DATA\<rparr>
      else info)"

definition parse_payload ::
  "'z zlib \<Rightarrow> u8 list \<Rightarrow> spdy_control_frame_info \<Rightarrow> spdy_parser \<Rightarrow> 'z decompressor \<Rightarrow> http_protocol_info \<Rightarrow>
    (spdy_error option \<times> spdy_parser \<times> 'z decompressor \<times> http_protocol_info) option" where
  "parse_payload zl pkt frame p d info =
     (if fr_type frame \<in> {SPDY_SYN_STREAM, SPDY_SYN_REPLY, SPDY_HEADERS}
      then parse_header_payload zl pkt frame p d info
      else if fr_type frame = SPDY_RST_STREAM then do {
        p \<leftarrow> parse_spdy_rst_stream pkt frame p;
        Some (None, p, d, info\<lparr>hi_http_type := SPDY_CONTROL\<rparr>)
      }
      else if fr_type frame = SPDY_SETTINGS
      then Some (None, parse_spdy_settings_frame p, d, info\<lparr>hi_http_type := SPDY_CONTROL\<rparr>)
      else if fr_type frame = SPDY_PING then do {
        p \<leftarrow> parse_spdy_ping_frame pkt frame p;
        Some (None, p, d, info\<lparr>hi_http_type := SPDY_CONTROL\<rparr>)
      }
      else if fr_type frame = SPDY_GOAWAY then do {
        (ec, p) \<leftarrow> parse_spdy_goaway_frame pkt frame p;
        Some (ec, p, d, info\<lparr>hi_http_type := SPDY_CONTROL\<rparr>)
      }
      else if fr_type frame = SPDY_WINDOW_UPDATE
      then Some (None, parse_spdy_window_update_frame p, d, info\<lparr>hi_http_type := SPDY_CONTROL\<rparr>)
      else if fr_type frame = SPDY_CREDENTIAL
      then Some (None, p, d, info\<lparr>hi_http_type := SPDY_CONTROL\<rparr>)
      else Some (None, p, d, info))"

text \<open>Several frames in one packet: the rest starts behind this frame.\<close>

definition next_chunk ::
  "spdy_control_frame_info \<Rightarrow> spdy_parser \<Rightarrow> u32 \<Rightarrow> tribool \<times> spdy_parser \<times> u32" where
  "next_chunk frame p length_packet =
     (if fr_length frame < length_packet
      then (indeterminate_value, p\<lparr>m_current_data_chunk_ptr := map_option (\<lambda>i. i + unat (fr_length frame)) (m_read_ptr p)\<rparr>,
            length_packet - fr_length frame)
      else (true_value, p, length_packet))"

type_synonym 'z spdy_result =
  "tribool \<times> spdy_error option \<times> spdy_parser \<times> 'z decompressor \<times> u32 \<times> http_protocol_info"

definition parse_spdy_frame ::
  "bool \<Rightarrow> 'z zlib \<Rightarrow> u8 list \<Rightarrow> spdy_parser \<Rightarrow> 'z decompressor \<Rightarrow> u32 \<Rightarrow> http_protocol_info \<Rightarrow>
    spdy_fault + 'z spdy_result" where
  "parse_spdy_frame ndebug zl pkt p d length_packet info =
     (case from_ptr pkt (m_read_ptr p) of
        [] \<Rightarrow> Inl Read_outside
      | first_byte # _ \<Rightarrow>
          if first_byte \<noteq> 0x80 \<and> first_byte \<noteq> 0
          then Inr (false_value, Some ERROR_INVALID_SPDY_FRAME, log_spdy ''Invalid SPDY Frame'' p, d, length_packet, info)
          else case populate_frame pkt (p, length_packet, info) of
            None \<Rightarrow> Inl Read_outside
          | Some (Inl ev, p, length_packet, info) \<Rightarrow> Inr (false_value, Some ev, p, d, length_packet, info)
          | Some (Inr (frame, stream_id), p, length_packet, info) \<Rightarrow>
              if \<not> ndebug \<and> stream_id = 0 then Inl Assert_failed
              else
                let (rc, p, length_packet) = next_chunk frame p length_packet;
                    info = (if fr_control_bit frame then info else parse_spdy_data frame info)
                in if MIN_SPDY_VERSION < fr_version frame
                   then Inr (false_value, Some ERROR_INVALID_SPDY_VERSION,
                             log_spdy ''Invalid SPDY Version Number'' p, d, length_packet, info)
                   else case parse_payload zl pkt frame p d (frame_http_type frame info) of
                     None \<Rightarrow> Inl Read_outside
                   | Some (Some ev, p, d, info) \<Rightarrow> Inr (false_value, Some ev, p, d, length_packet, info)
                   | Some (None, p, d, info) \<Rightarrow>
                       Inr (rc, None, p\<lparr>m_last_data_chunk_ptr := m_read_ptr p,
                                        m_read_ptr := m_current_data_chunk_ptr p\<rparr>, d, length_packet, info))"

definition spdy_parse ::
  "bool \<Rightarrow> 'z zlib \<Rightarrow> u8 list \<Rightarrow> spdy_parser \<Rightarrow> 'z decompressor \<Rightarrow> u32 \<Rightarrow> http_protocol_info \<Rightarrow>
    spdy_fault + 'z spdy_result" where
  "spdy_parse ndebug zl pkt p d length_packet info =
     parse_spdy_frame ndebug zl pkt (set_read_ptr 0 p) d length_packet info"

end
