(* ===== verification/Spdy_Props.thy ===== *)
theory Spdy_Props
  imports Spdy_Parser
begin

text \<open>
  Correctness of the SPDY parser: where frames end, what the parser makes of well-formed header frames, and
  the reads behind a frame or behind a header block.
\<close>

section \<open>Reading from the packet\<close>

lemma from_ptr_Some [simp]: "from_ptr pkt (Some i) = drop i pkt"
  by (simp add: from_ptr_def)

lemma skip_bytes_simps [simp]:
  "skip_bytes n (p, len, info) = (move_read_ptr n p, len - of_nat n,
     info\<lparr>hi_data_offset := hi_data_offset info + of_nat n\<rparr>)"
  by (simp add: skip_bytes_def)

lemma move_read_ptr_simps [simp]:
  "m_read_ptr (move_read_ptr n p) = map_option (\<lambda>i. i + n) (m_read_ptr p)"
  "m_current_data_chunk_ptr (move_read_ptr n p) = m_current_data_chunk_ptr p"
  "m_last_data_chunk_ptr (move_read_ptr n p) = m_last_data_chunk_ptr p"
  "m_logged (move_read_ptr n p) = m_logged p"
  by (simp_all add: move_read_ptr_def)

lemma log_spdy_simps [simp]:
  "m_read_ptr (log_spdy msg p) = m_read_ptr p"
  "m_current_data_chunk_ptr (log_spdy msg p) = m_current_data_chunk_ptr p"
  "m_last_data_chunk_ptr (log_spdy msg p) = m_last_data_chunk_ptr p"
  by (simp_all add: log_spdy_def)

lemma u8_char_inverse [simp]: "u8_char (char_u8 c) = c"
  by (simp add: u8_char_def char_u8_def unat_of_nat)

lemma buf_uint16_None: "buf_uint16 bs = None \<longleftrightarrow> length bs < 2"
  by (cases bs rule: buf_uint16.cases) auto

lemma buf_uint32_None: "buf_uint32 bs = None \<longleftrightarrow> length bs < 4"
  by (cases bs rule: buf_uint32.cases) auto

section \<open>Frame boundaries\<close>

lemma and_24_bits: "(w::32 word) AND 0xFFFFFF < 0x1000000"
  using and_mask_less' [of 24 w] by (simp add: mask_eq_exp_minus_1)

lemma move_read_ptr_add [simp]: "move_read_ptr m (move_read_ptr n p) = move_read_ptr (n + m) p"
  by (simp add: move_read_ptr_def option.map_comp comp_def add.assoc)

lemma populate_rest_shape:
  assumes "populate_rest pkt cb v t sid (p, len, info) = Some r"
  shows "4 \<le> length (from_ptr pkt (m_read_ptr (move_read_ptr 2 p))) \<and>
    (\<exists>w sid'. r = ((\<lparr>fr_control_bit = cb, fr_version = v, fr_type = t,
      fr_flags = hd (from_ptr pkt (m_read_ptr (move_read_ptr 2 p))),
      fr_length = w AND 0xFFFFFF\<rparr>, sid'), move_read_ptr 6 p, len - 6,
    info\<lparr>hi_data_offset := hi_data_offset info + 6, hi_data_size := w AND 0xFFFFFF\<rparr>))"
proof -
  from assms have "buf_uint32 (from_ptr pkt (m_read_ptr (move_read_ptr 2 p))) \<noteq> None"
    unfolding populate_rest_def Let_def by (auto split: list.splits bind_splits)
  then have "4 \<le> length (from_ptr pkt (m_read_ptr (move_read_ptr 2 p)))"
    unfolding buf_uint32_None by simp
  with assms show ?thesis unfolding populate_rest_def Let_def
    by (auto simp: diff_diff_eq add.assoc split: list.splits if_splits bind_splits)
qed

lemma populate_frame_shape:
  assumes "populate_frame pkt (p, len, info) = Some (Inr (frame, sid), r)"
  shows "fr_length frame < 0x1000000 \<and> 4 \<le> length (from_ptr pkt (m_read_ptr (move_read_ptr 4 p))) \<and>
    fr_flags frame = hd (from_ptr pkt (m_read_ptr (move_read_ptr 4 p))) \<and>
    (\<exists>sid'. r = (move_read_ptr 8 p, len - 8, info\<lparr>hi_stream_id := sid',
      hi_data_offset := hi_data_offset info + 8, hi_data_size := fr_length frame\<rparr>))"
proof -
  let ?rest = "\<lambda>cb v t sd sid'. populate_rest pkt cb v t sd (move_read_ptr 2 p, len - 2,
    info\<lparr>hi_stream_id := sid', hi_data_offset := hi_data_offset info + 2\<rparr>) = Some ((frame, sid), r)"
  have keep: "info\<lparr>hi_stream_id := hi_stream_id info, hi_data_offset := x\<rparr> = info\<lparr>hi_data_offset := x\<rparr>" for x
    by simp
  from assms have "(\<exists>v t. ?rest True v t 0 (hi_stream_id info)) \<or> (\<exists>sd. ?rest False 0 SPDY_DATA sd sd)"
    unfolding populate_frame_def Let_def keep by (auto split: if_splits bind_splits)
  then obtain cb v t sd sid' where *: "?rest cb v t sd sid'" by blast
  from populate_rest_shape [OF *] show ?thesis
    by (auto simp: and_24_bits add.assoc diff_diff_eq)
qed

lemma data_frame_first_byte: "drop_bit 15 (to_uint16 0 b) = (0::16 word)"
  unfolding to_uint16_def by (rule bit_word_eqI) (auto simp: bit_simps dest: bit_imp_le_length)

lemma populate_data_frame:
  assumes "from_ptr pkt (m_read_ptr p) = 0 # bs"
    and "populate_frame pkt (p, len, info) = Some (Inr (frame, sid), r)"
  shows "fr_type frame = SPDY_DATA \<and> \<not> fr_control_bit frame"
  using assms data_frame_first_byte
  by (cases bs) (auto simp: populate_frame_def Let_def dest!: populate_rest_shape split: bind_splits if_splits)

lemma decompress_keeps: "parse_header_payload zl pkt frame p d info = Some (ec, p', d', info') \<Longrightarrow>
  m_current_data_chunk_ptr p' = m_current_data_chunk_ptr p \<and> hi_data_size info' = hi_data_size info \<and>
  hi_data_offset info' = hi_data_offset info \<and> hi_last_chunk info' = hi_last_chunk info"
  unfolding parse_header_payload_def Let_def by (auto split: if_splits bind_splits)

lemma parse_payload_keeps: "parse_payload zl pkt frame p d info = Some (ec, p', d', info') \<Longrightarrow>
  m_current_data_chunk_ptr p' = m_current_data_chunk_ptr p \<and> hi_data_size info' = hi_data_size info \<and>
  hi_data_offset info' = hi_data_offset info \<and> hi_last_chunk info' = hi_last_chunk info"
  unfolding parse_payload_def
  by (auto dest: decompress_keeps simp: parse_spdy_settings_frame_def parse_spdy_window_update_frame_def
      parse_spdy_rst_stream_def parse_spdy_ping_frame_def parse_spdy_goaway_frame_def Let_def
      split: if_splits bind_splits)

lemma packet_length:
  assumes "8 \<le> n" and "n < 2 ^ 32"
  shows "unat (of_nat n - 8 :: u32) = n - 8"
proof -
  have "of_nat n - 8 = (of_nat (n - 8) :: u32)" using assms(1) by (simp add: of_nat_diff)
  then show ?thesis using assms(2) by (simp add: unat_of_nat)
qed

lemma spdy_parse_success:
  assumes "spdy_parse nd zl pkt p d len info = Inr (rc, None, p', d', len', info')"
  obtains frame sid p1 len1 info1 p2 p3 where "pkt \<noteq> []"
    "populate_frame pkt (set_read_ptr 0 p, len, info) = Some (Inr (frame, sid), p1, len1, info1)"
    "next_chunk frame p1 len1 = (rc, p2, len')"
    "parse_payload zl pkt frame p2 d (frame_http_type frame
       (if fr_control_bit frame then info1 else parse_spdy_data frame info1)) = Some (None, p3, d', info')"
    "p' = p3\<lparr>m_last_data_chunk_ptr := m_read_ptr p3, m_read_ptr := m_current_data_chunk_ptr p3\<rparr>"
  using assms unfolding spdy_parse_def parse_spdy_frame_def Let_def
  by (auto simp: set_read_ptr_def split: list.splits if_splits option.splits sum.splits prod.splits)

text \<open>C8: Where a frame ends. When the parser accepts a packet, the packet holds the eight bytes of a frame header,
  whose length field is reported as the data size. If bytes follow the frame, the result is indeterminate,
  the read pointer is at the first byte behind the frame and the packet length counts the bytes from there; if
  the packet ends with the frame or inside it, the result is true and the pointer is back at the start. A
  data frame is reported as data that starts at the ninth byte, the last one if its flag says so.\<close>

theorem spdy_frame_boundaries:
  assumes "length pkt < 2 ^ 32"
    and "spdy_parse nd zl pkt p d (of_nat (length pkt)) info = Inr (rc, None, p', d', len', info')"
  shows "8 \<le> length pkt \<and>
    (let n = 8 + unat (hi_data_size info') in
     if n < length pkt
     then rc = indeterminate_value \<and> get_spdy_read_pointer p' = Some n \<and> unat len' = length pkt - n
     else rc = true_value \<and> get_spdy_read_pointer p' = Some 0) \<and>
    (hd pkt = 0 \<longrightarrow> get_spdy_data_content p' = Some 8 \<and> hi_http_type info' = HTTP_DATA \<and>
      hi_last_chunk info' = (hi_last_chunk info \<or> pkt ! 4 AND SPDY_FLAG_FIN \<noteq> 0))"
proof -
  from assms(2) obtain frame sid p1 len1 info1 p2 p3 where s: "pkt \<noteq> []"
    "populate_frame pkt (set_read_ptr 0 p, of_nat (length pkt), info) = Some (Inr (frame, sid), p1, len1, info1)"
    "next_chunk frame p1 len1 = (rc, p2, len')"
    "parse_payload zl pkt frame p2 d (frame_http_type frame
       (if fr_control_bit frame then info1 else parse_spdy_data frame info1)) = Some (None, p3, d', info')"
    "p' = p3\<lparr>m_last_data_chunk_ptr := m_read_ptr p3, m_read_ptr := m_current_data_chunk_ptr p3\<rparr>"
    by (rule spdy_parse_success)
  from populate_frame_shape [OF s(2)] obtain sid' where
    ptr: "p1 = move_read_ptr 8 (set_read_ptr 0 p)" "len1 = of_nat (length pkt) - 8" and eight: "8 \<le> length pkt"
    and info: "info1 = info\<lparr>hi_stream_id := sid', hi_data_offset := hi_data_offset info + 8, hi_data_size := fr_length frame\<rparr>"
    and flags: "fr_flags frame = pkt ! 4"
    by (auto simp: set_read_ptr_def hd_drop_conv_nth)
  have len1: "unat len1 = length pkt - 8"
    unfolding ptr(2) using eight assms(1) by (rule packet_length)
  have size: "hi_data_size info' = fr_length frame"
    using parse_payload_keeps [OF s(4)] by (simp add: frame_http_type_def parse_spdy_data_def info)
  have chunk: "m_current_data_chunk_ptr p3 = m_current_data_chunk_ptr p2"
    using parse_payload_keeps [OF s(4)] by blast
  have "if 8 + unat (fr_length frame) < length pkt
     then rc = indeterminate_value \<and> get_spdy_read_pointer p' = Some (8 + unat (fr_length frame)) \<and>
       unat len' = length pkt - (8 + unat (fr_length frame))
     else rc = true_value \<and> get_spdy_read_pointer p' = Some 0"
    using s(3) len1 eight unfolding next_chunk_def
    by (auto simp: get_spdy_read_pointer_def s(5) chunk ptr(1) set_read_ptr_def word_less_nat_alt unat_sub word_le_nat_alt
        split: if_splits)
  moreover have "get_spdy_data_content p' = Some 8 \<and> hi_http_type info' = HTTP_DATA \<and>
      hi_last_chunk info' = (hi_last_chunk info \<or> pkt ! 4 AND SPDY_FLAG_FIN \<noteq> 0)" if z: "hd pkt = 0"
  proof -
    from s(1) z obtain bs where "pkt = 0 # bs" by (cases pkt) auto
    then have "from_ptr pkt (m_read_ptr (set_read_ptr 0 p)) = 0 # bs" by (simp add: set_read_ptr_def)
    from populate_data_frame [OF this s(2)] have f: "fr_type frame = SPDY_DATA" "\<not> fr_control_bit frame" by simp_all
    have "p3 = p2" "info' = frame_http_type frame (parse_spdy_data frame info1)"
      using s(4) f by (simp_all add: parse_payload_def spdy_consts)
    moreover have "m_read_ptr p2 = Some 8" using s(3) by (auto simp: next_chunk_def ptr(1) set_read_ptr_def split: if_splits)
    ultimately show ?thesis
      using f by (simp add: s(5) get_spdy_data_content_def frame_http_type_def parse_spdy_data_def info flags spdy_consts)
  qed
  ultimately show ?thesis using eight by (simp add: size Let_def)
qed

section \<open>Encoding of frames\<close>

text \<open>The reference encoder: the header of a control frame, the name/value block, and a header frame with its
  fixed fields and the compressed block.\<close>

definition control_header :: "16 word \<Rightarrow> 16 word \<Rightarrow> u8 \<Rightarrow> nat \<Rightarrow> u8 list" where
  "control_header version type flags n =
     from_uint16 (0x8000 OR version) @ from_uint16 type @ [flags] @ from_uint24 (of_nat n)"

lemma and_15_bits: "v < 0x8000 \<Longrightarrow> v AND 0x7FFF = (v::16 word)"
  using less_mask_eq [of v 15] by (simp add: mask_eq_exp_minus_1)

lemma and_31_bits: "w < 0x80000000 \<Longrightarrow> w AND 0x7FFFFFFF = (w::32 word)"
  using less_mask_eq [of w 31] by (simp add: mask_eq_exp_minus_1)

lemma control_version: "v < 0x8000 \<Longrightarrow> (0x8000 OR v) AND 0x7FFF = (v::16 word)"
  by (simp add: bit.conj_disj_distrib2 and_15_bits)

lemma control_bit_set: "drop_bit 15 (0x8000 OR v) \<noteq> (0::16 word)"
proof -
  have "bit (drop_bit 15 (0x8000 OR v)) 0" by (simp add: bit_simps)
  then show ?thesis by force
qed

lemma three_bytes:
  "to_uint32 f (ucast (drop_bit 16 n AND 0xFF)) (ucast (drop_bit 8 n AND 0xFF)) (ucast (n AND 0xFF)) AND mask 24 = n AND mask 24"
proof (rule bit_word_eqI)
  fix k assume "k < LENGTH(32)"
  then have "k < 32" by simp
  then consider "k < 8" | "8 \<le> k" "k < 16" | "16 \<le> k" "k < 24" | "24 \<le> k" by linarith
  then show "bit (to_uint32 f (ucast (drop_bit 16 n AND 0xFF)) (ucast (drop_bit 8 n AND 0xFF)) (ucast (n AND 0xFF)) AND mask 24) k
      \<longleftrightarrow> bit (n AND mask 24) k"
    unfolding to_uint32_def word_and_FF by cases (simp_all add: bit_simps less_diff_conv2)
qed

lemma length_field:
  assumes "n < 0x1000000"
  shows "to_uint32 f (ucast (drop_bit 16 (of_nat n :: 32 word) AND 0xFF)) (ucast (drop_bit 8 (of_nat n :: 32 word) AND 0xFF))
      (ucast ((of_nat n :: 32 word) AND 0xFF)) AND 0xFFFFFF = of_nat n"
proof -
  have "(of_nat n :: 32 word) < 2 ^ 24" using assms by (simp add: word_less_nat_alt unat_of_nat)
  from less_mask_eq [OF this] three_bytes [of f "of_nat n"] show ?thesis by (simp add: mask_eq_exp_minus_1)
qed

lemma populate_control_frame:
  assumes "v < 0x8000" "t < SPDY_INVALID" "n < 0x1000000" "sid < 0x80000000"
  shows "populate_frame (control_header v t fl n @ from_uint32 sid @ rest) (set_read_ptr 0 p, len, info) =
    Some (Inr (\<lparr>fr_control_bit = True, fr_version = v, fr_type = t, fr_flags = fl, fr_length = of_nat n\<rparr>, sid),
      move_read_ptr 8 (set_read_ptr 0 p), len - 8,
      info\<lparr>hi_data_offset := hi_data_offset info + 8, hi_data_size := of_nat n\<rparr>)"
proof -
  define w where "w = 0x8000 OR v"
  have w: "drop_bit 15 w \<noteq> 0" "w AND 0x7FFF = v"
    using assms(1) by (simp_all add: w_def control_bit_set control_version del: drop_bit_or)
  show ?thesis
    using assms w unfolding control_header_def w_def [symmetric]
    by (simp add: populate_frame_def populate_rest_def from_uint16_def from_uint24_def from_uint32_def
        to_from_uint16 to_from_uint32 length_field and_31_bits set_read_ptr_def Let_def
        not_le diff_diff_eq add.assoc)
qed

definition encode_string :: "string \<Rightarrow> u8 list" where
  "encode_string s = from_uint16 (of_nat (length s)) @ map char_u8 s"

definition encode_pairs :: "(string \<times> string) list \<Rightarrow> u8 list" where
  "encode_pairs hs = concat (map (\<lambda>(name, val). encode_string name @ encode_string val) hs)"

definition header_block :: "(string \<times> string) list \<Rightarrow> u8 list" where
  "header_block hs = from_uint16 (of_nat (length hs)) @ encode_pairs hs"

definition short_pairs :: "(string \<times> string) list \<Rightarrow> bool" where
  "short_pairs hs = (length hs < 0x10000 \<and>
     list_all (\<lambda>(name, val). length name < 0x10000 \<and> length val < 0x10000) hs)"

definition add_pairs :: "(string \<times> string) list \<Rightarrow> string omap \<Rightarrow> string omap" where
  "add_pairs hs m = fold (\<lambda>(name, val). omap_insert name val) hs m"

lemma encode_string_step:
  assumes "drop ptr buf = encode_string s @ x" and "length s < 0x10000"
  obtains w where "buf_uint16 (drop ptr buf) = Some w" "unat w = length s"
    "read_chars buf (ptr + 2) (length s) = Some s" "drop (ptr + 2 + length s) buf = x"
proof (rule that [of "of_nat (length s)"])
  show "buf_uint16 (drop ptr buf) = Some (of_nat (length s))"
    unfolding assms(1) encode_string_def append_assoc by (rule uint16.dec_enc)
  show "unat (of_nat (length s) :: 16 word) = length s"
    using assms(2) by (simp add: unat_of_nat)
  have d: "drop (ptr + 2) buf = map char_u8 s @ x"
    using arg_cong [OF assms(1), of "drop 2"] by (simp add: encode_string_def from_uint16_def add.commute)
  have "length (drop ptr buf) = 2 + length s + length x"
    unfolding assms(1) by (simp add: encode_string_def from_uint16_def)
  then have "ptr + 2 + length s \<le> length buf" by simp
  then show "read_chars buf (ptr + 2) (length s) = Some s"
    by (simp add: read_chars_def d comp_def del: add_2_eq_Suc')
  show "drop (ptr + 2 + length s) buf = x"
    using arg_cong [OF d, of "drop (length s)"] by (simp add: ac_simps)
qed

lemma name_value_pairs_block:
  assumes "list_all (\<lambda>(name, val). length name < 0x10000 \<and> length val < 0x10000) hs"
    and "drop ptr buf = encode_pairs hs @ x"
  shows "name_value_pairs (length hs) buf ptr m = Some (ptr + length (encode_pairs hs), add_pairs hs m)"
  using assms
proof (induction hs arbitrary: ptr m)
  case (Cons h hs)
  obtain name val where h: "h = (name, val)" by (cases h)
  from Cons.prems h have "length name < 0x10000" "length val < 0x10000"
    and d: "drop ptr buf = encode_string name @ encode_string val @ encode_pairs hs @ x"
    by (simp_all add: encode_pairs_def)
  from encode_string_step [OF d this(1)] obtain w where w: "buf_uint16 (drop ptr buf) = Some w" "unat w = length name"
    "read_chars buf (ptr + 2) (length name) = Some name"
    and d': "drop (ptr + 2 + length name) buf = encode_string val @ encode_pairs hs @ x" by blast
  from encode_string_step [OF d' \<open>length val < _\<close>] obtain w' where w': "buf_uint16 (drop (ptr + 2 + length name) buf) = Some w'"
    "unat w' = length val" "read_chars buf (ptr + 2 + length name + 2) (length val) = Some val"
    and d'': "drop (ptr + 2 + length name + 2 + length val) buf = encode_pairs hs @ x" by blast
  from Cons.IH [OF _ d''] Cons.prems(1) show ?case
    using w w' by (simp add: h add_pairs_def encode_pairs_def encode_string_def from_uint16_def)
qed (simp add: encode_pairs_def add_pairs_def)

lemma omap_find_add_headers:
  "omap_ok m \<Longrightarrow> omap_find (add_pairs hs m) k = (case omap_find m k of Some v \<Rightarrow> Some v | None \<Rightarrow> map_of hs k)"
proof (induction hs arbitrary: m)
  case (Cons h hs)
  obtain name val where h: "h = (name, val)" by (cases h)
  have "omap_find (add_pairs (h # hs) m) k = (case omap_find (omap_insert name val m) k of Some v \<Rightarrow> Some v | None \<Rightarrow> map_of hs k)"
    using Cons by (simp add: h add_pairs_def)
  then show ?case using Cons.prems by (auto simp: h omap_find_insert split: option.splits)
qed (simp add: add_pairs_def split: option.splits)

definition block_stream :: "16 word \<Rightarrow> u32 \<Rightarrow> 'z decompressor \<Rightarrow> 'z" where
  "block_stream t sid d = (if \<not> sid mod 2 = 0 \<and> t = SPDY_SYN_STREAM then m_request_zstream d else m_response_zstream d)"

definition after_block :: "16 word \<Rightarrow> u32 \<Rightarrow> 'z \<Rightarrow> u8 list \<Rightarrow> 'z decompressor \<Rightarrow> 'z decompressor" where
  "after_block t sid z buf d =
     (if \<not> sid mod 2 = 0 \<and> t = SPDY_SYN_STREAM then d\<lparr>m_request_zstream := z, m_uncompressed_header := buf\<rparr>
      else d\<lparr>m_response_zstream := z, m_uncompressed_header := buf\<rparr>)"

lemma after_block_buffer [simp]: "m_uncompressed_header (after_block t sid z buf d) = buf"
  by (simp add: after_block_def)

lemma decompress_block:
  assumes "t \<in> {SPDY_SYN_STREAM, SPDY_SYN_REPLY, SPDY_HEADERS}" and "fr_type frame = t" and "unat n = length cdata"
    and "spdy_decompress_header zl (m_dictionary_id d) (m_uncompressed_header d) (block_stream t sid d) cdata = (ok, z, buf)"
  shows "decompress zl (cdata @ rest) sid frame n d = Some (ok, after_block t sid z buf d)"
proof -
  define ev where "ev \<longleftrightarrow> sid mod 2 = 0"
  from assms show ?thesis
    unfolding decompress_def block_stream_def after_block_def spdy_consts Let_def ev_def [symmetric]
    by (cases ev) (auto split: if_splits)
qed

definition fixed_part :: "16 word \<Rightarrow> nat" where
  "fixed_part t = (if t = SPDY_SYN_STREAM then 6 else 2)"

definition spdy_header_frame :: "16 word \<Rightarrow> 16 word \<Rightarrow> u8 \<Rightarrow> u32 \<Rightarrow> u8 list \<Rightarrow> u8 list \<Rightarrow> u8 list" where
  "spdy_header_frame v t fl sid fixed cdata =
     control_header v t fl (4 + length fixed + length cdata) @ from_uint32 sid @ fixed @ cdata"

lemma length_header_frame: "length (spdy_header_frame v t fl sid fixed cdata) = 12 + length fixed + length cdata"
  by (simp add: spdy_header_frame_def control_header_def from_uint16_def from_uint24_def from_uint32_def)

lemma drop_header_frame:
  "drop 8 (spdy_header_frame v t fl sid fixed cdata @ rest) = from_uint32 sid @ fixed @ cdata @ rest"
  "drop (12 + length fixed) (spdy_header_frame v t fl sid fixed cdata @ rest) = cdata @ rest"
proof -
  show d: "drop 8 (spdy_header_frame v t fl sid fixed cdata @ rest) = from_uint32 sid @ fixed @ cdata @ rest"
    by (simp add: spdy_header_frame_def control_header_def from_uint16_def from_uint24_def)
  show "drop (12 + length fixed) (spdy_header_frame v t fl sid fixed cdata @ rest) = cdata @ rest"
    using arg_cong [OF d, of "drop (4 + length fixed)"] by (simp add: uint32.enc_length length_header_frame)
qed

lemma header_payload:
  assumes "t \<in> {SPDY_SYN_STREAM, SPDY_SYN_REPLY, SPDY_HEADERS}" and "fr_type frame = t"
    and "length fixed = fixed_part t" and "fr_length frame = of_nat (4 + length fixed + length cdata)"
    and "4 + length fixed + length cdata < 0x1000000" and "sid < 0x80000000" and "m_read_ptr p = Some 8"
    and "spdy_decompress_header zl (m_dictionary_id d) (m_uncompressed_header d) (block_stream t sid d) cdata =
      (True, z, header_block hs @ x)"
    and "short_pairs hs"
  shows "parse_header_payload zl (spdy_header_frame v t fl sid fixed cdata @ rest) frame p d info =
    Some (None, (move_read_ptr (4 + length fixed) p)\<lparr>m_uncompressed_ptr := Some (length (header_block hs))\<rparr>,
      after_block t sid z (header_block hs @ x) d,
      info\<lparr>hi_stream_id := sid, hi_http_headers := add_pairs hs (hi_http_headers info)\<rparr>)"
proof -
  let ?n = "fr_length frame - (if t = SPDY_SYN_STREAM then 10 else 6)"
  have n: "unat ?n = length cdata"
  proof -
    have "?n = of_nat (length cdata)" using assms(3,4) by (simp add: fixed_part_def)
    then show ?thesis using assms(5) by (simp add: unat_of_nat)
  qed
  have four: "buf_uint32 (from_uint32 sid @ fixed @ cdata @ rest) = Some sid" by (rule uint32.dec_enc)
  have move: "(if t = SPDY_SYN_STREAM then move_read_ptr 2 (move_read_ptr 4 (move_read_ptr 4 p))
      else if t = SPDY_SYN_REPLY \<or> t = SPDY_HEADERS then move_read_ptr 2 (move_read_ptr 4 p) else move_read_ptr 4 p) =
    move_read_ptr (4 + length fixed) p"
    using assms(1,3) by (auto simp: fixed_part_def)
  have count: "buf_uint16 (header_block hs @ x) = Some (of_nat (length hs))" "unat (of_nat (length hs) :: 16 word) = length hs"
    unfolding header_block_def append_assoc
    using assms(9) by (simp_all add: uint16.dec_enc unat_of_nat short_pairs_def)
  have "drop 2 (header_block hs @ x) = encode_pairs hs @ x" by (simp add: header_block_def from_uint16_def)
  from name_value_pairs_block [OF _ this] assms(9)
  have pairs: "name_value_pairs (length hs) (header_block hs @ x) 2 m = Some (length (header_block hs), add_pairs hs m)" for m
    by (simp add: short_pairs_def header_block_def uint16.enc_length)
  have start: "from_ptr (spdy_header_frame v t fl sid fixed cdata @ rest) (m_read_ptr p) = from_uint32 sid @ fixed @ cdata @ rest"
    "from_ptr (spdy_header_frame v t fl sid fixed cdata @ rest) (m_read_ptr (move_read_ptr (4 + length fixed) p)) = cdata @ rest"
    by (simp_all add: assms(7) drop_header_frame del: drop_append)
  have "decompress zl (cdata @ rest) sid frame ?n d = Some (True, after_block t sid z (header_block hs @ x) d)"
    using assms(1,2) n assms(8) by (rule decompress_block)
  then show ?thesis
    unfolding parse_header_payload_def Let_def assms(2) move start four
    using assms(1) by (auto simp: and_31_bits [OF assms(6)] count pairs)
qed

section \<open>Parsing encoded frames\<close>

lemma next_chunk_packet:
  assumes "8 \<le> n" and "n < 2 ^ 32"
  obtains len' where "next_chunk frame p (of_nat n - 8) =
      (if 8 + unat (fr_length frame) < n
       then (indeterminate_value, p\<lparr>m_current_data_chunk_ptr :=
               map_option (\<lambda>i. i + unat (fr_length frame)) (m_read_ptr p)\<rparr>, len')
       else (true_value, p, len'))"
    and "8 + unat (fr_length frame) < n \<Longrightarrow> unat len' = n - (8 + unat (fr_length frame))"
proof (rule that [of "if 8 + unat (fr_length frame) < n then of_nat n - 8 - fr_length frame else of_nat n - 8"])
  have c: "fr_length frame < of_nat n - 8 \<longleftrightarrow> 8 + unat (fr_length frame) < n"
    using packet_length [OF assms] assms(1) by (auto simp: word_less_nat_alt)
  show "next_chunk frame p (of_nat n - 8) =
      (if 8 + unat (fr_length frame) < n
       then (indeterminate_value, p\<lparr>m_current_data_chunk_ptr :=
               map_option (\<lambda>i. i + unat (fr_length frame)) (m_read_ptr p)\<rparr>,
             if 8 + unat (fr_length frame) < n then of_nat n - 8 - fr_length frame else of_nat n - 8)
       else (true_value, p, if 8 + unat (fr_length frame) < n then of_nat n - 8 - fr_length frame else of_nat n - 8))"
    by (simp add: next_chunk_def c)
  show "unat (if 8 + unat (fr_length frame) < n then of_nat n - 8 - fr_length frame else of_nat n - 8) =
      n - (8 + unat (fr_length frame))" if "8 + unat (fr_length frame) < n"
    using that packet_length [OF assms] c by (simp add: unat_sub)
qed

lemma control_first_byte:
  assumes "(v :: 16 word) \<le> 3" shows "ucast (drop_bit 8 (0x8000 OR v) AND 0xFF) = (0x80 :: u8)"
proof -
  have "unat v \<le> 3" using assms by (simp add: word_le_nat_alt)
  then have "v = 0 \<or> v = 1 \<or> v = 2 \<or> v = (3 :: 16 word)"
    by (auto simp: word_unat_eq_iff)
  then show ?thesis by auto
qed

lemma spdy_parse_compose:
  assumes "pkt = b # bs" and "b = 0x80 \<or> b = 0"
    and "populate_frame pkt (set_read_ptr 0 p, len, info) = Some (Inr (frame, sid), p1, len1, info1)"
    and "nd \<or> sid \<noteq> 0" and "next_chunk frame p1 len1 = (rc, p2, len')" and "fr_version frame \<le> MIN_SPDY_VERSION"
  shows "spdy_parse nd zl pkt p d len info =
    (case parse_payload zl pkt frame p2 d (frame_http_type frame
            (if fr_control_bit frame then info1 else parse_spdy_data frame info1)) of
       None \<Rightarrow> Inl Read_outside
     | Some (Some ev, p, d, info) \<Rightarrow> Inr (false_value, Some ev, p, d, len', info)
     | Some (None, p, d, info) \<Rightarrow>
         Inr (rc, None, p\<lparr>m_last_data_chunk_ptr := m_read_ptr p, m_read_ptr := m_current_data_chunk_ptr p\<rparr>, d, len', info))"
proof -
  have start: "from_ptr pkt (m_read_ptr (set_read_ptr 0 p)) = b # bs" by (simp add: set_read_ptr_def assms(1))
  show ?thesis
    unfolding spdy_parse_def parse_spdy_frame_def start Let_def assms(3)
    using assms(2,4-6) by (auto simp: not_less)
qed

lemma header_frame_parse:
  assumes "v \<le> MIN_SPDY_VERSION" and t: "t \<in> {SPDY_SYN_STREAM, SPDY_SYN_REPLY, SPDY_HEADERS}"
    and "length fixed = fixed_part t" and "4 + length fixed + length cdata < 0x1000000"
    and "sid \<noteq> 0" and "sid < 0x80000000"
    and "spdy_decompress_header zl (m_dictionary_id d) (m_uncompressed_header d) (block_stream t sid d) cdata =
      (True, z, header_block hs @ x)"
    and "short_pairs hs" and "length (spdy_header_frame v t fl sid fixed cdata @ rest) < 2 ^ 32"
  shows "\<exists>p' len' info'. spdy_parse nd zl (spdy_header_frame v t fl sid fixed cdata @ rest) p d
      (of_nat (length (spdy_header_frame v t fl sid fixed cdata @ rest))) info =
    Inr (if rest = [] then true_value else indeterminate_value, None, p', after_block t sid z (header_block hs @ x) d,
      len', info') \<and>
    (rest \<noteq> [] \<longrightarrow> get_spdy_read_pointer p' = Some (length (spdy_header_frame v t fl sid fixed cdata)) \<and> unat len' = length rest) \<and>
    hi_http_headers info' = add_pairs hs (hi_http_headers info) \<and> hi_stream_id info' = sid \<and>
    hi_http_type info' = (if t = SPDY_SYN_STREAM then HTTP_REQUEST else if t = SPDY_SYN_REPLY then HTTP_RESPONSE
      else hi_http_type info)"
proof -
  let ?n = "4 + length fixed + length cdata" and ?hf = "spdy_header_frame v t fl sid fixed cdata"
  let ?frame = "\<lparr>fr_control_bit = True, fr_version = v, fr_type = t, fr_flags = fl, fr_length = of_nat ?n\<rparr>"
  let ?p1 = "move_read_ptr 8 (set_read_ptr 0 p)"
  let ?info1 = "info\<lparr>hi_data_offset := hi_data_offset info + 8, hi_data_size := of_nat ?n\<rparr>"
  have n: "unat (of_nat ?n :: u32) = ?n" using assms(4) by (simp only: unat_of_nat) simp
  have eight: "8 \<le> length (?hf @ rest)" by (simp add: length_header_frame)
  have v: "v \<le> 3" "v < 0x8000" using assms(1) by (simp_all add: MIN_SPDY_VERSION_def word_le_nat_alt word_less_nat_alt)
  have "t < SPDY_INVALID" using t by (auto simp: spdy_consts)
  have pop: "populate_frame (?hf @ rest) (set_read_ptr 0 p, of_nat (length (?hf @ rest)), info) =
      Some (Inr (?frame, sid), ?p1, of_nat (length (?hf @ rest)) - 8, ?info1)"
    using populate_control_frame [OF v(2) \<open>t < SPDY_INVALID\<close> assms(4,6), of fl "fixed @ cdata @ rest" p "of_nat (length (?hf @ rest))" info]
    unfolding spdy_header_frame_def by (simp only: append_assoc)
  obtain bs where first: "?hf @ rest = 0x80 # bs"
    using control_first_byte [OF v(1)] by (simp add: spdy_header_frame_def control_header_def from_uint16_def del: drop_bit_or)
  obtain len' where chunk: "next_chunk ?frame ?p1 (of_nat (length (?hf @ rest)) - 8) =
      (if rest \<noteq> [] then (indeterminate_value, ?p1\<lparr>m_current_data_chunk_ptr := Some (length ?hf)\<rparr>, len') else (true_value, ?p1, len'))"
    and len': "rest \<noteq> [] \<Longrightarrow> unat len' = length rest"
  proof (rule next_chunk_packet [OF eight assms(9), of ?frame ?p1], goal_cases)
    case (1 len')
    have "8 + unat (fr_length ?frame) < length (?hf @ rest) \<longleftrightarrow> rest \<noteq> []"
      using n by (auto simp: length_header_frame)
    moreover have "8 + unat (fr_length ?frame) = length ?hf" using n by (simp add: length_header_frame)
    ultimately show ?case using 1(2,3) by (intro 1(1)) (auto simp: set_read_ptr_def)
  qed
  define p2 where "p2 = (if rest \<noteq> [] then ?p1\<lparr>m_current_data_chunk_ptr := Some (length ?hf)\<rparr> else ?p1)"
  have chunk': "next_chunk ?frame ?p1 (of_nat (length (?hf @ rest)) - 8) =
      (if rest = [] then true_value else indeterminate_value, p2, len')"
    unfolding chunk p2_def by simp
  have "parse_header_payload zl (?hf @ rest) ?frame p2 d (frame_http_type ?frame ?info1) =
    Some (None, (move_read_ptr (4 + length fixed) p2)\<lparr>m_uncompressed_ptr := Some (length (header_block hs))\<rparr>,
      after_block t sid z (header_block hs @ x) d, (frame_http_type ?frame ?info1)\<lparr>hi_stream_id := sid,
      hi_http_headers := add_pairs hs (hi_http_headers (frame_http_type ?frame ?info1))\<rparr>)"
    by (rule header_payload [OF t _ assms(3) _ assms(4,6) _ assms(7,8)]) (simp_all add: p2_def set_read_ptr_def)
  then have "spdy_parse nd zl (?hf @ rest) p d (of_nat (length (?hf @ rest))) info =
      Inr (if rest = [] then true_value else indeterminate_value, None,
        (let p3 = (move_read_ptr (4 + length fixed) p2)\<lparr>m_uncompressed_ptr := Some (length (header_block hs))\<rparr>
         in p3\<lparr>m_last_data_chunk_ptr := m_read_ptr p3, m_read_ptr := m_current_data_chunk_ptr p3\<rparr>),
        after_block t sid z (header_block hs @ x) d, len', (frame_http_type ?frame ?info1)\<lparr>hi_stream_id := sid,
        hi_http_headers := add_pairs hs (hi_http_headers (frame_http_type ?frame ?info1))\<rparr>)"
    using t assms(1,5) by (subst spdy_parse_compose [OF first _ pop _ chunk']) (simp_all add: parse_payload_def Let_def)
  then show ?thesis using len' t
    by (auto simp: get_spdy_read_pointer_def p2_def frame_http_type_def Let_def spdy_consts)
qed

text \<open>What zlib promises for a block: with or without asking for the dictionary, the input is consumed and
  gives the output.\<close>

definition block_inflates :: "'z zlib \<Rightarrow> u32 \<Rightarrow> 'z \<Rightarrow> u8 list \<Rightarrow> u8 list \<Rightarrow> 'z \<Rightarrow> bool" where
  "block_inflates zl dictionary_id z input out z' \<longleftrightarrow>
     inflate zl z input MAX_UNCOMPRESSED_DATA_BUF_SIZE = (Z_OK, z', out, 0) \<or>
     (\<exists>z1 out1 left z2 out2.
        inflate zl z input MAX_UNCOMPRESSED_DATA_BUF_SIZE = (Z_NEED_DICT, z1, out1, left) \<and>
        adler zl z1 = ucast dictionary_id \<and> inflateSetDictionary zl z1 SPDY_ZLIB_DICTIONARY = (Z_OK, z2) \<and>
        inflate zl z2 (drop (length input - left) input) (MAX_UNCOMPRESSED_DATA_BUF_SIZE - length out1) =
          (Z_OK, z', out2, 0) \<and> out = out1 @ out2)"

lemma block_inflates_decompress:
  assumes "block_inflates zl dictionary_id z input out z'"
  shows "spdy_decompress_header zl dictionary_id buf z input = (True, z', out @ drop (length out) buf)"
  using assms unfolding block_inflates_def spdy_decompress_header_def
  by (auto simp: Z_OK_def Z_NEED_DICT_def)

lemma control_frame_parse:
  assumes "v \<le> MIN_SPDY_VERSION" and "t < SPDY_INVALID" and "n < 0x1000000" and "sid \<noteq> 0" and "sid < 0x80000000"
  obtains rc p2 len' where "m_read_ptr p2 = Some 8" and
    "spdy_parse nd zl (control_header v t fl n @ from_uint32 sid @ rest) p d len info =
      (let frame = \<lparr>fr_control_bit = True, fr_version = v, fr_type = t, fr_flags = fl, fr_length = of_nat n\<rparr> in
       case parse_payload zl (control_header v t fl n @ from_uint32 sid @ rest) frame p2 d (frame_http_type frame
          (info\<lparr>hi_data_offset := hi_data_offset info + 8, hi_data_size := of_nat n\<rparr>)) of
       None \<Rightarrow> Inl Read_outside
     | Some (Some ev, p, d, info) \<Rightarrow> Inr (false_value, Some ev, p, d, len', info)
     | Some (None, p, d, info) \<Rightarrow>
         Inr (rc, None, p\<lparr>m_last_data_chunk_ptr := m_read_ptr p, m_read_ptr := m_current_data_chunk_ptr p\<rparr>, d, len', info))"
proof -
  have v: "v \<le> 3" "v < 0x8000" using assms(1) by (simp_all add: MIN_SPDY_VERSION_def word_le_nat_alt word_less_nat_alt)
  let ?frame = "\<lparr>fr_control_bit = True, fr_version = v, fr_type = t, fr_flags = fl, fr_length = of_nat n\<rparr>"
  obtain bs where first: "control_header v t fl n @ from_uint32 sid @ rest = 0x80 # bs"
    using control_first_byte [OF v(1)] by (simp add: control_header_def from_uint16_def del: drop_bit_or)
  obtain rc p2 len' where chunk: "next_chunk ?frame (move_read_ptr 8 (set_read_ptr 0 p)) (len - 8) = (rc, p2, len')"
    by (metis prod_cases3)
  then have "m_read_ptr p2 = Some 8" by (auto simp: next_chunk_def set_read_ptr_def split: if_splits)
  moreover note spdy_parse_compose [OF first _ populate_control_frame [OF v(2) assms(2,3,5)] _ chunk, where info = info and nd = nd and zl = zl and d = d]
  ultimately show ?thesis
    using that assms(1,4) by (simp add: Let_def)
qed

lemma drop_control_header:
  "drop 8 (control_header v t fl n @ bs) = bs" "length (control_header v t fl n) = 8"
  by (simp_all add: control_header_def from_uint16_def from_uint24_def)

lemma short_block_outside:
  assumes "n < 4 + fixed_part t" and "length bs < 2 ^ 32 - 10" and "t \<in> {SPDY_SYN_STREAM, SPDY_SYN_REPLY, SPDY_HEADERS}"
  shows "decompress zl bs sid frame (of_nat n - (if t = SPDY_SYN_STREAM then 10 else 6)) d = None"
proof -
  let ?k = "if t = SPDY_SYN_STREAM then 10 else 6 :: nat"
  have "?k - n \<noteq> 0" "?k - n \<le> 10" using assms(1) by (auto simp: fixed_part_def)
  moreover have "of_nat n - (if t = SPDY_SYN_STREAM then 10 else 6) = (of_nat (2 ^ 32 - (?k - n)) :: u32)"
    using assms(1) by (auto simp: fixed_part_def of_nat_diff)
  ultimately have "length bs < unat (of_nat n - (if t = SPDY_SYN_STREAM then 10 else 6) :: u32)"
    using assms(2) by (simp only: unat_of_nat) simp
  then show ?thesis by (simp add: decompress_def Let_def split: option.splits)
qed

lemma header_payload_outside:
  assumes "fr_type frame \<in> {SPDY_SYN_STREAM, SPDY_SYN_REPLY, SPDY_HEADERS}"
    and "\<And>i sid. 4 \<le> i \<Longrightarrow> decompress zl (from_ptr pkt (m_read_ptr (move_read_ptr i p))) sid frame
      (fr_length frame - (if fr_type frame = SPDY_SYN_STREAM then 10 else 6)) d = None"
  shows "parse_header_payload zl pkt frame p d info = None"
proof (cases "buf_uint32 (from_ptr pkt (m_read_ptr p))")
  case (Some w)
  let ?n = "fr_length frame - (if fr_type frame = SPDY_SYN_STREAM then 10 else 6)"
  define q where "q = move_read_ptr (if fr_type frame = SPDY_SYN_STREAM then 10 else 6) p"
  have "decompress zl (from_ptr pkt (m_read_ptr q)) sid frame ?n d = None" for sid
    unfolding q_def by (rule assms(2)) simp
  moreover have "(if fr_type frame = SPDY_SYN_STREAM then move_read_ptr 2 (move_read_ptr 4 (move_read_ptr 4 p))
      else if fr_type frame = SPDY_SYN_REPLY \<or> fr_type frame = SPDY_HEADERS then move_read_ptr 2 (move_read_ptr 4 p)
      else move_read_ptr 4 p) = q"
    using assms(1) by (auto simp: q_def)
  ultimately show ?thesis unfolding parse_header_payload_def Let_def Some using assms(1) by auto
qed (simp add: parse_header_payload_def)

section \<open>Properties of header and control frames\<close>

text \<open>C7: Header frames. A SYN_STREAM, SYN_REPLY or HEADERS frame whose block inflates to encoded name/value pairs
  is accepted, whatever follows it: the pairs are added to the headers, the first value of a name
  counting, the stream id and the kind of message are reported, the stream of the right direction is
  advanced, and the read pointer and the packet length are those of the next frame.\<close>

theorem spdy_headers_roundtrip:
  assumes "v \<le> MIN_SPDY_VERSION" and "t \<in> {SPDY_SYN_STREAM, SPDY_SYN_REPLY, SPDY_HEADERS}"
    and "length fixed = fixed_part t" and "4 + length fixed + length cdata < 0x1000000"
    and "sid \<noteq> 0" and "sid < 0x80000000"
    and "block_inflates zl (m_dictionary_id d) (block_stream t sid d) cdata (header_block hs) z"
    and "short_pairs hs" and "length (spdy_header_frame v t fl sid fixed cdata @ rest) < 2 ^ 32"
    and "omap_ok (hi_http_headers info)"
  shows "\<exists>p' d' len' info'. spdy_parse nd zl (spdy_header_frame v t fl sid fixed cdata @ rest) p d
      (of_nat (length (spdy_header_frame v t fl sid fixed cdata @ rest))) info =
    Inr (if rest = [] then true_value else indeterminate_value, None, p', d', len', info') \<and>
    (rest \<noteq> [] \<longrightarrow> get_spdy_read_pointer p' = Some (length (spdy_header_frame v t fl sid fixed cdata)) \<and> unat len' = length rest) \<and>
    (\<forall>name. omap_find (hi_http_headers info') name =
      (case omap_find (hi_http_headers info) name of Some val \<Rightarrow> Some val | None \<Rightarrow> map_of hs name)) \<and>
    hi_stream_id info' = sid \<and> block_stream t sid d' = z \<and>
    hi_http_type info' = (if t = SPDY_SYN_STREAM then HTTP_REQUEST else if t = SPDY_SYN_REPLY then HTTP_RESPONSE
      else hi_http_type info)"
proof -
  have "block_stream t sid (after_block t sid z buf d) = z" for buf
    by (simp only: block_stream_def after_block_def) simp
  with header_frame_parse [OF assms(1-6) block_inflates_decompress [OF assms(7)] assms(8,9)]
  show ?thesis by (metis omap_find_add_headers [OF assms(10)])
qed

text \<open>C39: Headers of another stream. The decompressor does not tell the parser how long the inflated block is. When
  the buffer still holds the pairs of an earlier frame and the next block inflates to any beginning of
  them, even to nothing, the next frame is accepted and reported with all headers of the earlier one.\<close>

theorem spdy_stale_headers:
  assumes "v \<le> MIN_SPDY_VERSION" and "t \<in> {SPDY_SYN_STREAM, SPDY_SYN_REPLY, SPDY_HEADERS}"
    and "length fixed = fixed_part t" and "4 + length fixed + length cdata < 0x1000000"
    and "sid \<noteq> 0" and "sid < 0x80000000"
    and "m_uncompressed_header d = header_block hs @ x"
    and "block_inflates zl (m_dictionary_id d) (block_stream t sid d) cdata (take k (header_block hs)) z"
    and "short_pairs hs" and "length (spdy_header_frame v t fl sid fixed cdata @ rest) < 2 ^ 32"
    and "omap_ok (hi_http_headers info)"
  shows "\<exists>rc p' d' len' info'. spdy_parse nd zl (spdy_header_frame v t fl sid fixed cdata @ rest) p d
      (of_nat (length (spdy_header_frame v t fl sid fixed cdata @ rest))) info = Inr (rc, None, p', d', len', info') \<and>
    hi_stream_id info' = sid \<and>
    (\<forall>name. omap_find (hi_http_headers info') name =
      (case omap_find (hi_http_headers info) name of Some val \<Rightarrow> Some val | None \<Rightarrow> map_of hs name))"
proof -
  have "take k (header_block hs) @ drop (length (take k (header_block hs))) (m_uncompressed_header d) = header_block hs @ x"
    unfolding assms(7) by (cases "k \<le> length (header_block hs)") (simp_all add: min_def flip: append_assoc)
  then have "spdy_decompress_header zl (m_dictionary_id d) (m_uncompressed_header d) (block_stream t sid d) cdata =
      (True, z, header_block hs @ x)"
    using block_inflates_decompress [OF assms(8), of "m_uncompressed_header d"] by (simp only:)
  from header_frame_parse [OF assms(1-6) this assms(9,10)] show ?thesis
    by (metis omap_find_add_headers [OF assms(11)])
qed

text \<open>C40: Short header frames. A header frame whose length field is smaller than its fixed fields makes the length of
  the block wrap around: zlib is handed a range that leaves the packet, whatever follows the frame.\<close>

theorem spdy_short_header_frame:
  assumes "v \<le> MIN_SPDY_VERSION" and "t \<in> {SPDY_SYN_STREAM, SPDY_SYN_REPLY, SPDY_HEADERS}"
    and "n < 4 + fixed_part t" and "sid \<noteq> 0" and "sid < 0x80000000" and "length rest < 2 ^ 32 - 10"
  shows "spdy_parse nd zl (control_header v t fl n @ from_uint32 sid @ rest) p d len info = Inl Read_outside"
proof -
  have "t < SPDY_INVALID" "n < 0x1000000" using assms(2,3) by (auto simp: spdy_consts fixed_part_def split: if_splits)
  then obtain rc p2 len' where *: "m_read_ptr p2 = Some 8" and
    parse: "spdy_parse nd zl (control_header v t fl n @ from_uint32 sid @ rest) p d len info =
      (let frame = \<lparr>fr_control_bit = True, fr_version = v, fr_type = t, fr_flags = fl, fr_length = of_nat n\<rparr> in
       case parse_payload zl (control_header v t fl n @ from_uint32 sid @ rest) frame p2 d (frame_http_type frame
          (info\<lparr>hi_data_offset := hi_data_offset info + 8, hi_data_size := of_nat n\<rparr>)) of
       None \<Rightarrow> Inl Read_outside
     | Some (Some ev, p, d, info) \<Rightarrow> Inr (false_value, Some ev, p, d, len', info)
     | Some (None, p, d, info) \<Rightarrow>
         Inr (rc, None, p\<lparr>m_last_data_chunk_ptr := m_read_ptr p, m_read_ptr := m_current_data_chunk_ptr p\<rparr>, d, len', info))"
    using control_frame_parse [OF assms(1) _ _ assms(4,5)] by blast
  let ?frame = "\<lparr>fr_control_bit = True, fr_version = v, fr_type = t, fr_flags = fl, fr_length = of_nat n\<rparr>"
  let ?pkt = "control_header v t fl n @ from_uint32 sid @ rest"
  have "from_ptr ?pkt (m_read_ptr (move_read_ptr i p2)) = drop (i - 4) rest" if "4 \<le> i" for i
    using that by (simp add: * drop_control_header uint32.enc_length)
  moreover have "length (drop i rest) < 2 ^ 32 - 10" for i using assms(6) by (rule order.strict_trans1 [rotated]) simp
  ultimately have "parse_header_payload zl ?pkt ?frame p2 d info' = None" for info'
    using assms(2,3) by (intro header_payload_outside) (simp_all only: spdy_control_frame_info.simps short_block_outside)
  then have "parse_payload zl ?pkt ?frame p2 d info' = None" for info'
    using assms(2) by (simp add: parse_payload_def)
  then show ?thesis unfolding parse by simp
qed

text \<open>GOAWAY frames. Only the frame of four bytes, which has no status code, is looked at, and its status is
  read behind the frame: outside of the packet if less than four bytes follow, and otherwise in the next
  frame, whose first bytes can turn it into a protocol error. The frame of eight bytes that has a status
  code is accepted whatever its status is.\<close>

theorem spdy_goaway_misread:
  assumes "v \<le> MIN_SPDY_VERSION" and "sid \<noteq> 0" and "sid < 0x80000000"
  shows "(length rest < 4 \<longrightarrow>
      spdy_parse nd zl (control_header v SPDY_GOAWAY fl 4 @ from_uint32 sid @ rest) p d len info = Inl Read_outside) \<and>
    (\<exists>p' len' info'. spdy_parse nd zl (control_header v SPDY_GOAWAY fl 4 @ from_uint32 sid @ from_uint32 1 @ rest) p d len info =
      Inr (false_value, Some ERROR_PROTOCOL_ERROR, p', d, len', info')) \<and>
    (\<exists>rc p' len' info'. spdy_parse nd zl (control_header v SPDY_GOAWAY fl 8 @ from_uint32 sid @ from_uint32 status @ rest) p d len info =
      Inr (rc, None, p', d, len', info') \<and> hi_http_type info' = SPDY_CONTROL)"
proof -
  have t: "SPDY_GOAWAY < SPDY_INVALID" "(4::nat) < 0x1000000" "(8::nat) < 0x1000000" by (simp_all add: spdy_consts)
  have payload: "parse_payload zl pkt frame q d info = (case parse_spdy_goaway_frame pkt frame q of None \<Rightarrow> None
      | Some (ec, q) \<Rightarrow> Some (ec, q, d, info\<lparr>hi_http_type := SPDY_CONTROL\<rparr>))"
    if "fr_type frame = SPDY_GOAWAY" for pkt frame q info
    using that by (auto simp: parse_payload_def spdy_consts split: bind_splits option.splits)
  note simps = payload parse_spdy_goaway_frame_def Let_def drop_control_header uint32.enc_length
  have "spdy_parse nd zl (control_header v SPDY_GOAWAY fl 4 @ from_uint32 sid @ rest) p d len info = Inl Read_outside"
    if "length rest < 4"
    by (rule control_frame_parse [OF assms(1) t(1,2) assms(2,3), where nd = nd and zl = zl and fl = fl and rest = rest and p = p and d = d and len = len and info = info])
      (use that buf_uint32_None [of rest] in \<open>simp add: simps\<close>)
  moreover have "\<exists>p' len' info'. spdy_parse nd zl (control_header v SPDY_GOAWAY fl 4 @ from_uint32 sid @ from_uint32 1 @ rest) p d len info =
      Inr (false_value, Some ERROR_PROTOCOL_ERROR, p', d, len', info')"
    by (rule control_frame_parse [OF assms(1) t(1,2) assms(2,3), where nd = nd and zl = zl and fl = fl and rest = "from_uint32 1 @ rest" and p = p and d = d and len = len and info = info])
      (simp add: simps uint32.dec_enc)
  moreover have "\<exists>rc p' len' info'. spdy_parse nd zl (control_header v SPDY_GOAWAY fl 8 @ from_uint32 sid @ from_uint32 status @ rest) p d len info =
      Inr (rc, None, p', d, len', info') \<and> hi_http_type info' = SPDY_CONTROL"
    by (rule control_frame_parse [OF assms(1) t(1,3) assms(2,3), where nd = nd and zl = zl and fl = fl and rest = "from_uint32 status @ rest" and p = p and d = d and len = len and info = info])
      (simp add: simps)
  ultimately show ?thesis by blast
qed

section \<open>Witnesses\<close>

text \<open>Blocks of raw bytes: a stream that copies its input and counts the blocks.\<close>

definition raw_zlib :: "nat zlib" where
  "raw_zlib = \<lparr>inflateInit2 = (Z_OK, 0),
     inflate = (\<lambda>z input avail_out. (Z_OK, Suc z, take avail_out input, length input - avail_out)),
     inflateSetDictionary = (\<lambda>z dict. (Z_OK, z)), adler = (\<lambda>z. 0), adler32 = (\<lambda>a bs. a)\<rparr>"

definition raw_decompressor :: "u8 list \<Rightarrow> nat decompressor" where
  "raw_decompressor buf = new_decompressor raw_zlib 0 buf"

definition host_pair :: "(string \<times> string) list" where
  "host_pair = [(''host'', ''pion'')]"

lemma raw_block:
  "length bs \<le> 16384 \<Longrightarrow> block_inflates raw_zlib i z bs bs (Suc z)"
  by (simp add: block_inflates_def raw_zlib_def MAX_UNCOMPRESSED_DATA_BUF_SIZE_def)

lemma host_pair_facts: "short_pairs host_pair" "length (header_block host_pair) = 14" "map_of host_pair ''host'' = Some ''pion''"
  by (simp_all add: short_pairs_def host_pair_def header_block_def encode_pairs_def encode_string_def uint16.enc_length)

lemma raw_streams: "block_stream t sid (raw_decompressor buf) = 0" "m_uncompressed_header (raw_decompressor buf) = buf"
  by (simp_all add: block_stream_def raw_decompressor_def new_decompressor_def raw_zlib_def Let_def)

theorem spdy_headers_roundtrip_witness:
  "\<exists>p' d' len' info'. spdy_parse True raw_zlib
      (spdy_header_frame 2 SPDY_SYN_STREAM 0 1 [0, 0, 0, 0, 0, 0] (header_block host_pair) @ []) new_spdy_parser
      (raw_decompressor []) (of_nat (length (spdy_header_frame 2 SPDY_SYN_STREAM 0 1 [0, 0, 0, 0, 0, 0] (header_block host_pair) @ [])))
      new_http_protocol_info = Inr (true_value, None, p', d', len', info') \<and>
    omap_find (hi_http_headers info') ''host'' = Some ''pion'' \<and> hi_stream_id info' = 1 \<and> hi_http_type info' = HTTP_REQUEST"
proof -
  have *: "2 \<le> MIN_SPDY_VERSION" "SPDY_SYN_STREAM \<in> {SPDY_SYN_STREAM, SPDY_SYN_REPLY, SPDY_HEADERS}"
    "length [0, 0, 0, 0, 0, 0 :: u8] = fixed_part SPDY_SYN_STREAM"
    "4 + length [0, 0, 0, 0, 0, 0 :: u8] + length (header_block host_pair) < 0x1000000" "(1::u32) \<noteq> 0" "(1::u32) < 0x80000000"
    by (simp_all add: MIN_SPDY_VERSION_def fixed_part_def host_pair_facts)
  have z: "block_inflates raw_zlib (m_dictionary_id (raw_decompressor [])) (block_stream SPDY_SYN_STREAM 1 (raw_decompressor []))
    (header_block host_pair) (header_block host_pair) (Suc 0)"
    unfolding raw_streams by (rule raw_block) (simp add: host_pair_facts)
  have l: "length (spdy_header_frame 2 SPDY_SYN_STREAM 0 1 [0, 0, 0, 0, 0, 0] (header_block host_pair) @ []) < 2 ^ 32"
    by (simp add: length_header_frame host_pair_facts)
  have ok: "omap_ok (hi_http_headers new_http_protocol_info)" by (simp add: new_http_protocol_info_def)
  from spdy_headers_roundtrip [OF * z host_pair_facts(1) l ok, of True new_spdy_parser]
  show ?thesis by (auto simp: host_pair_facts new_http_protocol_info_def)
qed

theorem spdy_stale_headers_witness:
  "\<exists>rc p' d' len' info'. spdy_parse True raw_zlib
      (spdy_header_frame 2 SPDY_SYN_STREAM 0 3 [0, 0, 0, 0, 0, 0] [] @ []) new_spdy_parser
      (raw_decompressor (header_block host_pair @ [])) (of_nat (length (spdy_header_frame 2 SPDY_SYN_STREAM 0 3 [0, 0, 0, 0, 0, 0] [] @ [])))
      new_http_protocol_info = Inr (rc, None, p', d', len', info') \<and>
    hi_stream_id info' = 3 \<and> omap_find (hi_http_headers info') ''host'' = Some ''pion''"
proof -
  let ?d = "raw_decompressor (header_block host_pair @ [])"
  have *: "2 \<le> MIN_SPDY_VERSION" "SPDY_SYN_STREAM \<in> {SPDY_SYN_STREAM, SPDY_SYN_REPLY, SPDY_HEADERS}"
    "length [0, 0, 0, 0, 0, 0 :: u8] = fixed_part SPDY_SYN_STREAM"
    "4 + length [0, 0, 0, 0, 0, 0 :: u8] + length ([] :: u8 list) < 0x1000000" "(3::u32) \<noteq> 0" "(3::u32) < 0x80000000"
    by (simp_all add: MIN_SPDY_VERSION_def fixed_part_def)
  have z: "block_inflates raw_zlib (m_dictionary_id ?d) (block_stream SPDY_SYN_STREAM 3 ?d) [] (take 0 (header_block host_pair)) (Suc 0)"
    unfolding raw_streams take_0 by (rule raw_block) simp
  have l: "length (spdy_header_frame 2 SPDY_SYN_STREAM 0 3 [0, 0, 0, 0, 0, 0] [] @ []) < 2 ^ 32"
    by (simp add: length_header_frame)
  have ok: "omap_ok (hi_http_headers new_http_protocol_info)" by (simp add: new_http_protocol_info_def)
  from spdy_stale_headers [OF * raw_streams(2) z host_pair_facts(1) l ok, of True new_spdy_parser]
  show ?thesis by (auto simp: host_pair_facts new_http_protocol_info_def)
qed

theorem spdy_short_header_frame_witness:
  "spdy_parse True raw_zlib (control_header 2 SPDY_SYN_STREAM 0 4 @ from_uint32 1 @ []) new_spdy_parser
     (raw_decompressor []) 12 new_http_protocol_info = Inl Read_outside"
  by (rule spdy_short_header_frame) (simp_all add: MIN_SPDY_VERSION_def fixed_part_def)

theorem spdy_goaway_misread_witness:
  "spdy_parse True raw_zlib (control_header 2 SPDY_GOAWAY 0 4 @ from_uint32 1 @ []) new_spdy_parser
     (raw_decompressor []) 12 new_http_protocol_info = Inl Read_outside"
proof -
  have "(2::16 word) \<le> MIN_SPDY_VERSION" "(1::u32) \<noteq> 0" "(1::u32) < 0x80000000" by (simp_all add: MIN_SPDY_VERSION_def)
  from spdy_goaway_misread [OF this, of "[]" True raw_zlib 0 new_spdy_parser "raw_decompressor []" 12 new_http_protocol_info]
  show ?thesis by simp
qed

definition data_frame_example :: "u8 list" where
  "data_frame_example = [0, 0, 0, 5, 1, 0, 0, 2, 7, 8, 0x80]"

theorem spdy_frame_boundaries_witness:
  "\<exists>p' d' len' info'. spdy_parse True raw_zlib data_frame_example new_spdy_parser (raw_decompressor [])
      (of_nat (length data_frame_example)) new_http_protocol_info = Inr (indeterminate_value, None, p', d', len', info') \<and>
    get_spdy_read_pointer p' = Some 10 \<and> unat len' = 1 \<and> get_spdy_data_content p' = Some 8 \<and> hi_last_chunk info'"
proof -
  have "\<exists>rc p' d' len' info'. spdy_parse True raw_zlib data_frame_example new_spdy_parser (raw_decompressor [])
      (of_nat (length data_frame_example)) new_http_protocol_info = Inr (rc, None, p', d', len', info') \<and> hi_data_size info' = 2"
    by (simp add: data_frame_example_def spdy_parse_def parse_spdy_frame_def populate_frame_def populate_rest_def
        set_read_ptr_def to_uint16_def to_uint32_def next_chunk_def parse_spdy_data_def parse_payload_def frame_http_type_def
        new_http_protocol_info_def spdy_consts SPDY_FLAG_FIN_def Let_def)
  then obtain rc p' d' len' info' where *: "spdy_parse True raw_zlib data_frame_example new_spdy_parser (raw_decompressor [])
      (of_nat (length data_frame_example)) new_http_protocol_info = Inr (rc, None, p', d', len', info')" "hi_data_size info' = 2"
    by blast
  have "length data_frame_example < 2 ^ 32" by (simp add: data_frame_example_def)
  from spdy_frame_boundaries [OF this *(1)] * show ?thesis by (simp add: data_frame_example_def SPDY_FLAG_FIN_def)
qed

end
