(* ===== verification/Plugin.thy ===== *)
theory Plugin
  imports Algorithm Ordered_Map
begin

text \<open>
  Plug-in libraries (\<^verbatim>\<open>src/plugin.cpp\<close>, \<^verbatim>\<open>include/pion/plugin.hpp\<close>), for POSIX systems. The process
  has one configuration: the search directories and the map from plug-in names to the loaded libraries,
  which are reference counted. A library is a heap object at an address; a \<^verbatim>\<open>plugin\<close> object is a
  handle that points to one or to none. The model keeps the heap and the handles explicitly, so that a
  handle that outlives its library would read a freed address, the fault \<open>Dangling\<close>. Locking the mutex
  of the configuration twice in one thread is the fault \<open>Deadlock\<close>, calling a null function \<open>Null_call\<close>.

  The file system and the dynamic loader are outside of the program: a record of functions.
\<close>

datatype plugin_fault = Dangling | Deadlock | Null_call

text \<open>\<^verbatim>\<open>is_regular_file\<close> is false where the library call throws, as the code catches it. A library handle and
  a function are numbers, the null pointer is \<^const>\<open>None\<close>. \<open>created\<close> is the object that a creating
  function returns when the given objects exist.\<close>

record plugin_env =
  is_regular_file :: "string \<Rightarrow> bool"
  path_exists :: "string \<Rightarrow> bool"
  absolute_path :: "string \<Rightarrow> string"
  directory_entries :: "string \<Rightarrow> (string \<times> bool) list"
  dlopen :: "string \<Rightarrow> nat option"
  dlerror :: "string \<Rightarrow> string option"
  dlsym :: "nat option \<Rightarrow> string \<Rightarrow> nat option"
  created :: "nat \<Rightarrow> nat list \<Rightarrow> nat"

record data_type =
  m_lib_handle :: "nat option"
  m_create_func :: "nat option"
  m_destroy_func :: "nat option"
  m_plugin_name :: string
  m_references :: nat

definition new_data_type :: "string \<Rightarrow> data_type" where
  "new_data_type plugin_name = \<lparr>m_lib_handle = None, m_create_func = None, m_destroy_func = None,
     m_plugin_name = plugin_name, m_references = 0\<rparr>"

text \<open>The configuration, the heap of libraries, the handles, and what happened outside: the libraries that
  were closed, the objects that exist, and what was printed.\<close>

record plugin_state =
  m_plugin_dirs :: "string list"
  m_plugin_map :: "nat omap"
  pl_heap :: "nat \<rightharpoonup> data_type"
  pl_next :: nat
  pl_handles :: "nat \<rightharpoonup> nat option"
  pl_closed :: "nat option list"
  pl_objects :: "nat list"
  pl_printed :: "string list"

definition create_plugin_config :: plugin_state where
  "create_plugin_config = \<lparr>m_plugin_dirs = [], m_plugin_map = [], pl_heap = Map.empty, pl_next = 0,
     pl_handles = Map.empty, pl_closed = [], pl_objects = [], pl_printed = []\<rparr>"

definition PION_PLUGIN_CREATE :: string where "PION_PLUGIN_CREATE = ''pion_create_''"
definition PION_PLUGIN_DESTROY :: string where "PION_PLUGIN_DESTROY = ''pion_destroy_''"
definition PION_PLUGIN_EXTENSION :: string where "PION_PLUGIN_EXTENSION = ''.so''"
definition PION_CONFIG_EXTENSION :: string where "PION_CONFIG_EXTENSION = ''.conf''"

definition print_line :: "string \<Rightarrow> plugin_state \<Rightarrow> plugin_state" where
  "print_line str st = st\<lparr>pl_printed := pl_printed st @ [str]\<rparr>"

section \<open>Paths\<close>

text \<open>\<^verbatim>\<open>fs::path::operator/\<close> on POSIX paths: an absolute right side replaces the left one, and a separator
  is added behind a left side that ends with a file name.\<close>

definition path_append :: "string \<Rightarrow> string \<Rightarrow> string" where
  "path_append p q =
     (if q \<noteq> [] \<and> hd q = CHR ''/'' then q
      else if p \<noteq> [] \<and> last p \<noteq> CHR ''/'' then p @ ''/'' @ q
      else p @ q)"

definition path_filename :: "string \<Rightarrow> string" where
  "path_filename p = rev (takeWhile (\<lambda>c. c \<noteq> CHR ''/'') (rev p))"

text \<open>\<^verbatim>\<open>stem\<close> and \<^verbatim>\<open>extension\<close>: the file name is split before its last period, unless it has none but
  the first character or is a dot entry.\<close>

definition path_stem :: "string \<Rightarrow> string" where
  "path_stem p =
     (let f = path_filename p; ext = takeWhile (\<lambda>c. c \<noteq> CHR ''.'') (rev f); n = length f - length ext in
      if f = ''..'' \<or> n \<le> 1 then f else take (n - 1) f)"

definition path_extension :: "string \<Rightarrow> string" where
  "path_extension p = drop (length (path_stem p)) (path_filename p)"

definition get_plugin_name :: "string \<Rightarrow> string" where
  "get_plugin_name plugin_file = path_stem plugin_file"

section \<open>Search paths\<close>

definition add_plugin_directory :: "plugin_env \<Rightarrow> string \<Rightarrow> plugin_state \<Rightarrow> plugin_state" where
  "add_plugin_directory env dir st =
     (let st = (if path_exists env dir then st else print_line (''Directory not found: '' @ dir) st)
      in st\<lparr>m_plugin_dirs := m_plugin_dirs st @ [dir]\<rparr>)"

definition reset_plugin_directories :: "plugin_state \<Rightarrow> plugin_state" where
  "reset_plugin_directories st = st\<lparr>m_plugin_dirs := []\<rparr>"

definition check_for_file :: "plugin_env \<Rightarrow> string \<Rightarrow> string \<Rightarrow> string \<Rightarrow> string option" where
  "check_for_file env start_path name extension =
     (let test_path = (if name \<noteq> [] then path_append start_path name else start_path) in
      if is_regular_file env test_path then Some test_path
      else
        let test_path = (if name = [] then start_path @ extension else path_append start_path (name @ extension)) in
        if is_regular_file env test_path then Some test_path else None)"

fun find_in_directories :: "plugin_env \<Rightarrow> string list \<Rightarrow> string \<Rightarrow> string \<Rightarrow> string option" where
  "find_in_directories env [] name extension = None"
| "find_in_directories env (dir # dirs) name extension =
     (case check_for_file env dir name extension of
        Some path_to_file \<Rightarrow> Some path_to_file
      | None \<Rightarrow> find_in_directories env dirs name extension)"

definition find_file :: "plugin_env \<Rightarrow> string \<Rightarrow> string \<Rightarrow> plugin_state \<Rightarrow> string option" where
  "find_file env name extension st =
     (case check_for_file env name [] extension of
        Some path_to_file \<Rightarrow> Some path_to_file
      | None \<Rightarrow> find_in_directories env (m_plugin_dirs st) name extension)"

definition find_plugin_file :: "plugin_env \<Rightarrow> string \<Rightarrow> plugin_state \<Rightarrow> string option" where
  "find_plugin_file env name st = find_file env name PION_PLUGIN_EXTENSION st"

definition find_config_file :: "plugin_env \<Rightarrow> string \<Rightarrow> plugin_state \<Rightarrow> string option" where
  "find_config_file env name st = find_file env name PION_CONFIG_EXTENSION st"

text \<open>The names of directories with the plug-in extension in the search path, then the static plug-ins.\<close>

definition get_all_plugin_names :: "plugin_env \<Rightarrow> plugin_state \<Rightarrow> string list" where
  "get_all_plugin_names env st =
     concat (map (\<lambda>dir. map (\<lambda>(path, _). get_plugin_name (path_filename path))
       (filter (\<lambda>(path, is_directory). is_directory \<and> path_extension path = PION_PLUGIN_EXTENSION)
         (directory_entries env dir))) (m_plugin_dirs st)) @
     concat (map (\<lambda>(name, a). case pl_heap st a of
         Some d \<Rightarrow> if m_lib_handle d = None then [m_plugin_name d] else []
       | None \<Rightarrow> []) (m_plugin_map st))"

section \<open>Reference counting\<close>

text \<open>\<^verbatim>\<open>unsigned long\<close>.\<close>

definition decrement :: "nat \<Rightarrow> nat" where
  "decrement n = (if n = 0 then 2 ^ 64 - 1 else n - 1)"

definition plugin_is_open :: "nat \<Rightarrow> plugin_state \<Rightarrow> bool" where
  "plugin_is_open h st = (case pl_handles st h of Some (Some _) \<Rightarrow> True | _ \<Rightarrow> False)"

definition release_data :: "nat \<Rightarrow> plugin_state \<Rightarrow> plugin_fault + plugin_state" where
  "release_data h st =
     (case pl_handles st h of
        Some (Some a) \<Rightarrow>
          (case pl_heap st a of
             None \<Rightarrow> Inl Dangling
           | Some d \<Rightarrow>
               let d = d\<lparr>m_references := decrement (m_references d)\<rparr>;
                   st = st\<lparr>pl_heap := (pl_heap st)(a \<mapsto> d)\<rparr>;
                   st = (if m_references d = 0 \<and> m_lib_handle d \<noteq> None
                         then st\<lparr>pl_closed := pl_closed st @ [m_lib_handle d],
                                 m_plugin_map := omap_erase (m_plugin_name d) (m_plugin_map st),
                                 pl_heap := (pl_heap st)(a := None)\<rparr>
                         else st)
               in Inr (st\<lparr>pl_handles := (pl_handles st)(h \<mapsto> None)\<rparr>))
      | _ \<Rightarrow> Inr st)"

text \<open>A handle is set to a library and the library counts it.\<close>

definition point_to :: "nat \<Rightarrow> nat \<Rightarrow> plugin_state \<Rightarrow> plugin_fault + plugin_state" where
  "point_to h a st =
     (case pl_heap st a of
        None \<Rightarrow> Inl Dangling
      | Some d \<Rightarrow> Inr (st\<lparr>pl_heap := (pl_heap st)(a \<mapsto> d\<lparr>m_references := szadd (m_references d) 1\<rparr>),
                          pl_handles := (pl_handles st)(h \<mapsto> Some a)\<rparr>))"

definition grab_data :: "nat \<Rightarrow> nat \<Rightarrow> plugin_state \<Rightarrow> plugin_fault + plugin_state" where
  "grab_data h p st =
     (case release_data h st of
        Inl f \<Rightarrow> Inl f
      | Inr st \<Rightarrow>
          (case pl_handles st p of
             Some (Some a) \<Rightarrow> point_to h a st
           | _ \<Rightarrow> Inr (st\<lparr>pl_handles := (pl_handles st)(h \<mapsto> None)\<rparr>)))"

text \<open>The default constructor, the copy constructor, the assignment, \<^verbatim>\<open>close\<close> and the destructor.\<close>

definition new_plugin :: "nat \<Rightarrow> plugin_state \<Rightarrow> plugin_state" where
  "new_plugin h st = st\<lparr>pl_handles := (pl_handles st)(h \<mapsto> None)\<rparr>"

definition copy_plugin :: "nat \<Rightarrow> nat \<Rightarrow> plugin_state \<Rightarrow> plugin_fault + plugin_state" where
  "copy_plugin h p st = grab_data h p (new_plugin h st)"

definition assign_plugin :: "nat \<Rightarrow> nat \<Rightarrow> plugin_state \<Rightarrow> plugin_fault + plugin_state" where
  "assign_plugin h p st = grab_data h p st"

definition close_plugin :: "nat \<Rightarrow> plugin_state \<Rightarrow> plugin_fault + plugin_state" where
  "close_plugin h st = release_data h st"

definition destroy_plugin :: "nat \<Rightarrow> plugin_state \<Rightarrow> plugin_fault + plugin_state" where
  "destroy_plugin h st =
     (case release_data h st of
        Inl f \<Rightarrow> Inl f
      | Inr st \<Rightarrow> Inr (st\<lparr>pl_handles := (pl_handles st)(h := None)\<rparr>))"

section \<open>Loading\<close>

definition close_dynamic_library :: "nat option \<Rightarrow> plugin_state \<Rightarrow> plugin_state" where
  "close_dynamic_library lib_handle st = st\<lparr>pl_closed := pl_closed st @ [lib_handle]\<rparr>"

text \<open>A library that cannot be opened, or that lacks a function, is reported and kept.\<close>

definition open_plugin :: "plugin_env \<Rightarrow> string \<Rightarrow> data_type \<Rightarrow> plugin_state \<Rightarrow> data_type \<times> plugin_state" where
  "open_plugin env plugin_file d st =
     (let name = get_plugin_name plugin_file;
          lib = dlopen env (absolute_path env plugin_file);
          st = (if lib = None
                then print_line (case dlerror env plugin_file of
                    Some error_msg \<Rightarrow> ''open_plugin: '' @ name @ plugin_file @ '' ('' @ error_msg @ '')''
                  | None \<Rightarrow> ''Open plugin: '' @ name) st
                else st);
          create_func = dlsym env lib (PION_PLUGIN_CREATE @ name);
          st = (if create_func = None
                then print_line (''Plugin missing symbol: '' @ name @ PION_PLUGIN_CREATE @ name) (close_dynamic_library lib st)
                else st);
          destroy_func = dlsym env lib (PION_PLUGIN_DESTROY @ name);
          st = (if destroy_func = None
                then print_line (''Plugin missing symbol: '' @ name @ PION_PLUGIN_DESTROY @ name) (close_dynamic_library lib st)
                else st)
      in (d\<lparr>m_plugin_name := name, m_lib_handle := lib, m_create_func := create_func,
            m_destroy_func := destroy_func\<rparr>, st))"

definition open_file :: "plugin_env \<Rightarrow> nat \<Rightarrow> string \<Rightarrow> plugin_state \<Rightarrow> plugin_fault + plugin_state" where
  "open_file env h plugin_file st =
     (case release_data h st of
        Inl f \<Rightarrow> Inl f
      | Inr st \<Rightarrow>
          let plugin_data = new_data_type (get_plugin_name plugin_file) in
          (case omap_find (m_plugin_map st) (m_plugin_name plugin_data) of
             None \<Rightarrow>
               let (plugin_data, st) = open_plugin env plugin_file plugin_data st;
                   a = pl_next st
               in point_to h a (st\<lparr>pl_next := a + 1, pl_heap := (pl_heap st)(a \<mapsto> plugin_data),
                    m_plugin_map := omap_insert (m_plugin_name plugin_data) a (m_plugin_map st)\<rparr>)
           | Some a \<Rightarrow> point_to h a st))"

text \<open>A name that is loaded is found under the lock; a handle that is open then locks again to release what it
  had.\<close>

definition plugin_open :: "plugin_env \<Rightarrow> nat \<Rightarrow> string \<Rightarrow> plugin_state \<Rightarrow> plugin_fault + plugin_state" where
  "plugin_open env h plugin_name st =
     (case omap_find (m_plugin_map st) plugin_name of
        Some a \<Rightarrow> if plugin_is_open h st then Inl Deadlock else point_to h a st
      | None \<Rightarrow>
          (case find_plugin_file env plugin_name st of
             Some plugin_file \<Rightarrow> open_file env h plugin_file st
           | None \<Rightarrow> open_file env h [] (print_line (''Plugin not found: '' @ plugin_name) st)))"

definition add_static_entry_point :: "string \<Rightarrow> nat option \<Rightarrow> nat option \<Rightarrow> plugin_state \<Rightarrow> plugin_state" where
  "add_static_entry_point plugin_name create_func destroy_func st =
     (case omap_find (m_plugin_map st) plugin_name of
        None \<Rightarrow>
          let a = pl_next st;
              d = (new_data_type plugin_name)\<lparr>m_lib_handle := None, m_create_func := create_func,
                    m_destroy_func := destroy_func\<rparr>
          in st\<lparr>pl_next := a + 1, pl_heap := (pl_heap st)(a \<mapsto> d),
               m_plugin_map := omap_insert plugin_name a (m_plugin_map st)\<rparr>
      | Some _ \<Rightarrow> st)"

section \<open>Objects\<close>

definition get_create_function :: "nat \<Rightarrow> plugin_state \<Rightarrow> plugin_fault + nat option" where
  "get_create_function h st =
     (case pl_handles st h of
        Some (Some a) \<Rightarrow> (case pl_heap st a of None \<Rightarrow> Inl Dangling | Some d \<Rightarrow> Inr (m_create_func d))
      | _ \<Rightarrow> Inr None)"

definition get_destroy_function :: "nat \<Rightarrow> plugin_state \<Rightarrow> plugin_fault + nat option" where
  "get_destroy_function h st =
     (case pl_handles st h of
        Some (Some a) \<Rightarrow> (case pl_heap st a of None \<Rightarrow> Inl Dangling | Some d \<Rightarrow> Inr (m_destroy_func d))
      | _ \<Rightarrow> Inr None)"

text \<open>\<^verbatim>\<open>plugin_ptr::create\<close> and \<^verbatim>\<open>plugin_ptr::destroy\<close>.\<close>

definition ptr_create :: "plugin_env \<Rightarrow> nat \<Rightarrow> plugin_state \<Rightarrow> plugin_fault + nat \<times> plugin_state" where
  "ptr_create env h st =
     (case get_create_function h st of
        Inl f \<Rightarrow> Inl f
      | Inr None \<Rightarrow> Inl Null_call
      | Inr (Some create_func) \<Rightarrow>
          let ob = created env create_func (pl_objects st) in Inr (ob, st\<lparr>pl_objects := pl_objects st @ [ob]\<rparr>))"

definition ptr_destroy :: "nat \<Rightarrow> nat \<Rightarrow> plugin_state \<Rightarrow> plugin_fault + plugin_state" where
  "ptr_destroy h ob st =
     (case get_destroy_function h st of
        Inl f \<Rightarrow> Inl f
      | Inr None \<Rightarrow> Inl Null_call
      | Inr (Some _) \<Rightarrow> Inr (st\<lparr>pl_objects := remove1 ob (pl_objects st)\<rparr>))"

text \<open>\<^verbatim>\<open>plugin_instance_ptr\<close>: a handle and the instance it created.\<close>

record instance_ptr =
  m_plugin_ptr :: nat
  m_instance_ptr :: "nat option"

definition instance_reset :: "instance_ptr \<Rightarrow> plugin_state \<Rightarrow> plugin_fault + plugin_state" where
  "instance_reset ip st =
     (case m_instance_ptr ip of None \<Rightarrow> Inr st | Some ob \<Rightarrow> ptr_destroy (m_plugin_ptr ip) ob st)"

definition instance_create ::
  "plugin_env \<Rightarrow> string \<Rightarrow> instance_ptr \<Rightarrow> plugin_state \<Rightarrow> plugin_fault + instance_ptr \<times> plugin_state" where
  "instance_create env plugin_type ip st =
     (case instance_reset ip st of
        Inl f \<Rightarrow> Inl f
      | Inr st \<Rightarrow>
          (case plugin_open env (m_plugin_ptr ip) plugin_type st of
             Inl f \<Rightarrow> Inl f
           | Inr st \<Rightarrow>
               (case ptr_create env (m_plugin_ptr ip) st of
                  Inl f \<Rightarrow> Inl f
                | Inr (ob, st) \<Rightarrow> Inr (ip\<lparr>m_instance_ptr := Some ob\<rparr>, st))))"

end
