(* ===== verification/Plugin_Manager.thy ===== *)
theory Plugin_Manager
  imports Plugin
begin

text \<open>
  The template \<^verbatim>\<open>plugin_manager\<close> (\<^verbatim>\<open>include/pion/plugin_manager.hpp\<close>): a map from identifiers to
  plug-in objects, each with the plug-in pointer that created it. Objects are numbers; the pointers are
  handles of the theory \<open>Plugin\<close>, which the manager numbers from \<open>pm_next_handle\<close> on. Copies of a
  pointer that a call makes and destroys again are left out. Where the code dereferences the end of the
  map after having printed that the identifier was not found, the result is the fault \<open>End_iterator\<close>.
\<close>

datatype manager_fault = Plugin_fault plugin_fault | End_iterator

record plugin_manager =
  pm_plugin_map :: "(nat \<times> nat) omap"
  pm_next_handle :: nat

definition new_plugin_manager :: "nat \<Rightarrow> plugin_manager" where
  "new_plugin_manager n = \<lparr>pm_plugin_map = [], pm_next_handle = n\<rparr>"

definition plugins_empty :: "plugin_manager \<Rightarrow> bool" where
  "plugins_empty pm = (pm_plugin_map pm = [])"

definition plugins_add :: "string \<Rightarrow> nat \<Rightarrow> plugin_manager \<times> plugin_state \<Rightarrow> plugin_manager \<times> plugin_state" where
  "plugins_add plugin_id ob = (\<lambda>(pm, st).
     (case omap_find (pm_plugin_map pm) plugin_id of
        Some _ \<Rightarrow> (pm, st)
      | None \<Rightarrow>
          let h = pm_next_handle pm
          in (\<lparr>pm_plugin_map = omap_insert plugin_id (ob, h) (pm_plugin_map pm), pm_next_handle = h + 1\<rparr>, new_plugin h st)))"

text \<open>An object is destroyed by its library, or deleted if there is none.\<close>

definition destroy_object :: "nat \<times> nat \<Rightarrow> plugin_state \<Rightarrow> manager_fault + plugin_state" where
  "destroy_object = (\<lambda>(ob, h) st.
     if plugin_is_open h st
     then (case ptr_destroy h ob st of Inl f \<Rightarrow> Inl (Plugin_fault f) | Inr st \<Rightarrow> Inr st)
     else Inr (st\<lparr>pl_objects := remove1 ob (pl_objects st)\<rparr>))"

definition plugins_remove ::
  "string \<Rightarrow> plugin_manager \<times> plugin_state \<Rightarrow> manager_fault + plugin_manager \<times> plugin_state" where
  "plugins_remove plugin_id = (\<lambda>(pm, st).
     (case omap_find (pm_plugin_map pm) plugin_id of
        None \<Rightarrow> Inl End_iterator
      | Some (ob, h) \<Rightarrow>
          (case destroy_object (ob, h) st of
             Inl f \<Rightarrow> Inl f
           | Inr st \<Rightarrow>
               (case destroy_plugin h st of
                  Inl f \<Rightarrow> Inl (Plugin_fault f)
                | Inr st \<Rightarrow> Inr (pm\<lparr>pm_plugin_map := omap_erase plugin_id (pm_plugin_map pm)\<rparr>, st)))))"

definition plugins_replace ::
  "string \<Rightarrow> nat \<Rightarrow> plugin_manager \<times> plugin_state \<Rightarrow> manager_fault + plugin_manager \<times> plugin_state" where
  "plugins_replace plugin_id ob' = (\<lambda>(pm, st).
     (case omap_find (pm_plugin_map pm) plugin_id of
        None \<Rightarrow> Inl End_iterator
      | Some (ob, h) \<Rightarrow>
          (case destroy_object (ob, h) st of
             Inl f \<Rightarrow> Inl f
           | Inr st \<Rightarrow> Inr (pm\<lparr>pm_plugin_map := omap_assign plugin_id (ob', h) (pm_plugin_map pm)\<rparr>, st))))"

definition plugins_clone ::
  "plugin_env \<Rightarrow> string \<Rightarrow> plugin_manager \<times> plugin_state \<Rightarrow> manager_fault + nat \<times> plugin_manager \<times> plugin_state" where
  "plugins_clone env plugin_id = (\<lambda>(pm, st).
     (case omap_find (pm_plugin_map pm) plugin_id of
        None \<Rightarrow> Inl End_iterator
      | Some (_, h) \<Rightarrow>
          (case ptr_create env h st of
             Inl f \<Rightarrow> Inl (Plugin_fault f)
           | Inr (ob, st) \<Rightarrow> Inr (ob, pm, st))))"

text \<open>The local pointer of \<^verbatim>\<open>load\<close> is the handle \<open>h\<close>, the copy in the map the next one.\<close>

definition plugins_load ::
  "plugin_env \<Rightarrow> string \<Rightarrow> string \<Rightarrow> plugin_manager \<times> plugin_state \<Rightarrow> manager_fault + nat \<times> plugin_manager \<times> plugin_state" where
  "plugins_load env plugin_id plugin_type = (\<lambda>(pm, st).
     (let present = omap_find (pm_plugin_map pm) plugin_id \<noteq> None;
          st = (if present then print_line (''duplicate_plugin: '' @ plugin_id) st else st);
          h = pm_next_handle pm
      in case plugin_open env h plugin_type (new_plugin h st) of
           Inl f \<Rightarrow> Inl (Plugin_fault f)
         | Inr st \<Rightarrow>
             (case ptr_create env h st of
                Inl f \<Rightarrow> Inl (Plugin_fault f)
              | Inr (ob, st) \<Rightarrow>
                  (case (if present then Inr st else copy_plugin (h + 1) h st) of
                     Inl f \<Rightarrow> Inl (Plugin_fault f)
                   | Inr st \<Rightarrow>
                       (case destroy_plugin h st of
                          Inl f \<Rightarrow> Inl (Plugin_fault f)
                        | Inr st \<Rightarrow>
                            Inr (ob, \<lparr>pm_plugin_map = omap_insert plugin_id (ob, h + 1) (pm_plugin_map pm),
                                      pm_next_handle = h + 2\<rparr>, st))))))"

definition plugins_get :: "string \<Rightarrow> plugin_manager \<Rightarrow> nat option" where
  "plugins_get plugin_id pm = map_option fst (omap_find (pm_plugin_map pm) plugin_id)"

text \<open>The library of an entry, as the address that its pointer holds.\<close>

definition get_lib_ptr :: "string \<Rightarrow> plugin_manager \<times> plugin_state \<Rightarrow> nat option" where
  "get_lib_ptr plugin_id = (\<lambda>(pm, st).
     (case omap_find (pm_plugin_map pm) plugin_id of
        None \<Rightarrow> None
      | Some (_, h) \<Rightarrow> (case pl_handles st h of Some a \<Rightarrow> a | None \<Rightarrow> None)))"

text \<open>The search by resource, on the entries from the last one that is not greater than the resource downward.\<close>

fun plugin_find_loop :: "string \<Rightarrow> (string \<times> nat \<times> nat) list \<Rightarrow> nat option" where
  "plugin_find_loop resource [] = None"
| "plugin_find_loop resource (i # rest) =
     (if take (length (fst i)) resource \<noteq> fst i
      then (case rest of [] \<Rightarrow> None
            | j # _ \<Rightarrow> if length (fst j) < length (fst i) then plugin_find_loop resource rest else None)
      else if length resource = length (fst i) \<or> resource ! length (fst i) = CHR ''/'' then Some (fst (snd i))
      else plugin_find_loop resource rest)"

definition plugins_find :: "string \<Rightarrow> plugin_manager \<Rightarrow> nat option" where
  "plugins_find resource pm =
     (if pm_plugin_map pm = [] then None
      else plugin_find_loop resource (rev (omap_upto resource (pm_plugin_map pm))))"

text \<open>The callbacks run on each object, or on the one of an identifier, which is null if there is none.\<close>

definition plugins_run :: "(nat \<Rightarrow> 'a \<Rightarrow> 'a) \<Rightarrow> plugin_manager \<Rightarrow> 'a \<Rightarrow> 'a" where
  "plugins_run run_func pm x = fold (\<lambda>i. run_func (fst (snd i))) (pm_plugin_map pm) x"

definition plugins_run_one :: "string \<Rightarrow> (nat option \<Rightarrow> 'a \<Rightarrow> 'b) \<Rightarrow> plugin_manager \<Rightarrow> 'a \<Rightarrow> 'b" where
  "plugins_run_one plugin_id run_func pm x = run_func (plugins_get plugin_id pm) x"

definition get_statistic :: "(nat \<Rightarrow> nat) \<Rightarrow> plugin_manager \<Rightarrow> nat" where
  "get_statistic stat_func pm = fold (\<lambda>i stat_value. szadd stat_value (stat_func (fst (snd i)))) (pm_plugin_map pm) 0"

definition get_statistic_one :: "string \<Rightarrow> (nat option \<Rightarrow> nat) \<Rightarrow> plugin_manager \<Rightarrow> nat" where
  "get_statistic_one plugin_id stat_func pm = stat_func (plugins_get plugin_id pm)"

text \<open>\<^verbatim>\<open>clear\<close> destroys all objects and then erases the entries with their pointers.\<close>

fun destroy_objects :: "(string \<times> nat \<times> nat) list \<Rightarrow> plugin_state \<Rightarrow> manager_fault + plugin_state" where
  "destroy_objects [] st = Inr st"
| "destroy_objects (i # is) st =
     (case destroy_object (snd i) st of Inl f \<Rightarrow> Inl f | Inr st \<Rightarrow> destroy_objects is st)"

fun erase_entries :: "(string \<times> nat \<times> nat) list \<Rightarrow> plugin_state \<Rightarrow> manager_fault + plugin_state" where
  "erase_entries [] st = Inr st"
| "erase_entries (i # is) st =
     (case destroy_plugin (snd (snd i)) st of Inl f \<Rightarrow> Inl (Plugin_fault f) | Inr st \<Rightarrow> erase_entries is st)"

definition plugins_clear ::
  "plugin_manager \<times> plugin_state \<Rightarrow> manager_fault + plugin_manager \<times> plugin_state" where
  "plugins_clear = (\<lambda>(pm, st).
     (case destroy_objects (pm_plugin_map pm) st of
        Inl f \<Rightarrow> Inl f
      | Inr st \<Rightarrow>
          (case erase_entries (pm_plugin_map pm) st of
             Inl f \<Rightarrow> Inl f
           | Inr st \<Rightarrow> Inr (pm\<lparr>pm_plugin_map := []\<rparr>, st))))"

end
