(* ===== verification/Plugin_Server.thy ===== *)
theory Plugin_Server
  imports Plugin_Manager Http_Server
begin

text \<open>
  The server for web services (\<^verbatim>\<open>src/http_plugin_server.cpp\<close>, \<^verbatim>\<open>include/pion/http/plugin_server.hpp\<close>,
  \<^verbatim>\<open>include/pion/http/plugin_service.hpp\<close>): an HTTP server with a manager of service objects, and its
  configuration files. A service is an object; what it does when it handles a request, is started, stopped
  or gets an option is code of the service, so the model records these calls in their order, and
  \<open>invoke\<close> gives the request handler of an object. Log messages are left out, the lines that are printed
  are kept.

  The faults are those of the manager, a call on a null service (\<open>Null_service\<close>) and a call on a null
  authentication (\<open>Null_auth\<close>).
\<close>

datatype service_call = Set_resource nat string | Set_option nat string string | Start nat | Stop nat

datatype service_fault = Manager_fault manager_fault | Null_service | Null_auth

record ('w, 'g) plugin_server =
  ps_http :: "('w, 'g) http_server"
  ps_listening :: bool
  m_services :: plugin_manager
  ps_plugins :: plugin_state
  ps_calls :: "service_call list"

section \<open>Services\<close>

text \<open>The resource of a service object: the last one it was set to.\<close>

definition service_resource :: "nat \<Rightarrow> service_call list \<Rightarrow> string" where
  "service_resource ob calls =
     foldl (\<lambda>r c. case c of Set_resource ob' r' \<Rightarrow> if ob' = ob then r' else r | _ \<Rightarrow> r) [] calls"

definition get_relative_resource :: "string \<Rightarrow> string \<Rightarrow> string" where
  "get_relative_resource resource resource_requested =
     (if length resource_requested \<le> length resource then []
      else url_decode (drop (length resource + 1) resource_requested))"

definition record_call :: "service_call \<Rightarrow> ('w, 'g) plugin_server \<Rightarrow> ('w, 'g) plugin_server" where
  "record_call c ps = ps\<lparr>ps_calls := ps_calls ps @ [c]\<rparr>"

definition new_plugin_server :: "plugin_state \<Rightarrow> nat \<Rightarrow> ('w, 'g) plugin_server" where
  "new_plugin_server st n = \<lparr>ps_http = new_http_server, ps_listening = False, m_services = new_plugin_manager n,
     ps_plugins = st, ps_calls = []\<rparr>"

definition add_service ::
  "(nat \<Rightarrow> 'w request_handler_t) \<Rightarrow> string \<Rightarrow> nat \<Rightarrow> ('w, 'g) plugin_server \<Rightarrow> ('w, 'g) plugin_server" where
  "add_service invoke resource service_ptr ps =
     (let clean_resource = strip_trailing_slash resource;
          ps = record_call (Set_resource service_ptr clean_resource) ps;
          (pm, st) = plugins_add clean_resource service_ptr (m_services ps, ps_plugins ps)
      in ps\<lparr>m_services := pm, ps_plugins := st,
            ps_http := add_resource clean_resource (invoke service_ptr) (ps_http ps)\<rparr>)"

definition load_service ::
  "plugin_env \<Rightarrow> (nat \<Rightarrow> 'w request_handler_t) \<Rightarrow> string \<Rightarrow> string \<Rightarrow> ('w, 'g) plugin_server \<Rightarrow>
    service_fault + ('w, 'g) plugin_server" where
  "load_service env invoke resource service_name ps =
     (let clean_resource = strip_trailing_slash resource in
      case plugins_load env clean_resource service_name (m_services ps, ps_plugins ps) of
        Inl f \<Rightarrow> Inl (Manager_fault f)
      | Inr (service_ptr, pm, st) \<Rightarrow>
          Inr (record_call (Set_resource service_ptr clean_resource)
            (ps\<lparr>m_services := pm, ps_plugins := st,
                ps_http := add_resource clean_resource (invoke service_ptr) (ps_http ps)\<rparr>)))"

definition set_service_option ::
  "string \<Rightarrow> string \<Rightarrow> string \<Rightarrow> ('w, 'g) plugin_server \<Rightarrow> service_fault + ('w, 'g) plugin_server" where
  "set_service_option resource name val ps =
     plugins_run_one (strip_trailing_slash resource)
       (\<lambda>service_ptr ps. case service_ptr of
          None \<Rightarrow> Inl Null_service
        | Some ob \<Rightarrow> Inr (record_call (Set_option ob name val) ps)) (m_services ps) ps"

definition before_starting :: "('w, 'g) plugin_server \<Rightarrow> ('w, 'g) plugin_server" where
  "before_starting ps = plugins_run (\<lambda>ob. record_call (Start ob)) (m_services ps) ps"

definition after_stopping :: "('w, 'g) plugin_server \<Rightarrow> ('w, 'g) plugin_server" where
  "after_stopping ps = plugins_run (\<lambda>ob. record_call (Stop ob)) (m_services ps) ps"

text \<open>\<^verbatim>\<open>clear\<close>. What stopping means for the services is \<^const>\<open>after_stopping\<close>; the connections are the
  matter of the TCP server.\<close>

definition plugin_server_clear :: "('w, 'g) plugin_server \<Rightarrow> service_fault + ('w, 'g) plugin_server" where
  "plugin_server_clear ps =
     (let ps = (if ps_listening ps then (after_stopping ps)\<lparr>ps_listening := False\<rparr> else ps) in
      case plugins_clear (m_services ps, ps_plugins ps) of
        Inl f \<Rightarrow> Inl (Manager_fault f)
      | Inr (pm, st) \<Rightarrow> Inr (ps\<lparr>m_services := pm, ps_plugins := st, ps_http := server_clear (ps_http ps)\<rparr>))"

section \<open>Configuration files\<close>

datatype config_parse_state =
  PARSE_NEWLINE | PARSE_COMMAND | PARSE_RESOURCE | PARSE_VALUE | PARSE_COMMENT | PARSE_USERNAME

record ('w, 'g) config_parser =
  parse_state :: config_parse_state
  command_string :: string
  resource_string :: string
  username_string :: string
  value_string :: string
  my_auth_ptr :: "'g auth_ptr"
  cfg_server :: "('w, 'g) plugin_server"

definition isalpha :: "char \<Rightarrow> bool" where
  "isalpha c = (let n = byte_val c in (65 \<le> n \<and> n \<le> 90) \<or> (97 \<le> n \<and> n \<le> 122))"

abbreviation is_blank :: "char \<Rightarrow> bool" where
  "is_blank c \<equiv> c = SP \<or> c = TAB"

abbreviation is_eol :: "char \<Rightarrow> bool" where
  "is_eol c \<equiv> c = CR \<or> c = LF"

definition cfg_print :: "string \<Rightarrow> ('w, 'g) config_parser \<Rightarrow> ('w, 'g) config_parser" where
  "cfg_print line q = q\<lparr>cfg_server := (cfg_server q)\<lparr>ps_plugins := print_line line (ps_plugins (cfg_server q))\<rparr>\<rparr>"

text \<open>What the commands need from outside: plug-ins, the build and the clock of the authentication, the seed
  of the random numbers of a cookie authentication, and the handlers of the services.\<close>

record ('w, 'g) config_env =
  ce_plugin :: plugin_env
  ce_environment :: "'g environment"
  ce_seed :: 'g
  ce_invoke :: "nat \<Rightarrow> 'w request_handler_t"

text \<open>The virtual functions of the authentication.\<close>

definition auth_ptr_restrict :: "string \<Rightarrow> 'g auth_ptr \<Rightarrow> service_fault + 'g auth_ptr" where
  "auth_ptr_restrict resource auth =
     (case auth of
        No_auth \<Rightarrow> Inl Null_auth
      | Basic_auth a \<Rightarrow> Inr (Basic_auth (add_restrict resource a))
      | Cookie_auth a \<Rightarrow> Inr (Cookie_auth (add_restrict resource a)))"

definition auth_ptr_add_user :: "crypto \<Rightarrow> string \<Rightarrow> string \<Rightarrow> 'g auth_ptr \<Rightarrow> service_fault + 'g auth_ptr" where
  "auth_ptr_add_user crypto username password auth =
     (case auth of
        No_auth \<Rightarrow> Inl Null_auth
      | Basic_auth a \<Rightarrow> Inr (Basic_auth (snd (auth_add_user crypto username password a)))
      | Cookie_auth a \<Rightarrow> Inr (Cookie_auth (snd (auth_add_user crypto username password a))))"

text \<open>The end of a line with a value: the command is carried out.\<close>

definition config_option :: "string \<Rightarrow> string \<times> string" where
  "config_option val = (let rest = dropWhile (\<lambda>c. c \<noteq> CHR ''='') val in
     if rest = [] then (val, val) else (takeWhile (\<lambda>c. c \<noteq> CHR ''='') val, tl rest))"

definition finish_value ::
  "('w, 'g) config_env \<Rightarrow> string \<Rightarrow> ('w, 'g) config_parser \<Rightarrow> service_fault + ('w, 'g) config_parser" where
  "finish_value env config_name q =
     (let cmd = command_string q; val = value_string q in
      if val = [] then Inr (cfg_print (''bad config: '' @ config_name @ ''value is empty'') q)
      else if cmd = ''path'' then
        Inr (q\<lparr>cfg_server := (cfg_server q)\<lparr>ps_plugins := add_plugin_directory (ce_plugin env) val (ps_plugins (cfg_server q))\<rparr>\<rparr>)
      else if cmd = ''auth'' then
        Inr (if val = ''basic''
             then q\<lparr>my_auth_ptr := Basic_auth (new_basic_auth new_user_manager ''PION'' (env_now (ce_environment env)))\<rparr>
             else if val = ''cookie''
             then q\<lparr>my_auth_ptr := Cookie_auth (new_cookie_auth (env_distrib (ce_environment env)) new_user_manager
                     ''/login'' ''/logout'' [] (ce_seed env) (env_now (ce_environment env)))\<rparr>
             else cfg_print (''bad config: '' @ config_name @ ''Not support name: '' @ cmd @ ''value: '' @ val) q)
      else if cmd = ''restrict'' then
        (case auth_ptr_restrict val (my_auth_ptr q) of
           Inl f \<Rightarrow> Inl f | Inr a \<Rightarrow> Inr (q\<lparr>my_auth_ptr := a\<rparr>))
      else if cmd = ''user'' then
        (case auth_ptr_add_user (env_crypto (ce_environment env)) (username_string q) val (my_auth_ptr q) of
           Inl f \<Rightarrow> Inl f | Inr a \<Rightarrow> Inr (q\<lparr>my_auth_ptr := a\<rparr>))
      else if cmd = ''service'' then
        (case load_service (ce_plugin env) (ce_invoke env) (resource_string q) val (cfg_server q) of
           Inl f \<Rightarrow> Inl f | Inr ps \<Rightarrow> Inr (q\<lparr>cfg_server := ps\<rparr>))
      else if cmd = ''option'' then
        (let q = (if CHR ''='' \<in> set val then q else cfg_print (''bad config: '' @ config_name @ '' '' @ val) q) in
         case set_service_option (resource_string q) (fst (config_option val)) (snd (config_option val)) (cfg_server q) of
           Inl f \<Rightarrow> Inl f | Inr ps \<Rightarrow> Inr (q\<lparr>cfg_server := ps\<rparr>))
      else Inr q)"

text \<open>One character of the file.\<close>

definition config_char ::
  "('w, 'g) config_env \<Rightarrow> string \<Rightarrow> char \<Rightarrow> ('w, 'g) config_parser \<Rightarrow> service_fault + ('w, 'g) config_parser" where
  "config_char env config_name c q =
     (case parse_state q of
        PARSE_NEWLINE \<Rightarrow>
          Inr (if c = CHR ''#'' then q\<lparr>parse_state := PARSE_COMMENT\<rparr>
               else if isalpha c then q\<lparr>parse_state := PARSE_COMMAND, command_string := command_string q @ [tolower c]\<rparr>
               else if \<not> is_eol c then cfg_print (''bad config: '' @ config_name @ '' blank lines'') q
               else q)
      | PARSE_COMMAND \<Rightarrow>
          Inr (if is_blank c then
                 (if command_string q \<in> {''path'', ''auth'', ''restrict''}
                  then q\<lparr>value_string := [], parse_state := PARSE_VALUE\<rparr>
                  else if command_string q \<in> {''service'', ''option''}
                  then q\<lparr>resource_string := [], parse_state := PARSE_RESOURCE\<rparr>
                  else if command_string q = ''user''
                  then q\<lparr>username_string := [], parse_state := PARSE_USERNAME\<rparr>
                  else cfg_print (''bad config: '' @ config_name) q)
               else if \<not> isalpha c then cfg_print (''bad config: '' @ config_name @ '' only contain alpha chars.'') q
               else q\<lparr>command_string := command_string q @ [tolower c]\<rparr>)
      | PARSE_RESOURCE \<Rightarrow>
          Inr (if is_blank c then
                 (if resource_string q \<noteq> [] then q\<lparr>value_string := [], parse_state := PARSE_VALUE\<rparr> else q)
               else if is_eol c then cfg_print (''bad config: '' @ config_name @ '' line truncated before value'') q
               else q\<lparr>resource_string := resource_string q @ [c]\<rparr>)
      | PARSE_USERNAME \<Rightarrow>
          Inr (if is_blank c then
                 (if username_string q \<noteq> [] then q\<lparr>value_string := [], parse_state := PARSE_VALUE\<rparr> else q)
               else if is_eol c
               then cfg_print (''bad config: '' @ config_name @ '' line truncated before value (missing username)'') q
               else q\<lparr>username_string := username_string q @ [c]\<rparr>)
      | PARSE_VALUE \<Rightarrow>
          (if is_eol c then
             (case finish_value env config_name q of
                Inl f \<Rightarrow> Inl f
              | Inr q \<Rightarrow> Inr (q\<lparr>command_string := [], parse_state := PARSE_NEWLINE\<rparr>))
           else if is_blank c then
             Inr (if value_string q \<noteq> [] then q\<lparr>value_string := value_string q @ [c]\<rparr> else q)
           else Inr (q\<lparr>value_string := value_string q @ [c]\<rparr>))
      | PARSE_COMMENT \<Rightarrow> Inr (if is_eol c then q\<lparr>parse_state := PARSE_NEWLINE\<rparr> else q))"

fun config_loop ::
  "('w, 'g) config_env \<Rightarrow> string \<Rightarrow> string \<Rightarrow> ('w, 'g) config_parser \<Rightarrow> service_fault + ('w, 'g) config_parser" where
  "config_loop env config_name [] q = Inr q"
| "config_loop env config_name (c # cs) q =
     (case config_char env config_name c q of Inl f \<Rightarrow> Inl f | Inr q \<Rightarrow> config_loop env config_name cs q)"

definition new_config_parser :: "('w, 'g) plugin_server \<Rightarrow> ('w, 'g) config_parser" where
  "new_config_parser ps = \<lparr>parse_state = PARSE_NEWLINE, command_string = [], resource_string = [], username_string = [],
     value_string = [], my_auth_ptr = No_auth, cfg_server = ps\<rparr>"

text \<open>\<open>contents\<close> is what can be read from a file; a file that cannot be opened reads as empty.\<close>

definition load_service_config ::
  "('w, 'g) config_env \<Rightarrow> (string \<Rightarrow> string option) \<Rightarrow> string \<Rightarrow> ('w, 'g) plugin_server \<Rightarrow>
    service_fault + ('w, 'g) plugin_server" where
  "load_service_config env contents config_name ps =
     (let found = find_config_file (ce_plugin env) config_name (ps_plugins ps);
          q = new_config_parser ps;
          q = (if found = None then cfg_print (''File not found: '' @ config_name) q else q);
          opened = contents (case found of Some config_file \<Rightarrow> config_file | None \<Rightarrow> []);
          q = (if opened = None then cfg_print (''Can't open file: '' @ config_name) q else q)
      in case config_loop env config_name (case opened of Some cs \<Rightarrow> cs | None \<Rightarrow> []) q of
           Inl f \<Rightarrow> Inl f
         | Inr q \<Rightarrow> Inr ((cfg_server q)\<lparr>ps_http := set_authentication (my_auth_ptr q) (ps_http (cfg_server q))\<rparr>))"

end
