(* ===== verification/Plugin_Props.thy ===== *)
theory Plugin_Props
  imports Plugin
begin

text \<open>
  Correctness of the reference counting of plug-in libraries, over every sequence of operations on handles.
\<close>

section \<open>The invariant\<close>

definition lib_users :: "nat \<Rightarrow> plugin_state \<Rightarrow> nat set" where
  "lib_users a st = {h. pl_handles st h = Some (Some a)}"

text \<open>Every handle points to a library that is alive, every library counts its handles and is in the map under
  its name, the map has no other entries, and a library of the loader is in use; the set \<open>X\<close> exempts
  libraries from the last condition.\<close>

definition plugin_inv_except :: "nat set \<Rightarrow> plugin_state \<Rightarrow> bool" where
  "plugin_inv_except X st \<longleftrightarrow> omap_ok (m_plugin_map st) \<and> finite (dom (pl_handles st)) \<and>
     (\<forall>h a. pl_handles st h = Some (Some a) \<longrightarrow> pl_heap st a \<noteq> None) \<and>
     (\<forall>a d. pl_heap st a = Some d \<longrightarrow> a < pl_next st \<and> m_references d = card (lib_users a st) \<and>
       omap_find (m_plugin_map st) (m_plugin_name d) = Some a \<and> (m_lib_handle d \<noteq> None \<longrightarrow> a \<notin> X \<longrightarrow> m_references d \<noteq> 0)) \<and>
     (\<forall>n a. omap_find (m_plugin_map st) n = Some a \<longrightarrow> (\<exists>d. pl_heap st a = Some d \<and> m_plugin_name d = n))"

definition plugin_inv :: "plugin_state \<Rightarrow> bool" where
  "plugin_inv st = plugin_inv_except {} st"

lemma plugin_invD:
  assumes "plugin_inv_except X st"
  shows "omap_ok (m_plugin_map st)" "finite (dom (pl_handles st))"
    "pl_handles st h = Some (Some a) \<Longrightarrow> \<exists>d. pl_heap st a = Some d"
    "pl_heap st a = Some d \<Longrightarrow> a < pl_next st"
    "pl_heap st a = Some d \<Longrightarrow> m_references d = card (lib_users a st)"
    "pl_heap st a = Some d \<Longrightarrow> omap_find (m_plugin_map st) (m_plugin_name d) = Some a"
    "pl_heap st a = Some d \<Longrightarrow> m_lib_handle d \<noteq> None \<Longrightarrow> a \<notin> X \<Longrightarrow> m_references d \<noteq> 0"
    "omap_find (m_plugin_map st) n = Some a \<Longrightarrow> \<exists>d. pl_heap st a = Some d \<and> m_plugin_name d = n"
  using assms unfolding plugin_inv_except_def by blast+

lemma plugin_invI:
  assumes "omap_ok (m_plugin_map st)" and "finite (dom (pl_handles st))"
    and "\<And>h a. pl_handles st h = Some (Some a) \<Longrightarrow> pl_heap st a \<noteq> None"
    and "\<And>a d. pl_heap st a = Some d \<Longrightarrow> a < pl_next st \<and> m_references d = card (lib_users a st)"
    and "\<And>a d. pl_heap st a = Some d \<Longrightarrow> omap_find (m_plugin_map st) (m_plugin_name d) = Some a"
    and "\<And>a d. pl_heap st a = Some d \<Longrightarrow> m_lib_handle d \<noteq> None \<Longrightarrow> a \<notin> X \<Longrightarrow> m_references d \<noteq> 0"
    and "\<And>n a. omap_find (m_plugin_map st) n = Some a \<Longrightarrow> \<exists>d. pl_heap st a = Some d \<and> m_plugin_name d = n"
  shows "plugin_inv_except X st"
  using assms unfolding plugin_inv_except_def by blast

lemma finite_lib_users: "finite (dom (pl_handles st)) \<Longrightarrow> finite (lib_users a st)"
  by (rule finite_subset [of _ "dom (pl_handles st)"]) (auto simp: lib_users_def)

lemma card_lib_users: "finite (dom (pl_handles st)) \<Longrightarrow> card (lib_users a st) \<le> card (dom (pl_handles st))"
  by (rule card_mono) (auto simp: lib_users_def)

lemma plugin_inv_initial: "plugin_inv create_plugin_config"
  by (simp add: plugin_inv_def plugin_inv_except_def create_plugin_config_def)

section \<open>Releasing\<close>

lemma release_data_handles:
  "release_data h st = Inr st' \<Longrightarrow> pl_handles st' = (if pl_handles st h = None then pl_handles st else (pl_handles st)(h \<mapsto> None))"
  unfolding release_data_def Let_def by (auto split: option.splits if_splits)

lemma release_data_inv:
  assumes "plugin_inv st"
  shows "\<exists>st'. release_data h st = Inr st' \<and> plugin_inv st'"
proof (cases "\<exists>a. pl_handles st h = Some (Some a)")
  case False
  then have "release_data h st = Inr st" by (auto simp: release_data_def split: option.splits)
  with assms show ?thesis by simp
next
  case True
  then obtain a where h: "pl_handles st h = Some (Some a)" by blast
  note inv = plugin_invD [OF assms [unfolded plugin_inv_def]]
  from inv(3) [OF h] obtain d where d: "pl_heap st a = Some d" by blast
  let ?us = "lib_users a st"
  have fin: "finite ?us" using inv(2) by (rule finite_lib_users)
  have mem: "h \<in> ?us" using h by (simp add: lib_users_def)
  have refs: "m_references d = card ?us" using inv(5) [OF d] .
  then have "decrement (m_references d) = card (?us - {h})"
    using fin mem by (auto simp: decrement_def card_gt_0_iff)
  note dec = this
  have us: "lib_users b (st\<lparr>pl_handles := (pl_handles st)(h \<mapsto> None)\<rparr>) = lib_users b st - {h}" for b
    by (auto simp: lib_users_def)
  have other: "lib_users b st - {h} = lib_users b st" if "b \<noteq> a" for b
    using that h by (auto simp: lib_users_def)
  have name: "n = m_plugin_name d" if "omap_find (m_plugin_map st) n = Some a" for n
    using inv(8) [OF that] d by simp
  have uniq: "b = a" if "pl_heap st b = Some e" "m_plugin_name e = m_plugin_name d" for b e
    using inv(6) [OF that(1)] inv(6) [OF d] that(2) by simp
  show ?thesis
  proof (cases "card (?us - {h}) = 0 \<and> m_lib_handle d \<noteq> None")
    case True
    let ?st = "st\<lparr>pl_closed := pl_closed st @ [m_lib_handle d], m_plugin_map := omap_erase (m_plugin_name d) (m_plugin_map st),
      pl_heap := (pl_heap st)(a := None), pl_handles := (pl_handles st)(h \<mapsto> None)\<rparr>"
    have "release_data h st = Inr ?st"
      using True h d dec by (simp add: release_data_def Let_def)
    moreover have "plugin_inv ?st"
    proof -
      have "?us - {h} = {}" using True fin by (simp only: card_0_eq finite_Diff)
      with mem have "?us = {h}" by blast
      then have "pl_heap st b \<noteq> None \<and> b \<noteq> a" if "pl_handles st g = Some (Some b)" "g \<noteq> h" for g b
        using that inv(3) [OF that(1)] by (auto simp: lib_users_def)
      moreover have "lib_users b ?st = lib_users b st" if "b \<noteq> a" for b
        using other [OF that] by (auto simp: lib_users_def)
      ultimately show ?thesis
        unfolding plugin_inv_def
      proof (intro plugin_invI, goal_cases)
        case (6 b e)
        then show ?case using inv(7) [of b e] by (simp split: if_splits)
      next
        case (7 n b)
        then have "omap_find (m_plugin_map st) n = Some b" "n \<noteq> m_plugin_name d"
          by (simp_all add: omap_find_erase split: if_splits)
        then show ?case using inv(8) [of n b] name [of n] by auto
      qed (use inv uniq in \<open>auto simp: omap_find_erase split: if_splits\<close>)
    qed
    ultimately show ?thesis by blast
  next
    case False
    let ?st = "st\<lparr>pl_heap := (pl_heap st)(a \<mapsto> d\<lparr>m_references := card (?us - {h})\<rparr>), pl_handles := (pl_handles st)(h \<mapsto> None)\<rparr>"
    have "release_data h st = Inr ?st"
      using False h d dec by (auto simp: release_data_def Let_def)
    moreover have "plugin_inv ?st"
    proof -
      have "lib_users b ?st = (if b = a then ?us - {h} else lib_users b st)" for b
        using other [of b] by (auto simp: lib_users_def)
      note users = this
      show ?thesis
        unfolding plugin_inv_def
      proof (intro plugin_invI, goal_cases)
        case (6 b e)
        then show ?case using inv(7) [of b e] False d by (auto split: if_splits)
      next
        case (7 n b)
        then show ?case using inv(8) [of n b] d by auto
      qed (use inv d in \<open>auto simp: users split: if_splits\<close>)
    qed
    ultimately show ?thesis by blast
  qed
qed

section \<open>Pointing to a library\<close>

lemma point_to_inv:
  assumes inv: "plugin_inv_except X st" and "X \<subseteq> {a}" and d: "pl_heap st a = Some d"
    and h: "\<nexists>b. pl_handles st h = Some (Some b)" and bound: "card (dom (pl_handles st)) + 1 < 2 ^ 64"
  shows "\<exists>st'. point_to h a st = Inr st' \<and> plugin_inv st' \<and> pl_handles st' = (pl_handles st)(h \<mapsto> Some a)"
proof -
  note inv = plugin_invD [OF inv]
  let ?us = "lib_users a st"
  let ?st = "st\<lparr>pl_heap := (pl_heap st)(a \<mapsto> d\<lparr>m_references := Suc (card ?us)\<rparr>), pl_handles := (pl_handles st)(h \<mapsto> Some a)\<rparr>"
  have "Suc (card ?us) < 2 ^ 64" using card_lib_users [OF inv(2), of a] bound by linarith
  then have "szadd (m_references d) 1 = Suc (card ?us)" using inv(5) [OF d] by (simp add: szadd_def)
  then have "point_to h a st = Inr ?st" using d by (simp add: point_to_def)
  moreover have "plugin_inv ?st"
  proof -
    have "h \<notin> ?us" using h by (simp add: lib_users_def)
    moreover have "lib_users b ?st = (if b = a then insert h ?us else lib_users b st)" for b
      using h by (auto simp: lib_users_def)
    ultimately have users: "card (lib_users b ?st) = (if b = a then Suc (card ?us) else card (lib_users b st))" for b
      using finite_lib_users [OF inv(2)] by simp
    show ?thesis
      unfolding plugin_inv_def
    proof (intro plugin_invI, goal_cases)
      case (6 b e)
      then show ?case using inv(7) [of b e] assms(2) by (auto split: if_splits)
    next
      case (7 n b)
      then show ?case using inv(8) [of n b] d by auto
    qed (use inv d in \<open>auto simp: users split: if_splits\<close>)
  qed
  ultimately show ?thesis by auto
qed

section \<open>Operations on handles\<close>

lemma grab_data_inv:
  assumes "plugin_inv st" and "card (dom (pl_handles st)) + 1 < 2 ^ 64" and "pl_handles st h \<noteq> None"
  shows "\<exists>st'. grab_data h p st = Inr st' \<and> plugin_inv st' \<and> dom (pl_handles st') = dom (pl_handles st)"
proof -
  from release_data_inv [OF assms(1), of h] obtain st1 where r: "release_data h st = Inr st1" "plugin_inv st1" by blast
  have hs: "pl_handles st1 = (pl_handles st)(h \<mapsto> None)" using release_data_handles [OF r(1)] assms(3) by simp
  then have dom: "dom (pl_handles st1) = dom (pl_handles st)" using assms(3) by auto
  show ?thesis
  proof (cases "\<exists>a. pl_handles st1 p = Some (Some a)")
    case True
    then obtain a where a: "pl_handles st1 p = Some (Some a)" by blast
    with r(2) obtain d where "pl_heap st1 a = Some d" unfolding plugin_inv_def by (blast dest: plugin_invD(3))
    with point_to_inv [of "{}" st1 a d h] r(2) assms(2) hs dom
    obtain st' where "point_to h a st1 = Inr st'" "plugin_inv st'" "pl_handles st' = (pl_handles st1)(h \<mapsto> Some a)"
      unfolding plugin_inv_def by auto
    with a r(1) dom assms(3) show ?thesis by (auto simp: grab_data_def hs)
  next
    case False
    have "st1\<lparr>pl_handles := (pl_handles st1)(h \<mapsto> None)\<rparr> = st1" by (simp add: hs)
    with False have "grab_data h p st = Inr st1" using r(1) by (auto simp: grab_data_def split: option.splits)
    with r(2) dom show ?thesis by blast
  qed
qed

lemma new_plugin_inv:
  assumes "plugin_inv st" and "pl_handles st h = None"
  shows "plugin_inv (new_plugin h st)" and "dom (pl_handles (new_plugin h st)) = insert h (dom (pl_handles st))"
proof -
  have "lib_users a (new_plugin h st) = lib_users a st" for a using assms(2) by (auto simp: lib_users_def new_plugin_def)
  moreover note inv = plugin_invD [OF assms(1) [unfolded plugin_inv_def]]
  ultimately show "plugin_inv (new_plugin h st)"
    unfolding plugin_inv_def by (intro plugin_invI) (auto simp: new_plugin_def split: if_splits)
  show "dom (pl_handles (new_plugin h st)) = insert h (dom (pl_handles st))" by (simp add: new_plugin_def)
qed

lemma destroy_plugin_inv:
  assumes "plugin_inv st"
  shows "\<exists>st'. destroy_plugin h st = Inr st' \<and> plugin_inv st' \<and> dom (pl_handles st') \<subseteq> dom (pl_handles st)"
proof -
  from release_data_inv [OF assms, of h] obtain st1 where r: "release_data h st = Inr st1" "plugin_inv st1" by blast
  have "pl_handles st1 h \<noteq> Some (Some a)" for a using release_data_handles [OF r(1)] by (simp split: if_splits)
  then have "lib_users a (st1\<lparr>pl_handles := (pl_handles st1)(h := None)\<rparr>) = lib_users a st1" for a
    by (auto simp: lib_users_def)
  moreover note inv = plugin_invD [OF r(2) [unfolded plugin_inv_def]]
  ultimately have "plugin_inv (st1\<lparr>pl_handles := (pl_handles st1)(h := None)\<rparr>)"
    unfolding plugin_inv_def by (intro plugin_invI) (auto split: if_splits)
  then show ?thesis
    using r(1) release_data_handles [OF r(1)] by (auto simp: destroy_plugin_def split: if_splits)
qed

text \<open>The invariant does not depend on the directories, the log and the objects.\<close>

lemma plugin_inv_cong:
  assumes "m_plugin_map st' = m_plugin_map st" "pl_heap st' = pl_heap st" "pl_next st' = pl_next st" "pl_handles st' = pl_handles st"
  shows "plugin_inv_except X st' = plugin_inv_except X st" "plugin_inv st' = plugin_inv st"
  using assms by (simp_all add: plugin_inv_def plugin_inv_except_def lib_users_def)

lemma print_line_simps [simp]:
  "m_plugin_map (print_line s st) = m_plugin_map st" "pl_heap (print_line s st) = pl_heap st"
  "pl_next (print_line s st) = pl_next st" "pl_handles (print_line s st) = pl_handles st" "m_plugin_dirs (print_line s st) = m_plugin_dirs st"
  by (simp_all add: print_line_def)

lemma close_library_simps [simp]:
  "m_plugin_map (close_dynamic_library l st) = m_plugin_map st" "pl_heap (close_dynamic_library l st) = pl_heap st"
  "pl_next (close_dynamic_library l st) = pl_next st" "pl_handles (close_dynamic_library l st) = pl_handles st"
  by (simp_all add: close_dynamic_library_def)

lemma open_plugin_keeps:
  assumes "open_plugin env file d st = (d', st')"
  shows "m_plugin_name d' = get_plugin_name file" "m_references d' = m_references d"
    "m_plugin_map st' = m_plugin_map st" "pl_heap st' = pl_heap st" "pl_next st' = pl_next st" "pl_handles st' = pl_handles st"
  using assms by (auto simp: open_plugin_def Let_def)

lemma add_library_inv:
  assumes "plugin_inv st" and "omap_find (m_plugin_map st) (m_plugin_name d) = None" and "m_references d = 0"
  shows "plugin_inv_except {pl_next st} (st\<lparr>pl_next := pl_next st + 1, pl_heap := (pl_heap st)(pl_next st \<mapsto> d),
    m_plugin_map := omap_insert (m_plugin_name d) (pl_next st) (m_plugin_map st)\<rparr>)"
proof -
  note inv = plugin_invD [OF assms(1) [unfolded plugin_inv_def]]
  have unused: "pl_heap st (pl_next st) = None" using inv(4) [of "pl_next st"] by (cases "pl_heap st (pl_next st)") auto
  then have "lib_users (pl_next st) st = {}" using inv(3) by (force simp: lib_users_def)
  moreover have "lib_users a (st\<lparr>pl_next := n, pl_heap := hp, m_plugin_map := m\<rparr>) = lib_users a st" for a n hp m
    by (simp add: lib_users_def)
  moreover have "a < pl_next st + 1" if "pl_heap st a = Some e" for a e using inv(4) [OF that] by simp
  moreover have "m_plugin_name e \<noteq> m_plugin_name d" if "pl_heap st a = Some e" for a e
    using inv(6) [OF that] assms(2) by auto
  moreover have "omap_find (m_plugin_map st) n \<noteq> Some (pl_next st)" for n
    using inv(8) [of n "pl_next st"] unused by auto
  ultimately show ?thesis
    using inv assms(2,3) unused
    by (intro plugin_invI) (auto simp: omap_find_insert split: if_splits)
qed

lemma open_file_inv:
  assumes "plugin_inv st" and "card (dom (pl_handles st)) + 1 < 2 ^ 64" and "pl_handles st h \<noteq> None"
  shows "\<exists>st'. open_file env h file st = Inr st' \<and> plugin_inv st' \<and> dom (pl_handles st') = dom (pl_handles st)"
proof -
  from release_data_inv [OF assms(1), of h] obtain st1 where r: "release_data h st = Inr st1" "plugin_inv st1" by blast
  have hs: "pl_handles st1 = (pl_handles st)(h \<mapsto> None)" using release_data_handles [OF r(1)] assms(3) by simp
  then have dom: "dom (pl_handles st1) = dom (pl_handles st)" using assms(3) by auto
  let ?name = "get_plugin_name file"
  show ?thesis
  proof (cases "omap_find (m_plugin_map st1) ?name")
    case (Some a)
    with r(2) obtain d where "pl_heap st1 a = Some d" unfolding plugin_inv_def by (blast dest: plugin_invD(8))
    with point_to_inv [of "{}" st1 a d h] r(2) assms(2) hs dom
    obtain st' where "point_to h a st1 = Inr st'" "plugin_inv st'" "pl_handles st' = (pl_handles st1)(h \<mapsto> Some a)"
      unfolding plugin_inv_def by auto
    with Some r(1) dom assms(3) show ?thesis by (auto simp: open_file_def new_data_type_def hs)
  next
    case None
    obtain d st2 where o: "open_plugin env file (new_data_type ?name) st1 = (d, st2)" by fastforce
    note k = open_plugin_keeps [OF o]
    let ?st3 = "st2\<lparr>pl_next := pl_next st2 + 1, pl_heap := (pl_heap st2)(pl_next st2 \<mapsto> d),
      m_plugin_map := omap_insert (m_plugin_name d) (pl_next st2) (m_plugin_map st2)\<rparr>"
    have "plugin_inv st2" using r(2) k by (simp add: plugin_inv_cong(2) [of st2 st1])
    then have "plugin_inv_except {pl_next st2} ?st3"
      using None k by (intro add_library_inv) (simp_all add: new_data_type_def)
    from point_to_inv [OF this, of "pl_next st2" d h] assms(2) k hs dom
    obtain st' where "point_to h (pl_next st2) ?st3 = Inr st'" "plugin_inv st'" "pl_handles st' = (pl_handles st2)(h \<mapsto> Some (pl_next st2))"
      by auto
    with None r(1) o k dom assms(3) show ?thesis by (auto simp: open_file_def new_data_type_def Let_def hs)
  qed
qed

lemma plugin_open_inv:
  assumes "plugin_inv st" and "card (dom (pl_handles st)) + 1 < 2 ^ 64" and "pl_handles st h \<noteq> None"
  shows "plugin_open env h name st = Inl Deadlock \<and> plugin_is_open h st \<and> omap_find (m_plugin_map st) name \<noteq> None \<or>
    (\<exists>st'. plugin_open env h name st = Inr st' \<and> plugin_inv st' \<and> dom (pl_handles st') = dom (pl_handles st))"
proof (cases "omap_find (m_plugin_map st) name")
  case (Some a)
  show ?thesis
  proof (cases "plugin_is_open h st")
    case False
    from Some assms(1) obtain d where "pl_heap st a = Some d" unfolding plugin_inv_def by (blast dest: plugin_invD(8))
    moreover have "\<nexists>b. pl_handles st h = Some (Some b)" using False by (auto simp: plugin_is_open_def)
    ultimately obtain st' where "point_to h a st = Inr st'" "plugin_inv st'" "pl_handles st' = (pl_handles st)(h \<mapsto> Some a)"
      using point_to_inv [of "{}" st a d h] assms unfolding plugin_inv_def by auto
    with Some False assms(3) show ?thesis by (auto simp: plugin_open_def)
  qed (simp add: plugin_open_def Some)
next
  case None
  have "\<exists>st'. open_file env h f st2 = Inr st' \<and> plugin_inv st' \<and> dom (pl_handles st') = dom (pl_handles st)"
    if "st2 = st \<or> st2 = print_line s st" for f st2 s
    using open_file_inv [of st2 h env f] that assms by (auto simp: plugin_inv_cong(2) [of "print_line s st" st])
  with None show ?thesis by (auto simp: plugin_open_def split: option.splits)
qed

lemma plugin_inv_static:
  assumes "plugin_inv_except {a} st" and "\<And>d. pl_heap st a = Some d \<Longrightarrow> m_lib_handle d = None"
  shows "plugin_inv st"
  unfolding plugin_inv_def
proof (intro plugin_invI, goal_cases)
  case (6 b d)
  then show ?case using plugin_invD(7) [OF assms(1), of b d] assms(2) [of d] by (cases "b = a") auto
next
  case (7 n b)
  then show ?case by (rule plugin_invD(8) [OF assms(1)])
qed (use plugin_invD(1-6) [OF assms(1)] in blast)+

lemma add_static_inv:
  assumes "plugin_inv st"
  shows "plugin_inv (add_static_entry_point name c d st)" "pl_handles (add_static_entry_point name c d st) = pl_handles st"
proof -
  let ?d = "(new_data_type name)\<lparr>m_lib_handle := None, m_create_func := c, m_destroy_func := d\<rparr>"
  show "plugin_inv (add_static_entry_point name c d st)"
  proof (cases "omap_find (m_plugin_map st) name")
    case None
    then have *: "plugin_inv_except {pl_next st} (add_static_entry_point name c d st)"
      using add_library_inv [OF assms, of ?d] by (simp add: add_static_entry_point_def new_data_type_def Let_def)
    have "pl_heap (add_static_entry_point name c d st) (pl_next st) = Some ?d"
      using None by (simp add: add_static_entry_point_def new_data_type_def Let_def)
    then show ?thesis by (intro plugin_inv_static [OF *]) simp
  qed (simp add: add_static_entry_point_def assms)
qed (simp add: add_static_entry_point_def Let_def split: option.splits)

section \<open>Every sequence of operations\<close>

datatype plugin_op = New_plugin nat | Copy_plugin nat nat | Assign_plugin nat nat | Open_plugin nat string
  | Open_file nat string | Close_plugin nat | Destroy_plugin nat
  | Add_static string "nat option" "nat option" | Add_directory string | Reset_directories

text \<open>A constructor is called on a new handle and the other operations on existing ones; other calls are
  skipped.\<close>

fun plugin_step :: "plugin_env \<Rightarrow> plugin_op \<Rightarrow> plugin_state \<Rightarrow> plugin_fault + plugin_state" where
  "plugin_step env (New_plugin h) st = Inr (if pl_handles st h = None then new_plugin h st else st)"
| "plugin_step env (Copy_plugin h p) st = (if pl_handles st h = None then copy_plugin h p st else Inr st)"
| "plugin_step env (Assign_plugin h p) st = (if pl_handles st h \<noteq> None then assign_plugin h p st else Inr st)"
| "plugin_step env (Open_plugin h name) st = (if pl_handles st h \<noteq> None then plugin_open env h name st else Inr st)"
| "plugin_step env (Open_file h f) st = (if pl_handles st h \<noteq> None then open_file env h f st else Inr st)"
| "plugin_step env (Close_plugin h) st = close_plugin h st"
| "plugin_step env (Destroy_plugin h) st = destroy_plugin h st"
| "plugin_step env (Add_static name c d) st = Inr (add_static_entry_point name c d st)"
| "plugin_step env (Add_directory dir) st = Inr (add_plugin_directory env dir st)"
| "plugin_step env Reset_directories st = Inr (reset_plugin_directories st)"

fun plugin_run :: "plugin_env \<Rightarrow> plugin_op list \<Rightarrow> plugin_state \<Rightarrow> plugin_fault + plugin_state" where
  "plugin_run env [] st = Inr st"
| "plugin_run env (op # ops) st = (case plugin_step env op st of Inl f \<Rightarrow> Inl f | Inr st \<Rightarrow> plugin_run env ops st)"

text \<open>An operation that opens a loaded name on an open handle.\<close>

definition reopens :: "plugin_op \<Rightarrow> plugin_state \<Rightarrow> bool" where
  "reopens op st = (case op of Open_plugin h name \<Rightarrow> plugin_is_open h st \<and> omap_find (m_plugin_map st) name \<noteq> None | _ \<Rightarrow> False)"

lemma plugin_step_inv:
  assumes "plugin_inv st" and "card (dom (pl_handles st)) + 2 < 2 ^ 64"
  shows "plugin_step env op st = Inl Deadlock \<and> reopens op st \<or>
    (\<exists>st'. plugin_step env op st = Inr st' \<and> plugin_inv st' \<and> card (dom (pl_handles st')) \<le> card (dom (pl_handles st)) + 1)"
proof -
  have fin: "finite (dom (pl_handles st))" using assms(1) by (simp add: plugin_inv_def plugin_invD(2))
  have less: "card (dom (pl_handles st)) + 1 < 2 ^ 64" using assms(2) by simp
  have new: "card (dom (pl_handles (new_plugin h st))) \<le> card (dom (pl_handles st)) + 1" if "pl_handles st h = None" for h
    using new_plugin_inv(2) [OF assms(1) that] fin by (simp add: card_insert_if)
  show ?thesis
  proof (cases op)
    case (Copy_plugin h p)
    show ?thesis
    proof (cases "pl_handles st h = None")
      case True
      note n = new_plugin_inv [OF assms(1) True]
      have "pl_handles (new_plugin h st) h \<noteq> None" by (simp add: new_plugin_def)
      moreover have "card (dom (pl_handles (new_plugin h st))) + 1 < 2 ^ 64" using new [OF True] assms(2) by linarith
      ultimately obtain st' where "grab_data h p (new_plugin h st) = Inr st'" "plugin_inv st'" "dom (pl_handles st') = dom (pl_handles (new_plugin h st))"
        using grab_data_inv [OF n(1)] by blast
      with True new [OF True] show ?thesis by (simp add: Copy_plugin copy_plugin_def)
    qed (simp add: Copy_plugin assms(1) del: not_None_eq)
  next
    case (Assign_plugin h p)
    show ?thesis
    proof (cases "pl_handles st h = None")
      case False
      from grab_data_inv [OF assms(1) less this, of p] show ?thesis
        using False by (simp add: Assign_plugin assign_plugin_def del: not_None_eq) fastforce
    qed (simp add: Assign_plugin assms(1))
  next
    case (Open_plugin h name)
    show ?thesis
    proof (cases "pl_handles st h = None")
      case False
      from plugin_open_inv [OF assms(1) less this, of env name] show ?thesis
        using False by (simp add: Open_plugin reopens_def del: not_None_eq) fastforce
    qed (simp add: Open_plugin assms(1))
  next
    case (Open_file h f)
    show ?thesis
    proof (cases "pl_handles st h = None")
      case False
      from open_file_inv [OF assms(1) less this, of env f] show ?thesis
        using False by (simp add: Open_file del: not_None_eq) fastforce
    qed (simp add: Open_file assms(1))
  next
    case (Close_plugin h)
    obtain st' where "release_data h st = Inr st'" "plugin_inv st'" using release_data_inv [OF assms(1)] by blast
    moreover have "dom (pl_handles st') = dom (pl_handles st)"
      unfolding release_data_handles [OF calculation(1)] by auto
    ultimately show ?thesis by (simp add: Close_plugin close_plugin_def)
  next
    case (Destroy_plugin h)
    obtain st' where "destroy_plugin h st = Inr st'" "plugin_inv st'" "dom (pl_handles st') \<subseteq> dom (pl_handles st)"
      using destroy_plugin_inv [OF assms(1)] by blast
    with card_mono [OF fin this(3)] show ?thesis by (simp add: Destroy_plugin)
  next
    case (Add_directory dir)
    have keeps: "m_plugin_map (add_plugin_directory env dir st) = m_plugin_map st"
      "pl_heap (add_plugin_directory env dir st) = pl_heap st" "pl_next (add_plugin_directory env dir st) = pl_next st"
      "pl_handles (add_plugin_directory env dir st) = pl_handles st"
      by (simp_all add: add_plugin_directory_def Let_def)
    with assms(1) have "plugin_inv (add_plugin_directory env dir st)" by (simp only: plugin_inv_cong(2) [OF keeps])
    with keeps show ?thesis by (simp add: Add_directory)
  next
    case Reset_directories
    have keeps: "m_plugin_map (reset_plugin_directories st) = m_plugin_map st"
      "pl_heap (reset_plugin_directories st) = pl_heap st" "pl_next (reset_plugin_directories st) = pl_next st"
      "pl_handles (reset_plugin_directories st) = pl_handles st"
      by (simp_all add: reset_plugin_directories_def)
    with assms(1) have "plugin_inv (reset_plugin_directories st)" by (simp only: plugin_inv_cong(2) [OF keeps])
    with keeps show ?thesis by (simp add: Reset_directories)
  next
    case (New_plugin h)
    show ?thesis using new_plugin_inv(1) [OF assms(1)] new assms(1) by (simp add: New_plugin)
  next
    case (Add_static name c d)
    show ?thesis using add_static_inv [OF assms(1)] by (simp add: Add_static)
  qed
qed

lemma plugin_run_inv:
  assumes "plugin_inv st" and "card (dom (pl_handles st)) + length ops + 2 < 2 ^ 64"
  shows "(\<exists>st'. plugin_run env ops st = Inr st' \<and> plugin_inv st') \<or>
    (\<exists>pre op post st'. ops = pre @ op # post \<and> plugin_run env pre st = Inr st' \<and> reopens op st' \<and>
      plugin_run env ops st = Inl Deadlock)"
  using assms
proof (induction ops arbitrary: st)
  case (Cons op ops)
  have "card (dom (pl_handles st)) + 2 < 2 ^ 64" using Cons.prems(2) by simp
  from plugin_step_inv [OF Cons.prems(1) this, of env op] show ?case
  proof (elim disjE exE conjE)
    assume "plugin_step env op st = Inl Deadlock" "reopens op st"
    then show ?thesis by (intro disjI2 exI [of _ "[]"]) auto
  next
    fix st1 assume s: "plugin_step env op st = Inr st1" "plugin_inv st1"
      "card (dom (pl_handles st1)) \<le> card (dom (pl_handles st)) + 1"
    then have "card (dom (pl_handles st1)) + length ops + 2 < 2 ^ 64" using Cons.prems(2) by simp
    from Cons.IH [OF s(2) this] show ?thesis
    proof (elim disjE exE conjE)
      fix pre op' post st' assume "ops = pre @ op' # post" "plugin_run env pre st1 = Inr st'" "reopens op' st'"
        "plugin_run env ops st1 = Inl Deadlock"
      then show ?thesis using s(1) by (intro disjI2 exI [of _ "op # pre"]) auto
    qed (simp add: s(1))
  qed
qed simp


text \<open>Assigning a handle to itself loses the library: the reference is released before it is taken from the
  same handle, and the last one closes the library.\<close>

theorem self_assignment_closes:
  assumes "pl_handles st h = Some (Some a)" and "pl_heap st a = Some d" and "m_references d = 1" and "m_lib_handle d = Some lib"
  shows "\<exists>st'. assign_plugin h h st = Inr st' \<and> pl_handles st' h = Some None \<and> pl_heap st' a = None \<and>
    pl_closed st' = pl_closed st @ [Some lib]"
  using assms by (simp add: assign_plugin_def grab_data_def release_data_def decrement_def Let_def)

lemma create_opens:
  assumes "ptr_create env h st = Inr (ob, st')"
  shows "plugin_is_open h st'" "pl_handles st' = pl_handles st"
  using assms by (auto simp: ptr_create_def get_create_function_def plugin_is_open_def Let_def split: sum.splits option.splits)

text \<open>Creating twice. A plug-in instance pointer that was given an instance hangs when it is asked for another one
  of the same type: the library is found under the lock, and releasing the old reference to it locks the
  same mutex again.\<close>

theorem instance_recreate_deadlock:
  assumes "instance_create env ty ip st = Inr (ip', st')" and "omap_find (m_plugin_map st') ty = Some a"
    and "get_destroy_function (m_plugin_ptr ip') st' = Inr (Some f)"
  shows "instance_create env ty ip' st' = Inl Deadlock"
proof -
  from assms(1) obtain st2 ob where c: "ptr_create env (m_plugin_ptr ip) st2 = Inr (ob, st')"
    and ip': "ip' = ip\<lparr>m_instance_ptr := Some ob\<rparr>"
    by (auto simp: instance_create_def split: sum.splits prod.splits)
  have "plugin_is_open (m_plugin_ptr ip') (st'\<lparr>pl_objects := os\<rparr>)" for os
    using create_opens(1) [OF c] by (simp add: ip' plugin_is_open_def)
  moreover have "instance_reset ip' st' = Inr (st'\<lparr>pl_objects := remove1 ob (pl_objects st')\<rparr>)"
    using assms(3) by (simp add: instance_reset_def ip' ptr_destroy_def)
  ultimately show ?thesis using assms(2) by (simp add: instance_create_def plugin_open_def)
qed

section \<open>Witnesses\<close>

text \<open>A system with one plug-in library, the file \<^verbatim>\<open>Echo.so\<close>, and one configuration file.\<close>

definition echo_env :: plugin_env where
  "echo_env = \<lparr>is_regular_file = (\<lambda>f. f = ''Echo.so'' \<or> f = ''web.conf''), path_exists = (\<lambda>f. True), absolute_path = (\<lambda>f. f),
     directory_entries = (\<lambda>d. []), dlopen = (\<lambda>f. if f = ''Echo.so'' then Some 7 else None), dlerror = (\<lambda>f. None),
     dlsym = (\<lambda>l s. if l = Some 7 then Some (length s) else None), created = (\<lambda>f obs. length obs)\<rparr>"

definition two_handles :: "plugin_op list" where
  "two_handles = [New_plugin 0, Open_plugin 0 ''Echo'', Copy_plugin 1 0, Destroy_plugin 0]"


definition echo_pointer :: instance_ptr where
  "echo_pointer = \<lparr>m_plugin_ptr = 0, m_instance_ptr = None\<rparr>"

theorem instance_recreate_deadlock_witness:
  "\<exists>ip' st'. instance_create echo_env ''Echo'' echo_pointer (new_plugin 0 create_plugin_config) = Inr (ip', st') \<and>
    instance_create echo_env ''Echo'' ip' st' = Inl Deadlock"
proof -
  define r where "r = instance_create echo_env ''Echo'' echo_pointer (new_plugin 0 create_plugin_config)"
  have "case r of Inl _ \<Rightarrow> False
    | Inr (ip', st') \<Rightarrow> omap_find (m_plugin_map st') ''Echo'' = Some 0 \<and>
        (case get_destroy_function (m_plugin_ptr ip') st' of Inr (Some f) \<Rightarrow> True | _ \<Rightarrow> False)"
    unfolding r_def by code_simp
  note eval = this
  then obtain x where "r = Inr x" by (cases r) simp_all
  moreover obtain ip' st' where "x = (ip', st')" by (cases x)
  ultimately have r: "r = Inr (ip', st')" by simp
  with eval have m: "omap_find (m_plugin_map st') ''Echo'' = Some 0"
    and g: "case get_destroy_function (m_plugin_ptr ip') st' of Inr (Some f) \<Rightarrow> True | _ \<Rightarrow> False"
    by (simp_all only: sum.case prod.case)
  obtain f where f: "get_destroy_function (m_plugin_ptr ip') st' = Inr (Some f)"
    using g by (simp split: sum.splits option.splits)
  from instance_recreate_deadlock [OF r [unfolded r_def] m f] r show ?thesis unfolding r_def by blast
qed

end
