(* ===== verification/Plugin_Server_Props.thy ===== *)
theory Plugin_Server_Props
  imports Plugin_Server Plugin_Props
begin

text \<open>
  Correctness of the configuration files and of the registration of services: well-formed files are carried
  out directive by directive, a bad command disables what follows it, and a loaded service is the one that
  requests and options reach.
\<close>

section \<open>Reading a configuration file\<close>

lemma config_loop_append:
  "config_loop env name (xs @ ys) q = (case config_loop env name xs q of Inl f \<Rightarrow> Inl f | Inr q \<Rightarrow> config_loop env name ys q)"
  by (induction xs arbitrary: q) (auto split: sum.splits)

definition is_lower :: "char \<Rightarrow> bool" where
  "is_lower c = (97 \<le> byte_val c \<and> byte_val c \<le> 122)"

lemma is_lower_facts: "is_lower c \<Longrightarrow> isalpha c \<and> tolower c = c \<and> c \<noteq> CHR ''#'' \<and> \<not> is_blank c"
  by (auto simp: is_lower_def isalpha_def tolower_def Let_def byte_val_def)

lemma command_chars:
  assumes "parse_state q = PARSE_COMMAND" and "list_all is_lower w"
  shows "config_loop env name w q = Inr (q\<lparr>command_string := command_string q @ w\<rparr>)"
  using assms by (induction w arbitrary: q) (auto simp: config_char_def dest: is_lower_facts)

lemma command_word:
  assumes "parse_state q = PARSE_NEWLINE" and "command_string q = []" and "list_all is_lower w" and "w \<noteq> []"
  shows "config_loop env name w q = Inr (q\<lparr>parse_state := PARSE_COMMAND, command_string := w\<rparr>)"
proof -
  obtain c cs where w: "w = c # cs" using assms(4) by (cases w) auto
  with assms(3) have "isalpha c" "tolower c = c" "c \<noteq> CHR ''#''" using is_lower_facts by auto
  then have "config_char env name c q = Inr (q\<lparr>parse_state := PARSE_COMMAND, command_string := [c]\<rparr>)"
    using assms(1,2) by (simp add: config_char_def)
  then show ?thesis using command_chars [of "q\<lparr>parse_state := PARSE_COMMAND, command_string := [c]\<rparr>" cs] assms(3) w by simp
qed

lemma value_chars:
  assumes "parse_state q = PARSE_VALUE" and "\<forall>c \<in> set v. \<not> is_eol c" and "value_string q \<noteq> [] \<or> v = [] \<or> \<not> is_blank (hd v)"
  shows "config_loop env name v q = Inr (q\<lparr>value_string := value_string q @ v\<rparr>)"
  using assms by (induction v arbitrary: q) (auto simp: config_char_def)

lemma resource_chars:
  assumes "parse_state q = PARSE_RESOURCE" and "\<forall>c \<in> set r. \<not> is_blank c \<and> \<not> is_eol c"
  shows "config_loop env name r q = Inr (q\<lparr>resource_string := resource_string q @ r\<rparr>)"
  using assms by (induction r arbitrary: q) (auto simp: config_char_def)

lemma username_chars:
  assumes "parse_state q = PARSE_USERNAME" and "\<forall>c \<in> set r. \<not> is_blank c \<and> \<not> is_eol c"
  shows "config_loop env name r q = Inr (q\<lparr>username_string := username_string q @ r\<rparr>)"
  using assms by (induction r arbitrary: q) (auto simp: config_char_def)

lemma comment_chars:
  assumes "parse_state q = PARSE_COMMENT" and "\<forall>c \<in> set v. \<not> is_eol c"
  shows "config_loop env name v q = Inr q"
  using assms by (induction v) (auto simp: config_char_def)

lemma value_line_end:
  assumes "parse_state q = PARSE_VALUE"
  shows "config_loop env name [LF] q = (case finish_value env name q of Inl f \<Rightarrow> Inl f
    | Inr q \<Rightarrow> Inr (q\<lparr>command_string := [], parse_state := PARSE_NEWLINE\<rparr>))"
  using assms by (auto simp: config_char_def split: sum.splits)

definition good_value :: "string \<Rightarrow> bool" where
  "good_value v = (v \<noteq> [] \<and> list_all (\<lambda>c. \<not> is_eol c) v \<and> \<not> is_blank (hd v))"

definition good_word :: "string \<Rightarrow> bool" where
  "good_word r = (r \<noteq> [] \<and> list_all (\<lambda>c. \<not> is_blank c \<and> \<not> is_eol c) r)"

definition finish_line ::
  "('w, 'g) config_env \<Rightarrow> string \<Rightarrow> ('w, 'g) config_parser \<Rightarrow> service_fault + ('w, 'g) config_parser" where
  "finish_line env name q = (case finish_value env name q of Inl f \<Rightarrow> Inl f
    | Inr q \<Rightarrow> Inr (q\<lparr>command_string := [], parse_state := PARSE_NEWLINE\<rparr>))"

lemma value_end:
  assumes "parse_state q = PARSE_VALUE" and "value_string q = []" and "good_value v"
  shows "config_loop env name (v @ [LF]) q = finish_line env name (q\<lparr>value_string := v\<rparr>)"
  using assms value_chars [of q v env name] value_line_end [of "q\<lparr>value_string := v\<rparr>" env name]
  unfolding config_loop_append finish_line_def good_value_def list_all_iff by simp

lemma command_blank:
  assumes "parse_state q = PARSE_NEWLINE" and "command_string q = []" and "list_all is_lower w" and "w \<noteq> []"
  shows "config_loop env name (w @ SP # rest) q =
    (case config_char env name SP (q\<lparr>parse_state := PARSE_COMMAND, command_string := w\<rparr>) of
       Inl f \<Rightarrow> Inl f | Inr q \<Rightarrow> config_loop env name rest q)"
  using command_word [OF assms] by (simp add: config_loop_append)

lemma lower_commands:
  "list_all is_lower ''path''" "list_all is_lower ''auth''" "list_all is_lower ''restrict''" "list_all is_lower ''user''"
  "list_all is_lower ''service''" "list_all is_lower ''option''"
  by (simp_all add: is_lower_def byte_val_def)

lemma value_command:
  assumes "parse_state q = PARSE_NEWLINE" and "command_string q = []" and "w \<in> {''path'', ''auth'', ''restrict''}" and "good_value v"
  shows "config_loop env name (w @ SP # v @ [LF]) q =
    finish_line env name (q\<lparr>command_string := w, parse_state := PARSE_VALUE, value_string := v\<rparr>)"
proof -
  have "list_all is_lower w" "w \<noteq> []" using assms(3) lower_commands by auto
  note cb = command_blank [OF assms(1,2) this, of env name "v @ [LF]"]
  let ?q = "q\<lparr>command_string := w, parse_state := PARSE_VALUE, value_string := []\<rparr>"
  have "config_char env name SP (q\<lparr>parse_state := PARSE_COMMAND, command_string := w\<rparr>) = Inr ?q"
    using assms(3) by (auto simp: config_char_def)
  with value_end [of ?q v env name] assms(4) show ?thesis unfolding cb by simp
qed

lemma resource_command:
  assumes "parse_state q = PARSE_NEWLINE" and "command_string q = []" and "w \<in> {''service'', ''option''}" and "good_word r" and "good_value v"
  shows "config_loop env name (w @ SP # r @ SP # v @ [LF]) q =
    finish_line env name (q\<lparr>command_string := w, resource_string := r, parse_state := PARSE_VALUE, value_string := v\<rparr>)"
proof -
  have "list_all is_lower w" "w \<noteq> []" using assms(3) lower_commands by auto
  note cb = command_blank [OF assms(1,2) this, of env name "r @ SP # v @ [LF]"]
  let ?q1 = "q\<lparr>command_string := w, resource_string := [], parse_state := PARSE_RESOURCE\<rparr>"
  let ?q2 = "q\<lparr>command_string := w, resource_string := r, parse_state := PARSE_VALUE, value_string := []\<rparr>"
  have "config_char env name SP (q\<lparr>parse_state := PARSE_COMMAND, command_string := w\<rparr>) = Inr ?q1"
    using assms(3) by (auto simp: config_char_def)
  moreover have "config_loop env name r ?q1 = Inr (?q1\<lparr>resource_string := r\<rparr>)"
    using resource_chars [of ?q1 r env name] assms(4) by (simp add: good_word_def list_all_iff)
  moreover have "config_char env name SP (?q1\<lparr>resource_string := r\<rparr>) = Inr ?q2"
    using assms(4) by (simp add: config_char_def good_word_def)
  ultimately show ?thesis using value_end [of ?q2 v env name] assms(5) unfolding cb by (simp add: config_loop_append)
qed

lemma user_command:
  assumes "parse_state q = PARSE_NEWLINE" and "command_string q = []" and "good_word r" and "good_value v"
  shows "config_loop env name (''user'' @ SP # r @ SP # v @ [LF]) q =
    finish_line env name (q\<lparr>command_string := ''user'', username_string := r, parse_state := PARSE_VALUE, value_string := v\<rparr>)"
proof -
  note cb = command_blank [OF assms(1,2) lower_commands(4), of env name "r @ SP # v @ [LF]"]
  let ?q1 = "q\<lparr>command_string := ''user'', username_string := [], parse_state := PARSE_USERNAME\<rparr>"
  let ?q2 = "q\<lparr>command_string := ''user'', username_string := r, parse_state := PARSE_VALUE, value_string := []\<rparr>"
  have "config_char env name SP (q\<lparr>parse_state := PARSE_COMMAND, command_string := ''user''\<rparr>) = Inr ?q1"
    by (simp add: config_char_def)
  moreover have "config_loop env name r ?q1 = Inr (?q1\<lparr>username_string := r\<rparr>)"
    using username_chars [of ?q1 r env name] assms(3) by (simp add: good_word_def list_all_iff)
  moreover have "config_char env name SP (?q1\<lparr>username_string := r\<rparr>) = Inr ?q2"
    using assms(3) by (simp add: config_char_def good_word_def)
  ultimately show ?thesis
    using value_end [of ?q2 v env name] assms(4) by (simp add: config_loop_append cb [simplified])
qed

section \<open>Directives\<close>

datatype directive = Path string | Auth string | Restrict string | User string string | Service string string
  | Option string string string | Comment string | Blank_line

fun config_line :: "directive \<Rightarrow> string" where
  "config_line (Path v) = ''path'' @ SP # v @ [LF]"
| "config_line (Auth v) = ''auth'' @ SP # v @ [LF]"
| "config_line (Restrict v) = ''restrict'' @ SP # v @ [LF]"
| "config_line (User n v) = ''user'' @ SP # n @ SP # v @ [LF]"
| "config_line (Service r v) = ''service'' @ SP # r @ SP # v @ [LF]"
| "config_line (Option r n v) = ''option'' @ SP # r @ SP # (n @ CHR ''='' # v) @ [LF]"
| "config_line (Comment s) = CHR ''#'' # s @ [LF]"
| "config_line Blank_line = [LF]"

fun directive_ok :: "directive \<Rightarrow> bool" where
  "directive_ok (Path v) = good_value v"
| "directive_ok (Auth v) = (v = ''basic'' \<or> v = ''cookie'')"
| "directive_ok (Restrict v) = good_value v"
| "directive_ok (User n v) = (good_word n \<and> good_value v)"
| "directive_ok (Service r v) = (good_word r \<and> good_value v)"
| "directive_ok (Option r n v) = (good_word r \<and> good_value (n @ CHR ''='' # v) \<and> CHR ''='' \<notin> set n)"
| "directive_ok (Comment s) = list_all (\<lambda>c. \<not> is_eol c) s"
| "directive_ok Blank_line = True"

text \<open>What a directive means for the authentication and the server.\<close>

fun directive_exec ::
  "('w, 'g) config_env \<Rightarrow> directive \<Rightarrow> 'g auth_ptr \<times> ('w, 'g) plugin_server \<Rightarrow> service_fault + 'g auth_ptr \<times> ('w, 'g) plugin_server" where
  "directive_exec env (Path v) (a, ps) = Inr (a, ps\<lparr>ps_plugins := add_plugin_directory (ce_plugin env) v (ps_plugins ps)\<rparr>)"
| "directive_exec env (Auth v) (a, ps) = Inr (if v = ''basic''
     then Basic_auth (new_basic_auth new_user_manager ''PION'' (env_now (ce_environment env)))
     else Cookie_auth (new_cookie_auth (env_distrib (ce_environment env)) new_user_manager ''/login'' ''/logout'' []
       (ce_seed env) (env_now (ce_environment env))), ps)"
| "directive_exec env (Restrict v) (a, ps) = map_sum id (\<lambda>a. (a, ps)) (auth_ptr_restrict v a)"
| "directive_exec env (User n v) (a, ps) = map_sum id (\<lambda>a. (a, ps)) (auth_ptr_add_user (env_crypto (ce_environment env)) n v a)"
| "directive_exec env (Service r v) (a, ps) = map_sum id (Pair a) (load_service (ce_plugin env) (ce_invoke env) r v ps)"
| "directive_exec env (Option r n v) (a, ps) = map_sum id (Pair a) (set_service_option r n v ps)"
| "directive_exec env (Comment s) (a, ps) = Inr (a, ps)"
| "directive_exec env Blank_line (a, ps) = Inr (a, ps)"

fun directives_exec ::
  "('w, 'g) config_env \<Rightarrow> directive list \<Rightarrow> 'g auth_ptr \<times> ('w, 'g) plugin_server \<Rightarrow> service_fault + 'g auth_ptr \<times> ('w, 'g) plugin_server" where
  "directives_exec env [] s = Inr s"
| "directives_exec env (d # ds) s = (case directive_exec env d s of Inl f \<Rightarrow> Inl f | Inr s \<Rightarrow> directives_exec env ds s)"

text \<open>The reader stands at the start of a line.\<close>

definition at_line_start :: "('w, 'g) config_parser \<Rightarrow> 'g auth_ptr \<times> ('w, 'g) plugin_server \<Rightarrow> bool" where
  "at_line_start q s \<longleftrightarrow> parse_state q = PARSE_NEWLINE \<and> command_string q = [] \<and> s = (my_auth_ptr q, cfg_server q)"

definition line_result ::
  "service_fault + ('w, 'g) config_parser \<Rightarrow> service_fault + 'g auth_ptr \<times> ('w, 'g) plugin_server \<Rightarrow> bool" where
  "line_result r s = (case r of Inl f \<Rightarrow> s = Inl f | Inr q \<Rightarrow> (\<exists>s'. s = Inr s' \<and> at_line_start q s'))"

lemma option_value: "CHR ''='' \<notin> set n \<Longrightarrow> config_option (n @ CHR ''='' # v) = (n, v)"
proof -
  assume n: "CHR ''='' \<notin> set n"
  then have "dropWhile (\<lambda>c. c \<noteq> CHR ''='') (n @ CHR ''='' # v) = CHR ''='' # v"
    "takeWhile (\<lambda>c. c \<noteq> CHR ''='') (n @ CHR ''='' # v) = n"
    by (subst dropWhile_append2 takeWhile_append2; auto)+
  then show ?thesis by (simp add: config_option_def)
qed

lemma good_values: "good_value ''basic''" "good_value ''cookie''"
  by (simp_all add: good_value_def)

lemma line_result_finish:
  assumes "map_sum id (\<lambda>q. (my_auth_ptr q, cfg_server q)) (finish_value env name q) = s"
  shows "line_result (finish_line env name q) s"
  using assms by (auto simp: line_result_def finish_line_def at_line_start_def split: sum.splits)

lemma config_line_exec:
  assumes q: "parse_state q = PARSE_NEWLINE" "command_string q = []" and "directive_ok d"
  shows "line_result (config_loop env name (config_line d) q) (directive_exec env d (my_auth_ptr q, cfg_server q))"
proof (cases d)
  case (Path v)
  then show ?thesis using assms(3) value_command [OF q, of "''path''" v]
    by (auto simp: finish_value_def good_value_def intro!: line_result_finish)
next
  case (Auth v)
  then show ?thesis using assms(3) value_command [OF q, of "''auth''" v] good_values
    by (auto simp: finish_value_def intro!: line_result_finish)
next
  case (Restrict v)
  then show ?thesis using assms(3) value_command [OF q, of "''restrict''" v]
    by (auto simp: finish_value_def good_value_def intro!: line_result_finish split: sum.splits)
next
  case (User n v)
  then show ?thesis using assms(3) user_command [OF q, of n v]
    by (auto simp: finish_value_def good_value_def intro!: line_result_finish split: sum.splits)
next
  case (Service r v)
  then show ?thesis using assms(3) resource_command [OF q, of "''service''" r v]
    by (auto simp: finish_value_def good_value_def intro!: line_result_finish split: sum.splits)
next
  case (Option r n v)
  then show ?thesis using assms(3) resource_command [OF q, of "''option''" r "n @ CHR ''='' # v"]
    by (auto simp: finish_value_def option_value intro!: line_result_finish split: sum.splits)
next
  case (Comment s)
  then have "config_loop env name (config_line d) q = Inr (q\<lparr>parse_state := PARSE_NEWLINE\<rparr>)"
    using assms(3) q comment_chars [of "q\<lparr>parse_state := PARSE_COMMENT\<rparr>" s env name]
    by (simp add: config_char_def config_loop_append list_all_iff)
  then show ?thesis using q by (simp add: Comment line_result_def at_line_start_def)
next
  case Blank_line
  then show ?thesis using q by (simp add: config_char_def line_result_def at_line_start_def isalpha_def byte_val_def)
qed

lemma config_lines_exec:
  assumes "parse_state q = PARSE_NEWLINE" "command_string q = []" and "list_all directive_ok ds"
  shows "line_result (config_loop env name (concat (map config_line ds)) q) (directives_exec env ds (my_auth_ptr q, cfg_server q))"
  using assms
proof (induction ds arbitrary: q)
  case (Cons d ds)
  from config_line_exec [OF Cons.prems(1,2), of d env name] Cons.prems(3)
  have "line_result (config_loop env name (config_line d) q) (directive_exec env d (my_auth_ptr q, cfg_server q))" by simp
  then show ?case
  proof (cases "config_loop env name (config_line d) q")
    case (Inr q1)
    with \<open>line_result _ _\<close> have q1: "directive_exec env d (my_auth_ptr q, cfg_server q) = Inr (my_auth_ptr q1, cfg_server q1)"
      "parse_state q1 = PARSE_NEWLINE" "command_string q1 = []"
      by (auto simp: line_result_def at_line_start_def)
    from Cons.IH [OF q1(2,3)] Cons.prems(3) show ?thesis by (simp add: config_loop_append Inr q1(1))
  qed (auto simp: line_result_def config_loop_append)
qed (simp add: line_result_def at_line_start_def)

text \<open>C14: Configuration files. A file of well-formed lines is carried out line by line: the directives take effect in
  their order, the first one that fails ends the reading with its fault, and otherwise the server gets the
  authentication that they built.\<close>

theorem config_executes:
  assumes "find_config_file (ce_plugin env) name (ps_plugins ps) = Some config_file"
    and "contents config_file = Some (concat (map config_line ds))" and "list_all directive_ok ds"
  shows "load_service_config env contents name ps =
    (case directives_exec env ds (No_auth, ps) of
       Inl f \<Rightarrow> Inl f
     | Inr (auth, ps') \<Rightarrow> Inr (ps'\<lparr>ps_http := set_authentication auth (ps_http ps')\<rparr>))"
proof -
  have "parse_state (new_config_parser ps) = PARSE_NEWLINE" "command_string (new_config_parser ps) = []"
    "(my_auth_ptr (new_config_parser ps), cfg_server (new_config_parser ps)) = (No_auth, ps)"
    by (simp_all add: new_config_parser_def)
  with config_lines_exec [of "new_config_parser ps" ds env name] assms show ?thesis
    by (auto simp: load_service_config_def Let_def line_result_def at_line_start_def split: sum.splits)
qed

section \<open>Bad commands\<close>

definition config_commands :: "string list" where
  "config_commands = [''path'', ''auth'', ''restrict'', ''service'', ''option'', ''user'']"

text \<open>Two servers that differ only in what was printed.\<close>

definition same_but_output :: "('w, 'g) plugin_server \<Rightarrow> ('w, 'g) plugin_server \<Rightarrow> bool" where
  "same_but_output ps ps' \<longleftrightarrow> (\<exists>out. ps' = ps\<lparr>ps_plugins := (ps_plugins ps)\<lparr>pl_printed := out\<rparr>\<rparr>)"

lemma same_but_output_refl: "same_but_output ps ps"
  unfolding same_but_output_def by (rule exI [of _ "pl_printed (ps_plugins ps)"]) simp

lemma same_but_output_print: "same_but_output ps (cfg_server q) \<Longrightarrow> same_but_output ps (cfg_server (cfg_print line q))"
  by (auto simp: same_but_output_def cfg_print_def print_line_def)

lemma cfg_print_simps [simp]:
  "parse_state (cfg_print line q) = parse_state q" "command_string (cfg_print line q) = command_string q"
  "my_auth_ptr (cfg_print line q) = my_auth_ptr q"
  by (simp_all add: cfg_print_def)

lemma bad_command_char:
  assumes "parse_state q = PARSE_COMMAND" and "\<forall>c \<in> set config_commands. \<not> prefix (command_string q) c"
    and "same_but_output ps (cfg_server q)"
  shows "\<exists>q'. config_char env name c q = Inr q' \<and> parse_state q' = PARSE_COMMAND \<and> my_auth_ptr q' = my_auth_ptr q \<and>
    (\<forall>c \<in> set config_commands. \<not> prefix (command_string q') c) \<and> same_but_output ps (cfg_server q')"
proof -
  have "command_string q \<notin> set config_commands" using assms(2) by (meson prefix_order.refl)
  then show ?thesis
    using assms same_but_output_print [of ps q]
    by (auto simp: config_char_def config_commands_def dest: append_prefixD)
qed

lemma bad_command_loop:
  assumes "parse_state q = PARSE_COMMAND" and "\<forall>c \<in> set config_commands. \<not> prefix (command_string q) c"
    and "same_but_output ps (cfg_server q)"
  shows "\<exists>q'. config_loop env name cs q = Inr q' \<and> my_auth_ptr q' = my_auth_ptr q \<and> same_but_output ps (cfg_server q')"
  using assms
proof (induction cs arbitrary: q)
  case (Cons c cs)
  from bad_command_char [OF Cons.prems] obtain q1 where q1: "config_char env name c q = Inr q1" "parse_state q1 = PARSE_COMMAND"
    "my_auth_ptr q1 = my_auth_ptr q" "\<forall>c \<in> set config_commands. \<not> prefix (command_string q1) c" "same_but_output ps (cfg_server q1)"
    by blast
  from Cons.IH [OF q1(2,4,5)] q1(1,3) show ?case by auto
qed auto

text \<open>C28: A bad command disables the rest of the file. After a line that starts with a word that no command starts
  with, everything behind it is swallowed, whatever it is: the server is as after the lines before it,
  apart from what is printed, so that restrictions and users that follow are not set up.\<close>

theorem config_bad_command:
  assumes "find_config_file (ce_plugin env) name (ps_plugins ps) = Some config_file"
    and "contents config_file = Some (concat (map config_line ds) @ word @ SP # behind)" and "list_all directive_ok ds"
    and "list_all is_lower word" and "word \<noteq> []" and "\<forall>c \<in> set config_commands. \<not> prefix word c"
    and "directives_exec env ds (No_auth, ps) = Inr (auth, ps')"
  shows "\<exists>ps''. load_service_config env contents name ps = Inr (ps''\<lparr>ps_http := set_authentication auth (ps_http ps'')\<rparr>) \<and>
    same_but_output ps' ps''"
proof -
  have n: "parse_state (new_config_parser ps) = PARSE_NEWLINE" "command_string (new_config_parser ps) = []"
    "my_auth_ptr (new_config_parser ps) = No_auth" "cfg_server (new_config_parser ps) = ps"
    by (simp_all add: new_config_parser_def)
  from config_lines_exec [OF n(1,2) assms(3), of env name] assms(7) n(3,4) obtain q where
    q: "config_loop env name (concat (map config_line ds)) (new_config_parser ps) = Inr q" "at_line_start q (auth, ps')"
    by (auto simp: line_result_def split: sum.splits)
  let ?q = "q\<lparr>parse_state := PARSE_COMMAND, command_string := word\<rparr>"
  have "config_loop env name word q = Inr ?q"
    using q(2) assms(4,5) by (intro command_word) (simp_all add: at_line_start_def)
  moreover obtain q' where "config_loop env name (SP # behind) ?q = Inr q'" "my_auth_ptr q' = auth" "same_but_output ps' (cfg_server q')"
    using bad_command_loop [of ?q ps' env name "SP # behind"] assms(6) q(2) same_but_output_refl [of ps'] by (auto simp: at_line_start_def)
  ultimately have "config_loop env name (concat (map config_line ds) @ word @ SP # behind) (new_config_parser ps) = Inr q'"
    using q(1) by (simp only: config_loop_append sum.case)
  then show ?thesis
    using assms(1,2) \<open>my_auth_ptr q' = auth\<close> \<open>same_but_output ps' (cfg_server q')\<close>
    by (auto simp: load_service_config_def Let_def)
qed

section \<open>Services\<close>

lemma find_handler_exact:
  assumes "omap_ok (m_resources s)" and "omap_find (m_resources s) r = Some h"
  shows "find_request_handler r s = Some h"
  using ordered.search_exact [OF assms] assms(2)
  by (auto simp: find_request_handler_def search_resource_def split: option.splits)

lemma service_resource_snoc: "service_resource ob (calls @ [Set_resource ob r]) = r"
  by (simp add: service_resource_def)

lemma plugins_load_result:
  assumes "plugins_load env i ty (pm, st) = Inr (ob, pm', st')"
  shows "\<exists>h. pm_plugin_map pm' = omap_insert i (ob, h) (pm_plugin_map pm)"
  using assms by (auto simp: plugins_load_def Let_def split: sum.splits prod.splits if_splits)

text \<open>C27: A loaded service is reached. When a service is loaded for a resource that has none yet, requests for the
  resource are dispatched to the object that the plug-in created, which knows the resource it is bound to,
  and options set for the resource go to the same object.\<close>

theorem service_reachable:
  assumes "omap_ok (m_resources (ps_http ps))" and "omap_ok (pm_plugin_map (m_services ps))"
    and "r = strip_trailing_slash resource" and "strip_trailing_slash r = r"
    and "omap_find (m_resources (ps_http ps)) r = None" and "plugins_get r (m_services ps) = None"
    and "load_service env invoke resource name ps = Inr ps'"
  shows "\<exists>ob. plugins_get r (m_services ps') = Some ob \<and> find_request_handler r (ps_http ps') = Some (invoke ob) \<and>
    service_resource ob (ps_calls ps') = r \<and>
    set_service_option resource n v ps' = Inr (record_call (Set_option ob n v) ps')"
proof -
  from assms(7) obtain ob pm st where l: "plugins_load env r name (m_services ps, ps_plugins ps) = Inr (ob, pm, st)"
    and ps': "ps' = record_call (Set_resource ob r) (ps\<lparr>m_services := pm, ps_plugins := st,
      ps_http := add_resource r (invoke ob) (ps_http ps)\<rparr>)"
    by (auto simp: load_service_def Let_def assms(3) split: sum.splits prod.splits)
  from plugins_load_result [OF l] obtain h where "pm_plugin_map pm = omap_insert r (ob, h) (pm_plugin_map (m_services ps))" by blast
  then have get: "plugins_get r (m_services ps') = Some ob"
    using assms(2,6) by (simp add: plugins_get_def ps' record_call_def omap_find_insert)
  moreover have "find_request_handler r (ps_http ps') = Some (invoke ob)"
    using assms(1,4,5) by (intro find_handler_exact) (simp_all add: ps' record_call_def add_resource_def omap_find_insert)
  moreover have "service_resource ob (ps_calls ps') = r" by (simp add: ps' record_call_def service_resource_snoc)
  moreover have "set_service_option resource n v ps' = Inr (record_call (Set_option ob n v) ps')"
    using get by (simp add: set_service_option_def plugins_run_one_def assms(3))
  ultimately show ?thesis by blast
qed

lemma find_plugin_file_print:
  "find_plugin_file env name (print_line s st) = find_plugin_file env name st"
  "find_plugin_file env name (new_plugin h st) = find_plugin_file env name st"
  by (simp_all add: find_plugin_file_def find_file_def new_plugin_def split: option.split)

lemma open_missing:
  assumes "omap_find (m_plugin_map st) name = None" and "omap_find (m_plugin_map st) [] = None"
    and "find_plugin_file env name st = None" and "dlopen env (absolute_path env []) = None"
    and "dlsym env None PION_PLUGIN_CREATE = None"
  shows "\<exists>st'. plugin_open env h name (new_plugin h st) = Inr st' \<and> get_create_function h st' = Inr None"
proof -
  have n: "get_plugin_name [] = []" by (simp add: get_plugin_name_def path_stem_def path_filename_def)
  define st1 where "st1 = print_line (''Plugin not found: '' @ name) (new_plugin h st)"
  have map: "m_plugin_map (new_plugin h st) = m_plugin_map st" "m_plugin_map st1 = m_plugin_map st"
    by (simp_all add: new_plugin_def st1_def)
  then have of: "plugin_open env h name (new_plugin h st) = open_file env h [] st1"
    using assms(1,3) by (simp add: plugin_open_def find_plugin_file_print st1_def)
  have release: "release_data h st1 = Inr st1" by (simp add: release_data_def st1_def print_line_def new_plugin_def)
  obtain d st2 where o: "open_plugin env [] (new_data_type []) st1 = (d, st2)" by fastforce
  note k = open_plugin_keeps [OF o]
  have "m_create_func d = None" using o assms(4,5) n by (auto simp: open_plugin_def Let_def)
  then show ?thesis
    using o k assms(2) map unfolding of open_file_def release
    by (simp add: n new_data_type_def point_to_def get_create_function_def Let_def)
qed

text \<open>A service whose plug-in is not found stops the program: the null pointer that is left in place of its
  creating function is called.\<close>

theorem missing_service:
  assumes "omap_find (m_plugin_map (ps_plugins ps)) name = None" and "omap_find (m_plugin_map (ps_plugins ps)) [] = None"
    and "find_plugin_file env name (ps_plugins ps) = None" and "dlopen env (absolute_path env []) = None"
    and "dlsym env None PION_PLUGIN_CREATE = None"
  shows "load_service env invoke resource name ps = Inl (Manager_fault (Plugin_fault Null_call))"
proof -
  have "\<exists>st'. plugin_open env h name (new_plugin h st) = Inr st' \<and> get_create_function h st' = Inr None"
    if "st = ps_plugins ps \<or> st = print_line s (ps_plugins ps)" for h st s
    using that assms by (intro open_missing) (auto simp: find_plugin_file_print)
  then have "\<exists>st'. plugin_open env h name (new_plugin h (if b then print_line s (ps_plugins ps) else ps_plugins ps)) = Inr st' \<and>
      get_create_function h st' = Inr None" for h b s
    by (cases b) auto
  then show ?thesis
    unfolding load_service_def plugins_load_def Let_def
    by (smt (verit) case_prod_conv ptr_create_def option.case(1) sum.case)
qed

text \<open>The search by resource finds what the HTTP server would find or nothing, and it can miss a plug-in that is
  bound to a parent path.\<close>

lemma plugin_find_loop_sound:
  "plugin_find_loop r es = Some ob \<Longrightarrow> \<exists>k h. List.find (\<lambda>e. resource_matches r (fst e)) es = Some (k, ob, h)"
proof (induction es)
  case (Cons e es)
  show ?case
  proof (cases "take (length (fst e)) r = fst e")
    case True
    define m where "m \<longleftrightarrow> length r = length (fst e) \<or> r ! length (fst e) = CHR ''/''"
    have "resource_matches r (fst e) = m" using True by (simp add: resource_matches_def m_def)
    moreover have "plugin_find_loop r (e # es) = (if m then Some (fst (snd e)) else plugin_find_loop r es)"
      unfolding plugin_find_loop.simps(2) [of r e es] using True by (simp add: m_def del: plugin_find_loop.simps)
    ultimately show ?thesis using Cons by (cases e; cases m) (simp_all del: plugin_find_loop.simps)
  next
    case False
    then have "\<not> resource_matches r (fst e)" by (auto simp: resource_matches_def)
    moreover have "plugin_find_loop r (e # es) = None \<or> plugin_find_loop r (e # es) = plugin_find_loop r es"
      unfolding plugin_find_loop.simps(2) [of r e es] using False by (cases es) (simp_all del: plugin_find_loop.simps)
    then have "plugin_find_loop r es = Some ob" using Cons.prems by (simp del: plugin_find_loop.simps)
    ultimately show ?thesis using Cons.IH by simp
  qed
qed simp

theorem plugin_find_incomplete:
  assumes "omap_ok (pm_plugin_map pm)"
  shows "(plugins_find resource pm = Some ob \<longrightarrow>
      (\<exists>k h. search_resource (pm_plugin_map pm) resource = Some (k, ob, h))) \<and>
    search_resource [(''/a'', 1, 0), (''/a-b'', 2, 1), (''/a-c'', 3, 2)] ''/a/x'' = Some (''/a'', 1::nat, 0::nat) \<and>
    plugins_find ''/a/x'' \<lparr>pm_plugin_map = [(''/a'', 1, 0), (''/a-b'', 2, 1), (''/a-c'', 3, 2)], pm_next_handle = 3\<rparr> = None"
proof (intro conjI impI)
  show "\<exists>k h. search_resource (pm_plugin_map pm) resource = Some (k, ob, h)" if "plugins_find resource pm = Some ob"
    using that plugin_find_loop_sound [of resource] by (simp add: plugins_find_def search_resource_def search_down_def split: if_splits)
qed code_simp+

section \<open>Witnesses\<close>

text \<open>The system of the theory \<open>Plugin_Props\<close> with the plug-in library \<^verbatim>\<open>Echo.so\<close> and one configuration file.\<close>

definition config_env_example :: "(unit, unit) config_env" where
  "config_env_example = \<lparr>ce_plugin = echo_env,
     ce_environment = \<lparr>env_crypto = None, env_distrib = (\<lambda>g. (0, g)), env_now = 0\<rparr>, ce_seed = (),
     ce_invoke = (\<lambda>ob request tcp_conn w. Returns request tcp_conn w)\<rparr>"

definition empty_server :: "(unit, unit) plugin_server" where
  "empty_server = new_plugin_server create_plugin_config 0"

definition config_example :: "directive list" where
  "config_example = [Comment '' services'', Service ''/echo'' ''Echo'', Auth ''basic'', Restrict ''/echo'', User ''u'' ''p'']"

definition config_files :: "string \<Rightarrow> string option" where
  "config_files f = (if f = ''web.conf'' then Some (concat (map config_line config_example)) else None)"

lemma example_ok: "list_all directive_ok config_example"
  by (simp add: config_example_def good_word_def good_value_def)

lemma example_found: "find_config_file (ce_plugin config_env_example) ''web'' (ps_plugins empty_server) = Some ''web.conf''"
  by (simp add: find_config_file_def find_file_def check_for_file_def config_env_example_def echo_env_def PION_CONFIG_EXTENSION_def)

theorem config_executes_witness:
  "load_service_config config_env_example config_files ''web'' empty_server =
    (case directives_exec config_env_example config_example (No_auth, empty_server) of
       Inl f \<Rightarrow> Inl f
     | Inr (auth, ps') \<Rightarrow> Inr (ps'\<lparr>ps_http := set_authentication auth (ps_http ps')\<rparr>))"
  by (rule config_executes [OF example_found _ example_ok]) (simp add: config_files_def)

text \<open>After the word \<^verbatim>\<open>restrct\<close> nothing is restricted.\<close>

definition bad_config_files :: "string \<Rightarrow> string option" where
  "bad_config_files f = (if f = ''web.conf'' then Some (concat (map config_line [Auth ''basic'']) @ ''restrct'' @ SP #
     (''/echo'' @ [LF] @ ''user u p'' @ [LF])) else None)"

theorem config_bad_command_witness:
  "\<exists>ps''. load_service_config config_env_example bad_config_files ''web'' empty_server =
     Inr (ps''\<lparr>ps_http := set_authentication (Basic_auth (new_basic_auth new_user_manager ''PION'' 0)) (ps_http ps'')\<rparr>) \<and>
    same_but_output empty_server ps''"
proof -
  have w: "list_all is_lower ''restrct''" "''restrct'' \<noteq> []" by (simp_all add: is_lower_def byte_val_def)
  have c: "\<forall>c \<in> set config_commands. \<not> prefix ''restrct'' c" by (simp add: config_commands_def)
  have e: "directives_exec config_env_example [Auth ''basic''] (No_auth, empty_server) =
    Inr (Basic_auth (new_basic_auth new_user_manager ''PION'' 0), empty_server)"
    by (simp add: config_env_example_def)
  have f: "bad_config_files ''web.conf'' = Some (concat (map config_line [Auth ''basic'']) @ ''restrct'' @ SP #
     (''/echo'' @ [LF] @ ''user u p'' @ [LF]))"
    by (simp only: bad_config_files_def simp_thms if_True)
  have "list_all directive_ok [Auth ''basic'']" by simp
  from config_bad_command [where contents = bad_config_files and word = "''restrct''" and behind = "''/echo'' @ [LF] @ ''user u p'' @ [LF]"
      and ds = "[Auth ''basic'']", OF example_found f this w c e] show ?thesis .
qed

theorem service_reachable_witness:
  "\<exists>ps' ob. load_service echo_env (ce_invoke config_env_example) ''/echo/'' ''Echo'' empty_server = Inr ps' \<and>
    plugins_get ''/echo'' (m_services ps') = Some ob \<and>
    find_request_handler ''/echo'' (ps_http ps') = Some (ce_invoke config_env_example ob) \<and> service_resource ob (ps_calls ps') = ''/echo''"
proof -
  have s: "strip_trailing_slash ''/echo/'' = ''/echo''" "strip_trailing_slash ''/echo'' = ''/echo''"
    by (simp_all add: strip_trailing_slash_def)
  have "case load_service echo_env (ce_invoke config_env_example) ''/echo/'' ''Echo'' empty_server of Inr _ \<Rightarrow> True | Inl _ \<Rightarrow> False"
    by code_simp
  then obtain ps' where l: "load_service echo_env (ce_invoke config_env_example) ''/echo/'' ''Echo'' empty_server = Inr ps'"
    by (auto split: sum.splits)
  have "omap_ok (m_resources (ps_http empty_server))" "omap_ok (pm_plugin_map (m_services empty_server))"
    "omap_find (m_resources (ps_http empty_server)) ''/echo'' = None" "plugins_get ''/echo'' (m_services empty_server) = None"
    by (simp_all add: empty_server_def new_plugin_server_def new_http_server_def new_plugin_manager_def plugins_get_def)
  from service_reachable [OF this(1,2) s(1) [symmetric] s(2) this(3,4) l] l show ?thesis by blast
qed

theorem missing_service_witness:
  "load_service echo_env (ce_invoke config_env_example) ''/x'' ''Nothing'' empty_server = Inl (Manager_fault (Plugin_fault Null_call))"
  by (rule missing_service)
    (simp_all add: empty_server_def new_plugin_server_def create_plugin_config_def echo_env_def find_plugin_file_def find_file_def
      check_for_file_def PION_PLUGIN_EXTENSION_def)

theorem plugin_find_incomplete_witness:
  "plugins_find ''/a/x'' \<lparr>pm_plugin_map = [(''/a'', 1, 0), (''/a-b'', 2, 1), (''/a-c'', 3, 2)], pm_next_handle = 3\<rparr> = None"
  using plugin_find_incomplete [of "new_plugin_manager 0"] by (simp add: new_plugin_manager_def)

end
