(* ===== verification/Http_Date.thy ===== *)
theory Http_Date
  imports Http_Message
begin

text \<open>
  \<^verbatim>\<open>http::types::get_date_string\<close> (\<^verbatim>\<open>src/http_types.cpp\<close>): \<^verbatim>\<open>gmtime\<close> and \<^verbatim>\<open>strftime\<close> with the format
  of HTTP dates. A \<^verbatim>\<open>time_t\<close> is the number of seconds since 1970 and an \<^typ>\<open>int\<close>; times whose year
  does not fit into a C \<^verbatim>\<open>int\<close> are not reached by a clock or a file.
\<close>

section \<open>The calendar\<close>

definition leap_year :: "int \<Rightarrow> bool" where
  "leap_year y = (y mod 4 = 0 \<and> (y mod 100 \<noteq> 0 \<or> y mod 400 = 0))"

definition year_days :: "int \<Rightarrow> int" where
  "year_days y = (if leap_year y then 366 else 365)"

definition month_days :: "int \<Rightarrow> int list" where
  "month_days y = [31, if leap_year y then 29 else 28, 31, 30, 31, 30, 31, 31, 30, 31, 30, 31]"

text \<open>From a day counted from the first of January of a year to the year of that day and the day within it.\<close>

function year_and_day :: "int \<Rightarrow> int \<Rightarrow> int \<times> int" where
  "year_and_day y d =
     (if d < 0 then year_and_day (y - 1) (d + year_days (y - 1))
      else if d < year_days y then (y, d)
      else year_and_day (y + 1) (d - year_days y))"
  by pat_completeness auto
termination
  by (relation "measure (\<lambda>(_, d). if d < 0 then nat (366 - d) else nat d)") (auto simp: year_days_def split: if_splits)

declare year_and_day.simps [simp del]

fun month_and_day :: "nat \<Rightarrow> int list \<Rightarrow> int \<Rightarrow> nat \<times> int" where
  "month_and_day k [] d = (k, d)"
| "month_and_day k (n # ns) d = (if d < n then (k, d) else month_and_day (Suc k) ns (d - n))"

record tm =
  tm_sec :: int
  tm_min :: int
  tm_hour :: int
  tm_mday :: int
  tm_mon :: nat
  tm_year :: int
  tm_wday :: nat

definition gmtime :: "int \<Rightarrow> tm" where
  "gmtime t =
     (let days = t div 86400; secs = t mod 86400;
          (year, yday) = year_and_day 1970 days;
          (mon, mday) = month_and_day 0 (month_days year) yday
      in \<lparr> tm_sec = secs mod 60, tm_min = secs div 60 mod 60, tm_hour = secs div 3600,
           tm_mday = mday + 1, tm_mon = mon, tm_year = year, tm_wday = nat ((days + 4) mod 7) \<rparr>)"

section \<open>The text\<close>

definition day_names :: "string list" where
  "day_names = [''Sun'', ''Mon'', ''Tue'', ''Wed'', ''Thu'', ''Fri'', ''Sat'']"

definition month_names :: "string list" where
  "month_names = [''Jan'', ''Feb'', ''Mar'', ''Apr'', ''May'', ''Jun'', ''Jul'', ''Aug'', ''Sep'', ''Oct'', ''Nov'', ''Dec'']"

text \<open>Two digits, and a year as \<^verbatim>\<open>%Y\<close> prints it.\<close>

definition two_digits :: "int \<Rightarrow> string" where
  "two_digits n = (let s = to_string (nat n) in if length s < 2 then CHR ''0'' # s else s)"

definition year_text :: "int \<Rightarrow> string" where
  "year_text y = (if y < 0 then CHR ''-'' # to_string (nat (- y)) else to_string (nat y))"

definition get_date_string :: "int \<Rightarrow> string" where
  "get_date_string t =
     (let d = gmtime t in
      day_names ! tm_wday d @ '', '' @ two_digits (tm_mday d) @ '' '' @ month_names ! tm_mon d @ '' '' @
      year_text (tm_year d) @ '' '' @ two_digits (tm_hour d) @ '':'' @ two_digits (tm_min d) @ '':'' @
      two_digits (tm_sec d) @ '' GMT'')"

section \<open>The way back\<close>

text \<open>The days before a year, counted from 1970, and the time of a broken-down date.\<close>

function days_before :: "int \<Rightarrow> int" where
  "days_before y =
     (if y = 1970 then 0 else if 1970 < y then days_before (y - 1) + year_days (y - 1)
      else days_before (y + 1) - year_days y)"
  by pat_completeness auto
termination by (relation "measure (\<lambda>y. nat \<bar>y - 1970\<bar>)") auto

declare days_before.simps [simp del]

lemma days_before_1970: "days_before 1970 = 0"
  by (subst days_before.simps) simp

lemma days_before_next: "days_before (y + 1) = days_before y + year_days y"
  using days_before.simps [of "y + 1"] days_before.simps [of y] by (cases "1970 \<le> y") auto

lemma year_and_day_back:
  "year_and_day y d = (y', d') \<Longrightarrow> days_before y' + d' = days_before y + d \<and> 0 \<le> d' \<and> d' < year_days y'"
proof (induction y d rule: year_and_day.induct)
  case (1 y d)
  consider (down) "d < 0" | (here) "0 \<le> d" "d < year_days y" | (up) "0 \<le> d" "\<not> d < year_days y" by linarith
  then show ?case
  proof cases
    case down
    then have "year_and_day (y - 1) (d + year_days (y - 1)) = (y', d')"
      using "1.prems" year_and_day.simps [of y d] by simp
    from "1.IH"(1) [OF down this] show ?thesis using days_before_next [of "y - 1"] by simp
  next
    case here
    then show ?thesis using "1.prems" year_and_day.simps [of y d] by simp
  next
    case up
    then have "year_and_day (y + 1) (d - year_days y) = (y', d')"
      using "1.prems" year_and_day.simps [of y d] by simp
    moreover have "\<not> d < 0" using up by simp
    ultimately show ?thesis using "1.IH"(2) up days_before_next [of y] by simp
  qed
qed

definition timegm :: "tm \<Rightarrow> int" where
  "timegm d = (days_before (tm_year d) + sum_list (take (tm_mon d) (month_days (tm_year d))) + (tm_mday d - 1)) * 86400 +
     tm_hour d * 3600 + tm_min d * 60 + tm_sec d"

lemma month_and_day_back:
  "0 \<le> d \<Longrightarrow> d < sum_list ns \<Longrightarrow>
     \<exists>j d'. month_and_day k ns d = (k + j, d') \<and> j < length ns \<and> sum_list (take j ns) + d' = d \<and> 0 \<le> d' \<and> d' < ns ! j"
proof (induction ns arbitrary: k d)
  case (Cons n ns)
  show ?case
  proof (cases "d < n")
    case True
    then have "month_and_day k (n # ns) d = (k + 0, d) \<and> 0 < length (n # ns) \<and> sum_list (take 0 (n # ns)) + d = d \<and>
        0 \<le> d \<and> d < (n # ns) ! 0"
      using Cons.prems by simp
    then show ?thesis by blast
  next
    case False
    then obtain j d' where "month_and_day (Suc k) ns (d - n) = (Suc k + j, d')" "j < length ns"
        "sum_list (take j ns) + d' = d - n" "0 \<le> d'" "d' < ns ! j"
      using Cons.IH [of "d - n" "Suc k"] Cons.prems by auto
    then have "month_and_day k (n # ns) d = (k + Suc j, d') \<and> Suc j < length (n # ns) \<and>
        sum_list (take (Suc j) (n # ns)) + d' = d \<and> 0 \<le> d' \<and> d' < (n # ns) ! Suc j"
      using False by simp
    then show ?thesis by blast
  qed
qed simp

lemma month_days_sum: "sum_list (month_days y) = year_days y" "length (month_days y) = 12"
  by (simp_all add: month_days_def year_days_def)

lemma gmtime_ranges:
  shows "timegm (gmtime t) = t" and "tm_mon (gmtime t) < 12" and "1 \<le> tm_mday (gmtime t)" "tm_mday (gmtime t) \<le> 31"
    and "0 \<le> tm_hour (gmtime t)" "tm_hour (gmtime t) < 24" "0 \<le> tm_min (gmtime t)" "tm_min (gmtime t) < 60"
    and "0 \<le> tm_sec (gmtime t)" "tm_sec (gmtime t) < 60" and "tm_wday (gmtime t) < 7"
proof -
  obtain y yd where y: "year_and_day 1970 (t div 86400) = (y, yd)" by fastforce
  obtain m md where m: "month_and_day 0 (month_days y) yd = (m, md)" by fastforce
  have yb: "days_before y + yd = t div 86400" "0 \<le> yd" "yd < year_days y"
    using year_and_day_back [OF y] days_before_1970 by simp_all
  have mb: "m < 12" "sum_list (take m (month_days y)) + md = yd" "0 \<le> md" "md < month_days y ! m"
    using month_and_day_back [of yd "month_days y" 0] yb m by (auto simp: month_days_sum)
  have "\<forall>x \<in> set (month_days y). x \<le> 31" by (simp add: month_days_def)
  then have "month_days y ! m \<le> 31" using mb(1) month_days_sum(2) by (metis nth_mem)
  then have d: "md \<le> 30" using mb(4) by simp
  have g: "gmtime t = \<lparr> tm_sec = t mod 86400 mod 60, tm_min = t mod 86400 div 60 mod 60, tm_hour = t mod 86400 div 3600,
      tm_mday = md + 1, tm_mon = m, tm_year = y, tm_wday = nat ((t div 86400 + 4) mod 7) \<rparr>"
    using y m by (simp add: gmtime_def Let_def)
  have "r div 3600 * 3600 + r div 60 mod 60 * 60 + r mod 60 = r" for r :: int
  proof -
    have "r div 3600 = r div 60 div 60" using zdiv_zmult2_eq [of 60 r 60] by simp
    then show ?thesis using div_mult_mod_eq [of "r div 60" 60] div_mult_mod_eq [of r 60] by linarith
  qed
  from this [of "t mod 86400"]
  have "t mod 86400 div 3600 * 3600 + t mod 86400 div 60 mod 60 * 60 + t mod 86400 mod 60 = t mod 86400" .
  then have s: "(t div 86400) * 86400 + (t mod 86400 div 3600 * 3600 + t mod 86400 div 60 mod 60 * 60 + t mod 86400 mod 60) = t"
    by simp
  have "days_before y + sum_list (take m (month_days y)) + md = t div 86400" using yb(1) mb(2) by simp
  then show "timegm (gmtime t) = t" using s by (simp add: timegm_def g algebra_simps)
  show "tm_mon (gmtime t) < 12" "1 \<le> tm_mday (gmtime t)" "tm_mday (gmtime t) \<le> 31"
    using mb d by (simp_all add: g)
  show "0 \<le> tm_hour (gmtime t)" "tm_hour (gmtime t) < 24" "0 \<le> tm_min (gmtime t)" "tm_min (gmtime t) < 60"
      "0 \<le> tm_sec (gmtime t)" "tm_sec (gmtime t) < 60"
    unfolding g tm.simps by (simp_all add: div_less_iff_less_mult pos_imp_zdiv_nonneg_iff)
  show "tm_wday (gmtime t) < 7" unfolding g tm.simps by simp
qed

section \<open>Different times have different texts\<close>

lemma to_string_inj: "to_string m = to_string n \<Longrightarrow> m = n"
  by (metis digits_value_to_string)

lemma year_text_inj:
  assumes "year_text y = year_text z" shows "y = z"
proof -
  have d: "to_string n = CHR ''-'' # s \<Longrightarrow> False" for n s
  proof -
    assume "to_string n = CHR ''-'' # s"
    then obtain d where "d \<in> set (to_base 10 n)" and e: "lower_digit d = CHR ''-''"
      by (force simp: to_string_def map_eq_Cons_conv)
    then have "d < 16" using to_base_digits [of 10 n] by fastforce
    moreover have "digit_value CHR ''-'' = None" by code_simp
    ultimately show False using digit_value_lower [of d] e by simp
  qed
  show ?thesis
    using assms d [of "nat y"] d [of "nat z"]
    by (auto simp: year_text_def split: if_splits dest!: to_string_inj) (metis d)+
qed

lemma length_to_base: "n < 10 \<Longrightarrow> length (to_base 10 n) = 1" "10 \<le> n \<Longrightarrow> n < 100 \<Longrightarrow> length (to_base 10 n) = 2"
  by (subst to_base.simps; subst to_base.simps; auto)+

lemma two_digits_length: "0 \<le> n \<Longrightarrow> n < 100 \<Longrightarrow> length (two_digits n) = 2"
  using length_to_base [of "nat n"] by (cases "n < 10") (auto simp: two_digits_def to_string_def Let_def)

lemma two_digits_inj:
  assumes "0 \<le> m" "m < 100" "0 \<le> n" "n < 100" and "two_digits m = two_digits n" shows "m = n"
proof -
  have zero: "digit_value CHR ''0'' = Some 0" by code_simp
  have v: "digits_value 10 (two_digits k) = nat k" for k
    using digits_value_to_string [of "nat k"] zero
    by (simp add: two_digits_def Let_def digits_value_def)
  then have "nat m = nat n" using assms(5) by metis
  then show ?thesis using assms by simp
qed

lemma append3_cancel:
  assumes "xs @ ys @ zs = xs' @ ys' @ zs'" and "length xs = length xs'" and "length zs = length zs'"
  shows "xs = xs' \<and> ys = ys' \<and> zs = zs'"
  using assms by simp

lemma tm_eqI:
  assumes "tm_sec a = tm_sec b" "tm_min a = tm_min b" "tm_hour a = tm_hour b" "tm_mday a = tm_mday b"
    and "tm_mon a = tm_mon b" "tm_year a = tm_year b"
  shows "timegm a = timegm b"
  using assms by (simp add: timegm_def)

text \<open>
  The file service and its clients compare the texts of dates instead of the times; the texts are equal
  exactly when the times are.
\<close>

lemma get_date_string_inj:
  assumes "get_date_string s = get_date_string t"
  shows "s = t"
proof -
  let ?a = "gmtime s" and ?b = "gmtime t"
  have dn: "length (day_names ! tm_wday (gmtime x)) = 3" for x
    using gmtime_ranges(11) [of x] by (auto simp: day_names_def less_Suc_eq numeral_eq_Suc)
  have mn: "length (month_names ! tm_mon (gmtime x)) = 3" for x
    using gmtime_ranges(2) [of x] by (auto simp: month_names_def less_Suc_eq numeral_eq_Suc)
  have tl: "length (two_digits (tm_mday (gmtime x))) = 2" "length (two_digits (tm_hour (gmtime x))) = 2"
      "length (two_digits (tm_min (gmtime x))) = 2" "length (two_digits (tm_sec (gmtime x))) = 2" for x
    using gmtime_ranges [of x] by (simp_all add: two_digits_length)
  let ?P = "\<lambda>d. day_names ! tm_wday d @ '', '' @ two_digits (tm_mday d) @ '' '' @ month_names ! tm_mon d @ '' ''"
  let ?S = "\<lambda>d. '' '' @ two_digits (tm_hour d) @ '':'' @ two_digits (tm_min d) @ '':'' @ two_digits (tm_sec d) @ '' GMT''"
  have e: "?P ?a @ year_text (tm_year ?a) @ ?S ?a = ?P ?b @ year_text (tm_year ?b) @ ?S ?b"
    using assms by (simp add: get_date_string_def Let_def)
  have l: "length (?P ?a) = length (?P ?b)" "length (?S ?a) = length (?S ?b)" by (simp_all add: dn mn tl)
  have parts: "?P ?a = ?P ?b" "year_text (tm_year ?a) = year_text (tm_year ?b)" "?S ?a = ?S ?b"
    using append3_cancel [OF e l] by blast+
  have p: "two_digits (tm_mday ?a) = two_digits (tm_mday ?b)" "month_names ! tm_mon ?a = month_names ! tm_mon ?b"
    using parts(1) dn [of s] dn [of t] mn [of s] mn [of t] tl(1) [of s] tl(1) [of t] by simp_all
  have q: "two_digits (tm_hour ?a) = two_digits (tm_hour ?b)" "two_digits (tm_min ?a) = two_digits (tm_min ?b)"
      "two_digits (tm_sec ?a) = two_digits (tm_sec ?b)"
    using parts(3) tl [of s] tl [of t] by simp_all
  have "distinct month_names" by (simp add: month_names_def)
  then have mon: "tm_mon ?a = tm_mon ?b"
    using p(2) gmtime_ranges(2) [of s] gmtime_ranges(2) [of t] by (simp add: nth_eq_iff_index_eq month_names_def)
  have "tm_mday ?a = tm_mday ?b" "tm_hour ?a = tm_hour ?b" "tm_min ?a = tm_min ?b" "tm_sec ?a = tm_sec ?b"
    using two_digits_inj [OF _ _ _ _ p(1)] two_digits_inj [OF _ _ _ _ q(1)] two_digits_inj [OF _ _ _ _ q(2)]
      two_digits_inj [OF _ _ _ _ q(3)] gmtime_ranges [of s] gmtime_ranges [of t] by simp_all
  then have "timegm ?a = timegm ?b" using mon year_text_inj [OF parts(2)] by (intro tm_eqI)
  then show ?thesis by (simp add: gmtime_ranges(1))
qed

end
