(* ===== verification/File_Service.thy ===== *)
theory File_Service
  imports Plugin_Server Http_Date
begin

text \<open>
  The file service (\<^verbatim>\<open>services/FileService.cpp\<close>, \<^verbatim>\<open>services/FileService.hpp\<close>). The file system is a
  record of functions on its state \<open>'f\<close>; \<^const>\<open>Inl\<close> is the text of the exception that a call throws.
  A stream of the standard library reads through \<open>fs_read\<close>: the bytes from a position on, at most as
  many as asked for, and fewer is a failed read. \<open>fs_store\<close> is the open, write and close of an output
  stream, which fails silently.

  The content of a file in memory is a list of cells, \<^const>\<open>None\<close> where nothing was written since
  \<^verbatim>\<open>new char[n]\<close>. Sending such a cell and reading behind the cells are the values of \<open>file_fault\<close>.
  A sender lives until its last write completes, so the handler leaves it in the state of the service.
  Log messages and printed lines are left out; the mutex makes the use of the cache atomic.
\<close>

datatype file_fault = Uninitialised | Read_behind | Buffer_too_small | Assertion

datatype open_mode = Mode_app | Mode_out

record 'f file_ops =
  fs_exists :: "'f \<Rightarrow> string \<Rightarrow> string + bool"
  fs_is_directory :: "'f \<Rightarrow> string \<Rightarrow> string + bool"
  fs_file_size :: "'f \<Rightarrow> string \<Rightarrow> string + nat"
  fs_last_write_time :: "'f \<Rightarrow> string \<Rightarrow> string + int"
  fs_can_open :: "'f \<Rightarrow> string \<Rightarrow> bool"
  fs_read :: "'f \<Rightarrow> string \<Rightarrow> nat \<Rightarrow> nat \<Rightarrow> string"
  fs_store :: "open_mode \<Rightarrow> string \<Rightarrow> string \<Rightarrow> 'f \<Rightarrow> 'f"
  fs_remove :: "string \<Rightarrow> 'f \<Rightarrow> string + 'f"
  fs_entries :: "'f \<Rightarrow> string \<Rightarrow> string + string list"

text \<open>The overloads with an error code do not throw.\<close>

definition holds_quietly :: "string + bool \<Rightarrow> bool" where
  "holds_quietly r = (case r of Inl _ \<Rightarrow> False | Inr b \<Rightarrow> b)"

text \<open>\<^verbatim>\<open>path::parent_path\<close>\<close>

definition path_parent :: "string \<Rightarrow> string" where
  "path_parent p =
     (let d = take (length p - length (path_filename p)) p;
          e = rev (dropWhile (\<lambda>c. c = CHR ''/'') (rev d))
      in if e = [] then d else e)"

section \<open>Files\<close>

record disk_file =
  m_file_path :: string
  m_file_content :: "char option list option"
  m_file_size :: nat
  m_last_modified :: int
  m_last_modified_string :: string
  m_mime_type :: string

definition new_disk_file :: disk_file where
  "new_disk_file =
     \<lparr> m_file_path = [], m_file_content = None, m_file_size = 0, m_last_modified = 0,
       m_last_modified_string = [], m_mime_type = [] \<rparr>"

definition make_disk_file :: "string \<Rightarrow> nat \<Rightarrow> int \<Rightarrow> string \<Rightarrow> disk_file" where
  "make_disk_file fpath n modified mime =
     \<lparr> m_file_path = fpath, m_file_content = None, m_file_size = n, m_last_modified = modified,
       m_last_modified_string = [], m_mime_type = mime \<rparr>"

definition hasFileContent :: "disk_file \<Rightarrow> bool" where
  "hasFileContent d = (m_file_content d \<noteq> None)"

text \<open>\<^verbatim>\<open>resetFileContent\<close> with its default argument.\<close>

definition resetFileContent :: "disk_file \<Rightarrow> disk_file" where
  "resetFileContent d = d\<lparr>m_file_content := None\<rparr>"

text \<open>\<^verbatim>\<open>update\<close> has set the size when reading the time throws.\<close>

definition disk_update :: "'f file_ops \<Rightarrow> 'f \<Rightarrow> disk_file \<Rightarrow> string option \<times> disk_file" where
  "disk_update ops f d =
     (case fs_file_size ops f (m_file_path d) of
        Inl what \<Rightarrow> (Some what, d)
      | Inr cur_size \<Rightarrow>
          (let d = d\<lparr>m_file_size := cur_size\<rparr>
           in case fs_last_write_time ops f (m_file_path d) of
                Inl what \<Rightarrow> (Some what, d)
              | Inr modified \<Rightarrow>
                  (None, d\<lparr>m_last_modified := modified, m_last_modified_string := get_date_string modified\<rparr>)))"

text \<open>\<^verbatim>\<open>read\<close> keeps the new buffer when the file could not be opened or was too short.\<close>

definition disk_read :: "'f file_ops \<Rightarrow> 'f \<Rightarrow> disk_file \<Rightarrow> disk_file" where
  "disk_read ops f d =
     (let n = m_file_size d;
          got = (if fs_can_open ops f (m_file_path d) then take n (fs_read ops f (m_file_path d) 0 n) else [])
      in d\<lparr>m_file_content := Some (map Some got @ replicate (n - length got) None)\<rparr>)"

definition checkUpdated :: "'f file_ops \<Rightarrow> 'f \<Rightarrow> disk_file \<Rightarrow> string + bool \<times> disk_file" where
  "checkUpdated ops f d =
     (case fs_file_size ops f (m_file_path d) of
        Inl what \<Rightarrow> Inl what
      | Inr cur_size \<Rightarrow>
          (case fs_last_write_time ops f (m_file_path d) of
             Inl what \<Rightarrow> Inl what
           | Inr cur_modified \<Rightarrow>
               if cur_modified = m_last_modified d \<and> cur_size = m_file_size d then Inr (False, d)
               else Inr (True, disk_read ops f (d\<lparr>m_file_size := cur_size, m_last_modified := cur_modified,
                           m_last_modified_string := get_date_string cur_modified\<rparr>))))"

section \<open>MIME types\<close>

definition DEFAULT_MIME_TYPE :: string where "DEFAULT_MIME_TYPE = ''application/octet-stream''"

definition createMIMETypes :: "(string \<times> string) list" where
  "createMIMETypes =
     [(''js'', ''text/javascript''), (''txt'', ''text/plain''), (''xml'', ''text/xml''), (''css'', ''text/css''),
      (''htm'', ''text/html''), (''html'', ''text/html''), (''xhtml'', ''text/html''), (''gif'', ''image/gif''),
      (''png'', ''image/png''), (''jpg'', ''image/jpeg''), (''jpeg'', ''image/jpeg''), (''svg'', ''image/svg+xml''),
      (''eof'', ''application/vnd.ms-fontobject''), (''otf'', ''application/x-font-opentype''),
      (''ttf'', ''application/x-font-ttf''), (''woff'', ''application/font-woff'')]"

text \<open>\<^verbatim>\<open>substr(find_last_of('.') + 1)\<close> is the whole name when there is no period.\<close>

definition findMIMEType :: "string \<Rightarrow> string" where
  "findMIMEType file_name =
     (let extension = to_lower (rev (takeWhile (\<lambda>c. c \<noteq> CHR ''.'') (rev file_name)))
      in case map_of createMIMETypes extension of None \<Rightarrow> DEFAULT_MIME_TYPE | Some t \<Rightarrow> t)"

section \<open>Sending a file\<close>

text \<open>\<open>ds_pending\<close> is the handler of the write in progress: the one of the writer, which finishes the
  connection, or \<^verbatim>\<open>handle_write\<close>. The open stream is its position.\<close>

datatype pending_handler = Writer_handler | Sender_handler

record disk_file_sender =
  m_disk_file :: disk_file
  ds_writer :: writer
  m_file_stream :: "nat option"
  m_content_buf :: "nat option"
  ds_max_chunk_size :: nat
  m_file_bytes_to_send :: nat
  m_bytes_sent :: nat
  ds_pending :: "pending_handler option"

definition new_disk_file_sender :: "disk_file \<Rightarrow> http_message \<Rightarrow> connection \<Rightarrow> nat \<Rightarrow> disk_file_sender" where
  "new_disk_file_sender disk request tcp_conn max_chunk_size =
     \<lparr> m_disk_file = disk,
       ds_writer = edit_response
         (set_status_message RESPONSE_MESSAGE_OK \<circ> set_status_code RESPONSE_CODE_OK \<circ>
          add_header HEADER_LAST_MODIFIED (m_last_modified_string disk) \<circ> set_content_type (m_mime_type disk))
         (response_writer_for tcp_conn request),
       m_file_stream = None, m_content_buf = None, ds_max_chunk_size = max_chunk_size,
       m_file_bytes_to_send = 0, m_bytes_sent = 0, ds_pending = None \<rparr>"

text \<open>
  A write operation of the writer. When the connection is closed, the writer reports the error at once to
  its finished handler, which finishes the connection, and no write is in progress.
\<close>

definition start_write :: "(writer \<Rightarrow> writer) \<Rightarrow> pending_handler \<Rightarrow> disk_file_sender \<Rightarrow> disk_file_sender" where
  "start_write op handler s =
     (let w = op (ds_writer s);
          calls = length (m_finished_log w) - length (m_finished_log (ds_writer s))
      in s\<lparr>ds_writer := w\<lparr>m_tcp_conn := (finish_connection ^^ calls) (m_tcp_conn w)\<rparr>,
           ds_pending := (if calls = 0 then Some handler else None)\<rparr>)"

text \<open>The bytes of the cached content from the position on, as many as are to be sent.\<close>

definition cached_bytes :: "char option list \<Rightarrow> nat \<Rightarrow> nat \<Rightarrow> file_fault + string" where
  "cached_bytes cells pos n =
     (if length cells < pos + n then Inl Read_behind
      else if None \<in> set (take n (drop pos cells)) then Inl Uninitialised
      else Inr (map the (take n (drop pos cells))))"

text \<open>
  The bytes to send, or \<^const>\<open>None\<close> where \<^verbatim>\<open>send\<close> logs an error and returns.
\<close>

definition get_file_bytes :: "'f file_ops \<Rightarrow> 'f \<Rightarrow> disk_file_sender \<Rightarrow> file_fault + (string option \<times> disk_file_sender)" where
  "get_file_bytes ops f s =
     (case m_file_content (m_disk_file s) of
        Some cells \<Rightarrow>
          (case cached_bytes cells (m_bytes_sent s) (m_file_bytes_to_send s) of
             Inl e \<Rightarrow> Inl e
           | Inr d \<Rightarrow> Inr (Some d, s))
      | None \<Rightarrow>
          if m_file_stream s = None \<and> \<not> fs_can_open ops f (m_file_path (m_disk_file s)) then Inr (None, s)
          else
            (let pos = (case m_file_stream s of None \<Rightarrow> 0 | Some p \<Rightarrow> p);
                 n = m_file_bytes_to_send s;
                 buf_size = (case m_content_buf s of None \<Rightarrow> n | Some k \<Rightarrow> k);
                 got = take n (fs_read ops f (m_file_path (m_disk_file s)) pos n);
                 s = s\<lparr>m_file_stream := Some (pos + length got), m_content_buf := Some buf_size\<rparr>
             in if buf_size < n then Inl Buffer_too_small
                else if length got < n then Inr (None, s) else Inr (Some got, s)))"

definition sender_send :: "'f file_ops \<Rightarrow> 'f \<Rightarrow> disk_file_sender \<Rightarrow> file_fault + disk_file_sender" where
  "sender_send ops f s =
     (if m_file_size (m_disk_file s) \<le> m_bytes_sent s then Inr (start_write send Writer_handler s)
      else
        (let left = m_file_size (m_disk_file s) - m_bytes_sent s;
             s = s\<lparr>m_file_bytes_to_send :=
                     (if 0 < ds_max_chunk_size s \<and> ds_max_chunk_size s < left then ds_max_chunk_size s else left),
                   ds_pending := None\<rparr>
         in case get_file_bytes ops f s of
              Inl e \<Rightarrow> Inl e
            | Inr (None, s) \<Rightarrow> Inr s
            | Inr (Some d, s) \<Rightarrow>
                (let s = s\<lparr>ds_writer := write_no_copy d (ds_writer s)\<rparr>
                 in Inr (if m_file_size (m_disk_file s) \<le> m_bytes_sent s + m_file_bytes_to_send s then
                           (if 0 < m_bytes_sent s then start_write send_final_chunk Sender_handler s
                            else start_write send Sender_handler s)
                         else start_write send_chunk Sender_handler s))))"

definition finish_sender :: "disk_file_sender \<Rightarrow> disk_file_sender" where
  "finish_sender s =
     s\<lparr>ds_writer := (ds_writer s)\<lparr>m_tcp_conn := finish_connection (m_tcp_conn (ds_writer s))\<rparr>, ds_pending := None\<rparr>"

definition sender_handle_write ::
  "'f file_ops \<Rightarrow> 'f \<Rightarrow> write_error option \<Rightarrow> disk_file_sender \<Rightarrow> file_fault + disk_file_sender" where
  "sender_handle_write ops f write_error s =
     (if write_error \<noteq> None then
        Inr (finish_sender
          (s\<lparr>ds_writer := (ds_writer s)\<lparr>m_tcp_conn := set_lifecycle LIFECYCLE_CLOSE (m_tcp_conn (ds_writer s))\<rparr>\<rparr>))
      else
        (let s = s\<lparr>m_bytes_sent := m_bytes_sent s + m_file_bytes_to_send s\<rparr>
         in if m_file_size (m_disk_file s) \<le> m_bytes_sent s then Inr (finish_sender s)
            else sender_send ops f (s\<lparr>ds_writer := writer_clear (ds_writer s)\<rparr>)))"

text \<open>The completion of the write in progress.\<close>

definition write_completed ::
  "'f file_ops \<Rightarrow> 'f \<Rightarrow> write_error option \<Rightarrow> disk_file_sender \<Rightarrow> file_fault + disk_file_sender" where
  "write_completed ops f ec s =
     (case ds_pending s of
        None \<Rightarrow> Inr s
      | Some Writer_handler \<Rightarrow> Inr (finish_sender (s\<lparr>ds_writer := response_handle_write ec (ds_writer s)\<rparr>))
      | Some Sender_handler \<Rightarrow> sender_handle_write ops f ec s)"

section \<open>The service\<close>

definition DEFAULT_CACHE_SETTING :: nat where "DEFAULT_CACHE_SETTING = 1"
definition DEFAULT_SCAN_SETTING :: nat where "DEFAULT_SCAN_SETTING = 0"
definition DEFAULT_MAX_CACHE_SIZE :: nat where "DEFAULT_MAX_CACHE_SIZE = 0"
definition DEFAULT_MAX_CHUNK_SIZE :: nat where "DEFAULT_MAX_CHUNK_SIZE = 0"

record file_service =
  svc_resource :: string
  m_directory :: string
  m_file :: string
  m_cache_map :: "string \<rightharpoonup> disk_file"
  m_cache_setting :: nat
  m_scan_setting :: nat
  m_max_cache_size :: nat
  m_max_chunk_size :: nat
  m_writable :: bool

definition new_file_service :: "string \<Rightarrow> file_service" where
  "new_file_service resource =
     \<lparr> svc_resource = resource, m_directory = [], m_file = [], m_cache_map = Map.empty,
       m_cache_setting = DEFAULT_CACHE_SETTING, m_scan_setting = DEFAULT_SCAN_SETTING,
       m_max_cache_size = DEFAULT_MAX_CACHE_SIZE, m_max_chunk_size = DEFAULT_MAX_CHUNK_SIZE, m_writable = False \<rparr>"

text \<open>An option that is not understood is printed and ignored; a size that is not a number throws.\<close>

definition set_file_option :: "'f file_ops \<Rightarrow> 'f \<Rightarrow> string \<Rightarrow> string \<Rightarrow> file_service \<Rightarrow> string + file_service" where
  "set_file_option ops f name value s =
     (if name = ''directory'' then
        Inr (s\<lparr>m_directory :=
               (if \<not> holds_quietly (fs_exists ops f value) \<or> \<not> holds_quietly (fs_is_directory ops f value) then [] else value)\<rparr>)
      else if name = ''file'' then
        Inr (s\<lparr>m_file :=
               (if \<not> holds_quietly (fs_exists ops f value) \<or> holds_quietly (fs_is_directory ops f value) then [] else value)\<rparr>)
      else if name = ''cache'' then
        Inr (if value = ''0'' then s\<lparr>m_cache_setting := 0\<rparr>
             else if value = ''1'' then s\<lparr>m_cache_setting := 1\<rparr>
             else if value = ''2'' then s\<lparr>m_cache_setting := 2\<rparr>
             else s)
      else if name = ''scan'' then
        Inr (if value = ''0'' then s\<lparr>m_scan_setting := 0\<rparr>
             else if value = ''1'' then s\<lparr>m_scan_setting := 1\<rparr>
             else if value = ''2'' then s\<lparr>m_scan_setting := 2\<rparr>
             else if value = ''3'' then s\<lparr>m_scan_setting := 3\<rparr>
             else s)
      else if name = ''max_chunk_size'' then
        (case stoul value of None \<Rightarrow> Inl ''stoul'' | Some n \<Rightarrow> Inr (s\<lparr>m_max_chunk_size := n\<rparr>))
      else if name = ''max_cache_size'' then
        (case stoul value of None \<Rightarrow> Inl ''stoul'' | Some n \<Rightarrow> Inr (s\<lparr>m_max_cache_size := n\<rparr>))
      else if name = ''writable'' then
        Inr (if value = ''true'' then s\<lparr>m_writable := True\<rparr>
             else if value = ''false'' then s\<lparr>m_writable := False\<rparr>
             else s)
      else Inr s)"

text \<open>\<^verbatim>\<open>insert\<close> of the cache keeps an entry that is there.\<close>

definition cache_insert :: "string \<Rightarrow> disk_file \<Rightarrow> file_service \<Rightarrow> file_service" where
  "cache_insert fpath d s =
     (if m_cache_map s fpath = None then s\<lparr>m_cache_map := (m_cache_map s)(fpath \<mapsto> d)\<rparr> else s)"

text \<open>\<^verbatim>\<open>addCacheEntry\<close>: the exception of \<^verbatim>\<open>update\<close> is not caught.\<close>

definition addCacheEntry :: "'f file_ops \<Rightarrow> 'f \<Rightarrow> string \<Rightarrow> string \<Rightarrow> bool \<Rightarrow> file_service \<Rightarrow> string + file_service" where
  "addCacheEntry ops f relative_path file_path placeholder s =
     (let cache_entry = make_disk_file file_path 0 0 (findMIMEType (path_filename file_path))
      in if placeholder then Inr (cache_insert relative_path cache_entry s)
         else
           (case disk_update ops f cache_entry of
              (Some what, _) \<Rightarrow> Inl what
            | (None, cache_entry) \<Rightarrow>
                Inr (cache_insert relative_path
                  (if m_max_cache_size s = 0 \<or> m_file_size cache_entry \<le> m_max_cache_size s
                   then disk_read ops f cache_entry else cache_entry) s)))"

text \<open>
  \<^verbatim>\<open>scanDirectory\<close>: the iterators of the directories that are being scanned, with the rest of their
  entries flattened into one list. A subdirectory is scanned before the entries behind it. A cycle of
  links makes the scan run forever, which is \<^const>\<open>None\<close>. The result is the text of an exception, if
  one was thrown, and the service as it is then.
\<close>

definition scan_file :: "'f file_ops \<Rightarrow> 'f \<Rightarrow> string \<Rightarrow> file_service \<Rightarrow> string + file_service" where
  "scan_file ops f fpath s =
     (if length fpath < length (m_directory s) + 1 then Inl ''basic_string::substr''
      else addCacheEntry ops f (drop (length (m_directory s) + 1) fpath) fpath (m_scan_setting s = 1) s)"

partial_function (option) scan_entries ::
  "'f file_ops \<Rightarrow> 'f \<Rightarrow> string list \<Rightarrow> file_service \<Rightarrow> (string option \<times> file_service) option" where
  "scan_entries ops f paths s =
     (case paths of
        [] \<Rightarrow> Some (None, s)
      | fpath # rest \<Rightarrow>
          (case fs_is_directory ops f fpath of
             Inl what \<Rightarrow> Some (Some what, s)
           | Inr is_dir \<Rightarrow>
               if is_dir then
                 (case fs_entries ops f fpath of
                    Inl what \<Rightarrow> Some (Some what, s)
                  | Inr entries \<Rightarrow> scan_entries ops f (entries @ rest) s)
               else
                 (case scan_file ops f fpath s of
                    Inl what \<Rightarrow> Some (Some what, s)
                  | Inr s \<Rightarrow> scan_entries ops f rest s)))"

definition scanDirectory :: "'f file_ops \<Rightarrow> 'f \<Rightarrow> string \<Rightarrow> file_service \<Rightarrow> (string option \<times> file_service) option" where
  "scanDirectory ops f dir_path s =
     (case fs_entries ops f dir_path of
        Inl what \<Rightarrow> Some (Some what, s)
      | Inr entries \<Rightarrow> scan_entries ops f entries s)"

definition start_service :: "'f file_ops \<Rightarrow> 'f \<Rightarrow> file_service \<Rightarrow> (string option \<times> file_service) option" where
  "start_service ops f s =
     (if m_scan_setting s \<noteq> 0 then
        (let s = (if m_cache_setting s = 0 \<and> 1 < m_scan_setting s then s\<lparr>m_cache_setting := 1\<rparr> else s)
         in case (if m_file s \<noteq> [] then addCacheEntry ops f [] (m_file s) (m_scan_setting s = 1) s else Inr s) of
              Inl what \<Rightarrow> Some (Some what, s)
            | Inr s \<Rightarrow> if m_directory s \<noteq> [] then scanDirectory ops f (m_directory s) s else Some (None, s))
      else Some (None, s))"

definition stop_service :: "file_service \<Rightarrow> file_service" where
  "stop_service s = s\<lparr>m_cache_map := Map.empty\<rparr>"

section \<open>Requests\<close>

text \<open>The state that the handler works on: the service, the file system and the senders at work.\<close>

record 'f file_world =
  fw_service :: file_service
  fw_files :: 'f
  fw_senders :: "disk_file_sender list"

type_synonym 'f file_handler =
  "http_message \<Rightarrow> connection \<Rightarrow> 'f file_world \<Rightarrow> file_fault + 'f file_world outcome"

text \<open>An answer with a page: its beginning, a text, its end. \<open>unless_head\<close> is the test for a request
  that is not \<^verbatim>\<open>HEAD\<close>.\<close>

definition html_page :: "string \<Rightarrow> string \<Rightarrow> string \<Rightarrow> string" where
  "html_page title heading start =
     ''<html><head>'' @ [LF] @ ''<title>'' @ title @ ''</title>'' @ [LF] @ ''</head><body>'' @ [LF] @
     ''<h1>'' @ heading @ ''</h1>'' @ [LF] @ start"

definition html_finish :: "string \<Rightarrow> string" where
  "html_finish rest = rest @ ''</p>'' @ [LF] @ ''</body></html>'' @ [LF]"

definition page_writes :: "string \<Rightarrow> string \<Rightarrow> string \<Rightarrow> write_call list" where
  "page_writes beginning middle ending = [Write_no_copy beginning, Write_text (xml_encode middle), Write_no_copy ending]"

definition with_status :: "32 word \<Rightarrow> string \<Rightarrow> http_message \<Rightarrow> http_message" where
  "with_status code message m = set_status_message message (set_status_code code m)"

definition unless_head :: "http_message \<Rightarrow> write_call list \<Rightarrow> write_call list" where
  "unless_head request calls = (if req_method request \<noteq> REQUEST_METHOD_HEAD then calls else [])"

definition sendNotFoundResponse :: "'w request_handler_t" where
  "sendNotFoundResponse request =
     answer_with (with_status RESPONSE_CODE_NOT_FOUND RESPONSE_MESSAGE_NOT_FOUND)
       (unless_head request (page_writes (html_page ''404 Not Found'' ''Not Found'' ''<p>The requested URL '')
          (req_resource request) (html_finish '' was not found on this server.''))) request"

definition forbidden_response :: "string \<Rightarrow> 'w request_handler_t" where
  "forbidden_response reason request =
     answer_with (with_status RESPONSE_CODE_FORBIDDEN RESPONSE_MESSAGE_FORBIDDEN)
       (unless_head request (page_writes (html_page ''403 Forbidden'' ''Forbidden'' ''<p>The requested URL '')
          (req_resource request) (html_finish reason))) request"

section \<open>Reading requests\<close>

datatype response_type =
    RESPONSE_UNDEFINED | RESPONSE_OK | RESPONSE_HEAD_OK | RESPONSE_NOT_FOUND | RESPONSE_NOT_MODIFIED

text \<open>The comparison with the header \<^verbatim>\<open>If-Modified-Since\<close> that decides between the three answers.\<close>

definition choose_response :: "disk_file \<Rightarrow> http_message \<Rightarrow> response_type" where
  "choose_response d request =
     (if m_last_modified_string d = get_header request HEADER_IF_MODIFIED_SINCE then RESPONSE_NOT_MODIFIED
      else if req_method request = REQUEST_METHOD_HEAD then RESPONSE_HEAD_OK
      else RESPONSE_OK)"

text \<open>
  The use of a cache entry, with the entry as it is afterwards; \<^const>\<open>Inl\<close> is the text of an exception.
\<close>

definition uncached_entry ::
  "'f file_ops \<Rightarrow> 'f \<Rightarrow> http_message \<Rightarrow> disk_file \<Rightarrow> string + response_type \<times> disk_file" where
  "uncached_entry ops f request cached =
     (case disk_update ops f (new_disk_file\<lparr>m_file_path := m_file_path cached, m_mime_type := m_mime_type cached\<rparr>) of
        (Some what, _) \<Rightarrow> Inl what
      | (None, response_file) \<Rightarrow> Inr (choose_response response_file request, response_file))"

definition refresh_entry ::
  "'f file_ops \<Rightarrow> 'f \<Rightarrow> file_service \<Rightarrow> disk_file \<Rightarrow> (string + bool) \<times> disk_file" where
  "refresh_entry ops f s cached =
     (if m_last_modified cached = 0 then
        (case disk_update ops f cached of
           (Some what, cached) \<Rightarrow> (Inl what, cached)
         | (None, cached) \<Rightarrow>
             (Inr True, if m_max_cache_size s = 0 \<or> m_file_size cached \<le> m_max_cache_size s
                        then disk_read ops f cached else resetFileContent cached))
      else if m_cache_setting s = 1 then
        (case checkUpdated ops f cached of
           Inl what \<Rightarrow> (Inl what, cached)
         | Inr (updated, cached) \<Rightarrow> (Inr updated, cached))
      else (Inr False, cached))"

definition use_entry ::
  "'f file_ops \<Rightarrow> 'f \<Rightarrow> file_service \<Rightarrow> http_message \<Rightarrow> disk_file \<Rightarrow> (string + response_type \<times> disk_file) \<times> disk_file" where
  "use_entry ops f s request cached =
     (case refresh_entry ops f s cached of
        (Inl what, cached) \<Rightarrow> (Inl what, cached)
      | (Inr updated, cached) \<Rightarrow>
          (Inr (choose_response cached request, cached),
           if updated \<and> 0 < m_max_cache_size s \<and> m_max_cache_size s < m_file_size cached
           then resetFileContent cached else cached))"

text \<open>The first part: a response from the cache, or the request to look for the file.\<close>

definition search_cache ::
  "'f file_ops \<Rightarrow> 'f \<Rightarrow> http_message \<Rightarrow> string \<Rightarrow> file_service \<Rightarrow> (string + response_type \<times> disk_file) \<times> file_service" where
  "search_cache ops f request relative_path s =
     (if 0 < m_cache_setting s \<or> 0 < m_scan_setting s then
        (case m_cache_map s relative_path of
           None \<Rightarrow>
             (Inr (if m_scan_setting s = 1 \<or> m_scan_setting s = 3 then RESPONSE_NOT_FOUND else RESPONSE_UNDEFINED,
                   new_disk_file), s)
         | Some cached \<Rightarrow>
             if m_cache_setting s = 0 then (uncached_entry ops f request cached, s)
             else (case use_entry ops f s request cached of
                     (r, cached) \<Rightarrow> (r, s\<lparr>m_cache_map := (m_cache_map s)(relative_path \<mapsto> cached)\<rparr>)))
      else (Inr (RESPONSE_UNDEFINED, new_disk_file), s))"

text \<open>The second part: a file that is not in the cache; \<open>Inr None\<close> is a file that does not exist.\<close>

definition fresh_file ::
  "'f file_ops \<Rightarrow> 'f \<Rightarrow> http_message \<Rightarrow> string \<Rightarrow> string \<Rightarrow> file_service \<Rightarrow>
     (string + (response_type \<times> disk_file) option) \<times> file_service" where
  "fresh_file ops f request relative_path file_path s =
     (case fs_exists ops f file_path of
        Inl what \<Rightarrow> (Inl what, s)
      | Inr False \<Rightarrow> (Inr None, s)
      | Inr True \<Rightarrow>
          (case disk_update ops f (new_disk_file\<lparr>m_file_path := file_path, m_mime_type := findMIMEType (path_filename file_path)\<rparr>) of
             (Some what, _) \<Rightarrow> (Inl what, s)
           | (None, response_file) \<Rightarrow>
               (let response_type = choose_response response_file request
                in if response_type = RESPONSE_OK \<and> m_cache_setting s \<noteq> 0 then
                     (let response_file = (if m_max_cache_size s = 0 \<or> m_file_size response_file \<le> m_max_cache_size s
                                           then disk_read ops f response_file else response_file)
                      in (Inr (Some (response_type, response_file)), cache_insert relative_path response_file s))
                   else (Inr (Some (response_type, response_file)), s))))"

definition headers_response :: "32 word \<Rightarrow> string \<Rightarrow> disk_file \<Rightarrow> 'w request_handler_t" where
  "headers_response code message response_file =
     answer_with (with_status code message \<circ> add_header HEADER_LAST_MODIFIED (m_last_modified_string response_file) \<circ>
       set_content_type (m_mime_type response_file)) []"

definition send_file :: "'f file_ops \<Rightarrow> disk_file \<Rightarrow> 'f file_handler" where
  "send_file ops response_file request tcp_conn world =
     (case sender_send ops (fw_files world)
             (new_disk_file_sender response_file request tcp_conn (m_max_chunk_size (fw_service world))) of
        Inl e \<Rightarrow> Inl e
      | Inr sender \<Rightarrow>
          Inr (Returns request (m_tcp_conn (ds_writer sender)) (world\<lparr>fw_senders := fw_senders world @ [sender]\<rparr>)))"

definition send_response :: "'f file_ops \<Rightarrow> response_type \<Rightarrow> disk_file \<Rightarrow> 'f file_handler" where
  "send_response ops response_type response_file request tcp_conn world =
     (case response_type of
        RESPONSE_OK \<Rightarrow> send_file ops response_file request tcp_conn world
      | RESPONSE_NOT_FOUND \<Rightarrow> Inr (sendNotFoundResponse request tcp_conn world)
      | RESPONSE_NOT_MODIFIED \<Rightarrow>
          Inr (headers_response RESPONSE_CODE_NOT_MODIFIED RESPONSE_MESSAGE_NOT_MODIFIED response_file request tcp_conn world)
      | RESPONSE_HEAD_OK \<Rightarrow>
          Inr (headers_response RESPONSE_CODE_OK RESPONSE_MESSAGE_OK response_file request tcp_conn world)
      | RESPONSE_UNDEFINED \<Rightarrow> Inl Assertion)"

definition serve_file :: "'f file_ops \<Rightarrow> string \<Rightarrow> string \<Rightarrow> 'f file_handler" where
  "serve_file ops relative_path file_path request tcp_conn world =
     (case search_cache ops (fw_files world) request relative_path (fw_service world) of
        (Inl what, s) \<Rightarrow> Inr (Throws what request tcp_conn (world\<lparr>fw_service := s\<rparr>))
      | (Inr (response_type, response_file), s) \<Rightarrow>
          if response_type = RESPONSE_UNDEFINED then
            (case fresh_file ops (fw_files world) request relative_path file_path s of
               (Inl what, s) \<Rightarrow> Inr (Throws what request tcp_conn (world\<lparr>fw_service := s\<rparr>))
             | (Inr None, s) \<Rightarrow> Inr (sendNotFoundResponse request tcp_conn (world\<lparr>fw_service := s\<rparr>))
             | (Inr (Some (response_type, response_file)), s) \<Rightarrow>
                 send_response ops response_type response_file request tcp_conn (world\<lparr>fw_service := s\<rparr>))
          else send_response ops response_type response_file request tcp_conn (world\<lparr>fw_service := s\<rparr>))"

section \<open>Writing requests\<close>

text \<open>The bytes of the content of the request, as \<^verbatim>\<open>get_content\<close> and the content length give them.\<close>

definition request_content :: "http_message \<Rightarrow> file_fault + string" where
  "request_content request =
     (if content_readable request then Inr (content_bytes request) else Inl Read_behind)"

definition not_allowed_response :: "'w request_handler_t" where
  "not_allowed_response request =
     answer_with (add_header ''Allow'' ''GET, HEAD'' \<circ>
         with_status RESPONSE_CODE_METHOD_NOT_ALLOWED RESPONSE_MESSAGE_METHOD_NOT_ALLOWED)
       (page_writes NOT_ALLOWED_HTML_START (req_method request) NOT_ALLOWED_HTML_FINISH) request"

definition created_writes :: "http_message \<Rightarrow> write_call list" where
  "created_writes request =
     page_writes (html_page ''201 Created'' ''Created'' ''<p>'') (req_resource request) (html_finish [])"

text \<open>The status that \<^verbatim>\<open>POST\<close> and \<^verbatim>\<open>PUT\<close> prepare before the file is written; \<open>Inr None\<close> is a file whose
  directory does not exist.\<close>

definition prepare_store ::
  "'f file_ops \<Rightarrow> 'f \<Rightarrow> string \<Rightarrow> http_message \<Rightarrow> string + ((http_message \<Rightarrow> http_message) \<times> write_call list) option" where
  "prepare_store ops f file_path request =
     (case fs_exists ops f file_path of
        Inl what \<Rightarrow> Inl what
      | Inr True \<Rightarrow> Inr (Some (with_status RESPONSE_CODE_NO_CONTENT RESPONSE_MESSAGE_NO_CONTENT, []))
      | Inr False \<Rightarrow>
          (case fs_exists ops f (path_parent file_path) of
             Inl what \<Rightarrow> Inl what
           | Inr False \<Rightarrow> Inr None
           | Inr True \<Rightarrow>
               Inr (Some (add_header HEADER_LOCATION (req_resource request) \<circ>
                          with_status RESPONSE_CODE_CREATED RESPONSE_MESSAGE_CREATED, created_writes request))))"

definition store_file :: "'f file_ops \<Rightarrow> string \<Rightarrow> 'f file_handler" where
  "store_file ops file_path request tcp_conn world =
     (case prepare_store ops (fw_files world) file_path request of
        Inl what \<Rightarrow> Inr (Throws what request tcp_conn world)
      | Inr None \<Rightarrow>
          Inr (answer_with (with_status RESPONSE_CODE_NOT_FOUND RESPONSE_MESSAGE_NOT_FOUND)
            (page_writes (html_page ''404 Not Found'' ''Not Found'' ''<p>The directory of the requested URL '')
               (req_resource request) (html_finish '' was not found on this server.'')) request tcp_conn world)
      | Inr (Some (edit, calls)) \<Rightarrow>
          (case request_content request of
             Inl e \<Rightarrow> Inl e
           | Inr content \<Rightarrow>
               (let world = world\<lparr>fw_files := fs_store ops (if req_method request = REQUEST_METHOD_POST then Mode_app else Mode_out)
                                                file_path content (fw_files world)\<rparr>
                in case fs_exists ops (fw_files world) file_path of
                     Inl what \<Rightarrow> Inr (Throws what request tcp_conn world)
                   | Inr True \<Rightarrow> Inr (answer_with edit calls request tcp_conn world)
                   | Inr False \<Rightarrow>
                       Inr (answer_with (with_status RESPONSE_CODE_SERVER_ERROR RESPONSE_MESSAGE_SERVER_ERROR \<circ> edit)
                         (calls @ page_writes (html_page ''500 Server Error'' ''Server Error'' ''<p>Error writing to '')
                            (req_resource request) (html_finish ''.'')) request tcp_conn world))))"

definition delete_file :: "'f file_ops \<Rightarrow> string \<Rightarrow> 'f file_handler" where
  "delete_file ops file_path request tcp_conn world =
     (case fs_exists ops (fw_files world) file_path of
        Inl what \<Rightarrow> Inr (Throws what request tcp_conn world)
      | Inr False \<Rightarrow> Inr (sendNotFoundResponse request tcp_conn world)
      | Inr True \<Rightarrow>
          (case fs_remove ops file_path (fw_files world) of
             Inr f \<Rightarrow> Inr (answer_with (with_status RESPONSE_CODE_NO_CONTENT RESPONSE_MESSAGE_NO_CONTENT) []
               request tcp_conn (world\<lparr>fw_files := f\<rparr>))
           | Inl what \<Rightarrow>
               Inr (answer_with (with_status RESPONSE_CODE_SERVER_ERROR RESPONSE_MESSAGE_SERVER_ERROR)
                 [Write_no_copy (html_page ''500 Server Error'' ''Server Error'' ''<p>Could not delete ''),
                  Write_text (xml_encode (req_resource request)), Write_text ''.</p><p>'', Write_text what,
                  Write_no_copy (html_finish ''.'')] request tcp_conn world)))"

definition not_implemented_response :: "'w request_handler_t" where
  "not_implemented_response request =
     answer_with (with_status RESPONSE_CODE_NOT_IMPLEMENTED RESPONSE_MESSAGE_NOT_IMPLEMENTED)
       (page_writes (html_page ''501 Not Implemented'' ''Not Implemented'' ''<p>The requested method '')
          (req_method request) (html_finish '' is not implemented on this server.'')) request"

section \<open>The handler\<close>

text \<open>The file that is asked for, or none.\<close>

definition requested_path :: "string \<Rightarrow> file_service \<Rightarrow> string option" where
  "requested_path relative_path s =
     (if relative_path = [] then (if m_file s = [] then None else Some (m_file s))
      else if m_directory s = [] then None else Some (path_append (m_directory s) relative_path))"

definition handle_file_path :: "'f file_ops \<Rightarrow> string \<Rightarrow> string \<Rightarrow> 'f file_handler" where
  "handle_file_path ops relative_path file_path request tcp_conn world =
     (if \<not> starts_with file_path (m_directory (fw_service world)) then
        Inr (forbidden_response '' is not in the configured directory.'' request tcp_conn world)
      else
        (case fs_is_directory ops (fw_files world) file_path of
           Inl what \<Rightarrow> Inr (Throws what request tcp_conn world)
         | Inr True \<Rightarrow> Inr (forbidden_response '' is a directory.'' request tcp_conn world)
         | Inr False \<Rightarrow>
             if req_method request = REQUEST_METHOD_GET \<or> req_method request = REQUEST_METHOD_HEAD then
               serve_file ops relative_path file_path request tcp_conn world
             else if req_method request = REQUEST_METHOD_POST \<or> req_method request = REQUEST_METHOD_PUT then
               (if \<not> m_writable (fw_service world) then Inr (not_allowed_response request tcp_conn world)
                else store_file ops file_path request tcp_conn world)
             else if req_method request = REQUEST_METHOD_DELETE then
               (if \<not> m_writable (fw_service world) then Inr (not_allowed_response request tcp_conn world)
                else delete_file ops file_path request tcp_conn world)
             else Inr (not_implemented_response request tcp_conn world)))"

definition handle_file_request :: "'f file_ops \<Rightarrow> 'f file_handler" where
  "handle_file_request ops request tcp_conn world =
     (let relative_path = get_relative_resource (svc_resource (fw_service world)) (req_resource request)
      in case requested_path relative_path (fw_service world) of
           None \<Rightarrow> Inr (sendNotFoundResponse request tcp_conn world)
         | Some file_path \<Rightarrow> handle_file_path ops relative_path file_path request tcp_conn world)"

end
