(* ===== verification/File_Transfer.thy ===== *)
theory File_Transfer
  imports File_Service Parser_Chunks
begin

text \<open>
  What a sender of the file service puts on the connection: one response with a content length, or the
  pieces of the file as chunks, and that a client parses the bytes back to the file.
\<close>

section \<open>One write\<close>

lemma prepare_write_conn_sent:
  assumes "m_sent_headers w"
  shows "m_tcp_conn (snd (prepare_write_buffers final w)) = m_tcp_conn w"
    and "m_finished_log (snd (prepare_write_buffers final w)) = m_finished_log w"
    and "m_sent_headers (snd (prepare_write_buffers final w))"
    and "m_sending_chunks (snd (prepare_write_buffers final w)) = m_sending_chunks w"
    and "m_client_supports_chunks (snd (prepare_write_buffers final w)) = m_client_supports_chunks w"
  using assms by (simp_all add: prepare_write_buffers_def Let_def)

lemma prepare_write_conn:
  "m_tcp_conn (snd (prepare_write_buffers final w)) = m_tcp_conn w"
  "m_finished_log (snd (prepare_write_buffers final w)) = m_finished_log w"
  "m_sent_headers (snd (prepare_write_buffers final w))"
  "m_sending_chunks (snd (prepare_write_buffers final w)) = m_sending_chunks w"
  "m_client_supports_chunks (snd (prepare_write_buffers final w)) = m_client_supports_chunks w"
proof -
  obtain bs v where p: "writer_prepare_buffers w = (bs, v)" by fastforce
  obtain m where v: "v = w\<lparr>m_http_message := m\<rparr>" using writer_prepare_frame [OF p] by blast
  let ?u = "w\<lparr>m_http_message := m, m_sent_headers := True\<rparr>"
  have e: "snd (prepare_write_buffers final w) = snd (prepare_write_buffers final (if m_sent_headers w then w else ?u))"
    using prepare_write_first [of w final] p v by (auto split: prod.splits)
  show "m_tcp_conn (snd (prepare_write_buffers final w)) = m_tcp_conn w"
    "m_finished_log (snd (prepare_write_buffers final w)) = m_finished_log w"
    "m_sent_headers (snd (prepare_write_buffers final w))"
    "m_sending_chunks (snd (prepare_write_buffers final w)) = m_sending_chunks w"
    "m_client_supports_chunks (snd (prepare_write_buffers final w)) = m_client_supports_chunks w"
    unfolding e using prepare_write_conn_sent [of w final] prepare_write_conn_sent [of ?u final] by (cases "m_sent_headers w"; simp)+
qed

lemma prepare_write_text:
  assumes "writer_ok w" and "m_content_stream w = []" and "length (concat (m_content_buffers w)) < 2 ^ 64"
  shows "concat (fst (prepare_write_buffers final w)) = (if m_sent_headers w then [] else headers_text w) @
      body_text (m_client_supports_chunks w \<and> m_sending_chunks w) final (concat (m_content_buffers w))"
proof (cases "m_sent_headers w")
  case True
  then show ?thesis using prepare_write_sent(1) [OF assms(1,2) _ assms(3)] by simp
next
  case False
  obtain bs v where p: "writer_prepare_buffers w = (bs, v)" by fastforce
  obtain m where v: "v = w\<lparr>m_http_message := m\<rparr>" using writer_prepare_frame [OF p] by blast
  obtain cs u where q: "prepare_write_buffers final (v\<lparr>m_sent_headers := True\<rparr>) = (cs, u)" by fastforce
  have "prepare_write_buffers final w = (bs @ cs, u)" using prepare_write_first [OF False, of final] p q by simp
  moreover have "concat cs = body_text (m_client_supports_chunks w \<and> m_sending_chunks w) final (concat (m_content_buffers w))"
    using prepare_write_sent(1) [of "v\<lparr>m_sent_headers := True\<rparr>" final] assms q v
    by (simp add: writer_ok_def)
  ultimately show ?thesis using False p by (simp add: headers_text_def)
qed

lemma send_more_conn:
  assumes "writer_ok w" and "is_open (m_tcp_conn w)" and "length (writer_content w) < 2 ^ 64"
  obtains bs where "m_tcp_conn (send_more_data final w) = async_write bs (m_tcp_conn w)"
    and "concat bs = (if m_sent_headers w then [] else headers_text (flush_content_stream w)) @
      body_text (m_client_supports_chunks w \<and> m_sending_chunks w) final (writer_content w)"
proof -
  let ?f = "flush_content_stream w"
  obtain bs u where p: "prepare_write_buffers final ?f = (bs, u)" by fastforce
  note f = flush_writer [OF assms(1)]
  have "concat bs = (if m_sent_headers w then [] else headers_text ?f) @
      body_text (m_client_supports_chunks w \<and> m_sending_chunks w) final (writer_content w)"
    using prepare_write_text [OF f(1,3), of final] f(2) assms(3) p by simp
  moreover have "m_tcp_conn (send_more_data final w) = async_write bs (m_tcp_conn w)"
    using assms(2) p prepare_write_conn(1) [of final ?f] by (simp add: send_more_data_def)
  ultimately show thesis using that by blast
qed

lemma send_more_frame:
  assumes "is_open (m_tcp_conn w)"
  shows "m_finished_log (send_more_data final w) = m_finished_log w" and "m_sent_headers (send_more_data final w)"
    and "m_sending_chunks (send_more_data final w) = m_sending_chunks w"
    and "m_client_supports_chunks (send_more_data final w) = m_client_supports_chunks w"
  using assms prepare_write_conn [of final "flush_content_stream w"]
  by (auto simp: send_more_data_def split: prod.splits)

text \<open>A writer without content; what it holds after one piece of the file.\<close>

definition fresh_writer :: "writer \<Rightarrow> bool" where
  "fresh_writer w = (writer_ok w \<and> writer_content w = [] \<and> is_open (m_tcp_conn w))"

lemma fresh_clear: "is_open (m_tcp_conn w) \<Longrightarrow> fresh_writer (writer_clear w)"
  by (simp add: fresh_writer_def writer_ok_clear)

lemma write_no_copy_fresh:
  assumes "fresh_writer w"
  shows "writer_ok (write_no_copy d w)" "writer_content (write_no_copy d w) = d" "is_open (m_tcp_conn (write_no_copy d w))"
    "m_tcp_conn (write_no_copy d w) = m_tcp_conn w" "m_sent_headers (write_no_copy d w) = m_sent_headers w"
    "m_sending_chunks (write_no_copy d w) = m_sending_chunks w"
    "m_client_supports_chunks (write_no_copy d w) = m_client_supports_chunks w"
    "m_finished_log (write_no_copy d w) = m_finished_log w" "m_http_message (write_no_copy d w) = m_http_message w"
  using assms do_write_ok [of w "Write_no_copy d"] do_write_frame [of "Write_no_copy d" w]
  by (simp_all add: fresh_writer_def) (simp add: write_no_copy_def Let_def)

section \<open>Pieces of a file\<close>

text \<open>The file that a sender reads has the given content: in memory, or behind the stream, which is at the
  position that the bytes sent so far give, with a buffer for the largest piece.\<close>

definition reads_content :: "'f file_ops \<Rightarrow> 'f \<Rightarrow> string \<Rightarrow> string \<Rightarrow> bool" where
  "reads_content ops f fpath content =
     (fs_can_open ops f fpath \<and> (\<forall>pos n. fs_read ops f fpath pos n = take n (drop pos content)))"

definition source_ok :: "'f file_ops \<Rightarrow> 'f \<Rightarrow> string \<Rightarrow> disk_file_sender \<Rightarrow> bool" where
  "source_ok ops f content s \<longleftrightarrow>
     m_file_size (m_disk_file s) = length content \<and>
     (case m_file_content (m_disk_file s) of
        Some cells \<Rightarrow> cells = map Some content
      | None \<Rightarrow> reads_content ops f (m_file_path (m_disk_file s)) content \<and>
          (if m_bytes_sent s = 0 then m_file_stream s = None \<and> m_content_buf s = None
           else m_file_stream s = Some (m_bytes_sent s) \<and> m_content_buf s = Some (ds_max_chunk_size s) \<and>
             0 < ds_max_chunk_size s))"

lemma source_ok_frame:
  assumes "source_ok ops f content s" and "m_disk_file t = m_disk_file s" and "m_bytes_sent t = m_bytes_sent s"
    and "m_file_stream t = m_file_stream s" and "m_content_buf t = m_content_buf s" and "ds_max_chunk_size t = ds_max_chunk_size s"
  shows "source_ok ops f content t"
  using assms(1) unfolding source_ok_def assms(2-6) .

definition piece_size :: "disk_file_sender \<Rightarrow> nat \<Rightarrow> nat" where
  "piece_size s left = (if 0 < ds_max_chunk_size s \<and> ds_max_chunk_size s < left then ds_max_chunk_size s else left)"

lemma cached_bytes_all:
  assumes "pos + n \<le> length content"
  shows "cached_bytes (map Some content) pos n = Inr (take n (drop pos content))"
proof -
  have "None \<notin> set (take n (drop pos (map Some content)))" by (auto simp: take_map drop_map)
  then show ?thesis using assms by (simp add: cached_bytes_def take_map drop_map comp_def)
qed

lemma get_file_bytes_piece:
  assumes "source_ok ops f content s" and "m_bytes_sent s < length content"
    and "m_file_bytes_to_send s = piece_size s (length content - m_bytes_sent s)"
  shows "\<exists>stream buf. get_file_bytes ops f s =
      Inr (Some (take (m_file_bytes_to_send s) (drop (m_bytes_sent s) content)), s\<lparr>m_file_stream := stream, m_content_buf := buf\<rparr>) \<and>
    (m_bytes_sent s + m_file_bytes_to_send s < length content \<longrightarrow>
      source_ok ops f content (s\<lparr>m_file_stream := stream, m_content_buf := buf,
        m_bytes_sent := m_bytes_sent s + m_file_bytes_to_send s\<rparr>))"
proof (cases "m_file_content (m_disk_file s)")
  case (Some cells)
  have n: "m_bytes_sent s + m_file_bytes_to_send s \<le> length content" using assms(2,3) by (auto simp: piece_size_def)
  have "get_file_bytes ops f s = Inr (Some (take (m_file_bytes_to_send s) (drop (m_bytes_sent s) content)),
      s\<lparr>m_file_stream := m_file_stream s, m_content_buf := m_content_buf s\<rparr>)"
    using assms(1) Some cached_bytes_all [OF n] by (simp add: get_file_bytes_def source_ok_def)
  moreover have "source_ok ops f content (s\<lparr>m_file_stream := m_file_stream s, m_content_buf := m_content_buf s,
      m_bytes_sent := m_bytes_sent s + m_file_bytes_to_send s\<rparr>)"
    using assms(1) Some by (simp add: source_ok_def)
  ultimately show ?thesis by blast
next
  case None
  let ?n = "m_file_bytes_to_send s" and ?p = "m_bytes_sent s"
  have r: "reads_content ops f (m_file_path (m_disk_file s)) content" using assms(1) None by (simp add: source_ok_def)
  have len: "?p + ?n \<le> length content" "0 < ?n" using assms(2,3) by (auto simp: piece_size_def)
  let ?buf = "case m_content_buf s of None \<Rightarrow> ?n | Some k \<Rightarrow> k"
  have b: "?n \<le> ?buf" "(case m_file_stream s of None \<Rightarrow> 0 | Some p \<Rightarrow> p) = ?p"
    using assms(1,3) None by (auto simp: source_ok_def piece_size_def split: if_splits)
  have "get_file_bytes ops f s = Inr (Some (take ?n (drop ?p content)), s\<lparr>m_file_stream := Some (?p + ?n), m_content_buf := Some ?buf\<rparr>)"
    using None r b len by (auto simp: get_file_bytes_def reads_content_def Let_def)
  moreover have "source_ok ops f content (s\<lparr>m_file_stream := Some (?p + ?n), m_content_buf := Some ?buf, m_bytes_sent := ?p + ?n\<rparr>)"
    if "?p + ?n < length content"
    using assms(1,3) None r len that by (auto simp: source_ok_def piece_size_def split: if_splits)
  ultimately show ?thesis by blast
qed

text \<open>Which operation of the writer sends a piece.\<close>

definition piece_op :: "nat \<Rightarrow> nat \<Rightarrow> nat \<Rightarrow> writer \<Rightarrow> writer" where
  "piece_op pos n left = (if left \<le> n then (if 0 < pos then send_final_chunk else send) else send_chunk)"

lemma piece_op_log:
  assumes "is_open (m_tcp_conn w)" shows "m_finished_log (piece_op pos n left w) = m_finished_log w"
  using assms send_more_frame(1) [of w False] send_more_frame(1) [of "w\<lparr>m_sending_chunks := True\<rparr>"]
    send_more_frame(1) [of "w\<lparr>m_sending_chunks := True, m_tcp_conn := set_lifecycle LIFECYCLE_CLOSE (m_tcp_conn w)\<rparr>"]
  by (auto simp: piece_op_def send_def send_final_chunk_def send_chunk_def set_lifecycle_def is_open_def Let_def)

lemma sender_send_piece:
  assumes "source_ok ops f content s" and "m_bytes_sent s < length content" and "fresh_writer (ds_writer s)"
  defines "left \<equiv> length content - m_bytes_sent s"
  defines "n \<equiv> piece_size s left"
  shows "\<exists>t. sender_send ops f s = Inr t \<and> ds_pending t = Some Sender_handler \<and> m_file_bytes_to_send t = n \<and>
      m_bytes_sent t = m_bytes_sent s \<and> ds_max_chunk_size t = ds_max_chunk_size s \<and> m_disk_file t = m_disk_file s \<and>
      ds_writer t = piece_op (m_bytes_sent s) n left (write_no_copy (take n (drop (m_bytes_sent s) content)) (ds_writer s)) \<and>
      (n < left \<longrightarrow> source_ok ops f content (t\<lparr>m_bytes_sent := m_bytes_sent s + n\<rparr>))"
proof -
  let ?s = "s\<lparr>m_file_bytes_to_send := n, ds_pending := None\<rparr>"
  have src: "source_ok ops f content ?s" by (rule source_ok_frame [OF assms(1)]) simp_all
  have size: "m_file_size (m_disk_file s) = length content" using assms(1) by (simp add: source_ok_def)
  have n: "n = (if 0 < ds_max_chunk_size s \<and> ds_max_chunk_size s < left then ds_max_chunk_size s else left)"
    by (simp add: n_def piece_size_def)
  have "piece_size ?s left = piece_size s left" unfolding piece_size_def by (cases "0 < ds_max_chunk_size s"; cases "ds_max_chunk_size s < left") simp_all
  then have pz: "m_file_bytes_to_send ?s = piece_size ?s (length content - m_bytes_sent ?s)" by (simp add: n_def left_def)
  have lt: "m_bytes_sent ?s < length content" using assms(2) by simp
  obtain stream buf where g: "get_file_bytes ops f ?s = Inr (Some (take n (drop (m_bytes_sent s) content)),
      ?s\<lparr>m_file_stream := stream, m_content_buf := buf\<rparr>)"
    and next_ok: "m_bytes_sent s + n < length content \<longrightarrow> source_ok ops f content (?s\<lparr>m_file_stream := stream, m_content_buf := buf,
        m_bytes_sent := m_bytes_sent s + n\<rparr>)"
    using get_file_bytes_piece [OF src lt pz] by auto
  let ?w = "write_no_copy (take n (drop (m_bytes_sent s) content)) (ds_writer s)"
  let ?t = "?s\<lparr>m_file_stream := stream, m_content_buf := buf, ds_writer := ?w\<rparr>"
  have w: "is_open (m_tcp_conn ?w)" using write_no_copy_fresh(3) [OF assms(3)] .
  have start: "start_write (piece_op (m_bytes_sent s) n left) Sender_handler ?t =
      ?t\<lparr>ds_writer := piece_op (m_bytes_sent s) n left ?w, ds_pending := Some Sender_handler\<rparr>"
    using piece_op_log [OF w] by (simp add: start_write_def Let_def)
  have c: "length content \<le> m_bytes_sent s + n \<longleftrightarrow> left \<le> n" using assms(2) by (auto simp: left_def)
  have "sender_send ops f s = Inr (start_write (piece_op (m_bytes_sent s) n left) Sender_handler ?t)"
    unfolding sender_send_def Let_def size left_def [symmetric] n [symmetric]
    using g assms(2) size c by (simp add: piece_op_def)
  moreover have "n < left \<longrightarrow> source_ok ops f content (?t\<lparr>ds_writer := piece_op (m_bytes_sent s) n left ?w,
      ds_pending := Some Sender_handler, m_bytes_sent := m_bytes_sent s + n\<rparr>)"
    using assms(2) by (auto simp: left_def intro: source_ok_frame [OF next_ok [rule_format]])
  ultimately show ?thesis unfolding start by auto
qed

section \<open>A whole file\<close>

text \<open>The completion of writes one after the other, all of them successful.\<close>

fun complete_writes :: "'f file_ops \<Rightarrow> 'f \<Rightarrow> nat \<Rightarrow> disk_file_sender \<Rightarrow> file_fault + disk_file_sender" where
  "complete_writes ops f 0 s = Inr s"
| "complete_writes ops f (Suc k) s =
     (case write_completed ops f None s of Inl e \<Rightarrow> Inl e | Inr t \<Rightarrow> complete_writes ops f k t)"

text \<open>The pieces of a text, each but the last of the given size.\<close>

function pieces_of :: "nat \<Rightarrow> 'a list \<Rightarrow> 'a list list" where
  "pieces_of k xs = (if k = 0 \<or> length xs \<le> k then (if xs = [] then [] else [xs]) else take k xs # pieces_of k (drop k xs))"
  by pat_completeness auto
termination by (relation "measure (\<lambda>(_, xs). length xs)") auto

declare pieces_of.simps [simp del]

lemma concat_pieces_of: "concat (pieces_of k xs) = xs"
proof (induction k xs rule: pieces_of.induct)
  case (1 k xs)
  then show ?case by (subst pieces_of.simps) simp
qed

lemma pieces_of_last: "k = 0 \<or> length xs \<le> k \<Longrightarrow> xs \<noteq> [] \<Longrightarrow> pieces_of k xs = [xs]"
  by (simp add: pieces_of.simps)

lemma pieces_of_more: "0 < k \<Longrightarrow> k < length xs \<Longrightarrow> pieces_of k xs = take k xs # pieces_of k (drop k xs)"
  by (subst pieces_of.simps) simp

lemma body_text_final: "body_text c True d = body_text c False d @ (if c then last_chunk_text else [])"
  by (simp add: body_text_def)

text \<open>The effect of the operations on the connection. \<open>closing\<close> is what \<^verbatim>\<open>send_chunk\<close> does for a client
  that does not understand chunks.\<close>

definition closing :: "writer \<Rightarrow> connection \<Rightarrow> connection" where
  "closing w c = (if m_client_supports_chunks w then c else set_lifecycle LIFECYCLE_CLOSE c)"

definition chunked_headers :: "writer \<Rightarrow> connection \<Rightarrow> string" where
  "chunked_headers w c =
     (if m_sent_headers w then [] else concat (fst (prepare_buffers_for_send (get_keep_alive c) True (m_http_message w))))"

lemma send_more_piece:
  assumes "fresh_writer w" and "length d < 2 ^ 64" and "is_open c"
    and u: "u = (write_no_copy d w)\<lparr>m_sending_chunks := True, m_tcp_conn := c\<rparr>"
  shows "\<exists>bs. m_tcp_conn (send_more_data final u) = async_write bs c \<and>
      concat bs = chunked_headers w c @ body_text (m_client_supports_chunks w) final d"
    and "m_sent_headers (send_more_data final u)" "m_sending_chunks (send_more_data final u)"
    and "m_client_supports_chunks (send_more_data final u) = m_client_supports_chunks w"
proof -
  note w = write_no_copy_fresh [OF assms(1)]
  have o: "is_open (m_tcp_conn u)" using assms(3) u by simp
  have ok: "writer_ok u" "writer_content u = d" "m_client_supports_chunks u \<and> m_sending_chunks u \<longleftrightarrow> m_client_supports_chunks w"
      "m_tcp_conn u = c" "m_sent_headers u = m_sent_headers w"
    using w by (simp_all add: u)
  have small: "length (writer_content u) < 2 ^ 64" using assms(2) ok(2) by simp
  have h: "headers_text (flush_content_stream u) = concat (fst (prepare_buffers_for_send (get_keep_alive c) True (m_http_message w)))"
    using writer_headers_text [of "flush_content_stream u"] w by (simp add: headers_text_def u)
  obtain bs where bs: "m_tcp_conn (send_more_data final u) = async_write bs (m_tcp_conn u)"
    "concat bs = (if m_sent_headers u then [] else headers_text (flush_content_stream u)) @
      body_text (m_client_supports_chunks u \<and> m_sending_chunks u) final (writer_content u)"
    using send_more_conn [OF ok(1) o small, of final] .
  then have "concat bs = chunked_headers w c @ body_text (m_client_supports_chunks w) final d"
    unfolding ok h chunked_headers_def by simp
  then show "\<exists>bs. m_tcp_conn (send_more_data final u) = async_write bs c \<and>
      concat bs = chunked_headers w c @ body_text (m_client_supports_chunks w) final d"
    using bs(1) ok(4) by auto
  show "m_sent_headers (send_more_data final u)" "m_sending_chunks (send_more_data final u)"
      "m_client_supports_chunks (send_more_data final u) = m_client_supports_chunks w"
    using send_more_frame [OF o, of final] w by (simp_all add: u)
qed

lemma idle_conn: "m_tcp_conn v = c \<Longrightarrow> v\<lparr>m_sending_chunks := b, m_tcp_conn := c\<rparr> = v\<lparr>m_sending_chunks := b\<rparr>"
  by auto

lemma send_chunk_more:
  assumes "fresh_writer w"
  shows "send_chunk (write_no_copy d w) =
      send_more_data False ((write_no_copy d w)\<lparr>m_sending_chunks := True, m_tcp_conn := closing w (m_tcp_conn w)\<rparr>)"
  using write_no_copy_fresh(4,7) [OF assms, of d] by (simp add: send_chunk_def closing_def Let_def idle_conn)

lemma send_final_more:
  assumes "fresh_writer w"
  shows "send_final_chunk (write_no_copy d w) =
      send_more_data True ((write_no_copy d w)\<lparr>m_sending_chunks := True, m_tcp_conn := m_tcp_conn w\<rparr>)"
  using write_no_copy_fresh(4) [OF assms, of d] by (simp add: send_final_chunk_def idle_conn)

lemma async_write_twice: "async_write cs (async_write bs c) = async_write (bs @ cs) c"
  by (simp add: async_write_def)

lemma conn_frame [simp]:
  "is_open (async_write bs c) = is_open c" "is_open (closing w c) = is_open c"
  "m_finished_handler (async_write bs c) = m_finished_handler c" "m_finished_handler (closing w c) = m_finished_handler c"
  "m_lifecycle (async_write bs c) = m_lifecycle c"
  by (simp_all add: async_write_def is_open_def closing_def set_lifecycle_def)

lemma closing_closed: "(\<not> m_client_supports_chunks w \<Longrightarrow> m_lifecycle c = LIFECYCLE_CLOSE) \<Longrightarrow> closing w c = c"
  by (simp add: closing_def set_lifecycle_def)

lemma finish_sender_conn:
  "m_tcp_conn (ds_writer (finish_sender s)) = finish_connection (m_tcp_conn (ds_writer s))" "ds_pending (finish_sender s) = None"
  by (simp_all add: finish_sender_def)

text \<open>A transfer in the middle: a piece is being written and more is left.\<close>

definition in_transfer :: "'f file_ops \<Rightarrow> 'f \<Rightarrow> string \<Rightarrow> disk_file_sender \<Rightarrow> bool" where
  "in_transfer ops f content s \<longleftrightarrow>
     source_ok ops f content (s\<lparr>m_bytes_sent := m_bytes_sent s + m_file_bytes_to_send s\<rparr>) \<and>
     ds_pending s = Some Sender_handler \<and> 0 < m_file_bytes_to_send s \<and>
     m_bytes_sent s + m_file_bytes_to_send s < length content \<and> is_open (m_tcp_conn (ds_writer s)) \<and>
     m_sent_headers (ds_writer s) \<and>
     (\<not> m_client_supports_chunks (ds_writer s) \<longrightarrow> m_lifecycle (m_tcp_conn (ds_writer s)) = LIFECYCLE_CLOSE)"

text \<open>One completion in the middle: the next piece.\<close>

lemma transfer_step:
  assumes "in_transfer ops f content s" and "length content < 2 ^ 64"
  defines "p \<equiv> m_bytes_sent s + m_file_bytes_to_send s"
  defines "n \<equiv> piece_size s (length content - p)"
  shows "\<exists>t bs. write_completed ops f None s = Inr t \<and> ds_pending t = Some Sender_handler \<and> m_bytes_sent t = p \<and>
      m_file_bytes_to_send t = n \<and> ds_max_chunk_size t = ds_max_chunk_size s \<and> m_file_size (m_disk_file t) = length content \<and>
      m_client_supports_chunks (ds_writer t) = m_client_supports_chunks (ds_writer s) \<and>
      m_tcp_conn (ds_writer t) = async_write bs (m_tcp_conn (ds_writer s)) \<and>
      concat bs = body_text (m_client_supports_chunks (ds_writer s)) (p + n = length content) (take n (drop p content)) \<and>
      (p + n < length content \<longrightarrow> in_transfer ops f content t)"
proof -
  note tr = assms(1) [unfolded in_transfer_def, folded p_def]
  let ?w = "writer_clear (ds_writer s)"
  let ?s = "s\<lparr>m_bytes_sent := p, ds_writer := ?w\<rparr>"
  have src: "source_ok ops f content ?s" using tr by (auto intro: source_ok_frame)
  have fw: "fresh_writer ?w" using tr by (simp add: fresh_clear)
  have lt: "m_bytes_sent ?s < length content" "0 < p" using tr by (simp_all add: p_def)
  let ?d = "take n (drop p content)"
  have n: "piece_size ?s (length content - m_bytes_sent ?s) = n" by (simp add: n_def piece_size_def)
  have nb: "0 < n" "p + n \<le> length content" using lt by (auto simp: n_def piece_size_def)
  obtain t where t: "sender_send ops f ?s = Inr t" "ds_pending t = Some Sender_handler" "m_file_bytes_to_send t = n"
      "m_bytes_sent t = p" "ds_max_chunk_size t = ds_max_chunk_size s" "m_disk_file t = m_disk_file s"
      "ds_writer t = piece_op p n (length content - p) (write_no_copy ?d ?w)"
      "n < length content - p \<longrightarrow> source_ok ops f content (t\<lparr>m_bytes_sent := p + n\<rparr>)"
    using sender_send_piece [OF src lt(1)] fw unfolding n by auto
  have wc: "write_completed ops f None s = Inr t"
    using tr t(1) by (simp add: write_completed_def sender_handle_write_def p_def source_ok_def)
  have size: "m_file_size (m_disk_file t) = length content" using tr t(6) by (simp add: source_ok_def)
  let ?fin = "p + n = length content" and ?c = "m_tcp_conn (ds_writer s)"
  have fin: "length content - p \<le> n \<longleftrightarrow> ?fin" using nb by auto
  have c: "closing ?w ?c = ?c" using tr by (auto intro: closing_closed)
  have small: "length ?d < 2 ^ 64" using assms(2) by simp
  have op: "ds_writer t = send_more_data ?fin ((write_no_copy ?d ?w)\<lparr>m_sending_chunks := True, m_tcp_conn := ?c\<rparr>)"
    using t(7) fin lt(2) c send_chunk_more [OF fw, of ?d] send_final_more [OF fw, of ?d]
    by (cases ?fin) (simp_all add: piece_op_def)
  have oc: "is_open ?c" using tr by simp
  note sp = send_more_piece [OF fw small oc refl, of ?fin]
  obtain bs where bs: "m_tcp_conn (ds_writer t) = async_write bs ?c"
      "concat bs = body_text (m_client_supports_chunks (ds_writer s)) ?fin ?d"
    using sp(1) tr unfolding op by (auto simp: chunked_headers_def)
  have "in_transfer ops f content t" if "p + n < length content"
    using that t(2-4,8) nb bs(1) sp(2,4) tr by (auto simp: in_transfer_def op)
  then show ?thesis using wc t size bs sp(4) op by (intro exI [of _ t] exI [of _ bs]) simp
qed

lemma transfer_rest:
  assumes "in_transfer ops f content s" and "length content < 2 ^ 64"
    and "p = m_bytes_sent s + m_file_bytes_to_send s" and "c = m_client_supports_chunks (ds_writer s)"
  shows "\<exists>k t bs. complete_writes ops f k s = Inr t \<and> ds_pending t = None \<and>
      m_tcp_conn (ds_writer t) = finish_connection (async_write bs (m_tcp_conn (ds_writer s))) \<and>
      concat bs = concat (map (body_text c False) (pieces_of (ds_max_chunk_size s) (drop p content))) @ (if c then last_chunk_text else [])"
  using assms
proof (induction "length content - p" arbitrary: s p c rule: less_induct)
  case less
  note pc = less.prems(3,4)
  let ?n = "piece_size s (length content - p)"
  let ?k = "ds_max_chunk_size s"
  obtain t bs where t: "write_completed ops f None s = Inr t" "ds_pending t = Some Sender_handler" "m_bytes_sent t = p"
      "m_file_bytes_to_send t = ?n" "ds_max_chunk_size t = ?k" "m_file_size (m_disk_file t) = length content"
      "m_client_supports_chunks (ds_writer t) = c" "m_tcp_conn (ds_writer t) = async_write bs (m_tcp_conn (ds_writer s))"
      "concat bs = body_text c (p + ?n = length content) (take ?n (drop p content))"
      "p + ?n < length content \<longrightarrow> in_transfer ops f content t"
    using transfer_step [OF less.prems(1,2)] unfolding pc [symmetric] by blast
  have lt: "p < length content" using less.prems(1) unfolding pc by (simp add: in_transfer_def)
  show ?case
  proof (cases "p + ?n < length content")
    case True
    then have n: "?n = ?k" "0 < ?k" "?k < length (drop p content)" by (auto simp: piece_size_def split: if_splits)
    have "length content - (m_bytes_sent t + m_file_bytes_to_send t) < length content - p" using n lt t(3,4) by simp
    from less.hyps [OF this _ less.prems(2) refl refl] t(10) True obtain k u cs where u: "complete_writes ops f k t = Inr u"
        "ds_pending u = None" "m_tcp_conn (ds_writer u) = finish_connection (async_write cs (m_tcp_conn (ds_writer t)))"
        "concat cs = concat (map (body_text c False) (pieces_of ?k (drop (p + ?k) content))) @ (if c then last_chunk_text else [])"
      unfolding t(3,4,5,7) n(1) by blast
    have "complete_writes ops f (Suc k) s = Inr u" using t(1) u(1) by simp
    moreover have "m_tcp_conn (ds_writer u) = finish_connection (async_write (bs @ cs) (m_tcp_conn (ds_writer s)))"
      using u(3) t(8) by (simp add: async_write_twice)
    moreover have "concat (bs @ cs) = concat (map (body_text c False) (pieces_of ?k (drop p content))) @ (if c then last_chunk_text else [])"
      using t(9) u(4) True n(1) pieces_of_more [OF n(2,3)] by (simp add: add.commute)
    ultimately show ?thesis using u(2) by blast
  next
    case False
    then have n: "p + ?n = length content" "?n = length content - p" "?k = 0 \<or> length (drop p content) \<le> ?k"
      using lt by (auto simp: piece_size_def split: if_splits)
    have "write_completed ops f None t = Inr (finish_sender (t\<lparr>m_bytes_sent := p + ?n\<rparr>))"
      using t(2,3,4,6) n(1) by (simp add: write_completed_def sender_handle_write_def)
    then have "complete_writes ops f (Suc (Suc 0)) s = Inr (finish_sender (t\<lparr>m_bytes_sent := p + ?n\<rparr>))" using t(1) by simp
    moreover have "concat bs = concat (map (body_text c False) (pieces_of ?k (drop p content))) @ (if c then last_chunk_text else [])"
      using t(9) n pieces_of_last [OF n(3)] lt by (simp add: body_text_final)
    moreover have "m_tcp_conn (ds_writer (finish_sender (t\<lparr>m_bytes_sent := p + ?n\<rparr>))) =
        finish_connection (async_write bs (m_tcp_conn (ds_writer s)))"
      using t(8) by (simp add: finish_sender_conn)
    ultimately show ?thesis using finish_sender_conn(2) by blast
  qed
qed

text \<open>The first send of a file: everything at once, or the first chunk.\<close>

definition whole_file :: "disk_file_sender \<Rightarrow> string \<Rightarrow> bool" where
  "whole_file s content = (ds_max_chunk_size s = 0 \<or> length content \<le> ds_max_chunk_size s)"

definition starts_file :: "'f file_ops \<Rightarrow> 'f \<Rightarrow> string \<Rightarrow> disk_file_sender \<Rightarrow> bool" where
  "starts_file ops f content s \<longleftrightarrow>
     source_ok ops f content s \<and> m_bytes_sent s = 0 \<and> fresh_writer (ds_writer s) \<and> \<not> m_sent_headers (ds_writer s) \<and>
     \<not> m_sending_chunks (ds_writer s) \<and> content \<noteq> [] \<and> length content < 2 ^ 64"

lemma plain_headers:
  assumes "fresh_writer w" and "\<not> m_sending_chunks w" and "d \<noteq> []" and "length d < 2 ^ 64"
  shows "headers_text (flush_content_stream (write_no_copy d w)) =
      concat (fst (prepare_buffers_for_send (get_keep_alive (m_tcp_conn w)) False (set_content_length (length d) (m_http_message w))))"
proof -
  note w = write_no_copy_fresh [OF assms(1), of d]
  note f = flush_writer [OF w(1)]
  have "m_content_length (flush_content_stream (write_no_copy d w)) = length d"
    using f(1,2) w(2) assms(4) by (simp add: writer_ok_def)
  then show ?thesis using w assms(2,3) by (simp add: headers_text_def writer_prepare_buffers_def split_beta Let_def)
qed

lemma sender_whole_file:
  assumes "starts_file ops f content s" and "whole_file s content"
  shows "\<exists>t u bs. sender_send ops f s = Inr t \<and> complete_writes ops f 1 t = Inr u \<and> ds_pending u = None \<and>
      m_tcp_conn (ds_writer u) = finish_connection (async_write bs (m_tcp_conn (ds_writer s))) \<and>
      concat bs = concat (fst (prepare_buffers_for_send (get_keep_alive (m_tcp_conn (ds_writer s))) False
        (set_content_length (length content) (m_http_message (ds_writer s))))) @ content"
proof -
  note st = assms(1) [unfolded starts_file_def]
  let ?w = "ds_writer s"
  have lt: "m_bytes_sent s < length content" using st by simp
  have n: "piece_size s (length content - m_bytes_sent s) = length content"
    using st assms(2) by (auto simp: piece_size_def whole_file_def)
  obtain t where t: "sender_send ops f s = Inr t" "ds_pending t = Some Sender_handler" "m_file_bytes_to_send t = length content"
      "m_bytes_sent t = 0" "m_disk_file t = m_disk_file s" "ds_writer t = send (write_no_copy content ?w)"
    using sender_send_piece [of ops f content s] st lt unfolding n by (auto simp: piece_op_def)
  note w = write_no_copy_fresh [of ?w content]
  obtain bs where bs: "m_tcp_conn (send_more_data False (write_no_copy content ?w)) = async_write bs (m_tcp_conn (write_no_copy content ?w))"
    "concat bs = headers_text (flush_content_stream (write_no_copy content ?w)) @ content"
    using send_more_conn [of "write_no_copy content ?w" False] w st by (auto simp: body_text_def)
  have "write_completed ops f None t = Inr (finish_sender (t\<lparr>m_bytes_sent := length content\<rparr>))"
    using t st by (simp add: write_completed_def sender_handle_write_def source_ok_def)
  then have "complete_writes ops f 1 t = Inr (finish_sender (t\<lparr>m_bytes_sent := length content\<rparr>))" by simp
  moreover have "m_tcp_conn (ds_writer (finish_sender (t\<lparr>m_bytes_sent := length content\<rparr>))) =
      finish_connection (async_write bs (m_tcp_conn ?w))"
    using t(6) bs(1) w st by (simp add: finish_sender_conn send_def)
  ultimately show ?thesis using t(1) bs(2) plain_headers [of ?w content] st finish_sender_conn(2) by metis
qed

lemma sender_chunked_file:
  assumes "starts_file ops f content s" and "\<not> whole_file s content"
  defines "w \<equiv> ds_writer s" and "c \<equiv> closing (ds_writer s) (m_tcp_conn (ds_writer s))"
  shows "\<exists>t k u bs. sender_send ops f s = Inr t \<and> complete_writes ops f k t = Inr u \<and> ds_pending u = None \<and>
      m_tcp_conn (ds_writer u) = finish_connection (async_write bs c) \<and>
      concat bs = concat (fst (prepare_buffers_for_send (get_keep_alive c) True (m_http_message w))) @
        concat (map (body_text (m_client_supports_chunks w) False) (pieces_of (ds_max_chunk_size s) content)) @
        (if m_client_supports_chunks w then last_chunk_text else [])"
proof -
  note st = assms(1) [unfolded starts_file_def]
  let ?k = "ds_max_chunk_size s"
  have lt: "m_bytes_sent s < length content" and k: "0 < ?k" "?k < length content"
    using st assms(2) by (auto simp: whole_file_def)
  have n: "piece_size s (length content - m_bytes_sent s) = ?k" using st k by (auto simp: piece_size_def)
  let ?d = "take ?k content"
  obtain t where t: "sender_send ops f s = Inr t" "ds_pending t = Some Sender_handler" "m_file_bytes_to_send t = ?k"
      "m_bytes_sent t = 0" "ds_max_chunk_size t = ?k" "ds_writer t = send_chunk (write_no_copy ?d w)"
      "source_ok ops f content (t\<lparr>m_bytes_sent := ?k\<rparr>)"
    using sender_send_piece [of ops f content s] st lt k unfolding n by (auto simp: piece_op_def w_def)
  have fw: "fresh_writer w" and small: "length ?d < 2 ^ 64" and oc: "is_open c"
    using st by (simp_all add: w_def c_def fresh_writer_def min_less_iff_disj)
  have op: "ds_writer t = send_more_data False ((write_no_copy ?d w)\<lparr>m_sending_chunks := True, m_tcp_conn := c\<rparr>)"
    using t(6) send_chunk_more [OF fw] by (simp add: c_def w_def)
  note sp = send_more_piece [OF fw small oc refl, of False]
  obtain bs where bs: "m_tcp_conn (ds_writer t) = async_write bs c"
      "concat bs = concat (fst (prepare_buffers_for_send (get_keep_alive c) True (m_http_message w))) @
         body_text (m_client_supports_chunks w) False ?d"
    using sp(1) st unfolding op by (auto simp: chunked_headers_def w_def)
  have cl: "\<not> m_client_supports_chunks w \<longrightarrow> m_lifecycle c = LIFECYCLE_CLOSE" by (simp add: c_def w_def closing_def set_lifecycle_def)
  have tr: "in_transfer ops f content t"
    using t k sp(2,4) oc bs(1) cl by (simp add: in_transfer_def op)
  have mc: "m_client_supports_chunks (ds_writer t) = m_client_supports_chunks w" using sp(4) by (simp add: op)
  obtain j u cs where u: "complete_writes ops f j t = Inr u" "ds_pending u = None"
      "m_tcp_conn (ds_writer u) = finish_connection (async_write cs (m_tcp_conn (ds_writer t)))"
      "concat cs = concat (map (body_text (m_client_supports_chunks w) False) (pieces_of ?k (drop ?k content))) @
         (if m_client_supports_chunks w then last_chunk_text else [])"
    using transfer_rest [OF tr _ refl refl] st unfolding t(3,4,5) mc by auto
  have "m_tcp_conn (ds_writer u) = finish_connection (async_write (bs @ cs) c)"
    using u(3) bs(1) by (simp add: async_write_twice)
  moreover have "concat (bs @ cs) = concat (fst (prepare_buffers_for_send (get_keep_alive c) True (m_http_message w))) @
        concat (map (body_text (m_client_supports_chunks w) False) (pieces_of ?k content)) @
        (if m_client_supports_chunks w then last_chunk_text else [])"
    using bs(2) u(4) pieces_of_more [OF k] by simp
  ultimately show ?thesis using t(1) u(1,2) by blast
qed

end
