(* ===== verification/File_Safety.thy ===== *)
theory File_Safety
  imports File_Service
begin

text \<open>
  Memory safety of the file service over every sequence of requests, completed writes, options, starts, stops
  and changes of the file system: the buffers in the cache have the size of their files, a sender reads
  within them, and its buffer holds every piece.
\<close>

section \<open>Events\<close>

datatype 'f file_event =
    Ev_request http_message connection
  | Ev_completed nat "write_error option"
  | Ev_option string string
  | Ev_start
  | Ev_stop
  | Ev_files 'f

fun outcome_world :: "'w outcome \<Rightarrow> 'w" where
  "outcome_world (Returns _ _ w) = w"
| "outcome_world (Throws _ _ _ w) = w"
| "outcome_world (Throws_bad_alloc _ _ w) = w"

text \<open>One event; \<^const>\<open>None\<close> is a start whose scan does not return.\<close>

fun file_step :: "'f file_ops \<Rightarrow> 'f file_event \<Rightarrow> 'f file_world \<Rightarrow> (file_fault + 'f file_world) option" where
  "file_step ops (Ev_request request tcp_conn) w =
     Some (case handle_file_request ops request tcp_conn w of Inl e \<Rightarrow> Inl e | Inr r \<Rightarrow> Inr (outcome_world r))"
| "file_step ops (Ev_completed i ec) w =
     Some (if i < length (fw_senders w) then
             (case write_completed ops (fw_files w) ec (fw_senders w ! i) of
                Inl e \<Rightarrow> Inl e
              | Inr s \<Rightarrow> Inr (w\<lparr>fw_senders := (fw_senders w)[i := s]\<rparr>))
           else Inr w)"
| "file_step ops (Ev_option name value) w =
     Some (Inr (case set_file_option ops (fw_files w) name value (fw_service w) of
                  Inl _ \<Rightarrow> w
                | Inr s \<Rightarrow> w\<lparr>fw_service := s\<rparr>))"
| "file_step ops Ev_start w =
     map_option (\<lambda>(_, s). Inr (w\<lparr>fw_service := s\<rparr>)) (start_service ops (fw_files w) (fw_service w))"
| "file_step ops Ev_stop w = Some (Inr (w\<lparr>fw_service := stop_service (fw_service w)\<rparr>))"
| "file_step ops (Ev_files f) w = Some (Inr (w\<lparr>fw_files := f\<rparr>))"

fun file_run :: "'f file_ops \<Rightarrow> 'f file_event list \<Rightarrow> 'f file_world \<Rightarrow> (file_fault + 'f file_world) option" where
  "file_run ops [] w = Some (Inr w)"
| "file_run ops (ev # evs) w =
     (case file_step ops ev w of
        None \<Rightarrow> None
      | Some (Inl e) \<Rightarrow> Some (Inl e)
      | Some (Inr w) \<Rightarrow> file_run ops evs w)"

text \<open>The parser leaves a content length that stays within the buffer of the content.\<close>

fun event_ok :: "'f file_event \<Rightarrow> bool" where
  "event_ok (Ev_request request _) = content_readable request"
| "event_ok _ = True"

section \<open>The invariant\<close>

text \<open>An entry whose time is zero is read again before it is used.\<close>

definition file_ok :: "disk_file \<Rightarrow> bool" where
  "file_ok d \<longleftrightarrow> (\<forall>cells. m_file_content d = Some cells \<longrightarrow> length cells = m_file_size d)"

definition entry_ok :: "disk_file \<Rightarrow> bool" where
  "entry_ok d \<longleftrightarrow> m_last_modified d = 0 \<or> file_ok d"

definition service_ok :: "file_service \<Rightarrow> bool" where
  "service_ok s \<longleftrightarrow> (\<forall>p d. m_cache_map s p = Some d \<longrightarrow> entry_ok d)"

text \<open>The buffer of a sender has the size of the first piece, which is the largest.\<close>

definition first_piece :: "disk_file_sender \<Rightarrow> nat" where
  "first_piece s =
     (if 0 < ds_max_chunk_size s \<and> ds_max_chunk_size s < m_file_size (m_disk_file s) then ds_max_chunk_size s
      else m_file_size (m_disk_file s))"

definition sender_ready :: "disk_file_sender \<Rightarrow> bool" where
  "sender_ready s \<longleftrightarrow> file_ok (m_disk_file s) \<and>
     (m_file_content (m_disk_file s) = None \<longrightarrow>
       (case m_content_buf s of None \<Rightarrow> m_bytes_sent s = 0 | Some k \<Rightarrow> k = first_piece s))"

definition sender_ok :: "disk_file_sender \<Rightarrow> bool" where
  "sender_ok s \<longleftrightarrow> sender_ready s \<and>
     (ds_pending s = Some Sender_handler \<longrightarrow> m_file_content (m_disk_file s) \<noteq> None \<or> m_content_buf s \<noteq> None)"

definition world_ok :: "'f file_world \<Rightarrow> bool" where
  "world_ok w \<longleftrightarrow> service_ok (fw_service w) \<and> list_all sender_ok (fw_senders w)"

text \<open>What an operation may do: keep the invariant, or send memory that was never written.\<close>

definition safe_result :: "('a \<Rightarrow> bool) \<Rightarrow> file_fault + 'a \<Rightarrow> bool" where
  "safe_result P r = (case r of Inl e \<Rightarrow> e = Uninitialised | Inr x \<Rightarrow> P x)"

lemma safe_result_simps [simp]: "safe_result P (Inl e) \<longleftrightarrow> e = Uninitialised" "safe_result P (Inr x) \<longleftrightarrow> P x"
  by (simp_all add: safe_result_def)

section \<open>Senders\<close>

lemma sender_ready_frame:
  assumes "sender_ready s" and "m_disk_file t = m_disk_file s" and "m_content_buf t = m_content_buf s"
    and "m_bytes_sent t = m_bytes_sent s" and "ds_max_chunk_size t = ds_max_chunk_size s"
  shows "sender_ready t"
  using assms(1) unfolding sender_ready_def first_piece_def assms(2-5) .

text \<open>Once there is a buffer, the position does not matter.\<close>

lemma sender_ready_sent:
  assumes "sender_ready s" and "m_disk_file t = m_disk_file s" and "m_content_buf t = m_content_buf s"
    and "ds_max_chunk_size t = ds_max_chunk_size s" and "m_file_content (m_disk_file s) \<noteq> None \<or> m_content_buf s \<noteq> None"
  shows "sender_ready t"
  using assms(1,5) unfolding sender_ready_def first_piece_def assms(2-4) by (auto split: option.splits)

lemma cached_bytes_safe: "pos + n \<le> length cells \<Longrightarrow> safe_result (\<lambda>_. True) (cached_bytes cells pos n)"
  by (simp add: cached_bytes_def)

lemma get_file_bytes_safe:
  assumes "sender_ready s" and "m_bytes_sent s < m_file_size (m_disk_file s)"
    and n: "m_file_bytes_to_send s = (if 0 < ds_max_chunk_size s \<and> ds_max_chunk_size s < m_file_size (m_disk_file s) - m_bytes_sent s
        then ds_max_chunk_size s else m_file_size (m_disk_file s) - m_bytes_sent s)"
  shows "safe_result (\<lambda>(d, t). sender_ready t \<and> ds_pending t = ds_pending s \<and>
      (d \<noteq> None \<longrightarrow> m_file_content (m_disk_file t) \<noteq> None \<or> m_content_buf t \<noteq> None)) (get_file_bytes ops f s)"
proof (cases "m_file_content (m_disk_file s)")
  case (Some cells)
  then have len: "length cells = m_file_size (m_disk_file s)" using assms(1) by (simp add: sender_ready_def file_ok_def)
  have "m_bytes_sent s + m_file_bytes_to_send s \<le> length cells" using assms(2) n len by auto
  from cached_bytes_safe [OF this] Some assms(1) show ?thesis
    by (auto simp: get_file_bytes_def split: sum.splits)
next
  case None
  let ?k = "case m_content_buf s of None \<Rightarrow> m_file_bytes_to_send s | Some k \<Rightarrow> k"
  have k: "?k = first_piece s" "m_file_bytes_to_send s \<le> first_piece s"
    using assms None by (auto simp: sender_ready_def first_piece_def split: option.splits)
  have r: "sender_ready (s\<lparr>m_file_stream := x, m_content_buf := Some (first_piece s)\<rparr>)" for x
    using assms(1) by (simp add: sender_ready_def first_piece_def)
  show ?thesis
    using None k r assms(1) by (auto simp: get_file_bytes_def Let_def)
qed

lemma start_write_fields:
  "m_disk_file (start_write op h s) = m_disk_file s" "m_content_buf (start_write op h s) = m_content_buf s"
  "m_bytes_sent (start_write op h s) = m_bytes_sent s" "ds_max_chunk_size (start_write op h s) = ds_max_chunk_size s"
  "ds_pending (start_write op h s) \<in> {None, Some h}"
  by (simp_all add: start_write_def Let_def)

lemma start_write_ok:
  assumes "sender_ready s" and "m_file_content (m_disk_file s) \<noteq> None \<or> m_content_buf s \<noteq> None \<or> h \<noteq> Sender_handler"
  shows "sender_ok (start_write op h s)"
proof -
  have "sender_ready (start_write op h s)"
    by (rule sender_ready_frame [OF assms(1)]) (simp_all add: start_write_fields)
  then show ?thesis using assms(2) start_write_fields [of op h s] by (auto simp: sender_ok_def)
qed

lemma sender_send_safe:
  assumes "sender_ready s" shows "safe_result sender_ok (sender_send ops f s)"
proof (cases "m_file_size (m_disk_file s) \<le> m_bytes_sent s")
  case True
  then show ?thesis using start_write_ok [OF assms, of Writer_handler send] by (simp add: sender_send_def)
next
  case False
  let ?left = "m_file_size (m_disk_file s) - m_bytes_sent s"
  define n where n: "n = (if 0 < ds_max_chunk_size s \<and> ds_max_chunk_size s < ?left then ds_max_chunk_size s else ?left)"
  let ?s = "s\<lparr>m_file_bytes_to_send := n, ds_pending := None\<rparr>"
  have r: "sender_ready ?s" by (rule sender_ready_frame [OF assms]) simp_all
  have sz: "m_bytes_sent ?s < m_file_size (m_disk_file ?s)" using False by simp
  have sel: "m_bytes_sent ?s = m_bytes_sent s" "m_disk_file ?s = m_disk_file s" "ds_max_chunk_size ?s = ds_max_chunk_size s"
      "m_file_bytes_to_send ?s = n"
    by simp_all
  note g = get_file_bytes_safe [OF r sz, unfolded sel, OF n, of ops f]
  show ?thesis
  proof (cases "get_file_bytes ops f ?s")
    case (Inl e)
    then show ?thesis using g False unfolding sender_send_def Let_def n [symmetric] by simp
  next
    case (Inr p)
    obtain d t where p: "p = (d, t)" by fastforce
    have t: "sender_ready t" "ds_pending t = None" "d \<noteq> None \<longrightarrow> m_file_content (m_disk_file t) \<noteq> None \<or> m_content_buf t \<noteq> None"
      using g unfolding Inr p by simp_all
    show ?thesis
    proof (cases d)
      case None
      then show ?thesis using t False Inr p unfolding sender_send_def Let_def n [symmetric] by (simp add: sender_ok_def)
    next
      case (Some x)
      let ?t = "t\<lparr>ds_writer := write_no_copy x (ds_writer t)\<rparr>"
      have "sender_ready ?t" by (rule sender_ready_frame [OF t(1)]) simp_all
      then have "sender_ok (start_write op Sender_handler ?t)" for op using start_write_ok [of ?t] t(3) Some by simp
      then show ?thesis using False Inr p Some unfolding sender_send_def Let_def n [symmetric] by simp
    qed
  qed
qed

lemma finish_sender_ok: "sender_ready s \<Longrightarrow> sender_ok (finish_sender s)"
  using sender_ready_frame [of s "finish_sender s"] by (simp add: finish_sender_def sender_ok_def)

lemma write_completed_safe:
  assumes "sender_ok s" shows "safe_result sender_ok (write_completed ops f ec s)"
proof (cases "ds_pending s")
  case None
  then show ?thesis using assms by (simp add: write_completed_def)
next
  case (Some h)
  have ready: "sender_ready (s\<lparr>ds_writer := w\<rparr>)" for w
    using assms sender_ready_frame [of s "s\<lparr>ds_writer := w\<rparr>"] by (simp add: sender_ok_def)
  show ?thesis
  proof (cases h)
    case Writer_handler
    then show ?thesis using Some finish_sender_ok [OF ready] by (simp add: write_completed_def)
  next
    case Sender_handler
    then have b: "m_file_content (m_disk_file s) \<noteq> None \<or> m_content_buf s \<noteq> None" using assms Some by (simp add: sender_ok_def)
    have next_ready: "sender_ready (s\<lparr>m_bytes_sent := x, ds_writer := w\<rparr>)" for x w
      using assms b sender_ready_sent [of s "s\<lparr>m_bytes_sent := x, ds_writer := w\<rparr>"] by (simp add: sender_ok_def)
    have "sender_ready (s\<lparr>m_bytes_sent := x\<rparr>)" for x
      using assms b sender_ready_sent [of s "s\<lparr>m_bytes_sent := x\<rparr>"] by (simp add: sender_ok_def)
    then show ?thesis
      using Some Sender_handler finish_sender_ok [OF ready] finish_sender_ok
      by (auto simp: write_completed_def sender_handle_write_def Let_def intro!: sender_send_safe next_ready)
  qed
qed

section \<open>The cache\<close>

lemma disk_read_ok [simp]: "file_ok (disk_read ops f d)"
  by (auto simp: disk_read_def file_ok_def Let_def)

lemma no_content_ok [simp]: "m_file_content d = None \<Longrightarrow> file_ok d"
  by (simp add: file_ok_def)

lemma file_entry_ok: "file_ok d \<Longrightarrow> entry_ok d"
  by (simp add: entry_ok_def)

lemma disk_update_result:
  "disk_update ops f d = (r, e) \<Longrightarrow> m_file_content e = m_file_content d \<and> (r \<noteq> None \<longrightarrow> m_last_modified e = m_last_modified d)"
  by (auto simp: disk_update_def Let_def split: sum.splits)

lemma refresh_entry_ok:
  assumes "entry_ok d" and "refresh_entry ops f s d = (r, e)"
  shows "entry_ok e \<and> (\<forall>b. r = Inr b \<longrightarrow> file_ok e)"
proof (cases "m_last_modified d = 0")
  case True
  obtain x y where u: "disk_update ops f d = (x, y)" by fastforce
  from disk_update_result [OF u] True assms(2) u show ?thesis
    by (cases x) (auto simp: refresh_entry_def resetFileContent_def entry_ok_def split: if_splits)
next
  case False
  then have "file_ok d" using assms(1) by (simp add: entry_ok_def)
  then show ?thesis using assms False
    by (auto simp: refresh_entry_def checkUpdated_def entry_ok_def split: if_splits sum.splits)
qed

lemma use_entry_ok:
  assumes "entry_ok d" and "use_entry ops f s request d = (r, e)"
  shows "entry_ok e \<and> (\<forall>t x. r = Inr (t, x) \<longrightarrow> file_ok x \<and> t \<noteq> RESPONSE_UNDEFINED)"
proof -
  obtain x y where u: "refresh_entry ops f s d = (x, y)" by fastforce
  have c: "choose_response y request \<noteq> RESPONSE_UNDEFINED" by (simp add: choose_response_def)
  from refresh_entry_ok [OF assms(1) u] c assms(2) u show ?thesis
    by (cases x) (auto simp: use_entry_def resetFileContent_def file_entry_ok split: if_splits)
qed

lemma search_cache_ok:
  assumes "service_ok s" and "search_cache ops f request rel s = (r, u)"
  shows "service_ok u \<and> (\<forall>t x. r = Inr (t, x) \<longrightarrow> file_ok x)"
proof (cases "m_cache_map s rel")
  case None
  then show ?thesis using assms by (auto simp: search_cache_def new_disk_file_def split: if_splits)
next
  case (Some d)
  then have d: "entry_ok d" using assms(1) by (auto simp: service_ok_def)
  obtain x e where u: "use_entry ops f s request d = (x, e)" by fastforce
  have w: "\<forall>t x. uncached_entry ops f request d = Inr (t, x) \<longrightarrow> file_ok x"
    by (auto simp: uncached_entry_def new_disk_file_def split: prod.splits option.splits dest!: disk_update_result)
  show ?thesis
    using assms Some w use_entry_ok [OF d u] u
    by (auto simp: search_cache_def service_ok_def new_disk_file_def split: if_splits)
qed

lemma cache_insert_ok: "service_ok s \<Longrightarrow> entry_ok d \<Longrightarrow> service_ok (cache_insert p d s)"
  by (simp add: service_ok_def cache_insert_def)

lemma fresh_file_ok:
  assumes "service_ok s" and "fresh_file ops f request rel p s = (r, u)"
  shows "service_ok u \<and> (\<forall>t x. r = Inr (Some (t, x)) \<longrightarrow> file_ok x \<and> t \<noteq> RESPONSE_UNDEFINED)"
proof -
  obtain x d where u: "disk_update ops f (new_disk_file\<lparr>m_file_path := p, m_mime_type := findMIMEType (path_filename p)\<rparr>) = (x, d)"
    by fastforce
  have d: "file_ok d" using disk_update_result [OF u] by (simp add: new_disk_file_def)
  have c: "choose_response e request \<noteq> RESPONSE_UNDEFINED" for e by (simp add: choose_response_def)
  show ?thesis
    using assms u d c by (auto simp: fresh_file_def file_entry_ok Let_def intro!: cache_insert_ok split: sum.splits bool.splits option.splits if_splits)
qed

lemma addCacheEntry_ok:
  assumes "service_ok s" and "addCacheEntry ops f rel p b s = Inr u" shows "service_ok u"
proof -
  obtain x d where e: "disk_update ops f (make_disk_file p 0 0 (findMIMEType (path_filename p))) = (x, d)" by fastforce
  have "file_ok d" using disk_update_result [OF e] by (simp add: make_disk_file_def)
  then show ?thesis
    using assms e by (auto simp: addCacheEntry_def make_disk_file_def file_entry_ok Let_def intro!: cache_insert_ok split: option.splits if_splits)
qed

lemma scan_entries_ok:
  "scan_entries ops f ps s = Some x \<Longrightarrow> service_ok s \<longrightarrow> service_ok (snd x)"
proof (erule scan_entries.raw_induct [where P = "\<lambda>ops f ps s x. service_ok s \<longrightarrow> service_ok (snd x)", rotated], goal_cases)
  case (1 scan ops f ps s x)
  note ih = 1(1) and eq = 1(2)
  show ?case
  proof (cases ps)
    case Nil
    then show ?thesis using eq by auto
  next
    case (Cons p rest)
    show ?thesis
    proof (cases "fs_is_directory ops f p")
      case (Inl a)
      then show ?thesis using eq Cons by auto
    next
      case (Inr b)
      show ?thesis
      proof (cases b)
        case True
        then show ?thesis using eq Cons Inr ih by (auto split: sum.splits)
      next
        case False
        have "service_ok u" if "service_ok s" "scan_file ops f p s = Inr u" for u
          using that addCacheEntry_ok by (auto simp: scan_file_def split: if_splits)
        then show ?thesis using eq Cons Inr False ih by (auto split: sum.splits)
      qed
    qed
  qed
qed

lemma start_service_ok:
  assumes "service_ok s" and "start_service ops f s = Some (r, u)" shows "service_ok u"
proof (cases "m_scan_setting s = 0")
  case True
  then show ?thesis using assms by (simp add: start_service_def)
next
  case False
  define t where t: "t = (if m_cache_setting s = 0 \<and> 1 < m_scan_setting s then s\<lparr>m_cache_setting := 1\<rparr> else s)"
  define a where a: "a = (if m_file t \<noteq> [] then addCacheEntry ops f [] (m_file t) (m_scan_setting t = 1) t else Inr t)"
  have ok: "service_ok t" using assms(1) by (simp add: t service_ok_def)
  have e: "start_service ops f s = (case a of Inl what \<Rightarrow> Some (Some what, t)
        | Inr v \<Rightarrow> if m_directory v \<noteq> [] then scanDirectory ops f (m_directory v) v else Some (None, v))"
    unfolding start_service_def Let_def a t by (rule if_P) (rule False)
  show ?thesis
  proof (cases a)
    case (Inl what)
    then show ?thesis using e assms(2) ok by simp
  next
    case (Inr v)
    then have "service_ok v" using ok addCacheEntry_ok [OF ok, of ops f "[]"] by (auto simp: a split: if_splits)
    moreover have "service_ok (snd y)" if "scanDirectory ops f (m_directory v) v = Some y" "service_ok v" for y
      using that scan_entries_ok [of ops f _ v y] by (auto simp: scanDirectory_def split: sum.splits)
    moreover have "(if m_directory v \<noteq> [] then scanDirectory ops f (m_directory v) v else Some (None, v)) = Some (r, u)"
      using e assms(2) Inr by simp
    ultimately show ?thesis by (cases "m_directory v = []") fastforce+
  qed
qed

section \<open>Requests\<close>

lemma new_sender_ready: "file_ok d \<Longrightarrow> sender_ready (new_disk_file_sender d request c k)"
  by (simp add: new_disk_file_sender_def sender_ready_def)

lemma send_response_safe:
  assumes "world_ok w" and "file_ok d" and "t \<noteq> RESPONSE_UNDEFINED"
  shows "safe_result (\<lambda>r. world_ok (outcome_world r)) (send_response ops t d request c w)"
proof -
  have "safe_result (\<lambda>r. world_ok (outcome_world r)) (send_file ops d request c w)"
    using sender_send_safe [OF new_sender_ready [OF assms(2)], of ops "fw_files w" request c "m_max_chunk_size (fw_service w)"] assms(1)
    by (auto simp: send_file_def world_ok_def split: sum.splits)
  then show ?thesis using assms
    by (cases t) (simp_all add: send_response_def sendNotFoundResponse_def headers_response_def answer_with_def)
qed

lemma serve_file_safe:
  assumes "world_ok w" shows "safe_result (\<lambda>r. world_ok (outcome_world r)) (serve_file ops rel p request c w)"
proof -
  obtain x s where q: "search_cache ops (fw_files w) request rel (fw_service w) = (x, s)" by fastforce
  have s: "service_ok s" "\<forall>t d. x = Inr (t, d) \<longrightarrow> file_ok d"
    using search_cache_ok [OF _ q] assms by (auto simp: world_ok_def)
  have w: "world_ok (w\<lparr>fw_service := u\<rparr>)" if "service_ok u" for u using that assms by (simp add: world_ok_def)
  obtain y u where f: "fresh_file ops (fw_files w) request rel p s = (y, u)" by fastforce
  note fo = fresh_file_ok [OF s(1) f]
  show ?thesis
  proof (cases x)
    case (Inl e)
    then show ?thesis using q w s by (simp add: serve_file_def)
  next
    case (Inr td)
    obtain t d where td: "td = (t, d)" by fastforce
    show ?thesis
    proof (cases "t = RESPONSE_UNDEFINED")
      case False
      then show ?thesis using q Inr td s w send_response_safe [OF w] by (simp add: serve_file_def)
    next
      case True
      then have e: "serve_file ops rel p request c w =
          (case y of
             Inl what \<Rightarrow> Inr (Throws what request c (w\<lparr>fw_service := u\<rparr>))
           | Inr None \<Rightarrow> Inr (sendNotFoundResponse request c (w\<lparr>fw_service := u\<rparr>))
           | Inr (Some (t, d)) \<Rightarrow> send_response ops t d request c (w\<lparr>fw_service := u\<rparr>))"
        using q Inr td f by (simp add: serve_file_def split: sum.split option.split)
      have wu: "world_ok (w\<lparr>fw_service := u\<rparr>)" using fo w by blast
      show ?thesis unfolding e using wu fo send_response_safe [OF wu]
        by (auto simp: sendNotFoundResponse_def answer_with_def split: sum.splits option.splits)
    qed
  qed
qed

lemma store_file_safe:
  assumes "world_ok w" and "content_readable request"
  shows "safe_result (\<lambda>r. world_ok (outcome_world r)) (store_file ops p request c w)"
proof -
  have w: "world_ok (w\<lparr>fw_files := f\<rparr>)" for f using assms(1) by (simp add: world_ok_def)
  show ?thesis
    using assms w by (auto simp: store_file_def request_content_def answer_with_def Let_def split: sum.splits option.splits bool.splits)
qed

lemma delete_file_safe: "world_ok w \<Longrightarrow> safe_result (\<lambda>r. world_ok (outcome_world r)) (delete_file ops p request c w)"
  by (auto simp: delete_file_def sendNotFoundResponse_def answer_with_def world_ok_def split: sum.splits bool.splits)

lemma handle_file_request_safe:
  assumes "world_ok w" and "content_readable request"
  shows "safe_result (\<lambda>r. world_ok (outcome_world r)) (handle_file_request ops request c w)"
proof -
  have "safe_result (\<lambda>r. world_ok (outcome_world r)) (handle_file_path ops rel p request c w)" for rel p
    using assms serve_file_safe [OF assms(1)] store_file_safe [OF assms] delete_file_safe [OF assms(1)]
    by (auto simp: handle_file_path_def forbidden_response_def not_allowed_response_def not_implemented_response_def answer_with_def
        split: sum.splits bool.splits)
  then show ?thesis using assms(1)
    by (auto simp: handle_file_request_def sendNotFoundResponse_def answer_with_def Let_def split: option.splits)
qed

lemma set_file_option_ok: "service_ok s \<Longrightarrow> set_file_option ops f name value s = Inr u \<Longrightarrow> service_ok u"
  by (auto simp: set_file_option_def service_ok_def split: if_splits option.splits)

lemma file_step_safe:
  assumes "world_ok w" and "event_ok ev" and "file_step ops ev w = Some r"
  shows "safe_result world_ok r"
proof (cases ev)
  case (Ev_request request c)
  then show ?thesis using handle_file_request_safe [OF assms(1), of request ops c] assms by (auto split: sum.splits)
next
  case (Ev_completed i ec)
  show ?thesis
  proof (cases "i < length (fw_senders w)")
    case True
    then have "sender_ok (fw_senders w ! i)" using assms(1) by (simp add: world_ok_def list_all_length)
    from write_completed_safe [OF this, of ops "fw_files w" ec] True Ev_completed assms show ?thesis
      by (auto simp: world_ok_def list_all_length nth_list_update split: sum.splits)
  qed (use Ev_completed assms in auto)
next
  case (Ev_option name val)
  then show ?thesis using assms set_file_option_ok by (auto simp: world_ok_def split: sum.splits)
next
  case Ev_start
  then show ?thesis using assms start_service_ok by (auto simp: world_ok_def)
qed (use assms in \<open>auto simp: world_ok_def stop_service_def service_ok_def\<close>)

lemma file_run_safe:
  "world_ok w \<Longrightarrow> list_all event_ok evs \<Longrightarrow> file_run ops evs w = Some r \<Longrightarrow> safe_result world_ok r"
proof (induction evs arbitrary: w)
  case (Cons ev evs)
  show ?case
  proof (cases "file_step ops ev w")
    case (Some x)
    then have "safe_result world_ok x" using file_step_safe [OF Cons.prems(1) _ Some] Cons.prems(2) by simp
    then show ?thesis using Cons Some by (cases x) auto
  qed (use Cons.prems in simp)
qed auto

section \<open>A concrete file system\<close>

text \<open>A table of paths with content and time, for examples; every file is readable.\<close>

definition table_files :: "(string \<times> string \<times> int) list file_ops" where
  "table_files =
     \<lparr> fs_exists = (\<lambda>f p. Inr (map_of f p \<noteq> None)), fs_is_directory = (\<lambda>f p. Inr False),
       fs_file_size = (\<lambda>f p. case map_of f p of None \<Rightarrow> Inl ''no such file'' | Some (c, _) \<Rightarrow> Inr (length c)),
       fs_last_write_time = (\<lambda>f p. case map_of f p of None \<Rightarrow> Inl ''no such file'' | Some (_, t) \<Rightarrow> Inr t),
       fs_can_open = (\<lambda>f p. map_of f p \<noteq> None),
       fs_read = (\<lambda>f p pos n. case map_of f p of None \<Rightarrow> [] | Some (c, _) \<Rightarrow> take n (drop pos c)),
       fs_store = (\<lambda>mode p c f. case map_of f p of
          None \<Rightarrow> (p, c, 1) # f
        | Some (old, t) \<Rightarrow> (p, (if mode = Mode_app then old @ c else c), t + 1) # f),
       fs_remove = (\<lambda>p f. if map_of f p = None then Inl ''no such file'' else Inr (filter (\<lambda>e. fst e \<noteq> p) f)),
       fs_entries = (\<lambda>f p. Inr []) \<rparr>"

section \<open>Properties\<close>

definition idle_world :: "string \<Rightarrow> 'f \<Rightarrow> 'f file_world" where
  "idle_world resource f = \<lparr>fw_service = new_file_service resource, fw_files = f, fw_senders = []\<rparr>"

lemma idle_world_ok: "world_ok (idle_world resource f)"
  by (simp add: idle_world_def world_ok_def service_ok_def new_file_service_def)

text \<open>C17: The buffers of the file service stay well-formed. Whatever sequence of requests, completed writes, options,
  starts, stops and changes of the file system a new service goes through, every buffer that may be used
  has the size of its file, no sender reads behind the content or past its own buffer, and no assertion
  fails; the only fault left is the sending of memory that a failed read did not fill.\<close>

theorem file_buffers_well_formed:
  assumes "list_all event_ok evs" and "file_run ops evs (idle_world resource f) = Some r"
  shows "case r of Inl e \<Rightarrow> e = Uninitialised | Inr w \<Rightarrow> world_ok w"
  using file_run_safe [OF idle_world_ok assms] unfolding safe_result_def .

theorem file_buffers_well_formed_witness:
  "\<exists>w. file_run table_files
       [Ev_option ''file'' ''/a.txt'', Ev_request ((empty_message True)\<lparr>req_method := ''GET'', req_resource := ''/r''\<rparr>) (open_connection 1 (new_connection False True)),
        Ev_files [], Ev_completed 0 None] (idle_world ''/r'' [(''/a.txt'', ''hi'', 5)]) = Some (Inr w) \<and> world_ok w"
proof -
  let ?evs = "[Ev_option ''file'' ''/a.txt'', Ev_request ((empty_message True)\<lparr>req_method := ''GET'', req_resource := ''/r''\<rparr>) (open_connection 1 (new_connection False True)),
        Ev_files [], Ev_completed 0 None]"
  have e: "list_all event_ok ?evs" by code_simp
  have "case file_run table_files ?evs (idle_world ''/r'' [(''/a.txt'', ''hi'', 5)]) of Some (Inr w) \<Rightarrow> True | _ \<Rightarrow> False"
    by code_simp
  then obtain w where "file_run table_files ?evs (idle_world ''/r'' [(''/a.txt'', ''hi'', 5)]) = Some (Inr w)"
    by (auto split: option.splits sum.splits)
  with file_buffers_well_formed [OF e this] show ?thesis by auto
qed

end
