(* ===== verification/File_Props.thy ===== *)
theory File_Props
  imports File_Transfer File_Safety
begin

text \<open>
  Correctness of the file service: a client receives the file, when a file is declared unchanged, the
  invariant of the cache, the scan of the directory, and the paths that the check of the directory lets
  through.
\<close>

section \<open>Headers that a client can parse\<close>

lemma dict_parts:
  "set (dict_before d k) \<subseteq> set d" "set (equal_range d k) \<subseteq> set d" "set (dict_after d k) \<subseteq> set d"
  unfolding dict_before_def equal_range_def dict_after_def
  by (meson set_takeWhileD set_dropWhileD subsetI)+

lemma header_ok_insert:
  assumes "list_all header_ok d" and "header_ok (k, v)" shows "list_all header_ok (dict_insert k v d)"
  using assms dict_parts [of d k] by (auto simp: dict_insert_def list_all_iff)

lemma header_ok_change:
  assumes "list_all header_ok d" and "header_ok (k, v)" shows "list_all header_ok (change_value k v d)"
proof (cases "equal_range d k")
  case Nil
  then show ?thesis using header_ok_insert [OF assms] by (simp add: change_value_def)
next
  case (Cons e es)
  then have "e \<in> set d" using dict_parts(2) [of d k] by auto
  then have "header_ok (fst e, v)" using assms by (auto simp: header_ok_def list_all_iff)
  then show ?thesis using Cons assms dict_parts [of d k] by (auto simp: change_value_def list_all_iff)
qed

lemma value_char_digit: "d < 10 \<Longrightarrow> value_char (lower_digit d)"
proof -
  assume "d < 10"
  then have "d \<in> {0, 1, 2, 3, 4, 5, 6, 7, 8, 9}" by auto
  moreover have "list_all (\<lambda>d. value_char (lower_digit d)) [0, 1, 2, 3, 4, 5, 6, 7, 8, 9]" by code_simp
  ultimately show ?thesis by auto
qed

lemma value_char_to_string: "list_all value_char (to_string n)"
  using to_base_digits [of 10 n] value_char_digit by (auto simp: to_string_def list_all_iff)

lemma length_to_string: "n < 10 ^ Suc k \<Longrightarrow> length (to_string n) \<le> Suc k"
proof (induction k arbitrary: n)
  case 0
  then show ?case by (simp add: to_string_def to_base.simps)
next
  case (Suc k)
  show ?case
  proof (cases "n < 10")
    case True
    then show ?thesis by (simp add: to_string_def to_base.simps)
  next
    case False
    then have "n div 10 < 10 ^ Suc k" using Suc.prems by (simp add: less_mult_imp_div_less)
    from Suc.IH [OF this] False show ?thesis by (simp add: to_string_def to_base.simps [of 10 n])
  qed
qed

text \<open>A date whose year has at most four digits, and the types that the service knows.\<close>

definition four_digit_year :: "int \<Rightarrow> bool" where
  "four_digit_year t = (0 \<le> tm_year (gmtime t) \<and> tm_year (gmtime t) < 10000)"

lemma names_ok: "list_all (list_all value_char) day_names" "list_all (list_all value_char) month_names"
  by code_simp+

lemma header_ok_date:
  assumes "four_digit_year t" shows "header_ok (HEADER_LAST_MODIFIED, get_date_string t)"
proof -
  have d: "list_all value_char (two_digits n)" for n
    using value_char_to_string [of "nat n"] by (simp add: two_digits_def Let_def) code_simp
  have y: "list_all value_char (year_text y)" for y
    using value_char_to_string [of "nat y"] value_char_to_string [of "nat (- y)"]
    by (simp add: year_text_def) code_simp
  have n: "list_all value_char (day_names ! tm_wday (gmtime t))" "list_all value_char (month_names ! tm_mon (gmtime t))"
    using names_ok gmtime_ranges(2,11) [of t] by (simp_all add: list_all_length day_names_def month_names_def)
  have c: "list_all value_char '', ''" "list_all value_char '' ''" "list_all value_char '':''" "list_all value_char '' GMT''"
    by code_simp+
  have v: "list_all value_char (get_date_string t)"
    unfolding get_date_string_def Let_def list_all_append using d y n c by blast
  have "length (two_digits (tm_hour (gmtime t))) = 2" "length (two_digits (tm_min (gmtime t))) = 2"
      "length (two_digits (tm_sec (gmtime t))) = 2" "length (two_digits (tm_mday (gmtime t))) = 2"
    using gmtime_ranges [of t] by (simp_all add: two_digits_length)
  moreover have "length (day_names ! tm_wday (gmtime t)) = 3" "length (month_names ! tm_mon (gmtime t)) = 3"
    using gmtime_ranges(2,11) [of t] by (auto simp: day_names_def month_names_def less_Suc_eq numeral_eq_Suc)
  moreover have "length (year_text (tm_year (gmtime t))) \<le> 4"
    using assms length_to_string [of "nat (tm_year (gmtime t))" 3] by (simp add: year_text_def four_digit_year_def nat_less_iff)
  ultimately have "length (get_date_string t) \<le> 29" by (simp add: get_date_string_def Let_def)
  moreover have "header_ok (HEADER_LAST_MODIFIED, [])" by code_simp
  ultimately show ?thesis using v by (simp add: header_ok_def HEADER_VALUE_MAX_def)
qed

lemma header_ok_mime: "header_ok (HEADER_CONTENT_TYPE, findMIMEType name)"
proof -
  have "list_all (\<lambda>t. header_ok (HEADER_CONTENT_TYPE, t)) (DEFAULT_MIME_TYPE # map snd createMIMETypes)" by code_simp
  then show ?thesis
    by (auto simp: findMIMEType_def Let_def list_all_iff split: option.splits dest!: map_of_SomeD)
qed

section \<open>The response of a sender\<close>

definition file_response :: "disk_file \<Rightarrow> http_message \<Rightarrow> http_message" where
  "file_response d request =
     (set_status_message RESPONSE_MESSAGE_OK \<circ> set_status_code RESPONSE_CODE_OK \<circ>
      add_header HEADER_LAST_MODIFIED (m_last_modified_string d) \<circ> set_content_type (m_mime_type d)) (response_for request)"

text \<open>A file with the names that the service gives, and a request of protocol 1.1.\<close>

definition served_file :: "disk_file \<Rightarrow> bool" where
  "served_file d \<longleftrightarrow> (\<exists>name. m_mime_type d = findMIMEType name) \<and>
     (\<exists>t. m_last_modified_string d = get_date_string t \<and> four_digit_year t)"

definition modern_get :: "http_message \<Rightarrow> bool" where
  "modern_get request \<longleftrightarrow> req_method request = REQUEST_METHOD_GET \<and> msg_version_major request = 1 \<and> 1 \<le> msg_version_minor request"

lemma response_for_modern:
  assumes "modern_get request"
  shows "response_for request = (empty_message False)\<lparr>resp_request_method := ''GET'', msg_chunks_supported := True\<rparr>"
  using assms by (simp add: modern_get_def response_for_def update_request_info_def REQUEST_METHOD_GET_def)

lemma status_ok_text: "list_all text_char RESPONSE_MESSAGE_OK" "length RESPONSE_MESSAGE_OK \<le> STATUS_MESSAGE_MAX"
  "unat RESPONSE_CODE_OK < 2 ^ 16"
  by code_simp+

lemma file_response_fields:
  assumes "modern_get request"
    and "m = file_response d request"
  shows "\<not> msg_is_request m" "msg_first_line m = []" "msg_chunks_supported m" "\<not> msg_do_not_send_content_length m"
    "resp_status_message m = RESPONSE_MESSAGE_OK" "resp_status_code m = RESPONSE_CODE_OK" "resp_request_method m = ''GET''"
    "msg_cookie_params m = []" "req_query_params m = []"
    "msg_headers m = dict_insert HEADER_LAST_MODIFIED (m_last_modified_string d) (change_value HEADER_CONTENT_TYPE (m_mime_type d) [])"
  by (simp_all add: assms(2) file_response_def response_for_modern [OF assms(1)] empty_message_def set_status_message_def
      set_status_code_def clear_first_line_def add_header_def set_content_type_def)

lemma file_headers_list:
  "dict_insert HEADER_LAST_MODIFIED v (change_value HEADER_CONTENT_TYPE t []) = [(HEADER_LAST_MODIFIED, v), (HEADER_CONTENT_TYPE, t)]"
proof -
  have "\<not> iequals HEADER_CONTENT_TYPE HEADER_LAST_MODIFIED" by code_simp
  then show ?thesis
    by (simp add: dict_insert_def change_value_def equal_range_def dict_before_def dict_after_def iequal_to_def)
qed

lemma file_response_ok:
  assumes "modern_get request" and "served_file d"
  shows "msg_dicts_ok (file_response d request)" and "first_line_fresh (file_response d request)"
    and "list_all header_ok (msg_headers (file_response d request))"
    and "\<not> has_header (file_response d request) HEADER_TRANSFER_ENCODING"
proof -
  note f = file_response_fields [OF assms(1) refl, of d]
  show "msg_dicts_ok (file_response d request)"
    unfolding msg_dicts_ok_def f by (simp add: dict.inv_insert dict.inv_change dict.inv_empty)
  show "first_line_fresh (file_response d request)" by (simp add: first_line_fresh_def f)
  have "header_ok (HEADER_LAST_MODIFIED, m_last_modified_string d)" "header_ok (HEADER_CONTENT_TYPE, m_mime_type d)"
    using assms(2) header_ok_date header_ok_mime by (auto simp: served_file_def)
  then show "list_all header_ok (msg_headers (file_response d request))" by (simp add: f file_headers_list)
  have "\<not> iequals HEADER_CONTENT_TYPE HEADER_TRANSFER_ENCODING" "\<not> iequals HEADER_LAST_MODIFIED HEADER_TRANSFER_ENCODING"
    by code_simp+
  then show "\<not> has_header (file_response d request) HEADER_TRANSFER_ENCODING"
    by (simp add: has_header_def f file_headers_list dict_find_def iequal_to_def)
qed

text \<open>The headers of the prepared message.\<close>

lemma prepared_headers:
  assumes "prepare_buffers_for_send ka chunks m = (bufs, m')" and "msg_cookie_params m = []"
  shows "msg_headers m' = msg_headers (prepare_headers_for_send ka chunks m)"
proof -
  let ?p = "prepare_headers_for_send ka chunks m"
  obtain line n where g: "get_first_line ?p = (line, n)" by fastforce
  have "msg_cookie_params ?p = []"
    using assms(2) by (simp add: prepare_headers_for_send_def change_header_def Let_def)
  then have n: "msg_headers n = msg_headers ?p" "msg_cookie_params n = []"
    using g by (auto simp: get_first_line_def update_first_line_def Let_def split: if_splits)
  have "append_cookie_headers n = n" using n(2) by (simp add: append_cookie_headers_def)
  then show ?thesis using assms(1) g n(1) by (simp add: prepare_buffers_for_send_def Let_def) 
qed

lemma header_ok_connection:
  "header_ok (HEADER_CONNECTION, if ka then ''Keep-Alive'' else ''close'')" "header_ok (HEADER_TRANSFER_ENCODING, ''chunked'')"
proof -
  have "header_ok (HEADER_CONNECTION, ''Keep-Alive'')" "header_ok (HEADER_CONNECTION, ''close'')" by code_simp+
  then show "header_ok (HEADER_CONNECTION, if ka then ''Keep-Alive'' else ''close'')" by simp
  show "header_ok (HEADER_TRANSFER_ENCODING, ''chunked'')" by code_simp
qed

lemma header_ok_length:
  assumes "n < 2 ^ 64" shows "header_ok (HEADER_CONTENT_LENGTH, to_string n)"
proof -
  have "length (to_string n) \<le> 20" using length_to_string [of n 19] assms by simp
  moreover have "header_ok (HEADER_CONTENT_LENGTH, [])" by code_simp
  ultimately show ?thesis using value_char_to_string [of n] by (simp add: header_ok_def HEADER_VALUE_MAX_def)
qed

lemma prepared_headers_ok:
  assumes "prepare_buffers_for_send ka chunks m = (bufs, m')" and "msg_cookie_params m = []"
    and "list_all header_ok (msg_headers m)" and "msg_content_length m < 2 ^ 64"
  shows "list_all header_ok (msg_headers m')"
  unfolding prepared_headers [OF assms(1,2)] prepare_headers_for_send_def Let_def
  using assms(3,4) header_ok_connection(1) [of ka] header_ok_connection(2) header_ok_length
  by (auto simp: change_header_def intro!: header_ok_change)

text \<open>Preparing does not look at the content.\<close>

lemma prepare_buffers_content:
  assumes "msg_cookie_params m = []"
  shows "prepare_buffers_for_send ka chunks (m\<lparr>msg_content_buf := b\<rparr>) =
      (fst (prepare_buffers_for_send ka chunks m), (snd (prepare_buffers_for_send ka chunks m))\<lparr>msg_content_buf := b\<rparr>)"
proof -
  let ?p = "prepare_headers_for_send ka chunks m"
  have p: "prepare_headers_for_send ka chunks (m\<lparr>msg_content_buf := b\<rparr>) = ?p\<lparr>msg_content_buf := b\<rparr>"
    by (simp add: prepare_headers_for_send_def change_header_def Let_def)
  have c: "msg_cookie_params (snd (get_first_line ?p)) = []"
    using assms by (simp add: get_first_line_def update_first_line_def prepare_headers_for_send_def change_header_def Let_def)
  have g: "get_first_line (?p\<lparr>msg_content_buf := b\<rparr>) = (fst (get_first_line ?p), (snd (get_first_line ?p))\<lparr>msg_content_buf := b\<rparr>)"
    by (simp add: get_first_line_def update_first_line_def get_version_string_def Let_def)
  have a: "append_cookie_headers n = n" if "msg_cookie_params n = []" for n
    using that by (simp add: append_cookie_headers_def)
  show ?thesis
    by (simp add: prepare_buffers_for_send_def p g a c append_headers_def split_beta Let_def)
qed

lemma prepared_length:
  assumes "msg_cookie_params m = []"
  shows "msg_content_length (snd (prepare_buffers_for_send ka chunks m)) = msg_content_length m"
proof -
  let ?n = "snd (get_first_line (prepare_headers_for_send ka chunks m))"
  have n: "msg_content_length ?n = msg_content_length m" "msg_cookie_params ?n = []"
    using assms by (simp_all add: get_first_line_def update_first_line_def prepare_headers_for_send_def change_header_def Let_def)
  have "append_cookie_headers ?n = ?n" using n(2) by (simp add: append_cookie_headers_def)
  then show ?thesis using n(1) by (simp add: prepare_buffers_for_send_def split_beta Let_def)
qed

lemma plain_response_parsed:
  assumes "sendable_response limit request_method (set_content content m)" and "msg_cookie_params m = []" and "content \<noteq> []"
    and "prepare_buffers_for_send ka False (set_content_length (length content) m) = (bufs, m')"
    and "list_all header_ok (msg_headers m')"
  shows "\<exists>q n. parse (set_read_buffer (concat bufs @ content @ rest) (new_parser False limit)) (new_response request_method) =
      Inr (true_value, None, q, n) \<and> m_read q = rest \<and> content_bytes n = content \<and>
    resp_status_code n = resp_status_code m \<and> resp_status_message n = resp_status_message m \<and>
    (\<forall>k. mset (dict_values (msg_headers n) k) = mset (dict_values (msg_headers m') k))"
proof -
  let ?b = "map Some content" and ?m = "set_content_length (length content) m"
  have e: "set_content content m = ?m\<lparr>msg_content_buf := ?b\<rparr>" by (simp add: set_content_result set_content_length_def)
  have c: "msg_cookie_params ?m = []" using assms(2) by (simp add: set_content_length_def)
  have l: "msg_content_length m' = length content"
    using prepared_length [OF c, of ka False] assms(4) by (simp add: set_content_length_def)
  have "content_bytes (m'\<lparr>msg_content_buf := ?b\<rparr>) = content" "content_readable (m'\<lparr>msg_content_buf := ?b\<rparr>)"
    using l by (simp_all add: content_bytes_def content_readable_def take_map)
  then have s: "send_buffers ka False (set_content content m) = Some (bufs @ [content], m'\<lparr>msg_content_buf := ?b\<rparr>)"
    using prepare_buffers_content [OF c, of ka False ?b] assms(3,4) l by (simp add: e send_buffers_def)
  have h: "list_all header_ok (msg_headers (m'\<lparr>msg_content_buf := ?b\<rparr>))" using assms(5) by simp
  have f: "resp_status_code (set_content content m) = resp_status_code m"
      "resp_status_message (set_content content m) = resp_status_message m"
    by (simp_all add: set_content_result)
  from response_roundtrip_lemma [OF assms(1) s h, of rest] show ?thesis
    by (simp add: set_content_bytes f) blast
qed

section \<open>A client receives the file\<close>

lemma sender_starts:
  assumes "modern_get request" and "is_open tcp_conn" and "content \<noteq> []" and "length content < 2 ^ 64"
    and "m_file_size d = length content"
    and "m_file_content d = Some (map Some content) \<or> m_file_content d = None \<and> reads_content ops f (m_file_path d) content"
  shows "starts_file ops f content (new_disk_file_sender d request tcp_conn k)"
    and "ds_writer (new_disk_file_sender d request tcp_conn k) = (new_writer tcp_conn (file_response d request))"
proof -
  let ?s = "new_disk_file_sender d request tcp_conn k"
  have "msg_chunks_supported (response_for request)" using response_for_modern [OF assms(1)] by simp
  then show w: "ds_writer ?s = new_writer tcp_conn (file_response d request)"
    by (simp add: new_disk_file_sender_def response_writer_for_def edit_response_def new_writer_def file_response_def Let_def)
  have "m_disk_file ?s = d" "m_bytes_sent ?s = 0" "m_file_stream ?s = None" "m_content_buf ?s = None"
    by (simp_all add: new_disk_file_sender_def)
  then show "starts_file ops f content ?s"
    unfolding starts_file_def w using assms(2-6)
    by (auto simp: source_ok_def fresh_writer_def new_writer_def writer_ok_def writer_content_def)
qed

lemma prepared_last_modified:
  assumes "modern_get request" and "prepare_buffers_for_send ka chunks (m\<lparr>msg_content_length := l\<rparr>) = (bufs, m')"
    and "m = file_response d request"
  shows "dict_values (msg_headers m') HEADER_LAST_MODIFIED = [m_last_modified_string d]"
proof -
  note f = file_response_fields [OF assms(1,3)]
  have v: "dict_values (msg_headers m) HEADER_LAST_MODIFIED = [m_last_modified_string d]"
  proof -
    have "iequals HEADER_LAST_MODIFIED HEADER_LAST_MODIFIED" "\<not> iequals HEADER_CONTENT_TYPE HEADER_LAST_MODIFIED" by code_simp+
    then show ?thesis by (simp add: f file_headers_list dict_values_def iequal_to_def)
  qed
  have n: "\<not> iequals HEADER_CONNECTION HEADER_LAST_MODIFIED" "\<not> iequals HEADER_TRANSFER_ENCODING HEADER_LAST_MODIFIED"
      "\<not> iequals HEADER_CONTENT_LENGTH HEADER_LAST_MODIFIED"
    by code_simp+
  have g: "grouped (msg_headers m)"
    unfolding f by (simp add: dict.inv_insert dict.inv_change dict.inv_empty)
  have "msg_headers m' = msg_headers (prepare_headers_for_send ka chunks (m\<lparr>msg_content_length := l\<rparr>))"
    using prepared_headers [OF assms(2)] f by simp
  then show ?thesis
    using v n g dict.inv_change [OF g]
    by (simp add: prepare_headers_for_send_def change_header_def dict.values_change Let_def)
qed

lemma file_response_sendable:
  assumes "modern_get request" and "served_file d"
  shows "sendable_chunked (file_response d request)"
    and "length content \<le> limit \<Longrightarrow> limit < 2 ^ 63 \<Longrightarrow> sendable_response limit ''GET'' (set_content content (file_response d request))"
proof -
  note f = file_response_fields [OF assms(1) refl, of d] and ok = file_response_ok [OF assms]
  show "sendable_chunked (file_response d request)"
    using f ok status_ok_text by (simp add: sendable_chunked_def)
  have i: "\<not> is_content_length_implied ((set_content content (file_response d request))\<lparr>resp_request_method := ''GET''\<rparr>)"
    using f by (simp add: is_content_length_implied_def set_content_result REQUEST_METHOD_HEAD_def RESPONSE_CODE_OK_def)
  show "sendable_response limit ''GET'' (set_content content (file_response d request))"
    if "length content \<le> limit" "limit < 2 ^ 63"
    unfolding sendable_response_def using f ok status_ok_text i that
    by (simp add: set_content_result msg_dicts_ok_def first_line_fresh_def has_header_def)
qed

lemma finished_conn: "m_finished_handler c \<Longrightarrow> c_finished (finish_connection c) = c_finished c + 1"
    "c_written (finish_connection c) = c_written c" "c_written (async_write bs c) = c_written c @ bs"
    "c_finished (async_write bs c) = c_finished c"
  by (simp_all add: finish_connection_def async_write_def)

lemma length_le_concat: "x \<in> set xs \<Longrightarrow> length x \<le> length (concat xs)"
  by (induction xs) auto

lemma file_download_lemma:
  assumes "modern_get request" and "served_file d" and "is_open tcp_conn" and "c_written tcp_conn = []" and "m_finished_handler tcp_conn"
    and "content \<noteq> []" and "length content \<le> limit" and "limit < 2 ^ 63" and "m_file_size d = length content"
    and "m_file_content d = Some (map Some content) \<or> m_file_content d = None \<and> reads_content ops f (m_file_path d) content"
  shows "\<exists>s k u q n. sender_send ops f (new_disk_file_sender d request tcp_conn max_chunk) = Inr s \<and>
      complete_writes ops f k s = Inr u \<and> ds_pending u = None \<and> c_finished (m_tcp_conn (ds_writer u)) = c_finished tcp_conn + 1 \<and>
      parse (set_read_buffer (concat (c_written (m_tcp_conn (ds_writer u))) @ rest) (new_parser False limit)) (new_response ''GET'') =
        Inr (true_value, None, q, n) \<and> m_read q = rest \<and> content_bytes n = content \<and> resp_status_code n = RESPONSE_CODE_OK \<and>
      mset (dict_values (msg_headers n) HEADER_LAST_MODIFIED) = {#m_last_modified_string d#}"
proof -
  let ?s = "new_disk_file_sender d request tcp_conn max_chunk" and ?m = "file_response d request"
  have small: "length content < 2 ^ 64" "length content < 2 ^ 63" using assms(7,8) by simp_all
  note st = sender_starts [OF assms(1,3,6) small(1) assms(9,10), of max_chunk]
  have w: "m_tcp_conn (ds_writer ?s) = tcp_conn" "m_http_message (ds_writer ?s) = ?m" "m_client_supports_chunks (ds_writer ?s)"
    unfolding st(2) by (simp_all add: new_writer_def)
  note f = file_response_fields [OF assms(1) refl, of d] and ok = file_response_ok [OF assms(1,2)]
  note sendable = file_response_sendable [OF assms(1,2)]
  show ?thesis
  proof (cases "whole_file ?s content")
    case True
    obtain bufs m' where b: "prepare_buffers_for_send (get_keep_alive tcp_conn) False (set_content_length (length content) ?m) = (bufs, m')"
      by fastforce
    obtain t u bs where t: "sender_send ops f ?s = Inr t" "complete_writes ops f 1 t = Inr u" "ds_pending u = None"
        "m_tcp_conn (ds_writer u) = finish_connection (async_write bs tcp_conn)" "concat bs = concat bufs @ content"
      using sender_whole_file [OF st(1) True] unfolding w b by auto
    have h: "list_all header_ok (msg_headers m')"
      using prepared_headers_ok [OF b] f ok small by (simp add: set_content_length_def)
    have lm: "dict_values (msg_headers m') HEADER_LAST_MODIFIED = [m_last_modified_string d]"
      using prepared_last_modified [OF assms(1) _ refl] b by (simp add: set_content_length_def)
    have wr: "concat (c_written (m_tcp_conn (ds_writer u))) @ rest = concat bufs @ content @ rest"
        "c_finished (m_tcp_conn (ds_writer u)) = c_finished tcp_conn + 1"
      using t(4,5) assms(4,5) by (simp_all add: finished_conn)
    obtain q n where r: "parse (set_read_buffer (concat bufs @ content @ rest) (new_parser False limit)) (new_response ''GET'') =
          Inr (true_value, None, q, n)" "m_read q = rest" "content_bytes n = content" "resp_status_code n = RESPONSE_CODE_OK"
        "mset (dict_values (msg_headers n) HEADER_LAST_MODIFIED) = mset (dict_values (msg_headers m') HEADER_LAST_MODIFIED)"
      using plain_response_parsed [OF sendable(2) [OF assms(7,8)] f(8) assms(6) b h, of rest] unfolding f(6)
      by (elim exE conjE) (rule that, assumption+, erule spec)
    have m: "mset (dict_values (msg_headers n) HEADER_LAST_MODIFIED) = {#m_last_modified_string d#}"
      unfolding r(5) lm by simp
    note r(1) [folded wr(1)]
    with t(1-3) wr(2) r(2-4) m show ?thesis
      by (intro exI [of _ t] exI [of _ 1] exI [of _ u] exI [of _ q] exI [of _ n] conjI)
  next
    case False
    have cl: "closing (ds_writer ?s) tcp_conn = tcp_conn" using w by (simp add: closing_def)
    obtain bufs m' where b: "prepare_buffers_for_send (get_keep_alive tcp_conn) True ?m = (bufs, m')" by fastforce
    let ?ds = "pieces_of (ds_max_chunk_size ?s) content"
    obtain t k u bs where t: "sender_send ops f ?s = Inr t" "complete_writes ops f k t = Inr u" "ds_pending u = None"
        "m_tcp_conn (ds_writer u) = finish_connection (async_write bs tcp_conn)"
        "concat bs = concat bufs @ concat (map (body_text True False) ?ds) @ last_chunk_text"
      using sender_chunked_file [OF st(1) False] unfolding w cl b by (auto simp: w)
    have h: "list_all header_ok (msg_headers m')"
      using prepared_headers_ok [OF b] f ok by (simp add: file_response_def response_for_modern [OF assms(1)] empty_message_def
          set_status_message_def set_status_code_def clear_first_line_def add_header_def set_content_type_def)
    have lm: "dict_values (msg_headers m') HEADER_LAST_MODIFIED = [m_last_modified_string d]"
      using prepared_last_modified [OF assms(1) _ refl, where l = "msg_content_length ?m"] b by simp
    have ds: "list_all (\<lambda>d. length d < 2 ^ 63) ?ds"
    proof -
      have "length x \<le> length content" if "x \<in> set ?ds" for x
        using length_le_concat [OF that] by (simp only: concat_pieces_of)
      then show ?thesis using small(2) by (fastforce simp: list_all_iff)
    qed
    have "length (concat ?ds) \<le> limit" using assms(7) by (simp add: concat_pieces_of)
    note parsed = chunked_response_lemma [OF sendable(1) b h ds this, of rest "''GET''"]
    have wr: "concat (c_written (m_tcp_conn (ds_writer u))) @ rest =
          concat bufs @ concat (map (body_text True False) ?ds) @ last_chunk_text @ rest"
        "c_finished (m_tcp_conn (ds_writer u)) = c_finished tcp_conn + 1"
      using t(4,5) assms(4,5) by (simp_all add: finished_conn)
    obtain q n where r: "parse (set_read_buffer (concat bufs @ concat (map (body_text True False) ?ds) @ last_chunk_text @ rest)
          (new_parser False limit)) (new_response ''GET'') = Inr (true_value, None, q, n)" "m_read q = rest" "content_bytes n = content"
        "resp_status_code n = RESPONSE_CODE_OK" "mset (dict_values (msg_headers n) HEADER_LAST_MODIFIED) = mset (dict_values (msg_headers m') HEADER_LAST_MODIFIED)"
      using parsed unfolding f(6) concat_pieces_of by (elim exE conjE) (rule that, assumption+, erule spec)
    have m: "mset (dict_values (msg_headers n) HEADER_LAST_MODIFIED) = {#m_last_modified_string d#}"
      unfolding r(5) lm by simp
    note r(1) [folded wr(1)]
    with t(1-3) wr(2) r(2-4) m show ?thesis
      by (intro exI [of _ t] exI [of _ k] exI [of _ u] exI [of _ q] exI [of _ n] conjI)
  qed
qed

section \<open>From the request to the sender\<close>

text \<open>A readable file of the file system, with its content and the time of its last change.\<close>

definition file_there :: "'f file_ops \<Rightarrow> 'f \<Rightarrow> string \<Rightarrow> string \<Rightarrow> int \<Rightarrow> bool" where
  "file_there ops f p content t \<longleftrightarrow>
     fs_exists ops f p = Inr True \<and> fs_is_directory ops f p = Inr False \<and> fs_file_size ops f p = Inr (length content) \<and>
     fs_last_write_time ops f p = Inr t \<and> reads_content ops f p content"

definition file_info :: "string \<Rightarrow> string \<Rightarrow> nat \<Rightarrow> int \<Rightarrow> disk_file" where
  "file_info p mime n t =
     \<lparr> m_file_path = p, m_file_content = None, m_file_size = n, m_last_modified = t,
       m_last_modified_string = get_date_string t, m_mime_type = mime \<rparr>"

lemma disk_update_there:
  "file_there ops f p content t \<Longrightarrow> m_file_path d = p \<Longrightarrow>
     disk_update ops f d = (None, d\<lparr>m_file_size := length content, m_last_modified := t, m_last_modified_string := get_date_string t\<rparr>)"
  by (simp add: disk_update_def file_there_def Let_def)

lemma disk_read_there:
  "file_there ops f p content t \<Longrightarrow> m_file_path d = p \<Longrightarrow> m_file_size d = length content \<Longrightarrow>
     disk_read ops f d = d\<lparr>m_file_content := Some (map Some content)\<rparr>"
  by (simp add: disk_read_def file_there_def reads_content_def Let_def)

text \<open>Whether the service keeps the content of a file in memory.\<close>

definition caches :: "file_service \<Rightarrow> nat \<Rightarrow> bool" where
  "caches s n \<longleftrightarrow> m_cache_setting s \<noteq> 0 \<and> (m_max_cache_size s = 0 \<or> n \<le> m_max_cache_size s)"

definition new_entry :: "file_service \<Rightarrow> string \<Rightarrow> string \<Rightarrow> int \<Rightarrow> disk_file" where
  "new_entry s p content t =
     (file_info p (findMIMEType (path_filename p)) (length content) t)
       \<lparr>m_file_content := if caches s (length content) then Some (map Some content) else None\<rparr>"

lemma fresh_file_there:
  assumes "file_there ops f p content t"
    and d: "d = file_info p (findMIMEType (path_filename p)) (length content) t" and r: "r = choose_response d request"
  shows "fresh_file ops f request rel p s =
     (Inr (Some (r, if r = RESPONSE_OK then new_entry s p content t else d)),
      if r = RESPONSE_OK \<and> m_cache_setting s \<noteq> 0 then cache_insert rel (new_entry s p content t) s else s)"
proof -
  have u: "disk_update ops f (new_disk_file\<lparr>m_file_path := p, m_mime_type := findMIMEType (path_filename p)\<rparr>) = (None, d)"
    using disk_update_there [OF assms(1)] by (simp add: new_disk_file_def file_info_def d)
  have s: "m_file_size d = length content" "d\<lparr>m_file_content := None\<rparr> = d" by (simp_all add: d file_info_def)
  have rd: "disk_read ops f d = d\<lparr>m_file_content := Some (map Some content)\<rparr>"
    using disk_read_there [OF assms(1), of d] s by (simp add: d file_info_def)
  have e: "new_entry s p content t = (if caches s (length content) then disk_read ops f d else d)"
    using s(2) by (simp add: new_entry_def rd d [symmetric])
  have "fs_exists ops f p = Inr True" using assms(1) by (simp add: file_there_def)
  then show ?thesis unfolding fresh_file_def e by (simp add: u s(1) r [symmetric] caches_def Let_def)
qed

text \<open>A request for a file that the cache does not know: the answer and the state afterwards.\<close>

definition fresh_request :: "file_service \<Rightarrow> string \<Rightarrow> bool" where
  "fresh_request s rel \<longleftrightarrow> m_cache_map s rel = None \<and> m_scan_setting s \<noteq> 1 \<and> m_scan_setting s \<noteq> 3"

lemma serve_fresh:
  assumes "fresh_request (fw_service world) rel" and "file_there ops (fw_files world) p content t"
    and "get_header request HEADER_IF_MODIFIED_SINCE \<noteq> get_date_string t" and "req_method request = REQUEST_METHOD_GET"
  defines "d \<equiv> new_entry (fw_service world) p content t"
  shows "serve_file ops rel p request tcp_conn world =
     send_file ops d request tcp_conn
       (world\<lparr>fw_service := if m_cache_setting (fw_service world) \<noteq> 0 then cache_insert rel d (fw_service world) else fw_service world\<rparr>)"
proof -
  let ?s = "fw_service world"
  have c: "search_cache ops (fw_files world) request rel ?s = (Inr (RESPONSE_UNDEFINED, new_disk_file), ?s)"
    using assms(1) by (simp add: search_cache_def fresh_request_def)
  have g: "REQUEST_METHOD_GET \<noteq> REQUEST_METHOD_HEAD" by (simp add: REQUEST_METHOD_GET_def REQUEST_METHOD_HEAD_def)
  have r: "choose_response (file_info p mime n t) request = RESPONSE_OK" for mime n
    using assms(3,4) g by (auto simp: choose_response_def file_info_def)
  show ?thesis
    using c fresh_file_there [OF assms(2) refl refl, of request rel ?s] unfolding r by (simp add: serve_file_def send_response_def d_def)
qed

text \<open>The check of the directory compares the beginnings of the texts.\<close>

lemma starts_with_path_append:
  assumes "rel \<noteq> []" and "hd rel \<noteq> CHR ''/''" shows "starts_with (path_append dir rel) dir"
  using assms by (simp add: starts_with_def path_append_def)

lemma handle_existing:
  assumes "m_directory (fw_service world) \<noteq> []"
    and "rel = get_relative_resource (svc_resource (fw_service world)) (req_resource request)"
    and "rel \<noteq> []" and "hd rel \<noteq> CHR ''/''"
    and "p = path_append (m_directory (fw_service world)) rel" and "fs_is_directory ops (fw_files world) p = Inr False"
    and "req_method request = REQUEST_METHOD_GET"
  shows "handle_file_request ops request tcp_conn world = serve_file ops rel p request tcp_conn world"
proof -
  have s: "starts_with p (m_directory (fw_service world))" unfolding assms(5) by (rule starts_with_path_append [OF assms(3,4)])
  have q: "requested_path rel (fw_service world) = Some p" using assms(1,3,5) by (simp add: requested_path_def)
  have "handle_file_path ops rel p request tcp_conn world = serve_file ops rel p request tcp_conn world"
    using s assms(6,7) by (simp add: handle_file_path_def)
  then show ?thesis using q assms(2) by (simp add: handle_file_request_def Let_def)
qed

lemma send_file_result:
  assumes "sender_send ops (fw_files world) (new_disk_file_sender d request tcp_conn (m_max_chunk_size (fw_service world))) = Inr sender"
  shows "send_file ops d request tcp_conn world =
     Inr (Returns request (m_tcp_conn (ds_writer sender)) (world\<lparr>fw_senders := fw_senders world @ [sender]\<rparr>))"
  using assms by (simp add: send_file_def)

lemma new_entry_served:
  assumes "four_digit_year t"
  shows "served_file (new_entry s p content t)" "m_file_size (new_entry s p content t) = length content"
    "m_file_path (new_entry s p content t) = p" "m_last_modified_string (new_entry s p content t) = get_date_string t"
    "m_file_content (new_entry s p content t) = (if caches s (length content) then Some (map Some content) else None)"
  using assms by (auto simp: served_file_def new_entry_def file_info_def)

text \<open>The request of a client for a file below the resource of the service, which the cache does not hold.\<close>

definition fresh_get :: "'f file_ops \<Rightarrow> http_message \<Rightarrow> connection \<Rightarrow> 'f file_world \<Rightarrow> string \<Rightarrow> string \<Rightarrow> int \<Rightarrow> bool" where
  "fresh_get ops request tcp_conn world rel content t \<longleftrightarrow>
     modern_get request \<and> get_relative_resource (svc_resource (fw_service world)) (req_resource request) = rel \<and>
     rel \<noteq> [] \<and> hd rel \<noteq> CHR ''/'' \<and> m_directory (fw_service world) \<noteq> [] \<and> fresh_request (fw_service world) rel \<and>
     file_there ops (fw_files world) (path_append (m_directory (fw_service world)) rel) content t \<and> four_digit_year t \<and>
     is_open tcp_conn \<and> c_written tcp_conn = [] \<and> m_finished_handler tcp_conn"

lemma fresh_get_served:
  assumes "fresh_get ops request tcp_conn world rel content t"
    and "p = path_append (m_directory (fw_service world)) rel"
  shows "handle_file_request ops request tcp_conn world = serve_file ops rel p request tcp_conn world"
  using assms handle_existing [of world rel request p ops tcp_conn]
  by (simp add: fresh_get_def file_there_def modern_get_def)

lemma fresh_get_download:
  assumes "fresh_get ops request tcp_conn world rel content t"
    and "get_header request HEADER_IF_MODIFIED_SINCE \<noteq> get_date_string t"
    and "content \<noteq> []" and "length content \<le> limit" and "limit < 2 ^ 63"
  shows "\<exists>c after sender k u q n. handle_file_request ops request tcp_conn world = Inr (Returns request c after) \<and>
      fw_senders after = fw_senders world @ [sender] \<and> complete_writes ops (fw_files world) k sender = Inr u \<and>
      ds_pending u = None \<and> c_finished (m_tcp_conn (ds_writer u)) = c_finished tcp_conn + 1 \<and>
      parse (set_read_buffer (concat (c_written (m_tcp_conn (ds_writer u))) @ rest) (new_parser False limit)) (new_response ''GET'') =
        Inr (true_value, None, q, n) \<and> m_read q = rest \<and> content_bytes n = content \<and> resp_status_code n = RESPONSE_CODE_OK \<and>
      mset (dict_values (msg_headers n) HEADER_LAST_MODIFIED) = {#get_date_string t#}"
proof -
  let ?p = "path_append (m_directory (fw_service world)) rel"
  let ?d = "new_entry (fw_service world) ?p content t"
  note fg = assms(1) [unfolded fresh_get_def]
  have fr: "fresh_request (fw_service world) rel" and ft: "file_there ops (fw_files world) ?p content t"
    and mg: "modern_get request" and gm: "req_method request = REQUEST_METHOD_GET" and fy: "four_digit_year t"
    and op: "is_open tcp_conn" and cw: "c_written tcp_conn = []" and fh: "m_finished_handler tcp_conn"
    using fg by (auto simp: modern_get_def)
  note e = new_entry_served [OF fy, of "fw_service world" ?p content]
  let ?w = "world\<lparr>fw_service := if m_cache_setting (fw_service world) \<noteq> 0 then cache_insert rel ?d (fw_service world) else fw_service world\<rparr>"
  have h: "handle_file_request ops request tcp_conn world = send_file ops ?d request tcp_conn ?w"
    using fresh_get_served [OF assms(1) refl] serve_fresh [OF fr ft assms(2) gm] by simp
  have chunk: "m_max_chunk_size (fw_service ?w) = m_max_chunk_size (fw_service world)" "fw_files ?w = fw_files world"
    by (simp_all add: cache_insert_def)
  have src: "m_file_content ?d = Some (map Some content) \<or> m_file_content ?d = None \<and> reads_content ops (fw_files world) (m_file_path ?d) content"
    using e(3,5) ft by (simp add: file_there_def)
  obtain sender k u q n where r: "sender_send ops (fw_files world) (new_disk_file_sender ?d request tcp_conn (m_max_chunk_size (fw_service world))) = Inr sender"
      "complete_writes ops (fw_files world) k sender = Inr u" "ds_pending u = None"
      "c_finished (m_tcp_conn (ds_writer u)) = c_finished tcp_conn + 1"
      "parse (set_read_buffer (concat (c_written (m_tcp_conn (ds_writer u))) @ rest) (new_parser False limit)) (new_response ''GET'') =
        Inr (true_value, None, q, n)" "m_read q = rest" "content_bytes n = content" "resp_status_code n = RESPONSE_CODE_OK"
      "mset (dict_values (msg_headers n) HEADER_LAST_MODIFIED) = {#m_last_modified_string ?d#}"
    using file_download_lemma [OF mg e(1) op cw fh assms(3-5) e(2) src, of "m_max_chunk_size (fw_service world)" rest]
    by (elim exE conjE) (rule that)
  have s: "send_file ops ?d request tcp_conn ?w =
      Inr (Returns request (m_tcp_conn (ds_writer sender)) (?w\<lparr>fw_senders := fw_senders ?w @ [sender]\<rparr>))"
    using send_file_result [of ops ?w ?d request tcp_conn sender] r(1) unfolding chunk by simp
  have sn: "fw_senders (?w\<lparr>fw_senders := fw_senders ?w @ [sender]\<rparr>) = fw_senders world @ [sender]" by simp
  from h [unfolded s] sn r(2-8) r(9) [unfolded e(4)] show ?thesis
    by (intro exI [of _ "m_tcp_conn (ds_writer sender)"] exI [of _ "?w\<lparr>fw_senders := fw_senders ?w @ [sender]\<rparr>"] exI [of _ sender]
        exI [of _ k] exI [of _ u] exI [of _ q] exI [of _ n] conjI)
qed

lemma table_there: "map_of f p = Some (c, t) \<Longrightarrow> file_there table_files f p c t"
  by (simp add: file_there_def table_files_def reads_content_def)

definition www_world :: "(string \<times> string \<times> int) list \<Rightarrow> (string \<times> string \<times> int) list file_world" where
  "www_world f =
     \<lparr> fw_service = (new_file_service ''/files'')\<lparr>m_directory := ''/srv/www'', m_max_chunk_size := 4\<rparr>,
       fw_files = f, fw_senders = [] \<rparr>"

definition www_get :: "string \<Rightarrow> http_message" where
  "www_get resource = (empty_message True)\<lparr>req_method := ''GET'', req_resource := resource\<rparr>"

lemma www_fresh_get:
  assumes "map_of f (path_append ''/srv/www'' rel) = Some (content, t)" and "four_digit_year t"
    and "get_relative_resource ''/files'' resource = rel" and "rel \<noteq> []" and "hd rel \<noteq> CHR ''/''"
  shows "fresh_get table_files (www_get resource) (open_connection 1 (new_connection False True)) (www_world f) rel content t"
proof -
  have m: "modern_get (www_get resource)"
    by (simp add: modern_get_def www_get_def empty_message_def REQUEST_METHOD_GET_def)
  have s: "svc_resource (fw_service (www_world f)) = ''/files''" "m_directory (fw_service (www_world f)) = ''/srv/www''"
      "fresh_request (fw_service (www_world f)) rel" "fw_files (www_world f) = f" "req_resource (www_get resource) = resource"
    by (simp_all add: www_world_def new_file_service_def fresh_request_def DEFAULT_SCAN_SETTING_def www_get_def)
  have c: "is_open (open_connection 1 (new_connection False True))" "c_written (open_connection 1 (new_connection False True)) = []"
      "m_finished_handler (open_connection 1 (new_connection False True))"
    by (simp_all add: open_connection_def new_connection_def is_open_def)
  show ?thesis using m c s(3) assms table_there [OF assms(1)] unfolding fresh_get_def s(1,2,4,5) by simp
qed

lemma www_header: "get_header (www_get resource) HEADER_IF_MODIFIED_SINCE = []" "get_date_string t \<noteq> []"
  by (simp_all add: www_get_def empty_message_def get_header_def get_value_def dict_find_def get_date_string_def Let_def)

section \<open>Properties of the service\<close>

text \<open>C15: A client receives the file. When a readable file that is not empty and not in the cache is asked for, and
  every write succeeds, the bytes put on the connection, in one response or in chunks of the configured
  size, are parsed by a client to a response with status 200 whose content is the content of the file and
  whose \<^verbatim>\<open>Last-Modified\<close> header is the time of the file, with nothing left over; the connection is
  finished exactly once.\<close>

theorem file_download:
  assumes "fresh_get ops request tcp_conn world rel content t"
    and "get_header request HEADER_IF_MODIFIED_SINCE \<noteq> get_date_string t"
    and "content \<noteq> []" and "length content \<le> limit" and "limit < 2 ^ 63"
  shows "\<exists>c after sender k u q n. handle_file_request ops request tcp_conn world = Inr (Returns request c after) \<and>
      fw_senders after = fw_senders world @ [sender] \<and> complete_writes ops (fw_files world) k sender = Inr u \<and>
      ds_pending u = None \<and> c_finished (m_tcp_conn (ds_writer u)) = c_finished tcp_conn + 1 \<and>
      parse (set_read_buffer (concat (c_written (m_tcp_conn (ds_writer u))) @ rest) (new_parser False limit)) (new_response ''GET'') =
        Inr (true_value, None, q, n) \<and> m_read q = rest \<and> content_bytes n = content \<and> resp_status_code n = RESPONSE_CODE_OK \<and>
      mset (dict_values (msg_headers n) HEADER_LAST_MODIFIED) = {#get_date_string t#}"
  using fresh_get_download [OF assms] .

theorem file_download_witness:
  "\<exists>c after sender k u q n. handle_file_request table_files (www_get ''/files/a.txt'') (open_connection 1 (new_connection False True))
      (www_world [(''/srv/www/a.txt'', ''Hello, world!'', 86400)]) = Inr (Returns (www_get ''/files/a.txt'') c after) \<and>
    complete_writes table_files [(''/srv/www/a.txt'', ''Hello, world!'', 86400)] k sender = Inr u \<and>
    parse (set_read_buffer (concat (c_written (m_tcp_conn (ds_writer u))) @ ''HTTP'') (new_parser False 100)) (new_response ''GET'') =
        Inr (true_value, None, q, n) \<and> content_bytes n = ''Hello, world!''"
proof -
  let ?f = "[(''/srv/www/a.txt'', ''Hello, world!'', 86400)]"
  have "map_of ?f (path_append ''/srv/www'' ''a.txt'') = Some (''Hello, world!'', 86400 :: int)" "four_digit_year 86400"
      "get_relative_resource ''/files'' ''/files/a.txt'' = ''a.txt''"
    by code_simp+
  from www_fresh_get [OF this]
  have g: "fresh_get table_files (www_get ''/files/a.txt'') (open_connection 1 (new_connection False True)) (www_world ?f) ''a.txt'' ''Hello, world!'' 86400"
    by simp
  have "get_header (www_get ''/files/a.txt'') HEADER_IF_MODIFIED_SINCE \<noteq> get_date_string 86400"
    using www_header(1) [of "''/files/a.txt''"] www_header(2) [of 86400] by metis
  note result = file_download [OF g this, of 100 "''HTTP''"]
  have f: "fw_files (www_world ?f) = ?f" by (simp add: www_world_def)
  have small: "''Hello, world!'' \<noteq> []" "length ''Hello, world!'' \<le> 100" "(100 :: nat) < 2 ^ 63" by simp_all
  from result [OF small, unfolded f] show ?thesis
    by (elim exE conjE) (intro exI conjI)
qed





section \<open>Files that cannot be read\<close>

text \<open>A file whose data can be asked for but which cannot be opened, as without the permission to read it.\<close>

definition file_unreadable :: "'f file_ops \<Rightarrow> 'f \<Rightarrow> string \<Rightarrow> nat \<Rightarrow> int \<Rightarrow> bool" where
  "file_unreadable ops f p n t \<longleftrightarrow>
     fs_exists ops f p = Inr True \<and> fs_is_directory ops f p = Inr False \<and> fs_file_size ops f p = Inr n \<and>
     fs_last_write_time ops f p = Inr t \<and> \<not> fs_can_open ops f p"

lemma fresh_file_unreadable:
  assumes "file_unreadable ops f p n t" and "req_method request = REQUEST_METHOD_GET"
    and "get_header request HEADER_IF_MODIFIED_SINCE \<noteq> get_date_string t"
  shows "fst (fresh_file ops f request rel p s) =
     Inr (Some (RESPONSE_OK, (file_info p (findMIMEType (path_filename p)) n t)
       \<lparr>m_file_content := if caches s n then Some (replicate n None) else None\<rparr>))"
    and "m_max_chunk_size (snd (fresh_file ops f request rel p s)) = m_max_chunk_size s"
proof -
  let ?d = "file_info p (findMIMEType (path_filename p)) n t"
  have g: "REQUEST_METHOD_GET \<noteq> REQUEST_METHOD_HEAD" by (simp add: REQUEST_METHOD_GET_def REQUEST_METHOD_HEAD_def)
  have u: "disk_update ops f (new_disk_file\<lparr>m_file_path := p, m_mime_type := findMIMEType (path_filename p)\<rparr>) = (None, ?d)"
    using assms(1) by (simp add: disk_update_def file_unreadable_def new_disk_file_def file_info_def Let_def)
  have r: "disk_read ops f ?d = ?d\<lparr>m_file_content := Some (replicate n None)\<rparr>"
    using assms(1) by (simp add: disk_read_def file_unreadable_def file_info_def Let_def)
  have c: "choose_response ?d request = RESPONSE_OK" using assms(2,3) g by (auto simp: choose_response_def file_info_def)
  have s: "m_file_size ?d = n" "?d\<lparr>m_file_content := None\<rparr> = ?d" by (simp_all add: file_info_def)
  have e: "fs_exists ops f p = Inr True" using assms(1) by (simp add: file_unreadable_def)
  show "fst (fresh_file ops f request rel p s) =
      Inr (Some (RESPONSE_OK, ?d\<lparr>m_file_content := if caches s n then Some (replicate n None) else None\<rparr>))"
    unfolding fresh_file_def using s by (simp add: u e c r caches_def Let_def)
  show "m_max_chunk_size (snd (fresh_file ops f request rel p s)) = m_max_chunk_size s"
    unfolding fresh_file_def by (simp add: u e c cache_insert_def Let_def)
qed

lemma piece_size_pos: "0 < n \<Longrightarrow> 0 < piece_size s n" "piece_size s n \<le> n"
  by (simp_all add: piece_size_def)

lemma new_sender_fields [simp]:
  "m_disk_file (new_disk_file_sender d request c k) = d" "m_bytes_sent (new_disk_file_sender d request c k) = 0"
  "m_file_stream (new_disk_file_sender d request c k) = None" "m_content_buf (new_disk_file_sender d request c k) = None"
  "ds_max_chunk_size (new_disk_file_sender d request c k) = k" "m_tcp_conn (ds_writer (new_disk_file_sender d request c k)) = c"
  by (simp_all add: new_disk_file_sender_def edit_response_def response_writer_for_def new_writer_def Let_def)

lemma sender_send_unreadable:
  assumes "\<not> fs_can_open ops f (m_file_path d)" and "m_file_size d = n" and "0 < n"
  shows "m_file_content d = Some (replicate n None) \<Longrightarrow> sender_send ops f (new_disk_file_sender d request c k) = Inl Uninitialised"
    and "m_file_content d = None \<Longrightarrow> \<exists>s. sender_send ops f (new_disk_file_sender d request c k) = Inr s \<and>
       ds_pending s = None \<and> m_tcp_conn (ds_writer s) = c"
proof -
  let ?k = "if 0 < k \<and> k < n then k else n"
  let ?s = "(new_disk_file_sender d request c k)\<lparr>m_file_bytes_to_send := ?k, ds_pending := None\<rparr>"
  have k: "0 < ?k" "?k \<le> n" using assms(3) by auto
  have e: "sender_send ops f (new_disk_file_sender d request c k) =
     (case get_file_bytes ops f ?s of
        Inl e \<Rightarrow> Inl e
      | Inr (None, s) \<Rightarrow> Inr s
      | Inr (Some d, s) \<Rightarrow>
          (let s = s\<lparr>ds_writer := write_no_copy d (ds_writer s)\<rparr>
           in Inr (if m_file_size (m_disk_file s) \<le> m_bytes_sent s + m_file_bytes_to_send s then
                     (if 0 < m_bytes_sent s then start_write send_final_chunk Sender_handler s
                      else start_write send Sender_handler s)
                   else start_write send_chunk Sender_handler s)))"
    unfolding sender_send_def Let_def using assms(2,3) by simp
  show "sender_send ops f (new_disk_file_sender d request c k) = Inl Uninitialised" if "m_file_content d = Some (replicate n None)"
  proof -
    have "cached_bytes (replicate n None) 0 ?k = Inl Uninitialised" using k by (simp add: cached_bytes_def min_def)
    then have "get_file_bytes ops f ?s = Inl Uninitialised" using that by (simp add: get_file_bytes_def)
    then show ?thesis unfolding e by simp
  qed
  show "\<exists>s. sender_send ops f (new_disk_file_sender d request c k) = Inr s \<and> ds_pending s = None \<and> m_tcp_conn (ds_writer s) = c"
    if "m_file_content d = None"
  proof -
    have "get_file_bytes ops f ?s = Inr (None, ?s)" using that assms(1) by (simp add: get_file_bytes_def)
    then show ?thesis unfolding e by simp
  qed
qed

text \<open>C24: A file that cannot be opened. With the cache on, the failed read leaves the new buffer as it was allocated and
  the response sends that memory to the client. With the cache off, or for a file too large for it, nothing is
  sent at all: no write is in progress and the connection is never finished, so the client waits forever.\<close>

theorem unreadable_file:
  assumes "file_unreadable ops (fw_files world) p n t" and "0 < n" and "fresh_request (fw_service world) rel"
    and "rel = get_relative_resource (svc_resource (fw_service world)) (req_resource request)" and "rel \<noteq> []" and "hd rel \<noteq> CHR ''/''"
    and "m_directory (fw_service world) \<noteq> []" and "p = path_append (m_directory (fw_service world)) rel"
    and "req_method request = REQUEST_METHOD_GET" and "get_header request HEADER_IF_MODIFIED_SINCE \<noteq> get_date_string t"
  shows "(caches (fw_service world) n \<longrightarrow> handle_file_request ops request tcp_conn world = Inl Uninitialised) \<and>
    (\<not> caches (fw_service world) n \<longrightarrow>
      (\<exists>after sender. handle_file_request ops request tcp_conn world = Inr (Returns request tcp_conn after) \<and>
        fw_senders after = fw_senders world @ [sender] \<and> m_tcp_conn (ds_writer sender) = tcp_conn \<and> ds_pending sender = None))"
proof -
  let ?s = "fw_service world"
  let ?d = "(file_info p (findMIMEType (path_filename p)) n t)\<lparr>m_file_content := if caches ?s n then Some (replicate n None) else None\<rparr>"
  have h: "handle_file_request ops request tcp_conn world = serve_file ops rel p request tcp_conn world"
    using handle_existing [OF assms(7,4-6,8) _ assms(9)] assms(1) by (simp add: file_unreadable_def)
  have c: "search_cache ops (fw_files world) request rel ?s = (Inr (RESPONSE_UNDEFINED, new_disk_file), ?s)"
    using assms(3) by (simp add: search_cache_def fresh_request_def)
  obtain u where u: "fresh_file ops (fw_files world) request rel p ?s = (Inr (Some (RESPONSE_OK, ?d)), u)"
    using fresh_file_unreadable(1) [OF assms(1,9,10), of rel ?s] by (metis prod.collapse)
  have e: "serve_file ops rel p request tcp_conn world = send_file ops ?d request tcp_conn (world\<lparr>fw_service := u\<rparr>)"
    using c u by (simp add: serve_file_def send_response_def)
  have o: "\<not> fs_can_open ops (fw_files world) (m_file_path ?d)" "m_file_size ?d = n"
    using assms(1) by (simp_all add: file_unreadable_def file_info_def)
  show ?thesis
  proof (cases "caches ?s n")
    case True
    then show ?thesis using sender_send_unreadable(1) [OF o assms(2)] unfolding h e by (simp add: send_file_def)
  next
    case False
    then obtain s where "sender_send ops (fw_files world) (new_disk_file_sender ?d request tcp_conn (m_max_chunk_size u)) = Inr s"
        "ds_pending s = None" "m_tcp_conn (ds_writer s) = tcp_conn"
      using sender_send_unreadable(2) [OF o assms(2)] by fastforce
    then show ?thesis using False unfolding h e by (auto simp: send_file_def)
  qed
qed

theorem unreadable_file_witness:
  "handle_file_request (table_files\<lparr>fs_can_open := \<lambda>f p. False\<rparr>) (www_get ''/files/a'') (new_connection False True)
      (www_world [(''/srv/www/a'', ''secret'', 86400)]) = Inl Uninitialised"
proof -
  let ?f = "[(''/srv/www/a'', ''secret'', 86400 :: int)]" and ?ops = "table_files\<lparr>fs_can_open := \<lambda>f p. False\<rparr>"
  let ?w = "www_world ?f" and ?r = "www_get ''/files/a''"
  have a: "file_unreadable ?ops (fw_files ?w) ''/srv/www/a'' 6 86400"
    by (simp add: file_unreadable_def table_files_def www_world_def)
  have b: "''a'' = get_relative_resource (svc_resource (fw_service ?w)) (req_resource ?r)" by code_simp
  have p: "''/srv/www/a'' = path_append (m_directory (fw_service ?w)) ''a''" by code_simp
  have s: "fresh_request (fw_service ?w) ''a''" "m_directory (fw_service ?w) \<noteq> []" "req_method ?r = REQUEST_METHOD_GET"
      "caches (fw_service ?w) 6"
    by (simp_all add: fresh_request_def www_world_def new_file_service_def DEFAULT_SCAN_SETTING_def www_get_def
        REQUEST_METHOD_GET_def caches_def DEFAULT_CACHE_SETTING_def DEFAULT_MAX_CACHE_SIZE_def)
  have i: "get_header ?r HEADER_IF_MODIFIED_SINCE \<noteq> get_date_string 86400"
    using www_header(1) [of "''/files/a''"] www_header(2) [of 86400] by metis
  have n: "0 < (6 :: nat)" "''a'' \<noteq> []" "hd ''a'' \<noteq> CHR ''/''" by simp_all
  from unreadable_file [OF a n(1) s(1) b n(2,3) s(2) p s(3) i, of "new_connection False True"] s(4)
  show ?thesis by blast
qed

end
