(* ===== verification/File_Scan.thy ===== *)
theory File_Scan
  imports File_Service
begin

text \<open>
  The scan of the directory when the file service starts: it returns on finite trees, it enters every file
  below the directory, and it misnames all of them when the directory was configured with a slash at its end.
\<close>

section \<open>Trees\<close>

text \<open>A weight that bounds a directory from above by its entries: there is no cycle of links.\<close>

definition finite_tree :: "'f file_ops \<Rightarrow> 'f \<Rightarrow> (string \<Rightarrow> nat) \<Rightarrow> bool" where
  "finite_tree ops f weight \<longleftrightarrow> (\<forall>p. 0 < weight p) \<and>
     (\<forall>d es. fs_is_directory ops f d = Inr True \<longrightarrow> fs_entries ops f d = Inr es \<longrightarrow> sum_list (map weight es) < weight d)"

inductive below :: "'f file_ops \<Rightarrow> 'f \<Rightarrow> string list \<Rightarrow> string \<Rightarrow> bool" for ops f where
  below_file: "p \<in> set ps \<Longrightarrow> fs_is_directory ops f p = Inr False \<Longrightarrow> below ops f ps p"
| below_dir: "d \<in> set ps \<Longrightarrow> fs_is_directory ops f d = Inr True \<Longrightarrow> fs_entries ops f d = Inr es \<Longrightarrow>
     below ops f es p \<Longrightarrow> below ops f ps p"

lemma below_mono: "below ops f ps p \<Longrightarrow> set ps \<subseteq> set qs \<Longrightarrow> below ops f qs p"
  by (induction rule: below.induct) (auto intro: below.intros)

text \<open>The first entry of a worklist: a file, or the entries of a directory.\<close>

lemma below_Cons_file:
  assumes "fs_is_directory ops f p = Inr False" shows "below ops f (p # ps) q \<longleftrightarrow> q = p \<or> below ops f ps q"
proof
  assume "below ops f (p # ps) q"
  then show "q = p \<or> below ops f ps q" by cases (use assms in \<open>auto intro: below.intros\<close>)
next
  assume "q = p \<or> below ops f ps q"
  then show "below ops f (p # ps) q" using assms by (auto intro: below.intros below_mono)
qed

lemma below_append: "below ops f (es @ ps) q \<longleftrightarrow> below ops f es q \<or> below ops f ps q"
proof
  assume "below ops f (es @ ps) q"
  then show "below ops f es q \<or> below ops f ps q" by cases (auto intro: below.intros)
qed (auto intro: below_mono)

lemma below_Cons_dir:
  assumes "fs_is_directory ops f d = Inr True" and "fs_entries ops f d = Inr es"
  shows "below ops f (d # ps) q \<longleftrightarrow> below ops f (es @ ps) q"
proof -
  have "below ops f [d] q \<longleftrightarrow> below ops f es q"
  proof
    assume "below ops f [d] q"
    then show "below ops f es q" by cases (use assms in auto)
  next
    assume "below ops f es q"
    with assms show "below ops f [d] q" by (auto intro: below_dir)
  qed
  then show ?thesis using below_append [of ops f "[d]" ps q] by (simp add: below_append)
qed

section \<open>The scan\<close>

lemma scan_entries_returns:
  assumes "finite_tree ops f weight" shows "\<exists>r. scan_entries ops f ps s = Some r"
proof (induction "sum_list (map weight ps)" arbitrary: ps s rule: less_induct)
  case less
  show ?case
  proof (cases ps)
    case Nil
    then show ?thesis by (simp add: scan_entries.simps)
  next
    case (Cons p rest)
    show ?thesis
    proof (cases "fs_is_directory ops f p")
      case (Inl what)
      then show ?thesis using Cons by (simp add: scan_entries.simps)
    next
      case (Inr b)
      have w: "0 < weight p" using assms by (simp add: finite_tree_def)
      show ?thesis
      proof (cases b)
        case True
        show ?thesis
        proof (cases "fs_entries ops f p")
          case (Inr es)
          have "sum_list (map weight es) < weight p"
            using assms Inr \<open>fs_is_directory ops f p = Inr b\<close> True by (auto simp: finite_tree_def)
          then have "\<exists>r. scan_entries ops f (es @ rest) s = Some r" using less Cons by simp
          then show ?thesis using Cons Inr \<open>fs_is_directory ops f p = Inr b\<close> True by (subst scan_entries.simps) simp
        qed (use Cons Inr True in \<open>subst scan_entries.simps, simp\<close>)
      next
        case False
        have "\<exists>r. scan_entries ops f rest u = Some r" for u using less Cons w by simp
        then show ?thesis using Cons Inr False by (subst scan_entries.simps) (simp split: sum.split)
      qed
    qed
  qed
qed

lemma start_service_returns:
  assumes "finite_tree ops f weight" shows "\<exists>r. start_service ops f s = Some r"
proof -
  have "\<exists>r. scanDirectory ops f d u = Some r" for d u
    using scan_entries_returns [OF assms] by (auto simp: scanDirectory_def split: sum.split)
  then show ?thesis by (auto simp: start_service_def Let_def split: sum.split)
qed

text \<open>With placeholders the scan reads no file, so it fails only where the file system does.\<close>

definition scan_clean :: "'f file_ops \<Rightarrow> 'f \<Rightarrow> bool" where
  "scan_clean ops f \<longleftrightarrow> (\<forall>p. \<exists>b. fs_is_directory ops f p = Inr b) \<and>
     (\<forall>p. fs_is_directory ops f p = Inr True \<longrightarrow> (\<exists>es. fs_entries ops f p = Inr es))"

definition relative_name :: "file_service \<Rightarrow> string \<Rightarrow> string" where
  "relative_name s p = drop (length (m_directory s) + 1) p"

lemma scan_file_placeholder:
  assumes "m_scan_setting s = 1" and "length (m_directory s) < length p"
  obtains u where "scan_file ops f p s = Inr u" and "m_scan_setting u = 1" and "m_directory u = m_directory s"
    and "\<forall>q. m_cache_map u q \<noteq> None \<longleftrightarrow> q = relative_name s p \<or> m_cache_map s q \<noteq> None"
proof
  let ?u = "cache_insert (relative_name s p) (make_disk_file p 0 0 (findMIMEType (path_filename p))) s"
  show "scan_file ops f p s = Inr ?u"
    using assms by (simp add: scan_file_def addCacheEntry_def relative_name_def Let_def)
  show "m_scan_setting ?u = 1" "m_directory ?u = m_directory s" using assms by (simp_all add: cache_insert_def)
  show "\<forall>q. m_cache_map ?u q \<noteq> None \<longleftrightarrow> q = relative_name s p \<or> m_cache_map s q \<noteq> None" by (auto simp: cache_insert_def)
qed

lemma scan_entries_complete:
  assumes "finite_tree ops f weight" and "scan_clean ops f"
  shows "m_scan_setting s = 1 \<Longrightarrow> \<forall>p. below ops f ps p \<longrightarrow> length (m_directory s) < length p \<Longrightarrow>
    \<exists>u. scan_entries ops f ps s = Some (None, u) \<and>
      (\<forall>q. m_cache_map u q \<noteq> None \<longleftrightarrow> m_cache_map s q \<noteq> None \<or> (\<exists>p. below ops f ps p \<and> q = relative_name s p))"
proof (induction "sum_list (map weight ps)" arbitrary: ps s rule: less_induct)
  case less
  show ?case
  proof (cases ps)
    case Nil
    have "\<not> below ops f [] p" for p by (auto elim: below.cases)
    then show ?thesis using Nil by (simp add: scan_entries.simps)
  next
    case (Cons p rest)
    have w: "0 < weight p" using assms(1) by (simp add: finite_tree_def)
    obtain b where b: "fs_is_directory ops f p = Inr b" using assms(2) by (auto simp: scan_clean_def)
    show ?thesis
    proof (cases b)
      case True
      then obtain es where es: "fs_entries ops f p = Inr es" using assms(2) b by (auto simp: scan_clean_def)
      have "sum_list (map weight es) < weight p" using assms(1) b es True by (auto simp: finite_tree_def)
      moreover have e: "below ops f ps q \<longleftrightarrow> below ops f (es @ rest) q" for q
        using below_Cons_dir [of ops f p es rest q] b es True Cons by simp
      moreover have "scan_entries ops f ps s = scan_entries ops f (es @ rest) s"
        using Cons b es True by (subst scan_entries.simps) simp
      ultimately show ?thesis using less.hyps [of "es @ rest" s] less.prems Cons by simp
    next
      case False
      have f: "below ops f ps q \<longleftrightarrow> q = p \<or> below ops f rest q" for q
        using below_Cons_file [of ops f p rest q] b False Cons by simp
      have "length (m_directory s) < length p" using less.prems(2) f by blast
      from scan_file_placeholder [OF less.prems(1) this, of ops f]
      obtain u where u: "scan_file ops f p s = Inr u" "m_scan_setting u = 1" "m_directory u = m_directory s"
          "\<forall>q. m_cache_map u q \<noteq> None \<longleftrightarrow> q = relative_name s p \<or> m_cache_map s q \<noteq> None"
        by blast
      have "sum_list (map weight rest) < sum_list (map weight ps)" using Cons w by simp
      moreover have "\<forall>p. below ops f rest p \<longrightarrow> length (m_directory u) < length p" using less.prems(2) f u(3) by simp
      ultimately obtain v where v: "scan_entries ops f rest u = Some (None, v)"
          "\<forall>q. m_cache_map v q \<noteq> None \<longleftrightarrow> m_cache_map u q \<noteq> None \<or> (\<exists>p. below ops f rest p \<and> q = relative_name u p)"
        using less.hyps [OF _ u(2)] by blast
      have "scan_entries ops f ps s = Some (None, v)" using Cons b False u(1) v(1) by (subst scan_entries.simps) simp
      moreover have "relative_name u q = relative_name s q" for q using u(3) by (simp add: relative_name_def)
      ultimately show ?thesis using v(2) u(4) f by auto
    qed
  qed
qed

section \<open>A file system with directories\<close>

text \<open>For examples: a table of directories with their entries; every other path is a file.\<close>

definition tree_files :: "(string \<times> string list) list file_ops" where
  "tree_files =
     \<lparr> fs_exists = (\<lambda>f p. Inr True), fs_is_directory = (\<lambda>f p. Inr (map_of f p \<noteq> None)),
       fs_file_size = (\<lambda>f p. Inr 0), fs_last_write_time = (\<lambda>f p. Inr 1), fs_can_open = (\<lambda>f p. True),
       fs_read = (\<lambda>f p pos n. []), fs_store = (\<lambda>mode p c f. f), fs_remove = (\<lambda>p f. Inl ''busy''),
       fs_entries = (\<lambda>f p. case map_of f p of None \<Rightarrow> Inl ''not a directory'' | Some es \<Rightarrow> Inr es) \<rparr>"

lemma tree_files_clean: "scan_clean tree_files f"
  by (auto simp: scan_clean_def tree_files_def)

definition scanning_service :: "string \<Rightarrow> file_service" where
  "scanning_service dir = (new_file_service ''/r'')\<lparr>m_directory := dir, m_scan_setting := 1\<rparr>"

section \<open>Properties\<close>



text \<open>The entries of a directory that was configured with a slash at its end lose the first character of their
  names: the file is not found under its name, but under the rest of it.\<close>

theorem scan_trailing_slash:
  assumes "m_scan_setting s = 1" and "m_file s = []" and "m_directory s = dir @ ''/''" and "m_cache_map s = Map.empty"
    and "fs_entries ops f (dir @ ''/'') = Inr [dir @ ''/'' @ c # name]" and "fs_is_directory ops f (dir @ ''/'' @ c # name) = Inr False"
  shows "\<exists>u. start_service ops f s = Some (None, u) \<and> m_cache_map u (c # name) = None \<and> m_cache_map u name \<noteq> None"
proof -
  let ?p = "dir @ ''/'' @ c # name"
  let ?e = "make_disk_file ?p 0 0 (findMIMEType (path_filename ?p))"
  have r: "scan_file ops f ?p s = Inr (cache_insert name ?e s)"
    using assms(1,3) by (simp add: scan_file_def addCacheEntry_def Let_def)
  then have "scan_entries ops f [?p] s = Some (None, cache_insert name ?e s)"
    using assms(6) by (subst scan_entries.simps) (simp add: scan_entries.simps [of ops f "[]"])
  then have "start_service ops f s = Some (None, cache_insert name ?e s)"
    using assms by (simp add: start_service_def scanDirectory_def)
  moreover have "m_cache_map (cache_insert name ?e s) (c # name) = None" "m_cache_map (cache_insert name ?e s) name \<noteq> None"
    using assms(4) by (simp_all add: cache_insert_def)
  ultimately show ?thesis by blast
qed

theorem scan_trailing_slash_witness:
  "\<exists>u. start_service tree_files [(''/d/'', [''/d/a.txt''])] (scanning_service ''/d/'') = Some (None, u) \<and>
     m_cache_map u ''a.txt'' = None \<and> m_cache_map u ''.txt'' \<noteq> None"
  using scan_trailing_slash [of "scanning_service ''/d/''" "''/d''" tree_files "[(''/d/'', [''/d/a.txt''])]" "CHR ''a''" "''.txt''"]
  by (simp add: scanning_service_def new_file_service_def tree_files_def)

end
