(* ===== verification/Tcp_Stream.thy ===== *)
theory Tcp_Stream
  imports Tcp_Connection
begin

text \<open>
  The stream buffer over a TCP connection (\<^verbatim>\<open>include/pion/tcp/stream.hpp\<close>): \<^verbatim>\<open>tcp::stream_buffer\<close> with its
  read buffer, the one of the connection, and its write buffer. The pointers of \<^verbatim>\<open>std::streambuf\<close> are
  indexes into the buffers; \<^verbatim>\<open>pbase\<close> is always 0 and \<^verbatim>\<open>epptr\<close> always \<^verbatim>\<open>WRITE_BUFFER_SIZE-1\<close>. Accesses outside a
  buffer are the fault \<open>Out_of_bounds\<close>.

  The network is part of the state: the results of the writes and of the reads to come, and the bytes that
  have been transferred. By the documentation of asio a write transfers all its bytes or ends with an error after
  some of them, and a read gets some bytes of what the peer has sent, or an error. Waiting for an operation that never completes is
  the fault \<open>Blocked\<close>. Below the class, the operations of \<^verbatim>\<open>std::streambuf\<close> that call its virtual functions
  (\<^verbatim>\<open>sputc\<close>, \<^verbatim>\<open>sgetc\<close>, \<^verbatim>\<open>sbumpc\<close>, \<^verbatim>\<open>sungetc\<close>) are modelled with it.
\<close>

datatype stream_fault = Out_of_bounds | Blocked

datatype write_result = Sent | Send_failed nat

datatype read_result = Received string | Read_failed

definition PUT_BACK_MAX :: nat where "PUT_BACK_MAX = 10"

definition WRITE_BUFFER_SIZE :: nat where "WRITE_BUFFER_SIZE = 8192"

record stream_buffer =
  m_conn_ptr :: connection
  m_async_error :: bool
  m_bytes_transferred :: nat
  m_read_buf :: string
  sb_eback :: nat
  sb_gptr :: nat
  sb_egptr :: nat
  m_write_buf :: string
  sb_pptr :: nat
  net_writes :: "write_result list"
  net_reads :: "read_result list"
  net_sent :: string

definition setup_buffers :: "stream_buffer \<Rightarrow> stream_buffer" where
  "setup_buffers s = s\<lparr>sb_eback := PUT_BACK_MAX, sb_gptr := PUT_BACK_MAX, sb_egptr := PUT_BACK_MAX, sb_pptr := 0\<rparr>"

text \<open>The constructor; what the two buffers hold at first is given.\<close>

definition new_stream_buffer ::
  "connection \<Rightarrow> string \<Rightarrow> string \<Rightarrow> write_result list \<Rightarrow> read_result list \<Rightarrow> stream_buffer" where
  "new_stream_buffer conn read_buf write_buf writes reads = setup_buffers
     \<lparr> m_conn_ptr = conn, m_async_error = False, m_bytes_transferred = 0, m_read_buf = read_buf, sb_eback = 0, sb_gptr = 0,
       sb_egptr = 0, m_write_buf = write_buf, sb_pptr = 0, net_writes = writes, net_reads = reads, net_sent = [] \<rparr>"

text \<open>The bytes of \<open>src\<close> are copied over those of a buffer, from an index on.\<close>

definition overwrite :: "nat \<Rightarrow> string \<Rightarrow> string \<Rightarrow> string" where
  "overwrite i src buf = take i buf @ src @ drop (i + length src) buf"

section \<open>The values of \<^verbatim>\<open>int_type\<close>\<close>

definition traits_eof :: int where "traits_eof = - 1"

definition to_int_type :: "char \<Rightarrow> int" where "to_int_type c = int (byte_val c)"

definition to_char_type :: "int \<Rightarrow> char" where "to_char_type c = byte_char (nat (c mod 256))"

definition not_eof :: "int \<Rightarrow> int" where "not_eof c = (if c = traits_eof then 0 else c)"

section \<open>Operations on the connection\<close>

definition operation_finished :: "bool \<Rightarrow> nat \<Rightarrow> stream_buffer \<Rightarrow> stream_buffer" where
  "operation_finished error_code bytes_transferred s =
     s\<lparr>m_async_error := error_code, m_bytes_transferred := bytes_transferred\<rparr>"

text \<open>An \<^verbatim>\<open>async_write\<close> and the wait for its completion, and the same for \<^verbatim>\<open>async_read_some\<close> into the read buffer.\<close>

definition write_wait :: "string \<Rightarrow> stream_buffer \<Rightarrow> stream_fault + stream_buffer" where
  "write_wait data s =
     (let s = s\<lparr>m_conn_ptr := async_write [data] (m_conn_ptr s), m_bytes_transferred := 0\<rparr>
      in case net_writes s of
           [] \<Rightarrow> Inl Blocked
         | Sent # ws \<Rightarrow>
             Inr (operation_finished False (length data) (s\<lparr>net_writes := ws, net_sent := net_sent s @ data\<rparr>))
         | Send_failed k # ws \<Rightarrow>
             Inr (operation_finished True (min k (length data)) (s\<lparr>net_writes := ws, net_sent := net_sent s @ take k data\<rparr>)))"

definition read_wait :: "stream_buffer \<Rightarrow> stream_fault + stream_buffer" where
  "read_wait s =
     (let s = s\<lparr>m_bytes_transferred := 0\<rparr>; room = READ_BUFFER_SIZE - PUT_BACK_MAX
      in case net_reads s of
           [] \<Rightarrow> Inl Blocked
         | Read_failed # rs \<Rightarrow> Inr (operation_finished True 0 (s\<lparr>net_reads := rs\<rparr>))
         | Received data # rs \<Rightarrow>
             Inr (operation_finished False (min room (length data))
               (s\<lparr>m_read_buf := overwrite PUT_BACK_MAX (take room data) (m_read_buf s),
                  net_reads := (if room < length data then Received (drop room data) # rs else rs)\<rparr>)))"

section \<open>Output\<close>

definition flush_output :: "stream_buffer \<Rightarrow> stream_fault + int \<times> stream_buffer" where
  "flush_output s =
     (let bytes_to_send = sb_pptr s
      in if 0 < bytes_to_send then
           (if length (m_write_buf s) < bytes_to_send then Inl Out_of_bounds
            else (case write_wait (take bytes_to_send (m_write_buf s)) s of
                    Inl f \<Rightarrow> Inl f
                  | Inr s \<Rightarrow>
                      (let bytes_sent = m_bytes_transferred s; s = s\<lparr>sb_pptr := sb_pptr s - bytes_sent\<rparr>
                       in Inr (if m_async_error s then traits_eof else int bytes_sent, s))))
         else Inr (0, s))"

definition overflow :: "int \<Rightarrow> stream_buffer \<Rightarrow> stream_fault + int \<times> stream_buffer" where
  "overflow c s =
     (if c \<noteq> traits_eof \<and> length (m_write_buf s) \<le> sb_pptr s then Inl Out_of_bounds
      else
        (let s = (if c \<noteq> traits_eof
                  then s\<lparr>m_write_buf := (m_write_buf s)[sb_pptr s := to_char_type c], sb_pptr := sb_pptr s + 1\<rparr> else s)
         in case flush_output s of
              Inl f \<Rightarrow> Inl f
            | Inr (r, s) \<Rightarrow> Inr (if r = traits_eof then traits_eof else not_eof c, s)))"

text \<open>
  \<^verbatim>\<open>xsputn\<close>. The number of available bytes is signed: it is negative when a failed \<^verbatim>\<open>overflow\<close> has left the
  write position behind the end. The source is then read from before its start.
\<close>

definition xsputn :: "string \<Rightarrow> stream_buffer \<Rightarrow> stream_fault + int \<times> stream_buffer" where
  "xsputn str s =
     (let n = int (length str); bytes_available = int (WRITE_BUFFER_SIZE - 1) - int (sb_pptr s)
      in if n \<le> bytes_available then
           Inr (n, s\<lparr>m_write_buf := overwrite (sb_pptr s) str (m_write_buf s), sb_pptr := sb_pptr s + length str\<rparr>)
         else
           (let s = (if 0 < bytes_available
                     then s\<lparr>m_write_buf := overwrite (sb_pptr s) (take (nat bytes_available) str) (m_write_buf s),
                            sb_pptr := sb_pptr s + nat bytes_available\<rparr> else s)
            in case flush_output s of
                 Inl f \<Rightarrow> Inl f
               | Inr (r, s) \<Rightarrow>
                   (if r = traits_eof then Inr (0, s)
                    else if bytes_available < 0 then Inl Out_of_bounds
                    else
                      (let rest = drop (nat bytes_available) str
                       in if int (WRITE_BUFFER_SIZE - 1) \<le> n - bytes_available then
                            (case write_wait rest s of
                               Inl f \<Rightarrow> Inl f
                             | Inr s \<Rightarrow> Inr (bytes_available + int (m_bytes_transferred s), s))
                          else Inr (n, s\<lparr>m_write_buf := overwrite 0 rest (m_write_buf s), sb_pptr := sb_pptr s + length rest\<rparr>)))))"

definition sync_stream :: "stream_buffer \<Rightarrow> stream_fault + int \<times> stream_buffer" where
  "sync_stream s =
     (case flush_output s of
        Inl f \<Rightarrow> Inl f
      | Inr (r, s) \<Rightarrow> Inr (if r = traits_eof then - 1 else 0, s))"

definition sputc :: "char \<Rightarrow> stream_buffer \<Rightarrow> stream_fault + int \<times> stream_buffer" where
  "sputc c s =
     (if sb_pptr s < WRITE_BUFFER_SIZE - 1
      then Inr (to_int_type c, s\<lparr>m_write_buf := (m_write_buf s)[sb_pptr s := c], sb_pptr := sb_pptr s + 1\<rparr>)
      else overflow (to_int_type c) s)"

section \<open>Input\<close>

text \<open>\<^verbatim>\<open>underflow\<close>: the last bytes are moved before the place of the new ones, so that they can be put back.\<close>

definition underflow :: "stream_buffer \<Rightarrow> stream_fault + int \<times> stream_buffer" where
  "underflow s =
     (if sb_gptr s < sb_egptr s then Inr (to_int_type (m_read_buf s ! sb_gptr s), s)
      else
        (let put_back_num = min (sb_gptr s - sb_eback s) PUT_BACK_MAX;
             s = (if 0 < put_back_num
                  then s\<lparr>m_read_buf := overwrite (PUT_BACK_MAX - put_back_num)
                                        (take put_back_num (drop (sb_gptr s - put_back_num) (m_read_buf s))) (m_read_buf s)\<rparr>
                  else s)
         in case read_wait s of
              Inl f \<Rightarrow> Inl f
            | Inr s \<Rightarrow>
                (if m_async_error s then Inr (traits_eof, s)
                 else
                   (let s = s\<lparr>sb_eback := PUT_BACK_MAX - put_back_num, sb_gptr := PUT_BACK_MAX,
                              sb_egptr := PUT_BACK_MAX + m_bytes_transferred s\<rparr>
                    in Inr (to_int_type (m_read_buf s ! sb_gptr s), s)))))"

text \<open>What the reads to come may still deliver, as the measure of the loop in \<^verbatim>\<open>xsgetn\<close>.\<close>

fun read_weight :: "read_result \<Rightarrow> nat" where
  "read_weight (Received data) = length data + 1"
| "read_weight Read_failed = 1"

definition reads_weight :: "stream_buffer \<Rightarrow> nat" where
  "reads_weight s = sum_list (map read_weight (net_reads s))"

lemma underflow_weight:
  assumes "underflow s = Inr (c, t)" and "\<not> sb_gptr s < sb_egptr s"
  shows "reads_weight t < reads_weight s"
  using assms
  by (auto simp: underflow_def read_wait_def Let_def operation_finished_def reads_weight_def READ_BUFFER_SIZE_def PUT_BACK_MAX_def
      split: list.splits read_result.splits if_splits)

text \<open>\<^verbatim>\<open>xsgetn\<close>: the bytes that it has copied.\<close>

definition take_available :: "nat \<Rightarrow> stream_buffer \<Rightarrow> string \<times> stream_buffer" where
  "take_available bytes_remaining s =
     (let bytes_next_read = min bytes_remaining (sb_egptr s - sb_gptr s)
      in (take bytes_next_read (drop (sb_gptr s) (m_read_buf s)), s\<lparr>sb_gptr := sb_gptr s + bytes_next_read\<rparr>))"

lemma xsgetn_decreases:
  assumes "(copied, s') = take_available n s" and "n - min n (sb_egptr s - sb_gptr s) \<noteq> 0" and "underflow s' = Inr (c, t)"
  shows "reads_weight t < reads_weight s"
proof -
  have "reads_weight s' = reads_weight s" "\<not> sb_gptr s' < sb_egptr s'"
    using assms(1,2) by (auto simp: take_available_def Let_def reads_weight_def)
  then show ?thesis using underflow_weight [OF assms(3)] by simp
qed

function xsgetn :: "nat \<Rightarrow> stream_buffer \<Rightarrow> stream_fault + string \<times> stream_buffer" where
  "xsgetn bytes_remaining s =
     (let (copied, s') = take_available bytes_remaining s;
          remaining = bytes_remaining - min bytes_remaining (sb_egptr s - sb_gptr s)
      in if remaining = 0 then Inr (copied, s')
         else (case underflow s' of
                 Inl f \<Rightarrow> Inl f
               | Inr (c, t) \<Rightarrow>
                   (if c = traits_eof then Inr (copied, t)
                    else (case xsgetn remaining t of
                            Inl f \<Rightarrow> Inl f
                          | Inr (later, u) \<Rightarrow> Inr (copied @ later, u)))))"
  by pat_completeness auto
termination by (relation "measure (\<lambda>(_, s). reads_weight s)") (auto intro: xsgetn_decreases)

declare xsgetn.simps [simp del]

definition sgetc :: "stream_buffer \<Rightarrow> stream_fault + int \<times> stream_buffer" where
  "sgetc s = (if sb_gptr s < sb_egptr s then Inr (to_int_type (m_read_buf s ! sb_gptr s), s) else underflow s)"

definition sbumpc :: "stream_buffer \<Rightarrow> stream_fault + int \<times> stream_buffer" where
  "sbumpc s =
     (case sgetc s of
        Inl f \<Rightarrow> Inl f
      | Inr (c, s) \<Rightarrow> Inr (c, if c = traits_eof then s else s\<lparr>sb_gptr := sb_gptr s + 1\<rparr>))"

definition sungetc :: "stream_buffer \<Rightarrow> int \<times> stream_buffer" where
  "sungetc s =
     (if sb_eback s < sb_gptr s then (to_int_type (m_read_buf s ! (sb_gptr s - 1)), s\<lparr>sb_gptr := sb_gptr s - 1\<rparr>)
      else (traits_eof, s))"

section \<open>The stream\<close>

text \<open>
  \<^verbatim>\<open>stream::accept\<close> and \<^verbatim>\<open>stream::connect\<close>: the connection, then the handshake when it is encrypted. The results of
  the two operations are given. A connect opens the socket even when it fails.
\<close>

definition stream_accept :: "'err option \<Rightarrow> 'err option \<Rightarrow> nat \<Rightarrow> stream_buffer \<Rightarrow> 'err option \<times> stream_buffer" where
  "stream_accept accepted handshake ip s =
     (let s = (if accepted = None then s\<lparr>m_conn_ptr := open_connection ip (m_conn_ptr s)\<rparr> else s)
      in (if accepted = None \<and> m_ssl_flag (m_conn_ptr s) then handshake else accepted, s))"

definition stream_connect :: "'err option \<Rightarrow> 'err option \<Rightarrow> nat \<Rightarrow> stream_buffer \<Rightarrow> 'err option \<times> stream_buffer" where
  "stream_connect connected handshake ip s =
     (let s = s\<lparr>m_conn_ptr := open_connection ip (m_conn_ptr s)\<rparr>
      in (if connected = None \<and> m_ssl_flag (m_conn_ptr s) then handshake else connected, s))"

definition stream_close :: "stream_buffer \<Rightarrow> stream_buffer" where
  "stream_close s = s\<lparr>m_conn_ptr := close_connection (m_conn_ptr s)\<rparr>"

end
