(* ===== verification/Stream_Props.thy ===== *)
theory Stream_Props
  imports Tcp_Stream
begin

text \<open>
  Properties of the stream buffer (\<^verbatim>\<open>include/pion/tcp/stream.hpp\<close>): the bytes written arrive in order, however
  they are buffered; the bytes read do not depend on how the network delivers them; the last ones can be put
  back; and what becomes of the write buffer after a failed write.
\<close>

section \<open>Copying\<close>

lemma length_overwrite: "i + length src \<le> length buf \<Longrightarrow> length (overwrite i src buf) = length buf"
  by (simp add: overwrite_def)

lemma take_overwrite: "i \<le> length buf \<Longrightarrow> take (i + length src) (overwrite i src buf) = take i buf @ src"
  by (simp add: overwrite_def)

lemma take_overwrite_before: "j \<le> i \<Longrightarrow> i \<le> length buf \<Longrightarrow> take j (overwrite i src buf) = take j buf"
  by (simp add: overwrite_def)

lemma drop_overwrite: "i \<le> length buf \<Longrightarrow> drop i (overwrite i src buf) = src @ drop (i + length src) buf"
  by (simp add: overwrite_def)

section \<open>Writing\<close>

definition write_inv :: "stream_buffer \<Rightarrow> bool" where
  "write_inv s \<longleftrightarrow> length (m_write_buf s) = WRITE_BUFFER_SIZE \<and> sb_pptr s < WRITE_BUFFER_SIZE"

text \<open>What has been written: the bytes on the network and the ones that wait in the buffer.\<close>

definition written :: "stream_buffer \<Rightarrow> string" where
  "written s = net_sent s @ take (sb_pptr s) (m_write_buf s)"

text \<open>The network takes the next writes, \<open>k\<close> of them at least.\<close>

definition sends :: "nat \<Rightarrow> stream_buffer \<Rightarrow> bool" where
  "sends k s \<longleftrightarrow> set (net_writes s) \<subseteq> {Sent} \<and> k \<le> length (net_writes s)"

lemma sends_less: "sends k s \<Longrightarrow> j \<le> k \<Longrightarrow> sends j s"
  by (simp add: sends_def)

lemma write_wait_sends:
  assumes "sends (Suc k) s"
  shows "\<exists>t. write_wait data s = Inr t \<and> sends k t \<and> net_sent t = net_sent s @ data \<and> m_bytes_transferred t = length data \<and>
    \<not> m_async_error t \<and> m_write_buf t = m_write_buf s \<and> sb_pptr t = sb_pptr s"
  using assms by (cases "net_writes s") (auto simp: sends_def write_wait_def operation_finished_def Let_def)

lemma flush_sends:
  assumes "sends (Suc k) s" and "sb_pptr s \<le> length (m_write_buf s)"
  shows "\<exists>r t. flush_output s = Inr (r, t) \<and> r \<noteq> traits_eof \<and> sends k t \<and> net_sent t = written s \<and> sb_pptr t = 0 \<and>
    m_write_buf t = m_write_buf s"
proof (cases "sb_pptr s = 0")
  case True
  then show ?thesis using sends_less [OF assms(1), of k] by (simp add: flush_output_def written_def traits_eof_def)
next
  case False
  obtain t where t: "write_wait (take (sb_pptr s) (m_write_buf s)) s = Inr t" "sends k t" "net_sent t = written s"
    "m_bytes_transferred t = sb_pptr s" "\<not> m_async_error t" "m_write_buf t = m_write_buf s" "sb_pptr t = sb_pptr s"
    using write_wait_sends [OF assms(1)] assms(2) unfolding written_def by (metis length_take min.absorb2)
  then show ?thesis using False assms(2) by (simp add: flush_output_def Let_def sends_def traits_eof_def)
qed

definition writes :: "string \<Rightarrow> stream_buffer \<Rightarrow> nat \<Rightarrow> stream_buffer \<Rightarrow> bool" where
  "writes str s k t \<longleftrightarrow> write_inv t \<and> written t = written s @ str \<and> sends k t"

lemma overflow_sends:
  assumes "sends (Suc k) s" and "write_inv s"
  shows "\<exists>t. overflow (to_int_type c) s = Inr (to_int_type c, t) \<and> writes [c] s k t"
proof -
  define u where "u = s\<lparr>m_write_buf := (m_write_buf s)[sb_pptr s := c], sb_pptr := Suc (sb_pptr s)\<rparr>"
  have c: "to_int_type c \<noteq> traits_eof" "to_char_type (to_int_type c) = c" "not_eof (to_int_type c) = to_int_type c"
    by (simp_all add: to_int_type_def traits_eof_def to_char_type_def not_eof_def byte_val_less byte_char_val nat_mod_distrib)
  have u: "sends (Suc k) u" "sb_pptr u \<le> length (m_write_buf u)" "written u = written s @ [c]"
    using assms by (auto simp: u_def sends_def write_inv_def written_def take_Suc_conv_app_nth)
  obtain r t where t: "flush_output u = Inr (r, t)" "r \<noteq> traits_eof" "sends k t" "net_sent t = written u" "sb_pptr t = 0"
    "m_write_buf t = m_write_buf u" using flush_sends [OF u(1,2)] by blast
  have "overflow (to_int_type c) s = Inr (to_int_type c, t)"
    using t(1,2) c assms(2) by (simp add: overflow_def write_inv_def flip: u_def)
  moreover have "writes [c] s k t"
    using t u(3) assms(2) by (simp add: writes_def write_inv_def written_def u_def)
  ultimately show ?thesis by blast
qed

lemma sputc_sends:
  assumes "sends (Suc k) s" and "write_inv s"
  shows "\<exists>t. sputc c s = Inr (to_int_type c, t) \<and> writes [c] s k t"
proof (cases "sb_pptr s < WRITE_BUFFER_SIZE - 1")
  case True
  then show ?thesis using assms
    by (auto simp: sputc_def writes_def write_inv_def written_def sends_def take_Suc_conv_app_nth)
next
  case False
  then show ?thesis using overflow_sends [OF assms, of c] by (simp add: sputc_def)
qed

lemma sync_sends:
  assumes "sends (Suc k) s" and "write_inv s"
  shows "\<exists>t. sync_stream s = Inr (0, t) \<and> writes [] s k t \<and> net_sent t = written s"
proof -
  have "sb_pptr s \<le> length (m_write_buf s)" using assms(2) by (simp add: write_inv_def)
  from flush_sends [OF assms(1) this] show ?thesis using assms(2)
    by (auto simp: sync_stream_def writes_def write_inv_def written_def)
qed

text \<open>\<^verbatim>\<open>xsputn\<close> fills the buffer, flushes it, and sends or buffers the rest.\<close>

definition room :: "stream_buffer \<Rightarrow> nat" where
  "room s = WRITE_BUFFER_SIZE - 1 - sb_pptr s"

lemma room_sum: "write_inv s \<Longrightarrow> sb_pptr s + room s = WRITE_BUFFER_SIZE - 1"
  by (simp add: room_def write_inv_def)

definition filled :: "string \<Rightarrow> stream_buffer \<Rightarrow> stream_buffer" where
  "filled str s =
     s\<lparr>m_write_buf := overwrite (sb_pptr s) (take (room s) str) (m_write_buf s), sb_pptr := sb_pptr s + room s\<rparr>"

lemma overwrite_nothing: "overwrite i [] buf = buf"
  by (simp add: overwrite_def)

lemma xsputn_full:
  assumes "write_inv s" and "room s < length str"
  shows "xsputn str s =
    (case flush_output (filled str s) of
       Inl f \<Rightarrow> Inl f
     | Inr (r, s') \<Rightarrow>
         (let rest = drop (room s) str
          in if r = traits_eof then Inr (0, s')
             else if WRITE_BUFFER_SIZE - 1 \<le> length rest then
               (case write_wait rest s' of
                  Inl f \<Rightarrow> Inl f
                | Inr s' \<Rightarrow> Inr (int (room s) + int (m_bytes_transferred s'), s'))
             else Inr (int (length str), s'\<lparr>m_write_buf := overwrite 0 rest (m_write_buf s'), sb_pptr := sb_pptr s' + length rest\<rparr>)))"
proof -
  have n: "int (WRITE_BUFFER_SIZE - 1) - int (sb_pptr s) = int (room s)" using room_sum [OF assms(1)] by linarith
  have fill: "(if 0 < int (room s) then s\<lparr>m_write_buf := overwrite (sb_pptr s) (take (nat (int (room s))) str) (m_write_buf s),
      sb_pptr := sb_pptr s + nat (int (room s))\<rparr> else s) = filled str s"
    by (simp add: filled_def overwrite_nothing)
  have rest: "(int (WRITE_BUFFER_SIZE - 1) \<le> int (length str) - int (room s)) = (WRITE_BUFFER_SIZE - 1 \<le> length (drop (room s) str))"
    using assms(2) by auto
  have neg: "(int (length str) \<le> int (room s)) = False" "(int (room s) < 0) = False" using assms(2) by simp_all
  show ?thesis unfolding xsputn_def Let_def n fill rest neg if_False unfolding nat_int by (rule refl)
qed

lemma filled_written:
  assumes "write_inv s" and "room s < length str"
  shows "written (filled str s) = written s @ take (room s) str"
    and "length (m_write_buf (filled str s)) = WRITE_BUFFER_SIZE" and "sb_pptr (filled str s) = WRITE_BUFFER_SIZE - 1"
    and "net_writes (filled str s) = net_writes s"
proof -
  have n: "sb_pptr s + room s = WRITE_BUFFER_SIZE - 1" "length (take (room s) str) = room s" "sb_pptr s \<le> length (m_write_buf s)"
    using assms room_sum [OF assms(1)] by (simp_all add: write_inv_def)
  show "written (filled str s) = written s @ take (room s) str"
    using take_overwrite [OF n(3), of "take (room s) str"] unfolding n(2) by (simp add: written_def filled_def)
  show "length (m_write_buf (filled str s)) = WRITE_BUFFER_SIZE"
    using assms(1) n length_overwrite [of "sb_pptr s" "take (room s) str" "m_write_buf s"]
    by (simp add: filled_def write_inv_def)
qed (simp_all add: filled_def room_sum [OF assms(1)])

lemma xsputn_sends:
  assumes "sends (Suc (Suc k)) s" and "write_inv s"
  shows "\<exists>t. xsputn str s = Inr (int (length str), t) \<and> writes str s k t"
proof (cases "length str \<le> room s")
  case True
  then have fits: "sb_pptr s + length str \<le> WRITE_BUFFER_SIZE - 1" using room_sum [OF assms(2)] by linarith
  then have "xsputn str s = Inr (int (length str),
      s\<lparr>m_write_buf := overwrite (sb_pptr s) str (m_write_buf s), sb_pptr := sb_pptr s + length str\<rparr>)"
    by (simp add: xsputn_def Let_def)
  then show ?thesis using fits assms take_overwrite [of "sb_pptr s" "m_write_buf s" str]
    by (simp add: writes_def write_inv_def written_def sends_def length_overwrite WRITE_BUFFER_SIZE_def)
next
  case False
  then have long: "room s < length str" by simp
  define rest where "rest = drop (room s) str"
  note f = filled_written [OF assms(2) long]
  have "sends (Suc (Suc k)) (filled str s)" using assms(1) f(4) by (simp add: sends_def)
  then obtain r u where u: "flush_output (filled str s) = Inr (r, u)" "r \<noteq> traits_eof" "sends (Suc k) u"
    "net_sent u = written s @ take (room s) str" "sb_pptr u = 0" "length (m_write_buf u) = WRITE_BUFFER_SIZE"
    using flush_sends [of "Suc k" "filled str s"] f by fastforce
  have str: "take (room s) str @ rest = str" "room s + length rest = length str" using long by (simp_all add: rest_def)
  show ?thesis
  proof (cases "WRITE_BUFFER_SIZE - 1 \<le> length rest")
    case True
    obtain t where t: "write_wait rest u = Inr t" "sends k t" "net_sent t = net_sent u @ rest"
      "m_bytes_transferred t = length rest" "m_write_buf t = m_write_buf u" "sb_pptr t = sb_pptr u"
      using write_wait_sends [OF u(3)] by blast
    have "xsputn str s = Inr (int (length str), t)"
      using xsputn_full [OF assms(2) long] u(1,2) t(1,4) True str(2) by (simp add: Let_def flip: rest_def)
    moreover have "writes str s k t"
      using t u str(1) by (simp add: writes_def write_inv_def written_def WRITE_BUFFER_SIZE_def)
    ultimately show ?thesis by blast
  next
    case False
    define t where "t = u\<lparr>m_write_buf := overwrite 0 rest (m_write_buf u), sb_pptr := sb_pptr u + length rest\<rparr>"
    have "xsputn str s = Inr (int (length str), t)"
      using xsputn_full [OF assms(2) long] u(1,2) False by (simp add: Let_def t_def flip: rest_def)
    moreover have "writes str s k t"
      using u False str(1) take_overwrite [of 0 "m_write_buf u" rest]
      by (simp add: t_def writes_def write_inv_def written_def length_overwrite sends_def)
    ultimately show ?thesis by blast
  qed
qed

datatype write_op = Put_char char | Put_string string | Sync

fun write_step :: "write_op \<Rightarrow> stream_buffer \<Rightarrow> stream_fault + int \<times> stream_buffer" where
  "write_step (Put_char c) s = sputc c s"
| "write_step (Put_string str) s = xsputn str s"
| "write_step Sync s = sync_stream s"

fun run_writes :: "write_op list \<Rightarrow> stream_buffer \<Rightarrow> stream_fault + int list \<times> stream_buffer" where
  "run_writes [] s = Inr ([], s)"
| "run_writes (w # ws) s =
     (case write_step w s of
        Inl f \<Rightarrow> Inl f
      | Inr (r, t) \<Rightarrow> (case run_writes ws t of Inl f \<Rightarrow> Inl f | Inr (rs, u) \<Rightarrow> Inr (r # rs, u)))"

fun op_bytes :: "write_op \<Rightarrow> string" where
  "op_bytes (Put_char c) = [c]"
| "op_bytes (Put_string str) = str"
| "op_bytes Sync = []"

fun op_result :: "write_op \<Rightarrow> int" where
  "op_result (Put_char c) = to_int_type c"
| "op_result (Put_string str) = int (length str)"
| "op_result Sync = 0"

lemma writes_less: "writes str s k t \<Longrightarrow> j \<le> k \<Longrightarrow> writes str s j t"
  by (auto simp: writes_def sends_def)

lemma write_step_sends:
  assumes "sends (Suc (Suc k)) s" and "write_inv s"
  shows "\<exists>t. write_step w s = Inr (op_result w, t) \<and> writes (op_bytes w) s k t \<and> (w = Sync \<longrightarrow> net_sent t = written s)"
proof (cases w)
  case (Put_char c)
  then show ?thesis using sputc_sends [OF assms] writes_less by fastforce
next
  case (Put_string str)
  then show ?thesis using xsputn_sends [OF assms] by simp
next
  case Sync
  then show ?thesis using sync_sends [OF assms] writes_less by fastforce
qed

lemma run_writes_sends:
  assumes "sends (2 * length ws) s" and "write_inv s"
  shows "\<exists>t. run_writes ws s = Inr (map op_result ws, t) \<and> writes (concat (map op_bytes ws)) s 0 t \<and>
    (ws \<noteq> [] \<longrightarrow> last ws = Sync \<longrightarrow> net_sent t = written s @ concat (map op_bytes ws))"
  using assms
proof (induction ws arbitrary: s)
  case Nil
  then show ?case by (simp add: writes_def sends_def)
next
  case (Cons w ws)
  obtain t where t: "write_step w s = Inr (op_result w, t)" "writes (op_bytes w) s (2 * length ws) t" "w = Sync \<longrightarrow> net_sent t = written s"
    using write_step_sends [of "2 * length ws" s w] Cons.prems by auto
  then obtain u where u: "run_writes ws t = Inr (map op_result ws, u)" "writes (concat (map op_bytes ws)) t 0 u"
    "ws \<noteq> [] \<longrightarrow> last ws = Sync \<longrightarrow> net_sent u = written t @ concat (map op_bytes ws)"
    using Cons.IH [of t] by (auto simp: writes_def)
  have "ws = [] \<Longrightarrow> u = t" using u(1) by simp
  then show ?case using t u by (auto simp: writes_def)
qed

section \<open>Reading\<close>

definition read_inv :: "stream_buffer \<Rightarrow> bool" where
  "read_inv s \<longleftrightarrow> length (m_read_buf s) = READ_BUFFER_SIZE \<and> sb_eback s \<le> sb_gptr s \<and> sb_gptr s \<le> sb_egptr s \<and> sb_egptr s \<le> READ_BUFFER_SIZE"

text \<open>The bytes in the buffer that can be read, and those that can be put back.\<close>

definition unread :: "stream_buffer \<Rightarrow> string" where
  "unread s = take (sb_egptr s - sb_gptr s) (drop (sb_gptr s) (m_read_buf s))"

definition behind :: "stream_buffer \<Rightarrow> string" where
  "behind s = take (sb_gptr s - sb_eback s) (drop (sb_eback s) (m_read_buf s))"

text \<open>What the peer sends up to the next error, and all that can be read before it.\<close>

fun arriving :: "read_result list \<Rightarrow> string" where
  "arriving [] = []"
| "arriving (Received data # rs) = data @ arriving rs"
| "arriving (Read_failed # rs) = []"

definition pending :: "stream_buffer \<Rightarrow> string" where
  "pending s = unread s @ arriving (net_reads s)"

lemma unread_length: "read_inv s \<Longrightarrow> length (unread s) = sb_egptr s - sb_gptr s"
  by (auto simp: read_inv_def unread_def)

lemma behind_length: "read_inv s \<Longrightarrow> length (behind s) = sb_gptr s - sb_eback s"
  by (auto simp: read_inv_def behind_def)

lemma take_drop_join: "a \<le> b \<Longrightarrow> take (b + n - a) (drop a xs) = take (b - a) (drop a xs) @ take n (drop b xs)"
  by (metis Nat.add_diff_assoc2 add_diff_inverse_nat drop_drop le_add_diff_inverse2 not_less take_add)

lemma take_available_result:
  assumes "read_inv s" and "take_available n s = (copied, t)"
  shows "copied = take n (unread s)" and "unread t = drop n (unread s)" and "behind t = behind s @ copied"
    and "read_inv t" and "net_reads t = net_reads s"
proof -
  define m where "m = min n (sb_egptr s - sb_gptr s)"
  have t: "t = s\<lparr>sb_gptr := sb_gptr s + m\<rparr>" "copied = take m (drop (sb_gptr s) (m_read_buf s))"
    using assms(2) by (auto simp: take_available_def Let_def m_def)
  show copied: "copied = take n (unread s)" by (simp add: t unread_def m_def min.commute)
  show "unread t = drop n (unread s)" by (auto simp: t unread_def m_def drop_take min_def add.commute)
  show "behind t = behind s @ copied"
    using assms(1) take_drop_join [of "sb_eback s" "sb_gptr s" m "m_read_buf s"] by (simp add: t behind_def read_inv_def)
  show "read_inv t" "net_reads t = net_reads s" using assms(1) by (auto simp: t m_def read_inv_def)
qed

lemma take_drop_overwrite: "i \<le> length buf \<Longrightarrow> take (length src) (drop i (overwrite i src buf)) = src"
  by (simp add: drop_overwrite)

lemma take_drop_overwrite_before:
  "j + p \<le> i \<Longrightarrow> i \<le> length buf \<Longrightarrow> take p (drop j (overwrite i src buf)) = take p (drop j buf)"
  by (simp add: overwrite_def drop_take min_absorb1)

text \<open>The buffer of \<^verbatim>\<open>underflow\<close> before it reads.\<close>

definition kept_back :: "stream_buffer \<Rightarrow> nat" where
  "kept_back s = min (sb_gptr s - sb_eback s) PUT_BACK_MAX"

definition moved_back :: "stream_buffer \<Rightarrow> stream_buffer" where
  "moved_back s = s\<lparr>m_read_buf := overwrite (PUT_BACK_MAX - kept_back s)
     (take (kept_back s) (drop (sb_gptr s - kept_back s) (m_read_buf s))) (m_read_buf s)\<rparr>"

lemma underflow_reads:
  assumes "\<not> sb_gptr s < sb_egptr s"
  shows "underflow s =
    (case read_wait (moved_back s) of
       Inl f \<Rightarrow> Inl f
     | Inr t \<Rightarrow>
         (if m_async_error t then Inr (traits_eof, t)
          else (let u = t\<lparr>sb_eback := PUT_BACK_MAX - kept_back s, sb_gptr := PUT_BACK_MAX, sb_egptr := PUT_BACK_MAX + m_bytes_transferred t\<rparr>
                in Inr (to_int_type (m_read_buf u ! sb_gptr u), u))))"
proof -
  have moved: "(if 0 < kept_back s then s\<lparr>m_read_buf := overwrite (PUT_BACK_MAX - kept_back s)
      (take (kept_back s) (drop (sb_gptr s - kept_back s) (m_read_buf s))) (m_read_buf s)\<rparr> else s) = moved_back s"
    by (simp add: moved_back_def overwrite_nothing)
  have no: "(sb_gptr s < sb_egptr s) = False" using assms by simp
  show ?thesis unfolding underflow_def kept_back_def [symmetric] Let_def moved no if_False by (rule refl)
qed

lemma moved_back_result:
  assumes "read_inv s"
  shows "length (m_read_buf (moved_back s)) = READ_BUFFER_SIZE" and "kept_back s \<le> PUT_BACK_MAX"
    and "take (kept_back s) (drop (PUT_BACK_MAX - kept_back s) (m_read_buf (moved_back s))) = drop (length (behind s) - PUT_BACK_MAX) (behind s)"
proof -
  define k where "k = kept_back s"
  define src where "src = take k (drop (sb_gptr s - k) (m_read_buf s))"
  have k: "k \<le> sb_gptr s - sb_eback s" "k \<le> PUT_BACK_MAX" by (auto simp: k_def kept_back_def)
  have len: "length src = k" using assms k by (auto simp: src_def read_inv_def)
  have buf: "m_read_buf (moved_back s) = overwrite (PUT_BACK_MAX - k) src (m_read_buf s)"
    by (simp add: moved_back_def src_def k_def)
  have max: "PUT_BACK_MAX \<le> length (m_read_buf s)" using assms by (simp add: read_inv_def READ_BUFFER_SIZE_def PUT_BACK_MAX_def)
  show "length (m_read_buf (moved_back s)) = READ_BUFFER_SIZE"
    using max k len assms by (simp add: buf length_overwrite read_inv_def)
  show "kept_back s \<le> PUT_BACK_MAX" using k by (simp add: k_def)
  have "sb_eback s + (sb_gptr s - sb_eback s - PUT_BACK_MAX) = sb_gptr s - k"
    using assms by (auto simp: k_def kept_back_def read_inv_def min_def)
  moreover have "sb_gptr s - sb_eback s - (sb_gptr s - sb_eback s - PUT_BACK_MAX) = k"
    by (auto simp: k_def kept_back_def min_def)
  moreover have "drop n (behind s) = take (sb_gptr s - sb_eback s - n) (drop (sb_eback s + n) (m_read_buf s))" for n
    by (simp add: behind_def drop_take add.commute)
  ultimately have "drop (length (behind s) - PUT_BACK_MAX) (behind s) = src"
    by (simp only: behind_length [OF assms] src_def)
  moreover have "take k (drop (PUT_BACK_MAX - k) (m_read_buf (moved_back s))) = src"
    using take_drop_overwrite [of "PUT_BACK_MAX - k" "m_read_buf s" src] max by (simp add: buf len)
  ultimately show "take (kept_back s) (drop (PUT_BACK_MAX - kept_back s) (m_read_buf (moved_back s))) =
    drop (length (behind s) - PUT_BACK_MAX) (behind s)" by (simp add: k_def)
qed

lemma to_int_not_eof: "to_int_type c \<noteq> traits_eof"
  by (simp add: to_int_type_def traits_eof_def)

lemma underflow_fails:
  assumes "read_inv s" and "sb_gptr s = sb_egptr s" and "net_reads s = Read_failed # rs"
  shows "\<exists>t. underflow s = Inr (traits_eof, t) \<and> read_inv t \<and> net_reads t = rs"
proof -
  have "net_reads (moved_back s) = Read_failed # rs" using assms(3) by (simp add: moved_back_def)
  then have "underflow s = Inr (traits_eof, operation_finished True 0 (moved_back s\<lparr>m_bytes_transferred := 0, net_reads := rs\<rparr>))"
    using assms(2) by (simp add: underflow_reads read_wait_def Let_def operation_finished_def)
  then show ?thesis using moved_back_result(1) [OF assms(1)] assms(1)
    by (simp add: operation_finished_def read_inv_def) (simp add: moved_back_def)
qed

lemma underflow_receives:
  assumes "read_inv s" and "sb_gptr s = sb_egptr s" and "net_reads s = Received data # rs"
  shows "\<exists>c t. underflow s = Inr (c, t) \<and> c \<noteq> traits_eof \<and> read_inv t \<and> pending t = pending s \<and>
    behind t = drop (length (behind s) - PUT_BACK_MAX) (behind s) \<and>
    (Read_failed \<in> set (net_reads t)) = (Read_failed \<in> set (net_reads s))"
proof -
  define room where "room = READ_BUFFER_SIZE - PUT_BACK_MAX"
  define rest where "rest = (if room < length data then Received (drop room data) # rs else rs)"
  define buf where "buf = overwrite PUT_BACK_MAX (take room data) (m_read_buf (moved_back s))"
  define t where "t = (moved_back s)\<lparr>m_async_error := False, m_bytes_transferred := min room (length data), m_read_buf := buf, net_reads := rest,
    sb_eback := PUT_BACK_MAX - kept_back s, sb_gptr := PUT_BACK_MAX, sb_egptr := PUT_BACK_MAX + min room (length data)\<rparr>"
  note m = moved_back_result [OF assms(1)]
  have max: "PUT_BACK_MAX \<le> length (m_read_buf (moved_back s))" using m(1) by (simp add: READ_BUFFER_SIZE_def PUT_BACK_MAX_def)
  have sizes: "PUT_BACK_MAX + room = READ_BUFFER_SIZE" by (simp add: room_def READ_BUFFER_SIZE_def PUT_BACK_MAX_def)
  have len: "length buf = READ_BUFFER_SIZE" using length_overwrite [of PUT_BACK_MAX "take room data"] m(1) sizes by (simp add: buf_def)
  have "net_reads (moved_back s) = Received data # rs" using assms(3) by (simp add: moved_back_def)
  then have "underflow s = Inr (to_int_type (m_read_buf t ! sb_gptr t), t)"
    using assms(2) by (simp add: underflow_reads read_wait_def Let_def operation_finished_def t_def buf_def rest_def flip: room_def)
  moreover have "read_inv t" using len sizes by (simp add: t_def read_inv_def)
  moreover have "pending t = pending s"
  proof -
    have "unread t = take room data"
      using take_drop_overwrite [OF max, of "take room data"] by (simp add: t_def unread_def buf_def min.commute)
    moreover have "unread s = []" using assms(2) by (simp add: unread_def)
    moreover have "take room data @ arriving rest = data @ arriving rs" by (simp add: rest_def flip: append_assoc)
    ultimately show ?thesis using assms(3) by (simp add: pending_def) (simp add: t_def)
  qed
  moreover have "behind t = drop (length (behind s) - PUT_BACK_MAX) (behind s)"
  proof -
    have "behind t = take (kept_back s) (drop (PUT_BACK_MAX - kept_back s) buf)" using m(2) by (simp add: t_def behind_def)
    also have "\<dots> = take (kept_back s) (drop (PUT_BACK_MAX - kept_back s) (m_read_buf (moved_back s)))"
      unfolding buf_def by (rule take_drop_overwrite_before) (use m(2) max in simp_all)
    finally show ?thesis using m(3) by simp
  qed
  moreover have "(Read_failed \<in> set (net_reads t)) = (Read_failed \<in> set (net_reads s))"
    using assms(3) by (simp add: t_def rest_def)
  ultimately show ?thesis using to_int_not_eof by blast
qed

text \<open>
  The bytes that can be put back after a read: the last ones, and as many of them as the buffer keeps.
\<close>

definition keeps_last :: "string \<Rightarrow> string \<Rightarrow> bool" where
  "keeps_last xs h \<longleftrightarrow> (\<exists>d. xs = drop d h) \<and> min PUT_BACK_MAX (length h) \<le> length xs"

lemma keeps_last_refl: "keeps_last h h"
  unfolding keeps_last_def by (auto intro: exI [of _ 0])

lemma keeps_last_drop:
  assumes "keeps_last ys (drop (length h - PUT_BACK_MAX) h @ zs)"
  shows "keeps_last ys (h @ zs)"
proof -
  obtain d where d: "ys = drop d (drop (length h - PUT_BACK_MAX) h @ zs)"
    "min PUT_BACK_MAX (length (drop (length h - PUT_BACK_MAX) h @ zs)) \<le> length ys" using assms by (auto simp: keeps_last_def)
  have "drop (length h - PUT_BACK_MAX) h @ zs = drop (length h - PUT_BACK_MAX) (h @ zs)" by simp
  then have "ys = drop (length h - PUT_BACK_MAX + d) (h @ zs)" using d(1) by (simp add: add.commute)
  moreover have "min PUT_BACK_MAX (length (h @ zs)) \<le> length ys" using d(2) by (auto simp: min_def split: if_splits)
  ultimately show ?thesis unfolding keeps_last_def by blast
qed

lemma xsgetn_reads:
  assumes "read_inv s" and "n \<le> length (pending s) \<or> Read_failed \<in> set (net_reads s)"
  shows "\<exists>t. xsgetn n s = Inr (take n (pending s), t) \<and> read_inv t \<and>
    (n \<le> length (pending s) \<longrightarrow> pending t = drop n (pending s) \<and> keeps_last (behind t) (behind s @ take n (pending s)))"
  using assms
proof (induction n s rule: xsgetn.induct)
  case (1 n s)
  define copied where "copied = fst (take_available n s)"
  define u where "u = snd (take_available n s)"
  have cu: "take_available n s = (copied, u)" by (simp add: copied_def u_def)
  note av = take_available_result [OF "1.prems"(1) cu]
  define r where "r = n - min n (sb_egptr s - sb_gptr s)"
  have r: "r = n - length (unread s)" by (simp add: r_def unread_length [OF "1.prems"(1)])
  have eq: "xsgetn n s = (if r = 0 then Inr (copied, u) else (case underflow u of Inl f \<Rightarrow> Inl f
      | Inr (c, t) \<Rightarrow> if c = traits_eof then Inr (copied, t) else
          (case xsgetn r t of Inl f \<Rightarrow> Inl f | Inr (later, v) \<Rightarrow> Inr (copied @ later, v))))"
    by (subst xsgetn.simps) (simp add: cu Let_def flip: r_def)
  show ?case
  proof (cases "r = 0")
    case True
    then have "n \<le> length (unread s)" using r by simp
    then have "take n (pending s) = copied" "pending u = drop n (pending s)"
      using av by (simp_all add: pending_def)
    then show ?thesis using eq True av keeps_last_refl by auto
  next
    case False
    then have n: "length (unread s) < n" using r by simp
    then have copied: "copied = unread s" "unread u = []" using av by simp_all
    have ptr: "sb_gptr u = sb_egptr u" using copied(2) unread_length [OF av(4)] av(4) by (simp add: read_inv_def)
    have pend: "pending u = arriving (net_reads s)" "pending s = copied @ pending u"
      using copied av(5) by (simp_all add: pending_def)
    have "net_reads s \<noteq> []" using "1.prems"(2) n by (auto simp: pending_def)
    then consider (failed) rs where "net_reads u = Read_failed # rs" | (data) d rs where "net_reads u = Received d # rs"
      using av(5) by (metis list.exhaust read_result.exhaust)
    then show ?thesis
    proof cases
      case failed
      obtain t where t: "underflow u = Inr (traits_eof, t)" "read_inv t" using underflow_fails [OF av(4) ptr failed] by blast
      have "take n (pending s) = copied" "\<not> n \<le> length (pending s)" using failed av(5) n copied(1) by (simp_all add: pending_def)
      then show ?thesis using eq False t by simp
    next
      case data
      obtain c t where t: "underflow u = Inr (c, t)" "c \<noteq> traits_eof" "read_inv t" "pending t = pending u"
        "behind t = drop (length (behind u) - PUT_BACK_MAX) (behind u)"
        "(Read_failed \<in> set (net_reads t)) = (Read_failed \<in> set (net_reads u))"
        using underflow_receives [OF av(4) ptr data] by blast
      have len: "(n \<le> length (pending s)) = (r \<le> length (pending t))" using pend n t(4) copied(1) r by auto
      have "\<exists>v. xsgetn r t = Inr (take r (pending t), v) \<and> read_inv v \<and>
        (r \<le> length (pending t) \<longrightarrow> pending v = drop r (pending t) \<and> keeps_last (behind v) (behind t @ take r (pending t)))"
        using "1.IH" [of "(copied, u)" copied u r "(c, t)" c t] cu False t(1-3) "1.prems"(2) len t(6) av(5) by (simp add: r_def)
      then obtain v where v: "xsgetn r t = Inr (take r (pending t), v)" "read_inv v"
        "r \<le> length (pending t) \<longrightarrow> pending v = drop r (pending t) \<and> keeps_last (behind v) (behind t @ take r (pending t))" by blast
      have "take n (pending s) = copied @ take r (pending t)" "drop n (pending s) = drop r (pending t)"
        using n copied(1) pend(2) t(4) r by simp_all
      moreover have "behind s @ copied = behind u" using av(3) by simp
      ultimately show ?thesis
        using eq False t(1,2,5) v len keeps_last_drop [of "behind v" "behind u" "take r (pending t)"] by (simp flip: append_assoc)
    qed
  qed
qed

text \<open>Putting bytes back, one after the other.\<close>

fun unget :: "nat \<Rightarrow> stream_buffer \<Rightarrow> stream_buffer" where
  "unget 0 s = s"
| "unget (Suc k) s = unget k (snd (sungetc s))"

lemma sungetc_back:
  assumes "read_inv s" and "behind s = xs @ [c]"
  shows "sungetc s = (to_int_type c, s\<lparr>sb_gptr := sb_gptr s - 1\<rparr>)" and "read_inv (snd (sungetc s))"
    and "behind (snd (sungetc s)) = xs" and "pending (snd (sungetc s)) = c # pending s"
proof -
  have len: "Suc (length xs) = sb_gptr s - sb_eback s" using behind_length [OF assms(1)] assms(2) by simp
  then have lt: "sb_eback s < sb_gptr s" by simp
  have idx: "m_read_buf s ! (sb_gptr s - 1) = c"
  proof -
    have "behind s ! length xs = m_read_buf s ! (sb_eback s + length xs)"
      using len assms(1) by (simp add: behind_def read_inv_def)
    moreover have "sb_eback s + length xs = sb_gptr s - 1" using len by linarith
    ultimately show ?thesis using assms(2) by simp
  qed
  show eq: "sungetc s = (to_int_type c, s\<lparr>sb_gptr := sb_gptr s - 1\<rparr>)" using lt idx by (simp add: sungetc_def)
  show "read_inv (snd (sungetc s))" using assms(1) lt by (auto simp: eq read_inv_def)
  have "behind (snd (sungetc s)) = take (length xs) (behind s)" 
  proof -
    have "sb_gptr s - 1 - sb_eback s = length xs" "length xs \<le> sb_gptr s - sb_eback s" using len by linarith+
    then show ?thesis by (simp add: eq behind_def min_absorb1)
  qed
  then show "behind (snd (sungetc s)) = xs" using assms(2) by simp
  have "sb_egptr s - (sb_gptr s - 1) = Suc (sb_egptr s - sb_gptr s)" "sb_gptr s - 1 < length (m_read_buf s)" "Suc (sb_gptr s - 1) = sb_gptr s"
    using assms(1) lt by (auto simp: read_inv_def)
  then have "unread (snd (sungetc s)) = c # unread s" using idx by (simp add: eq unread_def flip: Cons_nth_drop_Suc)
  then show "pending (snd (sungetc s)) = c # pending s" by (simp add: pending_def) (simp add: eq)
qed

lemma unget_back:
  assumes "read_inv s" and "k \<le> length (behind s)"
  shows "pending (unget k s) = drop (length (behind s) - k) (behind s) @ pending s"
  using assms
proof (induction k arbitrary: s)
  case (Suc k)
  then have "behind s \<noteq> []" by auto
  then obtain xs c where xs: "behind s = xs @ [c]" by (metis rev_exhaust)
  note ungot = sungetc_back [OF Suc.prems(1) xs]
  show ?case using Suc.IH [OF ungot(2)] Suc.prems(2) ungot(3,4) xs by simp
qed simp

section \<open>Properties\<close>



text \<open>C22: Reading \<^verbatim>\<open>n\<close> bytes returns the next \<^verbatim>\<open>n\<close> bytes of what the peer has sent, or all of them up to the next error, no matter
  how the network cuts them into deliveries; the rest stays to be read. After a complete read, up to ten of its last bytes can be put back, one by one, and are read
  again. The pointers stay inside the read buffer.\<close>

theorem stream_reads:
  assumes "read_inv s" and "n \<le> length (pending s) \<or> Read_failed \<in> set (net_reads s)"
  shows "\<exists>t. xsgetn n s = Inr (take n (pending s), t) \<and> read_inv t \<and>
    (n \<le> length (pending s) \<longrightarrow> pending t = drop n (pending s) \<and>
      (\<forall>k \<le> min PUT_BACK_MAX n. pending (unget k t) = drop (n - k) (pending s)))"
proof -
  obtain t where t: "xsgetn n s = Inr (take n (pending s), t)" "read_inv t"
    "n \<le> length (pending s) \<longrightarrow> pending t = drop n (pending s) \<and> keeps_last (behind t) (behind s @ take n (pending s))"
    using xsgetn_reads [OF assms] by blast
  have "pending (unget k t) = drop (n - k) (pending s)" if n: "n \<le> length (pending s)" and k: "k \<le> min PUT_BACK_MAX n" for k
  proof -
    define h where "h = behind s @ take n (pending s)"
    obtain d where d: "behind t = drop d h" "min PUT_BACK_MAX (length h) \<le> length (behind t)"
      using t(3) n by (auto simp: keeps_last_def h_def)
    have len: "length h = length (behind s) + n" using n by (simp add: h_def)
    then have kt: "k \<le> length (behind t)" using d(2) k by (auto simp: min_def split: if_splits)
    have "drop (length (behind t) - k) (behind t) = drop (length h - k) h"
    proof (cases "d \<le> length h")
      case True
      then have "length (behind t) - k + d = length h - k" using kt d(1) by simp
      then show ?thesis using d(1) by (simp add: add.commute)
    next
      case False
      then show ?thesis using kt d(1) by simp
    qed
    also have "\<dots> = take k (drop (n - k) (pending s))" 
    proof -
      have "length h - k = length (behind s) + (n - k)" "n - (n - k) = k" using len k by simp_all
      then show ?thesis by (simp add: h_def drop_take)
    qed
    finally have "pending (unget k t) = take k (drop (n - k) (pending s)) @ drop k (drop (n - k) (pending s))"
      using unget_back [OF t(2) kt] t(3) n k by simp
    then show ?thesis unfolding append_take_drop_id .
  qed
  then show ?thesis using t by blast
qed

theorem stream_reads_witness:
  "\<exists>t. xsgetn 4 (new_stream_buffer (new_connection False False) (replicate 8192 CHR 0x00) [] []
       [Received ''ab'', Received ''cde'', Read_failed]) = Inr (''abcd'', t) \<and> pending (unget 2 t) = ''cde''"
proof -
  define s where "s = new_stream_buffer (new_connection False False) (replicate 8192 CHR 0x00) [] []
    [Received ''ab'', Received ''cde'', Read_failed]"
  have s: "read_inv s" "pending s = ''abcde''"
    by (simp_all add: s_def new_stream_buffer_def setup_buffers_def read_inv_def pending_def unread_def READ_BUFFER_SIZE_def PUT_BACK_MAX_def)
  then have n: "4 \<le> length (pending s) \<or> Read_failed \<in> set (net_reads s)" by simp
  obtain t where "xsgetn 4 s = Inr (take 4 (pending s), t)" "\<forall>k \<le> min PUT_BACK_MAX 4. pending (unget k t) = drop (4 - k) (pending s)"
    using stream_reads [OF s(1) n] s(2) by auto
  moreover from this(2) have "pending (unget 2 t) = drop (4 - 2) (pending s)" by (simp add: PUT_BACK_MAX_def)
  ultimately show ?thesis unfolding s_def [symmetric] s(2) by simp
qed

text \<open>
  A write that fails after \<open>k\<close> bytes leaves the first bytes of the buffer in it, not the last ones: the next
  flush sends bytes again that have been sent, and the end of the buffer is lost.
\<close>

theorem failed_flush_resends:
  assumes "sb_pptr s \<le> length (m_write_buf s)" and "k < sb_pptr s" and "net_writes s = [Send_failed k, Sent]"
  shows "\<exists>t u. flush_output s = Inr (traits_eof, t) \<and> flush_output t = Inr (int (sb_pptr s - k), u) \<and>
    net_sent u = net_sent s @ take k (m_write_buf s) @ take (sb_pptr s - k) (m_write_buf s)"
  using assms by (simp add: flush_output_def write_wait_def operation_finished_def Let_def min_absorb1 min_absorb2)

text \<open>
  When the buffer is full and the write of \<^verbatim>\<open>overflow\<close> fails, the character stays behind the end of the put area; the next
  character is stored outside the array.
\<close>

theorem overflow_out_of_bounds:
  assumes "length (m_write_buf s) = WRITE_BUFFER_SIZE" and "sb_pptr s = WRITE_BUFFER_SIZE - 1" and "net_writes s = Send_failed 0 # ws"
  shows "\<exists>t. sputc c s = Inr (traits_eof, t) \<and> sputc d t = Inl Out_of_bounds"
  using assms to_int_not_eof [of c] to_int_not_eof [of d]
  by (simp add: sputc_def overflow_def flush_output_def write_wait_def operation_finished_def Let_def WRITE_BUFFER_SIZE_def)

end
