(* ===== verification/Tcp_Server.thy ===== *)
theory Tcp_Server
  imports Tcp_Connection
begin

text \<open>
  The TCP server (\<^verbatim>\<open>src/tcp_server.cpp\<close>, \<^verbatim>\<open>include/pion/tcp/server.hpp\<close>): its pool of connections and its
  life cycle. Connections are objects at addresses; the pool holds one reference to each of its members, and
  \<open>ts_refs\<close> counts the others, those of pending operations and of the code that handles a connection. A
  pending accept or handshake is in a list of the state, and its completion is an event.

  \<^verbatim>\<open>handle_connection\<close> is virtual. What a derived class does with a connection is a parameter: it keeps a
  reference and goes on asynchronously (\<open>Keeps\<close>), or it sets the life cycle and calls \<^verbatim>\<open>finish\<close> before it
  returns (\<open>Finishes\<close>), as the base class does. \<^verbatim>\<open>m_mutex\<close> is not recursive: locking it in the thread that
  holds it is the fault \<open>Server_deadlock\<close>. The wait of \<^verbatim>\<open>stop\<close>, which releases the mutex, is split into its rounds.
  A connection whose last reference goes is destroyed, which closes it. \<^verbatim>\<open>before_starting\<close> and
  \<^verbatim>\<open>after_stopping\<close> do nothing in the base class and are left out, like log messages.
\<close>

datatype server_fault = Server_deadlock

datatype handler_action = Keeps | Finishes lifecycle_type

type_synonym connection_handler = "connection \<Rightarrow> handler_action"

record tcp_server =
  ts_address :: nat
  ts_port :: nat
  ts_ssl_flag :: bool
  m_is_listening :: bool
  ts_acceptor_open :: bool
  m_conn_pool :: "nat list"
  ts_conns :: "nat \<Rightarrow> connection"
  ts_refs :: "nat \<Rightarrow> nat"
  ts_accepting :: "nat list"
  ts_handshaking :: "nat list"
  ts_next :: nat
  ts_active_users :: int
  ts_stopping :: nat

text \<open>
  The endpoint is \<^verbatim>\<open>m_endpoint\<close>; \<open>ts_active_users\<close> is what the server has added to the active users of its
  scheduler, and \<open>ts_stopping\<close> the number of calls of \<^verbatim>\<open>stop\<close> that are in their loop.
\<close>

definition new_tcp_server :: "nat \<Rightarrow> nat \<Rightarrow> tcp_server" where
  "new_tcp_server address tcp_port =
     \<lparr> ts_address = address, ts_port = tcp_port, ts_ssl_flag = False, m_is_listening = False, ts_acceptor_open = False, m_conn_pool = [],
       ts_conns = (\<lambda>_. new_connection False False), ts_refs = (\<lambda>_. 0), ts_accepting = [], ts_handshaking = [],
       ts_next = 0, ts_active_users = 0, ts_stopping = 0 \<rparr>"

text \<open>The default of \<^verbatim>\<open>handle_connection\<close>\<close>

definition base_handler :: connection_handler where
  "base_handler c = Finishes LIFECYCLE_CLOSE"

definition set_port :: "nat \<Rightarrow> tcp_server \<Rightarrow> tcp_server" where
  "set_port p s = s\<lparr>ts_port := p\<rparr>"

definition set_address :: "nat \<Rightarrow> tcp_server \<Rightarrow> tcp_server" where
  "set_address a s = s\<lparr>ts_address := a\<rparr>"

definition set_endpoint :: "nat \<times> nat \<Rightarrow> tcp_server \<Rightarrow> tcp_server" where
  "set_endpoint ep s = s\<lparr>ts_address := fst ep, ts_port := snd ep\<rparr>"

definition set_server_ssl_flag :: "bool \<Rightarrow> tcp_server \<Rightarrow> tcp_server" where
  "set_server_ssl_flag b s = s\<lparr>ts_ssl_flag := b\<rparr>"

text \<open>\<^verbatim>\<open>set_ssl_key_file\<close>: \<open>load\<close> is the error that the SSL context reports for the file, if any.\<close>

definition set_ssl_key_file :: "bool \<Rightarrow> (string \<Rightarrow> string option) \<Rightarrow> string \<Rightarrow> tcp_server \<Rightarrow> string option \<times> tcp_server" where
  "set_ssl_key_file have_ssl load pem_key_file s =
     (if have_ssl then load pem_key_file else None, set_server_ssl_flag True s)"

section \<open>The pool\<close>

text \<open>\<^verbatim>\<open>prune_connections\<close>: the connections of which only the pool holds a reference are closed and erased.\<close>

definition prune_connections :: "tcp_server \<Rightarrow> tcp_server" where
  "prune_connections s =
     s\<lparr>ts_conns := (\<lambda>i. if i \<in> set (m_conn_pool s) \<and> ts_refs s i = 0 then close_connection (ts_conns s i) else ts_conns s i),
       m_conn_pool := filter (\<lambda>i. ts_refs s i \<noteq> 0) (m_conn_pool s)\<rparr>"

text \<open>\<^verbatim>\<open>size() - 1\<close> wraps around for an empty pool.\<close>

definition get_connections :: "tcp_server \<Rightarrow> nat" where
  "get_connections s =
     (if m_is_listening s then (length (m_conn_pool s) + (2 ^ 64 - 1)) mod 2 ^ 64 else length (m_conn_pool s))"

text \<open>\<^verbatim>\<open>listen\<close>: a new connection is entered into the pool and waits for a client.\<close>

definition listen :: "bool \<Rightarrow> tcp_server \<Rightarrow> tcp_server" where
  "listen have_ssl s =
     (if m_is_listening s then
        (let c = ts_next s; s = prune_connections s
         in s\<lparr>ts_next := c + 1, ts_conns := (ts_conns s)(c := new_connection (have_ssl \<and> ts_ssl_flag s) True),
              ts_refs := (ts_refs s)(c := 1), m_conn_pool := m_conn_pool s @ [c], ts_accepting := ts_accepting s @ [c]\<rparr>)
      else s)"

section \<open>Connections\<close>

text \<open>
  \<^verbatim>\<open>finish_connection\<close> holds the mutex while it calls \<^verbatim>\<open>handle_connection\<close>. The reference of the caller is
  gone when the call has returned; a handler that keeps the connection has its own.
\<close>

definition finish_server_connection :: "connection_handler \<Rightarrow> nat \<Rightarrow> tcp_server \<Rightarrow> server_fault + tcp_server" where
  "finish_server_connection handler c s =
     (if m_is_listening s \<and> get_keep_alive (ts_conns s c) then
        (case handler (ts_conns s c) of
           Keeps \<Rightarrow> Inr (s\<lparr>ts_refs := (ts_refs s)(c := 1)\<rparr>)
         | Finishes _ \<Rightarrow> Inl Server_deadlock)
      else Inr (s\<lparr>m_conn_pool := remove1 c (m_conn_pool s), ts_refs := (ts_refs s)(c := 0),
                  ts_conns := (ts_conns s)(c := close_connection (ts_conns s c))\<rparr>))"

text \<open>\<^verbatim>\<open>handle_connection\<close> as it is called without the mutex.\<close>

definition handle_server_connection :: "connection_handler \<Rightarrow> nat \<Rightarrow> tcp_server \<Rightarrow> server_fault + tcp_server" where
  "handle_server_connection handler c s =
     (case handler (ts_conns s c) of
        Keeps \<Rightarrow> Inr (s\<lparr>ts_refs := (ts_refs s)(c := 1)\<rparr>)
      | Finishes lifecycle \<Rightarrow>
          finish_server_connection handler c (s\<lparr>ts_conns := (ts_conns s)(c := set_lifecycle lifecycle (ts_conns s c))\<rparr>))"

text \<open>\<^verbatim>\<open>handle_accept\<close>: the result of the accept is the address of the client or none.\<close>

definition handle_accept :: "bool \<Rightarrow> connection_handler \<Rightarrow> nat \<Rightarrow> nat option \<Rightarrow> tcp_server \<Rightarrow> server_fault + tcp_server" where
  "handle_accept have_ssl handler c client s =
     (case client of
        None \<Rightarrow> finish_server_connection handler c (if m_is_listening s then listen have_ssl s else s)
      | Some ip \<Rightarrow>
          (let s = s\<lparr>ts_conns := (ts_conns s)(c := open_connection ip (ts_conns s c))\<rparr>;
               s = (if m_is_listening s then listen have_ssl s else s)
           in if have_ssl \<and> m_ssl_flag (ts_conns s c) then Inr (s\<lparr>ts_handshaking := ts_handshaking s @ [c]\<rparr>)
              else handle_server_connection handler c s))"

definition handle_ssl_handshake :: "connection_handler \<Rightarrow> nat \<Rightarrow> bool \<Rightarrow> tcp_server \<Rightarrow> server_fault + tcp_server" where
  "handle_ssl_handshake handler c handshake_error s =
     (if handshake_error then finish_server_connection handler c s else handle_server_connection handler c s)"

section \<open>Life cycle\<close>

datatype open_result = Open_failed string | Bind_failed string | Bound nat nat

text \<open>\<^verbatim>\<open>start\<close>: an exception leaves the acceptor as it is then, open when \<^verbatim>\<open>bind\<close> or \<^verbatim>\<open>listen\<close> has failed.
  Opening an acceptor that is open fails.\<close>

definition start_server :: "bool \<Rightarrow> open_result \<Rightarrow> tcp_server \<Rightarrow> string option \<times> tcp_server" where
  "start_server have_ssl acceptor s =
     (if m_is_listening s then (None, s)
      else if ts_acceptor_open s then (Some ''already open'', s)
      else
        (case acceptor of
           Open_failed what \<Rightarrow> (Some what, s)
         | Bind_failed what \<Rightarrow> (Some what, s\<lparr>ts_acceptor_open := True\<rparr>)
         | Bound address p \<Rightarrow>
             (let s = s\<lparr>ts_acceptor_open := True\<rparr>;
                  s = (if ts_port s = 0 then s\<lparr>ts_address := address, ts_port := p\<rparr> else s);
                  s = s\<lparr>m_is_listening := True\<rparr>;
                  s = listen have_ssl s
              in (None, s\<lparr>ts_active_users := ts_active_users s + 1\<rparr>))))"

text \<open>\<^verbatim>\<open>stop\<close> up to its loop, and one round of the loop with what follows it.\<close>

definition begin_stop :: "bool \<Rightarrow> tcp_server \<Rightarrow> tcp_server" where
  "begin_stop wait_until_finished s =
     (if m_is_listening s then
        s\<lparr>m_is_listening := False, ts_acceptor_open := False, ts_stopping := ts_stopping s + 1,
          ts_conns := (if wait_until_finished then ts_conns s
                       else (\<lambda>i. if i \<in> set (m_conn_pool s) then close_connection (ts_conns s i) else ts_conns s i))\<rparr>
      else s)"

definition stop_round :: "tcp_server \<Rightarrow> tcp_server" where
  "stop_round s =
     (if 0 < ts_stopping s then
        (let s = (if m_conn_pool s \<noteq> [] then prune_connections s else s)
         in if m_conn_pool s = [] then s\<lparr>ts_stopping := ts_stopping s - 1, ts_active_users := ts_active_users s - 1\<rparr> else s)
      else s)"

section \<open>Events\<close>

text \<open>
  What happens to a server: calls of its owner, completed operations, and what the code that keeps a
  connection does: it finishes the connection with a life cycle, or drops its reference without finishing.
  An event that is not possible leaves the server alone.
\<close>

datatype server_event =
    Start open_result
  | Stop_begin bool
  | Stop_round
  | Accepted nat "nat option"
  | Handshake nat bool
  | Finished nat lifecycle_type
  | Dropped nat

definition kept :: "nat \<Rightarrow> tcp_server \<Rightarrow> bool" where
  "kept c s \<longleftrightarrow> c < ts_next s \<and> 0 < ts_refs s c \<and> c \<notin> set (ts_accepting s) \<and> c \<notin> set (ts_handshaking s)"

fun server_step :: "bool \<Rightarrow> connection_handler \<Rightarrow> server_event \<Rightarrow> tcp_server \<Rightarrow> server_fault + tcp_server" where
  "server_step have_ssl handler (Start acceptor) s = Inr (snd (start_server have_ssl acceptor s))"
| "server_step have_ssl handler (Stop_begin wait) s = Inr (begin_stop wait s)"
| "server_step have_ssl handler Stop_round s = Inr (stop_round s)"
| "server_step have_ssl handler (Accepted c client) s =
     (if c \<in> set (ts_accepting s)
      then handle_accept have_ssl handler c client (s\<lparr>ts_accepting := remove1 c (ts_accepting s)\<rparr>) else Inr s)"
| "server_step have_ssl handler (Handshake c err) s =
     (if c \<in> set (ts_handshaking s)
      then handle_ssl_handshake handler c err (s\<lparr>ts_handshaking := remove1 c (ts_handshaking s)\<rparr>) else Inr s)"
| "server_step have_ssl handler (Finished c lifecycle) s =
     (if kept c s
      then finish_server_connection handler c (s\<lparr>ts_conns := (ts_conns s)(c := set_lifecycle lifecycle (ts_conns s c))\<rparr>)
      else Inr s)"
| "server_step have_ssl handler (Dropped c) s = (if kept c s then Inr (s\<lparr>ts_refs := (ts_refs s)(c := 0)\<rparr>) else Inr s)"

inductive server_run :: "bool \<Rightarrow> connection_handler \<Rightarrow> tcp_server \<Rightarrow> bool" for have_ssl handler where
  run_new: "server_run have_ssl handler (new_tcp_server a p)"
| run_step: "server_run have_ssl handler s \<Longrightarrow> server_step have_ssl handler ev s = Inr t \<Longrightarrow> server_run have_ssl handler t"

section \<open>The invariant\<close>

text \<open>
  The pool knows every connection to which there is a reference, and the connections of pending operations
  are among these.
\<close>

definition pool_inv :: "tcp_server \<Rightarrow> bool" where
  "pool_inv s \<longleftrightarrow> distinct (m_conn_pool s) \<and> distinct (ts_accepting s @ ts_handshaking s) \<and>
     (\<forall>c \<in> set (ts_accepting s) \<union> set (ts_handshaking s). 0 < ts_refs s c) \<and>
     (\<forall>c. 0 < ts_refs s c \<longrightarrow> c \<in> set (m_conn_pool s)) \<and> (\<forall>c \<in> set (m_conn_pool s). c < ts_next s)"

text \<open>
  A listening server waits for a client, with one connection unless it was started while it was stopping; a
  server that has stopped has no connections.
\<close>

definition accept_inv :: "tcp_server \<Rightarrow> bool" where
  "accept_inv s \<longleftrightarrow> (m_is_listening s \<longrightarrow> ts_accepting s \<noteq> [] \<and> ts_acceptor_open s) \<and>
     (ts_stopping s = 0 \<longrightarrow> m_is_listening s \<longrightarrow> length (ts_accepting s) = 1) \<and>
     (ts_stopping s = 0 \<longrightarrow> \<not> m_is_listening s \<longrightarrow> m_conn_pool s = []) \<and>
     ts_active_users s = (if m_is_listening s then 1 else 0) + int (ts_stopping s)"

lemmas server_inv_defs = pool_inv_def accept_inv_def

lemma new_server_inv: "pool_inv (new_tcp_server a p) \<and> accept_inv (new_tcp_server a p)"
  by (simp add: server_inv_defs new_tcp_server_def)

lemma pending_in_pool:
  "pool_inv s \<Longrightarrow> c \<in> set (ts_accepting s) \<Longrightarrow> c \<in> set (m_conn_pool s)"
  "pool_inv s \<Longrightarrow> c \<in> set (ts_handshaking s) \<Longrightarrow> c \<in> set (m_conn_pool s)"
  by (auto simp: pool_inv_def)

lemma prune_inv: "pool_inv s \<Longrightarrow> pool_inv (prune_connections s)"
  by (auto simp: pool_inv_def prune_connections_def)

lemma listen_inv: "pool_inv s \<Longrightarrow> pool_inv (listen have_ssl s)"
proof -
  assume s: "pool_inv s"
  have new: "ts_next s \<notin> set (m_conn_pool s)" "ts_next s \<notin> set (ts_accepting s)" "ts_next s \<notin> set (ts_handshaking s)"
    using s pending_in_pool [OF s] by (auto simp: pool_inv_def)
  show ?thesis using s new by (auto simp: pool_inv_def listen_def prune_connections_def Let_def less_SucI)
qed

text \<open>What the operations on a connection leave alone.\<close>

lemma listen_frame:
  "m_is_listening (listen have_ssl s) = m_is_listening s" "ts_stopping (listen have_ssl s) = ts_stopping s"
  "ts_active_users (listen have_ssl s) = ts_active_users s" "ts_acceptor_open (listen have_ssl s) = ts_acceptor_open s"
  "ts_handshaking (listen have_ssl s) = ts_handshaking s"
  "ts_accepting (listen have_ssl s) = ts_accepting s @ (if m_is_listening s then [ts_next s] else [])"
  "\<not> m_is_listening s \<Longrightarrow> listen have_ssl s = s"
  by (auto simp: listen_def Let_def prune_connections_def)

definition same_control :: "tcp_server \<Rightarrow> tcp_server \<Rightarrow> bool" where
  "same_control s t \<longleftrightarrow> m_is_listening t = m_is_listening s \<and> ts_stopping t = ts_stopping s \<and>
     ts_active_users t = ts_active_users s \<and> ts_acceptor_open t = ts_acceptor_open s \<and>
     ts_accepting t = ts_accepting s \<and> set (m_conn_pool t) \<subseteq> set (m_conn_pool s)"

lemma same_control_accept: "accept_inv s \<Longrightarrow> same_control s t \<Longrightarrow> accept_inv t"
  by (auto simp: accept_inv_def same_control_def)

lemma same_control_trans: "same_control s t \<Longrightarrow> same_control t u \<Longrightarrow> same_control s u"
  by (auto simp: same_control_def)

lemma finish_inv:
  assumes "finish_server_connection handler c s = Inr t" and "pool_inv s" and "0 < ts_refs s c"
    and "c \<notin> set (ts_accepting s)" and "c \<notin> set (ts_handshaking s)"
  shows "pool_inv t \<and> same_control s t \<and> ts_handshaking t = ts_handshaking s"
  using assms set_remove1_subset [of c "m_conn_pool s"]
  by (auto simp: finish_server_connection_def pool_inv_def same_control_def split: if_splits handler_action.splits)

lemma handle_inv:
  assumes "handle_server_connection handler c s = Inr t" and "pool_inv s" and "0 < ts_refs s c"
    and "c \<notin> set (ts_accepting s)" and "c \<notin> set (ts_handshaking s)"
  shows "pool_inv t \<and> same_control s t \<and> ts_handshaking t = ts_handshaking s"
proof (cases "handler (ts_conns s c)")
  case Keeps
  then show ?thesis using assms by (auto simp: handle_server_connection_def pool_inv_def same_control_def split: if_splits)
next
  case (Finishes l)
  define s' where "s' = s\<lparr>ts_conns := (ts_conns s)(c := set_lifecycle l (ts_conns s c))\<rparr>"
  have "pool_inv s'" "same_control s s'" "ts_handshaking s' = ts_handshaking s" "ts_refs s' = ts_refs s" "ts_accepting s' = ts_accepting s"
    using assms(2) by (auto simp: s'_def pool_inv_def same_control_def)
  moreover have "finish_server_connection handler c s' = Inr t"
    using assms(1) Finishes by (simp add: handle_server_connection_def s'_def)
  ultimately show ?thesis using finish_inv [of handler c s' t] assms(3-5) same_control_trans by auto
qed

text \<open>A completed accept: the connection is no longer waiting, and a new one waits if the server listens.\<close>

lemma accepted_state:
  assumes "pool_inv s" and "c \<in> set (ts_accepting s)"
  defines "u \<equiv> s\<lparr>ts_accepting := remove1 c (ts_accepting s)\<rparr>"
  shows "pool_inv u" and "0 < ts_refs u c" and "c \<notin> set (ts_accepting u)" and "c \<notin> set (ts_handshaking u)"
proof -
  show "pool_inv u" using assms(1) set_remove1_subset [of c "ts_accepting s"]
    by (auto simp: pool_inv_def u_def simp del: set_remove1_eq)
qed (use assms(1,2) in \<open>auto simp: pool_inv_def u_def\<close>)

lemma handshaken_state:
  assumes "pool_inv s" and "c \<in> set (ts_handshaking s)"
  defines "u \<equiv> s\<lparr>ts_handshaking := remove1 c (ts_handshaking s)\<rparr>"
  shows "pool_inv u" and "0 < ts_refs u c" and "c \<notin> set (ts_accepting u)" and "c \<notin> set (ts_handshaking u)"
proof -
  show "pool_inv u" using assms(1) set_remove1_subset [of c "ts_handshaking s"]
    by (auto simp: pool_inv_def u_def simp del: set_remove1_eq)
qed (use assms(1,2) in \<open>auto simp: pool_inv_def u_def\<close>)

lemma listen_again:
  assumes "pool_inv u" and "0 < ts_refs u c" and "c \<notin> set (ts_accepting u)" and "c \<notin> set (ts_handshaking u)"
  shows "pool_inv (listen have_ssl u)" and "0 < ts_refs (listen have_ssl u) c"
    and "c \<notin> set (ts_accepting (listen have_ssl u))" and "c \<notin> set (ts_handshaking (listen have_ssl u))"
proof -
  have c: "c \<noteq> ts_next u" using assms by (auto simp: pool_inv_def)
  show "0 < ts_refs (listen have_ssl u) c" using assms(2) c by (simp add: listen_def Let_def prune_connections_def)
  show "c \<notin> set (ts_accepting (listen have_ssl u))" using assms(3) c by (simp add: listen_frame)
  show "c \<notin> set (ts_handshaking (listen have_ssl u))" using assms(4) by (simp add: listen_frame)
qed (rule listen_inv [OF assms(1)])

lemma listen_accept_inv:
  assumes "accept_inv s" and "pool_inv s" and "c \<in> set (ts_accepting s)"
  shows "accept_inv (listen have_ssl (s\<lparr>ts_accepting := remove1 c (ts_accepting s)\<rparr>))"
proof (cases "m_is_listening s")
  case True
  then show ?thesis using assms(1,3) by (auto simp: accept_inv_def listen_frame length_remove1)
next
  case False
  then show ?thesis using assms(1) by (auto simp: accept_inv_def listen_frame)
qed

text \<open>An update of a connection's own state is no matter for the invariant.\<close>

lemma conns_update_inv:
  "pool_inv (s\<lparr>ts_conns := f\<rparr>) = pool_inv s" "accept_inv (s\<lparr>ts_conns := f\<rparr>) = accept_inv s"
  by (simp_all add: server_inv_defs)

lemma listen_if: "(if m_is_listening s then listen have_ssl s else s) = listen have_ssl s"
  by (simp add: listen_def)

lemma handle_accept_inv:
  assumes s: "pool_inv s" "accept_inv s" and c: "c \<in> set (ts_accepting s)"
    and t: "handle_accept have_ssl handler c client (s\<lparr>ts_accepting := remove1 c (ts_accepting s)\<rparr>) = Inr t"
  shows "pool_inv t \<and> accept_inv t"
proof (cases client)
  case None
  note u = listen_again [OF accepted_state [OF s(1) c], of have_ssl]
  have "finish_server_connection handler c (listen have_ssl (s\<lparr>ts_accepting := remove1 c (ts_accepting s)\<rparr>)) = Inr t"
    using t unfolding handle_accept_def None option.case listen_if .
  from finish_inv [OF this u] show ?thesis using listen_accept_inv [OF s(2,1) c] same_control_accept by blast
next
  case (Some ip)
  define s' where "s' = s\<lparr>ts_conns := (ts_conns s)(c := open_connection ip (ts_conns s c))\<rparr>"
  have s': "pool_inv s'" "accept_inv s'" "c \<in> set (ts_accepting s')" using s c by (simp_all add: s'_def conns_update_inv)
  define v where "v = listen have_ssl (s'\<lparr>ts_accepting := remove1 c (ts_accepting s')\<rparr>)"
  note v = listen_again [OF accepted_state [OF s'(1,3)], of have_ssl, folded v_def]
  have acc: "accept_inv v" using listen_accept_inv [OF s'(2,1,3)] by (simp add: v_def)
  have opened: "(s\<lparr>ts_accepting := remove1 c (ts_accepting s)\<rparr>)\<lparr>ts_conns :=
      (ts_conns (s\<lparr>ts_accepting := remove1 c (ts_accepting s)\<rparr>))(c := open_connection ip (ts_conns (s\<lparr>ts_accepting := remove1 c (ts_accepting s)\<rparr>) c))\<rparr>
    = s'\<lparr>ts_accepting := remove1 c (ts_accepting s')\<rparr>" by (simp add: s'_def)
  have t': "(if have_ssl \<and> m_ssl_flag (ts_conns v c) then Inr (v\<lparr>ts_handshaking := ts_handshaking v @ [c]\<rparr>)
     else handle_server_connection handler c v) = Inr t"
    using t unfolding handle_accept_def Some option.case listen_if Let_def opened v_def [symmetric] .
  show ?thesis
  proof (cases "have_ssl \<and> m_ssl_flag (ts_conns v c)")
    case True
    then have "t = v\<lparr>ts_handshaking := ts_handshaking v @ [c]\<rparr>" using t' by simp
    then show ?thesis using v acc by (auto simp: server_inv_defs)
  next
    case False
    then have "handle_server_connection handler c v = Inr t" using t' by auto
    from handle_inv [OF this v] show ?thesis using acc same_control_accept by blast
  qed
qed

lemma handle_ssl_handshake_inv:
  assumes s: "pool_inv s" "accept_inv s" and c: "c \<in> set (ts_handshaking s)"
    and t: "handle_ssl_handshake handler c err (s\<lparr>ts_handshaking := remove1 c (ts_handshaking s)\<rparr>) = Inr t"
  shows "pool_inv t \<and> accept_inv t"
proof -
  define u where "u = s\<lparr>ts_handshaking := remove1 c (ts_handshaking s)\<rparr>"
  note u = handshaken_state [OF s(1) c, folded u_def]
  have acc: "accept_inv u" using s(2) by (simp add: u_def accept_inv_def)
  have "pool_inv t \<and> same_control u t"
    using finish_inv [OF _ u, of handler t] handle_inv [OF _ u, of handler t] t
    by (auto simp: handle_ssl_handshake_def split: if_splits simp flip: u_def)
  then show ?thesis using acc same_control_accept by blast
qed

lemma start_inv:
  assumes "pool_inv s" and "accept_inv s"
  shows "pool_inv (snd (start_server have_ssl acceptor s)) \<and> accept_inv (snd (start_server have_ssl acceptor s))"
proof (cases "\<not> m_is_listening s \<and> \<not> ts_acceptor_open s \<and> (\<exists>a p. acceptor = Bound a p)")
  case True
  then obtain a p where bound: "acceptor = Bound a p" by blast
  define u where "u = (let s = s\<lparr>ts_acceptor_open := True\<rparr>; s = (if ts_port s = 0 then s\<lparr>ts_address := a, ts_port := p\<rparr> else s)
    in s\<lparr>m_is_listening := True\<rparr>)"
  have u: "pool_inv u" "m_is_listening u" "ts_acceptor_open u" "ts_stopping u = ts_stopping s"
    "ts_active_users u = ts_active_users s" "ts_accepting u = ts_accepting s"
    using assms(1) by (auto simp: u_def pool_inv_def Let_def)
  have res: "snd (start_server have_ssl acceptor s) =
    (listen have_ssl u)\<lparr>ts_active_users := ts_active_users (listen have_ssl u) + 1\<rparr>"
    using True by (auto simp: start_server_def bound u_def Let_def)
  have "ts_stopping s = 0 \<Longrightarrow> ts_accepting s = []"
    using assms True pending_in_pool(1) [OF assms(1)] by (cases "ts_accepting s") (auto simp: accept_inv_def)
  then have "accept_inv ((listen have_ssl u)\<lparr>ts_active_users := ts_active_users (listen have_ssl u) + 1\<rparr>)"
    using assms(2) True u by (auto simp: accept_inv_def listen_frame)
  moreover have "pool_inv ((listen have_ssl u)\<lparr>ts_active_users := ts_active_users (listen have_ssl u) + 1\<rparr>)"
    using listen_inv [OF u(1)] by (simp add: pool_inv_def)
  ultimately show ?thesis by (simp add: res)
next
  case False
  then show ?thesis using assms by (auto simp: start_server_def server_inv_defs split: open_result.splits)
qed

lemma begin_stop_inv: "pool_inv s \<Longrightarrow> accept_inv s \<Longrightarrow> pool_inv (begin_stop w s) \<and> accept_inv (begin_stop w s)"
  by (auto simp: begin_stop_def server_inv_defs)

lemma stop_round_inv:
  assumes "pool_inv s" and "accept_inv s"
  shows "pool_inv (stop_round s) \<and> accept_inv (stop_round s)"
proof -
  define u where "u = (if m_conn_pool s \<noteq> [] then prune_connections s else s)"
  have u: "pool_inv u" "same_control s u"
    using assms(1) prune_inv by (auto simp: u_def same_control_def prune_connections_def)
  have acc: "accept_inv u" using same_control_accept [OF assms(2) u(2)] .
  have quiet: "m_conn_pool u = [] \<Longrightarrow> \<not> m_is_listening u"
    using acc pending_in_pool(1) [OF u(1)] by (cases "ts_accepting u") (auto simp: accept_inv_def)
  have "stop_round s = (if 0 < ts_stopping s then (if m_conn_pool u = [] then
      u\<lparr>ts_stopping := ts_stopping u - 1, ts_active_users := ts_active_users u - 1\<rparr> else u) else s)"
    unfolding stop_round_def u_def Let_def by simp
  moreover have "pool_inv (u\<lparr>ts_stopping := n, ts_active_users := k\<rparr>)" for n k using u(1) by (simp add: pool_inv_def)
  moreover have "accept_inv (u\<lparr>ts_stopping := ts_stopping u - 1, ts_active_users := ts_active_users u - 1\<rparr>)"
    if "0 < ts_stopping s" "m_conn_pool u = []"
    using acc that quiet u(2) by (auto simp: accept_inv_def same_control_def of_nat_diff)
  ultimately show ?thesis using assms acc u(1) by simp
qed

lemma finished_inv:
  assumes "pool_inv s" and "accept_inv s" and "kept c s"
    and "finish_server_connection handler c (s\<lparr>ts_conns := f\<rparr>) = Inr t"
  shows "pool_inv t \<and> accept_inv t"
  using finish_inv [OF assms(4)] assms(1-3) same_control_accept [of "s\<lparr>ts_conns := f\<rparr>" t]
  by (simp add: conns_update_inv kept_def)

lemma dropped_inv:
  assumes "pool_inv s" and "accept_inv s" and "kept c s"
  shows "pool_inv (s\<lparr>ts_refs := (ts_refs s)(c := 0)\<rparr>) \<and> accept_inv (s\<lparr>ts_refs := (ts_refs s)(c := 0)\<rparr>)"
  using assms by (auto simp: server_inv_defs kept_def)

lemma server_step_inv:
  assumes "pool_inv s" and "accept_inv s" and "server_step have_ssl handler ev s = Inr t"
  shows "pool_inv t \<and> accept_inv t"
proof (cases ev)
  case (Accepted c client)
  show ?thesis
  proof (cases "c \<in> set (ts_accepting s)")
    case True
    with assms(3) Accepted show ?thesis by (intro handle_accept_inv [OF assms(1,2) True]) simp
  qed (use assms Accepted in simp)
next
  case (Handshake c err)
  show ?thesis
  proof (cases "c \<in> set (ts_handshaking s)")
    case True
    with assms(3) Handshake show ?thesis by (intro handle_ssl_handshake_inv [OF assms(1,2) True]) simp
  qed (use assms Handshake in simp)
next
  case (Finished c l)
  show ?thesis
  proof (cases "kept c s")
    case True
    with assms(3) Finished show ?thesis by (intro finished_inv [OF assms(1,2) True]) simp
  qed (use assms Finished in simp)
next
  case (Dropped c)
  show ?thesis
  proof (cases "kept c s")
    case True
    with assms(3) Dropped show ?thesis using dropped_inv [OF assms(1,2) True] by simp
  qed (use assms Dropped in simp)
next
  case (Start acceptor)
  then show ?thesis using assms(3) start_inv [OF assms(1,2), of have_ssl acceptor] by simp
next
  case (Stop_begin w)
  then show ?thesis using assms(3) begin_stop_inv [OF assms(1,2), of w] by simp
next
  case Stop_round
  then show ?thesis using assms(3) stop_round_inv [OF assms(1,2)] by simp
qed

lemma server_run_inv: "server_run have_ssl handler s \<Longrightarrow> pool_inv s \<and> accept_inv s"
proof (induction rule: server_run.induct)
  case (run_new a p)
  show ?case by (rule new_server_inv)
next
  case (run_step s ev t)
  then show ?case using server_step_inv by blast
qed

section \<open>Connections while the server stops\<close>

text \<open>
  How the holder of a connection ends with it: a pending accept or handshake completes with an error, other
  code finishes the connection, with any life cycle.
\<close>

definition end_event :: "lifecycle_type \<Rightarrow> tcp_server \<Rightarrow> nat \<Rightarrow> server_event" where
  "end_event lifecycle s c =
     (if c \<in> set (ts_accepting s) then Accepted c None
      else if c \<in> set (ts_handshaking s) then Handshake c True
      else Finished c lifecycle)"

fun end_all :: "bool \<Rightarrow> connection_handler \<Rightarrow> (nat \<Rightarrow> lifecycle_type) \<Rightarrow> nat list \<Rightarrow> tcp_server \<Rightarrow> server_fault + tcp_server" where
  "end_all have_ssl handler lifecycle [] s = Inr s"
| "end_all have_ssl handler lifecycle (c # cs) s =
     (case server_step have_ssl handler (end_event (lifecycle c) s c) s of
        Inl e \<Rightarrow> Inl e
      | Inr t \<Rightarrow> end_all have_ssl handler lifecycle cs t)"

text \<open>A connection that ends while the server does not listen leaves the pool, and is not referenced.\<close>

lemma finish_quiet:
  assumes "\<not> m_is_listening s"
  shows "\<exists>f. finish_server_connection handler c s =
    Inr (s\<lparr>m_conn_pool := remove1 c (m_conn_pool s), ts_refs := (ts_refs s)(c := 0), ts_conns := f\<rparr>)"
  using assms by (auto simp: finish_server_connection_def)

definition ended :: "tcp_server \<Rightarrow> nat \<Rightarrow> tcp_server \<Rightarrow> bool" where
  "ended s c t \<longleftrightarrow> \<not> m_is_listening t \<and> ts_stopping t = ts_stopping s \<and> ts_active_users t = ts_active_users s \<and>
     ts_refs t c = 0 \<and> (\<forall>d. d \<noteq> c \<longrightarrow> ts_refs t d = ts_refs s d) \<and> set (m_conn_pool t) \<subseteq> set (m_conn_pool s)"

lemma end_step:
  assumes "pool_inv s" and "\<not> m_is_listening s"
  shows "\<exists>t. server_step have_ssl handler (end_event l s c) s = Inr t \<and> ended s c t"
proof -
  consider (acc) "c \<in> set (ts_accepting s)" | (hs) "c \<notin> set (ts_accepting s)" "c \<in> set (ts_handshaking s)"
    | (kept) "c \<notin> set (ts_accepting s)" "c \<notin> set (ts_handshaking s)" "kept c s"
    | (gone) "c \<notin> set (ts_accepting s)" "c \<notin> set (ts_handshaking s)" "\<not> kept c s" by blast
  then show ?thesis
  proof cases
    case acc
    obtain f where "finish_server_connection handler c (s\<lparr>ts_accepting := remove1 c (ts_accepting s)\<rparr>) =
      Inr (s\<lparr>ts_accepting := remove1 c (ts_accepting s), m_conn_pool := remove1 c (m_conn_pool s), ts_refs := (ts_refs s)(c := 0), ts_conns := f\<rparr>)"
      using finish_quiet [of "s\<lparr>ts_accepting := remove1 c (ts_accepting s)\<rparr>"] assms(2) by auto
    then show ?thesis using acc assms set_remove1_subset [of c "m_conn_pool s"]
      by (auto simp: end_event_def handle_accept_def ended_def simp del: set_remove1_eq)
  next
    case hs
    obtain f where "finish_server_connection handler c (s\<lparr>ts_handshaking := remove1 c (ts_handshaking s)\<rparr>) =
      Inr (s\<lparr>ts_handshaking := remove1 c (ts_handshaking s), m_conn_pool := remove1 c (m_conn_pool s), ts_refs := (ts_refs s)(c := 0), ts_conns := f\<rparr>)"
      using finish_quiet [of "s\<lparr>ts_handshaking := remove1 c (ts_handshaking s)\<rparr>"] assms(2) by auto
    then show ?thesis using hs assms set_remove1_subset [of c "m_conn_pool s"]
      by (auto simp: end_event_def handle_ssl_handshake_def ended_def simp del: set_remove1_eq)
  next
    case kept
    define f where "f = (ts_conns s)(c := set_lifecycle l (ts_conns s c))"
    obtain g where "finish_server_connection handler c (s\<lparr>ts_conns := f\<rparr>) =
      Inr (s\<lparr>m_conn_pool := remove1 c (m_conn_pool s), ts_refs := (ts_refs s)(c := 0), ts_conns := g\<rparr>)"
      using finish_quiet [of "s\<lparr>ts_conns := f\<rparr>"] assms(2) by auto
    then show ?thesis using kept assms set_remove1_subset [of c "m_conn_pool s"]
      by (auto simp: end_event_def ended_def f_def simp del: set_remove1_eq)
  next
    case gone
    then have "ts_refs s c = 0" using assms(1) by (auto simp: pool_inv_def kept_def)
    then show ?thesis using gone assms by (auto simp: end_event_def ended_def)
  qed
qed

lemma end_all_quiet:
  assumes "pool_inv s" and "accept_inv s" and "\<not> m_is_listening s"
  shows "\<exists>t. end_all have_ssl handler lifecycle cs s = Inr t \<and> \<not> m_is_listening t \<and> ts_stopping t = ts_stopping s \<and>
    ts_active_users t = ts_active_users s \<and> (\<forall>d. ts_refs t d = (if d \<in> set cs then 0 else ts_refs s d)) \<and>
    set (m_conn_pool t) \<subseteq> set (m_conn_pool s)"
  using assms
proof (induction cs arbitrary: s)
  case (Cons c cs)
  obtain t where t: "server_step have_ssl handler (end_event (lifecycle c) s c) s = Inr t" "ended s c t"
    using end_step [OF Cons.prems(1,3)] by blast
  have "pool_inv t" "accept_inv t" using server_step_inv [OF Cons.prems(1,2) t(1)] by auto
  moreover have "\<not> m_is_listening t" using t(2) by (simp add: ended_def)
  ultimately obtain u where "end_all have_ssl handler lifecycle cs t = Inr u" "\<not> m_is_listening u" "ts_stopping u = ts_stopping t"
    "ts_active_users u = ts_active_users t" "\<forall>d. ts_refs u d = (if d \<in> set cs then 0 else ts_refs t d)"
    "set (m_conn_pool u) \<subseteq> set (m_conn_pool t)" using Cons.IH by blast
  then show ?case using t by (auto simp: ended_def)
qed simp

lemma others_length: "distinct xs \<Longrightarrow> c \<in> set xs \<Longrightarrow> length (filter (\<lambda>d. d \<noteq> c) xs) = length xs - 1"
proof (induction xs)
  case (Cons a xs)
  have "c \<notin> set xs \<Longrightarrow> filter (\<lambda>d. d \<noteq> c) xs = xs" by (rule filter_True) auto
  then show ?case using Cons length_pos_if_in_set [of c xs] by auto
qed simp

lemma pred_wraps: "0 < n \<Longrightarrow> n < 2 ^ 64 \<Longrightarrow> (n + (2 ^ 64 - 1)) mod 2 ^ 64 = n - (1 :: nat)"
  by (cases n) simp_all

section \<open>Properties\<close>


text \<open>A connection is accepted and kept: the server then counts one.\<close>

definition one_client :: tcp_server where
  "one_client = (case server_step False (\<lambda>_. Keeps) (Accepted 0 (Some 7)) (snd (start_server False (Bound 0 8080) (new_tcp_server 0 0))) of
     Inr s \<Rightarrow> s | Inl _ \<Rightarrow> new_tcp_server 0 0)"

lemma one_client_run: "server_run False (\<lambda>_. Keeps) one_client"
proof -
  define s where "s = snd (start_server False (Bound 0 8080) (new_tcp_server 0 0))"
  have "server_step False (\<lambda>_. Keeps) (Start (Bound 0 8080)) (new_tcp_server 0 0) = Inr s" by (simp add: s_def)
  then have s: "server_run False (\<lambda>_. Keeps) s" by (rule run_step [OF run_new])
  have "0 \<in> set (ts_accepting s)" by (simp add: s_def start_server_def new_tcp_server_def listen_frame Let_def)
  then have "server_step False (\<lambda>_. Keeps) (Accepted 0 (Some 7)) s = Inr one_client"
    by (simp add: one_client_def flip: s_def) (simp add: handle_accept_def handle_server_connection_def Let_def)
  then show ?thesis by (rule run_step [OF s])
qed

lemmas one_client_eval = one_client_def start_server_def new_tcp_server_def listen_def prune_connections_def
  handle_accept_def handle_server_connection_def Let_def

lemma one_client_fields: "ts_stopping one_client = 0" "m_conn_pool one_client = [0, 1]" "ts_accepting one_client = [1]"
  "m_is_listening one_client" "ts_port one_client = 8080"
  by (simp_all add: one_client_eval)


text \<open>C20: Stopping ends. Once the server has stopped listening, when every connection of the pool has ended - a pending
  accept or handshake with an error, any other by being finished, with or without keep-alive, in any order - the next
  round of the loop in \<^verbatim>\<open>stop\<close> returns, with an empty pool, and the server is no longer a user of its scheduler on account of this call.
  A server that listens again meanwhile keeps the call of \<^verbatim>\<open>stop\<close> in its loop.\<close>

theorem stop_completes:
  assumes "server_run have_ssl handler s" and "0 < ts_stopping s"
  shows "(\<not> m_is_listening s \<longrightarrow> set (m_conn_pool s) \<subseteq> set cs \<longrightarrow>
       (\<exists>t. end_all have_ssl handler lifecycle cs s = Inr t \<and>
          m_conn_pool (stop_round t) = [] \<and> ts_stopping (stop_round t) = ts_stopping s - 1 \<and>
          ts_active_users (stop_round t) = int (ts_stopping s) - 1)) \<and>
    (m_is_listening s \<longrightarrow> ts_stopping (stop_round s) = ts_stopping s)"
proof (intro conjI impI)
  assume listens: "m_is_listening s"
  obtain c where c: "c \<in> set (ts_accepting s)" using server_run_inv [OF assms(1)] listens
    by (cases "ts_accepting s") (auto simp: accept_inv_def)
  then have "c \<in> set (m_conn_pool s)" "ts_refs s c \<noteq> 0" using server_run_inv [OF assms(1)] by (auto simp: pool_inv_def)
  then have "filter (\<lambda>i. ts_refs s i \<noteq> 0) (m_conn_pool s) \<noteq> []" by (auto simp: filter_empty_conv)
  then show "ts_stopping (stop_round s) = ts_stopping s" by (cases "m_conn_pool s = []") (simp_all add: stop_round_def Let_def prune_connections_def)
next
  assume quiet: "\<not> m_is_listening s" and cs: "set (m_conn_pool s) \<subseteq> set cs"
  have inv: "pool_inv s" "accept_inv s" using server_run_inv [OF assms(1)] by auto
  obtain t where t: "end_all have_ssl handler lifecycle cs s = Inr t" "ts_stopping t = ts_stopping s"
    "ts_active_users t = ts_active_users s" "\<forall>d. ts_refs t d = (if d \<in> set cs then 0 else ts_refs s d)"
    "set (m_conn_pool t) \<subseteq> set (m_conn_pool s)" using end_all_quiet [OF inv quiet] by blast
  have "filter (\<lambda>i. ts_refs t i \<noteq> 0) (m_conn_pool t) = []" using t(4,5) cs by (auto simp: filter_empty_conv)
  then have "m_conn_pool (stop_round t) = [] \<and> ts_stopping (stop_round t) = ts_stopping s - 1 \<and>
    ts_active_users (stop_round t) = ts_active_users t - 1"
    using t(2) assms(2) by (simp add: stop_round_def Let_def prune_connections_def)
  moreover have "ts_active_users t = int (ts_stopping s)" using t(3) inv(2) quiet by (simp add: accept_inv_def)
  ultimately show "\<exists>t. end_all have_ssl handler lifecycle cs s = Inr t \<and>
          m_conn_pool (stop_round t) = [] \<and> ts_stopping (stop_round t) = ts_stopping s - 1 \<and>
          ts_active_users (stop_round t) = int (ts_stopping s) - 1" using t(1) by metis
qed

theorem stop_completes_witness:
  "\<exists>t. end_all False (\<lambda>_. Keeps) (\<lambda>_. LIFECYCLE_KEEPALIVE) [1, 0] (begin_stop True one_client) = Inr t \<and>
     m_conn_pool (stop_round t) = [] \<and> ts_stopping (stop_round t) = 0"
proof -
  have run: "server_run False (\<lambda>_. Keeps) (begin_stop True one_client)"
    by (rule run_step [OF one_client_run, of "Stop_begin True"]) simp
  show ?thesis
    using stop_completes [OF run, of "[1, 0]" "\<lambda>_. LIFECYCLE_KEEPALIVE"]
    by (auto simp: begin_stop_def one_client_fields)
qed

text \<open>
  A handler that finishes a connection before it returns locks the mutex a second time when the connection
  had been kept alive: \<^verbatim>\<open>finish_connection\<close> calls \<^verbatim>\<open>handle_connection\<close> with the mutex held.
\<close>

theorem keep_alive_deadlock:
  assumes "m_is_listening s" and "kept c s" and "lifecycle \<noteq> LIFECYCLE_CLOSE"
    and "handler (set_lifecycle lifecycle (ts_conns s c)) = Finishes again"
  shows "server_step have_ssl handler (Finished c lifecycle) s = Inl Server_deadlock"
  using assms by (simp add: finish_server_connection_def get_keep_alive_def set_lifecycle_def)

text \<open>A start that fails after the acceptor was opened leaves it open; each later start fails, whatever the port.\<close>

theorem failed_bind_is_final:
  assumes "\<not> m_is_listening s" and "\<not> ts_acceptor_open s"
    and "t = snd (start_server have_ssl (Bind_failed what) s)"
  shows "start_server have_ssl acceptor (set_endpoint ep t) = (Some ''already open'', set_endpoint ep t)"
  using assms by (simp add: start_server_def set_endpoint_def)

end
