(* ===== verification/Scheduler.thy ===== *)
theory Scheduler
  imports Tcp_Server "HOL-Library.Word"
begin

text \<open>
  The thread schedulers (\<^verbatim>\<open>src/scheduler.cpp\<close>, \<^verbatim>\<open>include/pion/scheduler.hpp\<close>): the base class with its active users,
  the scheduler with one service and the one with a service per thread. An I/O service of asio is reduced to
  what the class asks of it: whether it is stopped, and how many keep-running timers are pending on it. The threads of the pool are
  known by their identifiers; a thread that is joined has ended, because it leaves its loop when the
  scheduler is no longer running and its service is stopped. Joining the own thread throws, and so does an access to a service that does not exist;
  waiting for a condition that does not hold is the fault \<open>Waiting\<close>. What the threads execute belongs to the components that post it.
\<close>

datatype scheduler_kind = Single_service | One_to_one

datatype scheduler_fault = Waiting | Resource_deadlock nat | No_service nat

definition DEFAULT_NUM_THREADS :: "32 word" where "DEFAULT_NUM_THREADS = 8"

definition NSEC_IN_SECOND :: nat where "NSEC_IN_SECOND = 1000000000"

record io_service =
  svc_stopped :: bool
  svc_timers :: nat

definition new_service :: io_service where
  "new_service = \<lparr>svc_stopped = False, svc_timers = 0\<rparr>"

text \<open>
  \<open>sch_services\<close> is \<^verbatim>\<open>m_service_pool\<close>, or the list with the one \<^verbatim>\<open>m_service\<close>; each pool entry is a service with its timer.
\<close>

record thread_scheduler =
  sch_kind :: scheduler_kind
  m_num_threads :: "32 word"
  m_active_users :: "32 word"
  m_is_running :: bool
  m_thread_pool :: "nat list"
  sch_services :: "io_service list"
  m_next_service :: "32 word"
  sch_next_thread :: nat

definition new_scheduler :: "scheduler_kind \<Rightarrow> thread_scheduler" where
  "new_scheduler k =
     \<lparr> sch_kind = k, m_num_threads = DEFAULT_NUM_THREADS, m_active_users = 0, m_is_running = False, m_thread_pool = [],
       sch_services = (case k of Single_service \<Rightarrow> [new_service] | One_to_one \<Rightarrow> []), m_next_service = 0,
       sch_next_thread = 1 \<rparr>"

definition set_num_threads :: "32 word \<Rightarrow> thread_scheduler \<Rightarrow> thread_scheduler" where
  "set_num_threads n s = s\<lparr>m_num_threads := n\<rparr>"

section \<open>Sleeping\<close>

text \<open>The duration that \<^verbatim>\<open>sleep\<close> computes; the product is one of 32-bit integers.\<close>

definition sleep_duration :: "32 word \<Rightarrow> 32 word \<Rightarrow> 32 word" where
  "sleep_duration sleep_sec sleep_nsec = sleep_sec * 1000000000 + sleep_nsec"

section \<open>Services and threads\<close>

definition keep_running :: "bool \<Rightarrow> io_service \<Rightarrow> io_service" where
  "keep_running is_running svc = (if is_running then svc\<lparr>svc_timers := svc_timers svc + 1\<rparr> else svc)"

text \<open>A keep-running timer expires; its handler is \<^verbatim>\<open>keep_running\<close> again.\<close>

definition timer_expires :: "nat \<Rightarrow> thread_scheduler \<Rightarrow> thread_scheduler" where
  "timer_expires i s =
     (if i < length (sch_services s) \<and> 0 < svc_timers (sch_services s ! i)
      then s\<lparr>sch_services := (sch_services s)[i := keep_running (m_is_running s)
               ((sch_services s ! i)\<lparr>svc_timers := svc_timers (sch_services s ! i) - 1\<rparr>)]\<rparr>
      else s)"

text \<open>The loop that makes sure that there are enough services.\<close>

definition grow_services :: "nat \<Rightarrow> io_service list \<Rightarrow> io_service list" where
  "grow_services n svcs = svcs @ replicate (n - length svcs) new_service"

text \<open>\<^verbatim>\<open>startup\<close> of the two schedulers: the services get their work item, and the threads start.\<close>

definition prepared_services :: "thread_scheduler \<Rightarrow> io_service list" where
  "prepared_services s =
     (case sch_kind s of
        Single_service \<Rightarrow> map (\<lambda>svc. keep_running True (svc\<lparr>svc_stopped := False\<rparr>)) (sch_services s)
      | One_to_one \<Rightarrow> map (keep_running True) (grow_services (unat (m_num_threads s)) (sch_services s)))"

definition startup :: "thread_scheduler \<Rightarrow> thread_scheduler" where
  "startup s =
     (if m_is_running s then s
      else
        (let n = unat (m_num_threads s)
         in s\<lparr>m_is_running := True, sch_services := prepared_services s,
              m_thread_pool := m_thread_pool s @ [sch_next_thread s ..< sch_next_thread s + n],
              sch_next_thread := sch_next_thread s + n\<rparr>))"

definition stop_services :: "thread_scheduler \<Rightarrow> thread_scheduler" where
  "stop_services s = s\<lparr>sch_services := map (\<lambda>svc. svc\<lparr>svc_stopped := True\<rparr>) (sch_services s)\<rparr>"

text \<open>
  \<^verbatim>\<open>stop_threads\<close>. The thread it compares with is a new object that represents no thread, with the identifier 0, and not the
  calling one: the test holds for every thread of the pool.
\<close>

fun join_threads :: "nat \<Rightarrow> nat list \<Rightarrow> scheduler_fault option" where
  "join_threads caller [] = None"
| "join_threads caller (i # is) =
     (if i \<noteq> 0 \<and> i = caller then Some (Resource_deadlock i) else join_threads caller is)"

definition stop_threads :: "nat \<Rightarrow> thread_scheduler \<Rightarrow> scheduler_fault + thread_scheduler" where
  "stop_threads caller s = (case join_threads caller (m_thread_pool s) of Some f \<Rightarrow> Inl f | None \<Rightarrow> Inr s)"

definition finish_services :: "thread_scheduler \<Rightarrow> thread_scheduler" where
  "finish_services s =
     s\<lparr>sch_services := (case sch_kind s of
                         Single_service \<Rightarrow> map (\<lambda>svc. svc\<lparr>svc_stopped := False\<rparr>) (sch_services s)
                       | One_to_one \<Rightarrow> [])\<rparr>"

definition finish_threads :: "thread_scheduler \<Rightarrow> thread_scheduler" where
  "finish_threads s = s\<lparr>m_thread_pool := []\<rparr>"

definition shutdown :: "nat \<Rightarrow> thread_scheduler \<Rightarrow> scheduler_fault + thread_scheduler" where
  "shutdown caller s =
     (if m_is_running s \<and> 0 < m_active_users s then Inl Waiting
      else (case stop_threads caller (stop_services (s\<lparr>m_is_running := False\<rparr>)) of
              Inl f \<Rightarrow> Inl f
            | Inr s \<Rightarrow> Inr (finish_threads (finish_services s))))"

definition join_scheduler :: "thread_scheduler \<Rightarrow> scheduler_fault + thread_scheduler" where
  "join_scheduler s = (if m_is_running s then Inl Waiting else Inr s)"

definition add_active_user :: "thread_scheduler \<Rightarrow> thread_scheduler" where
  "add_active_user s = (let s = (if \<not> m_is_running s then startup s else s) in s\<lparr>m_active_users := m_active_users s + 1\<rparr>)"

definition remove_active_user :: "thread_scheduler \<Rightarrow> thread_scheduler" where
  "remove_active_user s = s\<lparr>m_active_users := m_active_users s - 1\<rparr>"

text \<open>\<^verbatim>\<open>get_io_service\<close>: the index of the service; the assertions are compiled out.\<close>

definition get_io_service :: "thread_scheduler \<Rightarrow> scheduler_fault + nat \<times> thread_scheduler" where
  "get_io_service s =
     (case sch_kind s of
        Single_service \<Rightarrow> Inr (0, s)
      | One_to_one \<Rightarrow>
          (let s = s\<lparr>sch_services := grow_services (unat (m_num_threads s)) (sch_services s)\<rparr>;
               s = s\<lparr>m_next_service := m_next_service s + 1\<rparr>;
               s = (if m_num_threads s \<le> m_next_service s then s\<lparr>m_next_service := 0\<rparr> else s);
               i = unat (m_next_service s)
           in if i < length (sch_services s) then Inr (i, s) else Inl (No_service i)))"

section \<open>A server and its scheduler\<close>

text \<open>
  A server registers with its scheduler and unregisters again: the scheduler follows the change of
  \<^const>\<open>ts_active_users\<close>. Any thread may try to shut the scheduler down; when it has to wait, nothing happens. The number of calls of
  \<^verbatim>\<open>stop\<close> that wait at the same time is less than the number of threads that 32 bits can count.
\<close>

definition follow_users :: "int \<Rightarrow> thread_scheduler \<Rightarrow> thread_scheduler" where
  "follow_users d k = (if d = 1 then add_active_user k else if d = - 1 then remove_active_user k else k)"

inductive system_run :: "bool \<Rightarrow> connection_handler \<Rightarrow> tcp_server \<Rightarrow> thread_scheduler \<Rightarrow> bool" for have_ssl handler where
  system_new: "system_run have_ssl handler (new_tcp_server a p) (new_scheduler kind)"
| system_step: "system_run have_ssl handler s k \<Longrightarrow> server_step have_ssl handler ev s = Inr t \<Longrightarrow> ts_stopping t < 2 ^ 32 - 1 \<Longrightarrow>
    system_run have_ssl handler t (follow_users (ts_active_users t - ts_active_users s) k)"
| system_shutdown: "system_run have_ssl handler s k \<Longrightarrow> shutdown caller k = Inr k' \<Longrightarrow> system_run have_ssl handler s k'"
| system_timer: "system_run have_ssl handler s k \<Longrightarrow> system_run have_ssl handler s (timer_expires i k)"
| system_threads: "system_run have_ssl handler s k \<Longrightarrow> system_run have_ssl handler s (set_num_threads n k)"

lemma finish_users: "finish_server_connection handler c s = Inr t \<Longrightarrow> ts_active_users t = ts_active_users s"
  by (auto simp: finish_server_connection_def split: if_splits handler_action.splits)

lemma handle_users: "handle_server_connection handler c s = Inr t \<Longrightarrow> ts_active_users t = ts_active_users s"
  by (auto simp: handle_server_connection_def dest: finish_users split: handler_action.splits)

lemma handle_accept_users: "handle_accept have_ssl handler c client s = Inr t \<Longrightarrow> ts_active_users t = ts_active_users s"
  unfolding handle_accept_def listen_if
  by (auto simp: Let_def listen_frame dest!: finish_users handle_users split: option.splits if_splits)

lemma stop_round_users: "ts_active_users (stop_round s) = ts_active_users s \<or> ts_active_users (stop_round s) = ts_active_users s - 1"
proof -
  have "ts_active_users (if b then prune_connections s else s) = ts_active_users s" for b by (simp add: prune_connections_def)
  then show ?thesis by (simp add: stop_round_def Let_def)
qed

lemma server_step_users:
  assumes "server_step have_ssl handler ev s = Inr t"
  shows "ts_active_users t - ts_active_users s \<in> {- 1, 0, 1}"
proof (cases ev)
  case (Start acceptor)
  then show ?thesis using assms by (auto simp: start_server_def Let_def listen_frame split: open_result.splits if_splits)
next
  case (Accepted c client)
  then show ?thesis using assms handle_accept_users by (fastforce split: if_splits)
next
  case (Handshake c err)
  then show ?thesis using assms
    by (auto simp: handle_ssl_handshake_def dest!: finish_users handle_users split: if_splits)
next
  case (Finished c l)
  then show ?thesis using assms by (auto dest!: finish_users split: if_splits)
next
  case (Stop_begin w)
  then show ?thesis using assms by (auto simp: begin_stop_def)
next
  case Stop_round
  then show ?thesis using assms stop_round_users [of s] by auto
next
  case (Dropped c)
  then show ?thesis using assms by (auto split: if_splits)
qed

lemma shutdown_fields: "shutdown caller k = Inr k' \<Longrightarrow> m_active_users k' = m_active_users k \<and> \<not> m_is_running k' \<and> m_thread_pool k' = []"
  by (auto simp: shutdown_def stop_threads_def stop_services_def finish_services_def finish_threads_def split: if_splits option.splits)

lemma timer_fields: "m_active_users (timer_expires i k) = m_active_users k" "m_is_running (timer_expires i k) = m_is_running k"
  by (simp_all add: timer_expires_def)

lemma user_fields:
  "m_active_users (add_active_user k) = m_active_users k + 1" "m_is_running (add_active_user k)"
  "m_active_users (remove_active_user k) = m_active_users k - 1" "m_is_running (remove_active_user k) = m_is_running k"
  by (auto simp: add_active_user_def remove_active_user_def startup_def Let_def)

text \<open>
  What a client of a scheduler relies on: the users are counted, the scheduler runs once there is one, and does not stop when one
  leaves. Following a sequence of changes by at most one then keeps the count.
\<close>

locale counted_users =
  fixes add remove :: "'k \<Rightarrow> 'k" and users :: "'k \<Rightarrow> 32 word" and running :: "'k \<Rightarrow> bool"
  assumes add_users: "users (add k) = users k + 1" and add_running: "running (add k)"
    and remove_users: "users (remove k) = users k - 1" and remove_running: "running (remove k) = running k"
begin

definition follow :: "int \<Rightarrow> 'k \<Rightarrow> 'k" where
  "follow d k = (if d = 1 then add k else if d = - 1 then remove k else k)"

lemma follow_counts:
  assumes "d \<in> {- 1, 0, 1}" and "users k = of_int n" and "0 < n \<longrightarrow> running k"
  shows "users (follow d k) = of_int (n + d) \<and> (0 < n + d \<longrightarrow> running (follow d k))"
  using assms by (auto simp: follow_def add_users add_running remove_users remove_running)

end

interpretation sched: counted_users add_active_user remove_active_user m_active_users m_is_running
  by unfold_locales (rule user_fields)+

lemma follow_users_eq: "follow_users d k = sched.follow d k"
  by (simp add: follow_users_def sched.follow_def)

lemma users_positive: "0 < a \<Longrightarrow> a < 2 ^ 32 \<Longrightarrow> (0 :: 32 word) < of_int a"
  by (simp add: word_less_def uint_word_of_int)

lemma users_small: "accept_inv s \<Longrightarrow> ts_stopping s < 2 ^ 32 - 1 \<Longrightarrow> ts_active_users s < 2 ^ 32"
  by (simp add: accept_inv_def)

lemma system_run_inv:
  "system_run have_ssl handler s k \<Longrightarrow> pool_inv s \<and> accept_inv s \<and> ts_stopping s < 2 ^ 32 - 1 \<and>
     m_active_users k = of_int (ts_active_users s) \<and> (0 < ts_active_users s \<longrightarrow> m_is_running k)"
proof (induction rule: system_run.induct)
  case (system_new a p kind)
  show ?case using new_server_inv by (simp add: new_tcp_server_def new_scheduler_def)
next
  case (system_step s k ev t)
  have "pool_inv t" "accept_inv t" using server_step_inv system_step.IH system_step.hyps(2) by blast+
  moreover have "m_active_users (follow_users (ts_active_users t - ts_active_users s) k) = of_int (ts_active_users t)"
    "0 < ts_active_users t \<longrightarrow> m_is_running (follow_users (ts_active_users t - ts_active_users s) k)"
    using sched.follow_counts [OF server_step_users [OF system_step.hyps(2)], of k "ts_active_users s"] system_step.IH
    by (simp_all add: follow_users_eq)
  ultimately show ?case using system_step.hyps(3) by blast
next
  case (system_shutdown s k caller k')
  have small: "ts_active_users s < 2 ^ 32" using system_shutdown.IH users_small by blast
  have "\<not> 0 < ts_active_users s"
  proof
    assume "0 < ts_active_users s"
    then have "m_is_running k \<and> 0 < m_active_users k" using users_positive [OF _ small] system_shutdown.IH by simp
    then show False using system_shutdown.hyps(2) by (simp add: shutdown_def)
  qed
  moreover have "m_active_users k' = m_active_users k" using shutdown_fields [OF system_shutdown.hyps(2)] by blast
  ultimately show ?case using system_shutdown.IH by simp
next
  case (system_timer s k i)
  then show ?case by (simp add: timer_fields)
next
  case (system_threads s k n)
  then show ?case by (simp add: set_num_threads_def)
qed

section \<open>Properties\<close>

lemma no_self_join: "caller \<notin> set is \<Longrightarrow> join_threads caller is = None"
  by (induction "is") auto


text \<open>The server of \<^const>\<open>one_client\<close> with its scheduler: it cannot be shut down.\<close>

lemma system_server:
  assumes "server_step False (\<lambda>_. Keeps) (Start (Bound 0 8080)) (new_tcp_server 0 0) = Inr s"
  shows "system_run False (\<lambda>_. Keeps) s (add_active_user (new_scheduler Single_service))"
proof -
  have "system_run False (\<lambda>_. Keeps) s (follow_users (ts_active_users s - ts_active_users (new_tcp_server 0 0)) (new_scheduler Single_service))"
    by (rule system_step [OF system_new assms]) (use assms in \<open>auto simp: start_server_def new_tcp_server_def listen_frame Let_def\<close>)
  moreover have "ts_active_users s = 1" "ts_active_users (new_tcp_server 0 0) = 0"
    using assms by (auto simp: start_server_def new_tcp_server_def listen_frame Let_def)
  ultimately show ?thesis by (simp add: follow_users_def)
qed


text \<open>\<^verbatim>\<open>sleep\<close> computes its duration in 32 bits: the thread sleeps for the requested time modulo \<open>2 ^ 32\<close> nanoseconds, which
  is the requested time only below 4.29 seconds, and always less than that.\<close>

theorem sleep_duration_wraps:
  "unat (sleep_duration sec nsec) = (unat sec * NSEC_IN_SECOND + unat nsec) mod 2 ^ 32 \<and>
   (unat (sleep_duration sec nsec) = unat sec * NSEC_IN_SECOND + unat nsec \<longleftrightarrow> unat sec * NSEC_IN_SECOND + unat nsec < 2 ^ 32)"
proof -
  have "sleep_duration sec nsec = of_nat (unat sec * NSEC_IN_SECOND + unat nsec)"
    by (simp add: sleep_duration_def NSEC_IN_SECOND_def)
  then have "unat (sleep_duration sec nsec) = (unat sec * NSEC_IN_SECOND + unat nsec) mod 2 ^ 32"
    by (simp only: unat_of_nat) (simp add: take_bit_eq_mod)
  then show ?thesis by (metis mod_less mod_less_divisor zero_less_numeral zero_less_power)
qed

text \<open>Successive calls of \<^verbatim>\<open>get_io_service\<close> go round the services, one per thread.\<close>

theorem service_round_robin:
  assumes "sch_kind s = One_to_one" and "0 < m_num_threads s" and "m_next_service s < m_num_threads s"
  shows "\<exists>t. get_io_service s = Inr ((unat (m_next_service s) + 1) mod unat (m_num_threads s), t) \<and>
    unat (m_next_service t) = (unat (m_next_service s) + 1) mod unat (m_num_threads s)"
proof -
  have lt: "unat (m_next_service s) < unat (m_num_threads s)" using assms(3) by (simp add: word_less_nat_alt)
  moreover have "unat (m_num_threads s) < 2 ^ 32" using unsigned_less [of "m_num_threads s", where ?'a = nat] by simp
  ultimately have suc: "unat (m_next_service s + 1) = unat (m_next_service s) + 1"
    by (simp add: unat_word_ariths(1))
  have len: "n \<le> length (grow_services n svcs)" for n svcs by (simp add: grow_services_def)
  show ?thesis
  proof (cases "unat (m_next_service s) + 1 = unat (m_num_threads s)")
    case True
    then have "m_num_threads s \<le> m_next_service s + 1" using suc by (simp add: word_le_nat_alt)
    moreover have "grow_services (unat (m_num_threads s)) (sch_services s) \<noteq> []" using len [of "unat (m_num_threads s)" "sch_services s"] True by auto
    ultimately show ?thesis using True assms(1) lt len [of "unat (m_num_threads s)" "sch_services s"] by (simp add: get_io_service_def Let_def)
  next
    case False
    then have "\<not> m_num_threads s \<le> m_next_service s + 1" using suc lt by (simp add: word_le_nat_alt)
    then show ?thesis using False assms(1) lt suc len [of "unat (m_num_threads s)" "sch_services s"] by (simp add: get_io_service_def Let_def)
  qed
qed

text \<open>With no threads there is no service, and the access is outside the pool.\<close>

theorem no_threads_no_service:
  "sch_kind s = One_to_one \<Longrightarrow> m_num_threads s = 0 \<Longrightarrow> sch_services s = [] \<Longrightarrow> get_io_service s = Inl (No_service 0)"
  by (simp add: get_io_service_def Let_def grow_services_def)

text \<open>A thread of the pool that shuts the scheduler down joins itself.\<close>

theorem shutdown_joins_itself:
  assumes "m_active_users s = 0" and "caller \<in> set (m_thread_pool s)" and "caller \<noteq> 0"
  shows "shutdown caller s = Inl (Resource_deadlock caller)"
proof -
  have "join_threads caller is = Some (Resource_deadlock caller)" if "caller \<in> set is" for "is"
    using that assms(3) by (induction "is") auto
  then show ?thesis using assms(1,2) by (simp add: shutdown_def stop_threads_def stop_services_def)
qed

end
