(* ===== verification/Services.thy ===== *)
theory Services
  imports Http_Server
begin

text \<open>
  The small services that come with the server (\<^verbatim>\<open>services/HelloService.cpp\<close>, \<^verbatim>\<open>AllowNothingService.cpp\<close>,
  \<^verbatim>\<open>EchoService.cpp\<close>, \<^verbatim>\<open>CookieService.cpp\<close>, \<^verbatim>\<open>LogService.cpp\<close>): their request handlers, and the cache of log events. A handler
  builds one response and sends it; the changes of the response's headers, which the code makes between the
  writes, are made before them here, as neither depends on the other. The formatting of a log event belongs to the logging library.
\<close>

section \<open>Fixed answers\<close>

definition HELLO_HTML :: string where
  "HELLO_HTML = ''<html><body>Hello World!</body></html>''"

definition HelloService :: "'w request_handler_t" where
  "HelloService = answer_with id [Write_no_copy HELLO_HTML, Write_no_copy STRING_CRLF, Write_no_copy STRING_CRLF]"

definition DENY_HTML :: string where
  "DENY_HTML = ''<html><body>No, you can'' @ [CHR 0x27] @ ''t.</body></html>''"

definition AllowNothingService :: "'w request_handler_t" where
  "AllowNothingService =
     answer_with (add_header ''Allow'' ''GET'' \<circ> set_status_message RESPONSE_MESSAGE_METHOD_NOT_ALLOWED \<circ>
         set_status_code RESPONSE_CODE_METHOD_NOT_ALLOWED)
       [Write_no_copy DENY_HTML, Write_no_copy STRING_CRLF, Write_no_copy STRING_CRLF]"

section \<open>Echo\<close>

definition writeDictionaryTerm :: "string \<times> string \<Rightarrow> write_call list" where
  "writeDictionaryTerm val = map Write_text [fst val, HEADER_NAME_VALUE_DELIMITER, snd val, STRING_CRLF]"

definition echo_section :: "string \<Rightarrow> write_call list" where
  "echo_section title = [Write_no_copy title, Write_no_copy STRING_CRLF, Write_no_copy STRING_CRLF]"

definition echo_dictionary :: "string \<Rightarrow> ihash_multimap \<Rightarrow> write_call list" where
  "echo_dictionary title dict =
     echo_section title @ concat (map writeDictionaryTerm dict) @ [Write_no_copy STRING_CRLF]"

definition echo_request :: "http_message \<Rightarrow> write_call list" where
  "echo_request request = map Write_text
     [''Request method: '', req_method request, STRING_CRLF,
      ''Resource originally requested: '', req_original_resource request, STRING_CRLF,
      ''Resource delivered: '', req_resource request, STRING_CRLF,
      ''Query string: '', req_query_string request, STRING_CRLF,
      ''HTTP version: '', to_string (unat (msg_version_major request)), ''.'', to_string (unat (msg_version_minor request)), STRING_CRLF,
      ''Content length: '', to_string (msg_content_length request), STRING_CRLF, STRING_CRLF]"

definition echo_content :: "http_message \<Rightarrow> write_call list" where
  "echo_content request =
     echo_section ''[POST Content]'' @
     (if msg_content_length request \<noteq> 0
      then [Write_binary (content_bytes request), Write_no_copy STRING_CRLF, Write_no_copy STRING_CRLF] else [])"

text \<open>The user of a request is an object; \<open>username\<close> is its name.\<close>

definition echo_user :: "(nat \<Rightarrow> string) \<Rightarrow> http_message \<Rightarrow> write_call list" where
  "echo_user username request =
     (case req_user_record request of
        None \<Rightarrow> []
      | Some u \<Rightarrow> echo_section ''[USER Info]'' @
          [Write_text ''User authenticated, username: '', Write_text (username u), Write_no_copy STRING_CRLF])"

definition EchoService :: "(nat \<Rightarrow> string) \<Rightarrow> 'w request_handler_t" where
  "EchoService username request =
     answer_with (set_content_type CONTENT_TYPE_TEXT)
       (echo_section ''[Request Echo]'' @ echo_request request @
        echo_dictionary ''[Request Headers]'' (msg_headers request) @
        echo_dictionary ''[Query Parameters]'' (req_query_params request) @
        echo_dictionary ''[Cookie Parameters]'' (msg_cookie_params request) @
        echo_content request @ echo_user username request)
       request"

section \<open>Cookies\<close>

definition quot :: string where "quot = [CHR 0x22]"

definition COOKIE_HEADER_HTML :: string where
  "COOKIE_HEADER_HTML =
     ''<html>'' @ [LF] @ ''<head>'' @ [LF] @ ''<title>Cookie Service</title>'' @ [LF] @
     ''</head>'' @ [LF] @ ''<body>'' @ [LF] @ [LF] @ ''<h1>Cookie Service</h1>'' @ [LF]"

definition COOKIE_FOOTER_HTML :: string where
  "COOKIE_FOOTER_HTML = [LF] @ ''</body>'' @ [LF] @ ''</html>'' @ [LF]"

text \<open>The action of a request: the change of the response and the text of the page.\<close>

definition note_html :: "string list \<Rightarrow> write_call list" where
  "note_html texts = [Write_text ([LF] @ ''<p>['' @ concat texts @ '']</p>'' @ [LF] @ [LF])]"

definition cookie_action :: "http_message \<Rightarrow> (http_message \<Rightarrow> http_message) \<times> write_call list" where
  "cookie_action request =
     (if \<not> has_query request ''action'' then (id, [])
      else
        (let cookie_name = get_query request ''cookie_name''; cookie_value = get_query request ''cookie_value''
         in if get_query request ''action'' = ''Add Cookie'' then
              (if cookie_name = [] \<or> cookie_value = []
               then (id, note_html [''Error: You must specify a name and value to add a cookie''])
               else (set_cookie cookie_name cookie_value, note_html [''Added cookie '', cookie_name, ''='', cookie_value]))
            else if get_query request ''action'' = ''delete'' then
              (if cookie_name = [] then (id, note_html [''Error: You must specify a name to delete a cookie''])
               else (response_delete_cookie cookie_name, note_html [''Deleted cookie '', cookie_name]))
            else (id, note_html [''Error: Unrecognized action''])))"

definition heading_html :: "string \<Rightarrow> string" where
  "heading_html title = [LF] @ ''<h2>'' @ title @ ''</h2>'' @ [LF]"

definition cookie_headers :: "http_message \<Rightarrow> write_call list" where
  "cookie_headers request =
     (if has_header request HEADER_COOKIE then
        [Write_text (heading_html ''Cookie Headers'' @ ''<ul>'' @ [LF])] @
        map (\<lambda>h. Write_text (''<li>Cookie: '' @ snd h @ [LF])) (equal_range (msg_headers request) HEADER_COOKIE) @
        [Write_text (''</ul>'' @ [LF] @ [LF])]
      else [Write_text (heading_html ''No Cookie Headers'' @ [LF])])"

definition cookie_item :: "http_message \<Rightarrow> string \<times> string \<Rightarrow> string" where
  "cookie_item request i =
     ''<li>'' @ fst i @ '': '' @ snd i @ '' <a href='' @ quot @ req_resource request @
     ''?action=delete&cookie_name='' @ fst i @ quot @ ''>[Delete]</a>'' @ [LF]"

definition cookie_variables :: "http_message \<Rightarrow> write_call list" where
  "cookie_variables request =
     (if msg_cookie_params request \<noteq> [] then
        [Write_text (heading_html ''Cookie Variables'' @ ''<ul>'' @ [LF])] @
        map (\<lambda>i. Write_text (cookie_item request i)) (msg_cookie_params request) @
        [Write_text (''</ul>'' @ [LF] @ [LF])]
      else [Write_text (heading_html ''No Cookie Variables'' @ [LF])])"

definition input_html :: "string \<Rightarrow> string \<Rightarrow> string" where
  "input_html kind name = ''<input type='' @ quot @ kind @ quot @ '' name='' @ quot @ name @ quot"

definition cookie_form :: "http_message \<Rightarrow> write_call list" where
  "cookie_form request =
     [Write_text (heading_html ''Add Cookie'' @ ''<p><form action='' @ quot @ req_resource request @ quot @
        '' method='' @ quot @ ''POST'' @ quot @ ''>'' @ [LF] @
        ''Name: '' @ input_html ''text'' ''cookie_name'' @ ''><br />'' @ [LF] @
        ''Value: '' @ input_html ''text'' ''cookie_value'' @ ''><br />'' @ [LF] @
        input_html ''submit'' ''action'' @ '' value='' @ quot @ ''Add Cookie'' @ quot @ ''></p>'' @ [LF] @
        ''</form>'' @ [LF] @ [LF])]"

definition CookieService :: "'w request_handler_t" where
  "CookieService request =
     (let (edit, note) = cookie_action request
      in answer_with (edit \<circ> set_content_type CONTENT_TYPE_HTML)
           ([Write_no_copy COOKIE_HEADER_HTML] @ note @ cookie_headers request @ cookie_variables request @
            cookie_form request @ [Write_no_copy COOKIE_FOOTER_HTML])
           request)"

section \<open>The log\<close>

datatype logging_build = Log_library | Logging_disabled | Ostream_logging

record log_appender =
  m_max_events :: nat
  m_num_events :: nat
  m_log_events :: "string list"

definition DEFAULT_MAX_EVENTS :: nat where "DEFAULT_MAX_EVENTS = 25"

definition new_log_appender :: log_appender where
  "new_log_appender = \<lparr> m_max_events = DEFAULT_MAX_EVENTS, m_num_events = 0, m_log_events = [] \<rparr>"

definition setMaxEvents :: "nat \<Rightarrow> log_appender \<Rightarrow> log_appender" where
  "setMaxEvents n a = a\<lparr>m_max_events := n\<rparr>"

text \<open>The loop that erases the oldest events.\<close>

function erase_events :: "log_appender \<Rightarrow> log_appender" where
  "erase_events a =
     (if m_max_events a < m_num_events a
      then erase_events (a\<lparr>m_log_events := drop 1 (m_log_events a), m_num_events := m_num_events a - 1\<rparr>) else a)"
  by pat_completeness auto
termination by (relation "measure m_num_events") auto

declare erase_events.simps [simp del]

definition addLogString :: "string \<Rightarrow> log_appender \<Rightarrow> log_appender" where
  "addLogString log_string a =
     erase_events (a\<lparr>m_log_events := m_log_events a @ [log_string], m_num_events := m_num_events a + 1\<rparr>)"

definition writeLogEvents :: "logging_build \<Rightarrow> log_appender \<Rightarrow> write_call list" where
  "writeLogEvents build a =
     (case build of
        Log_library \<Rightarrow> map Write_text (m_log_events a)
      | Logging_disabled \<Rightarrow> [Write_text ''Logging is disabled.'', Write_text STRING_CRLF]
      | Ostream_logging \<Rightarrow> [Write_text ''Using ostream logging.'', Write_text STRING_CRLF])"

definition LogService :: "logging_build \<Rightarrow> log_appender \<Rightarrow> 'w request_handler_t" where
  "LogService build a = answer_with (set_content_type CONTENT_TYPE_TEXT) (writeLogEvents build a)"

section \<open>Lemmas\<close>

lemma erase_events_result:
  assumes "m_num_events a = length (m_log_events a)"
  shows "erase_events a = a\<lparr>m_log_events := drop (length (m_log_events a) - m_max_events a) (m_log_events a),
    m_num_events := min (length (m_log_events a)) (m_max_events a)\<rparr>"
  using assms
proof (induction a rule: erase_events.induct)
  case (1 a)
  show ?case
  proof (cases "m_max_events a < m_num_events a")
    case True
    let ?b = "a\<lparr>m_log_events := drop 1 (m_log_events a), m_num_events := m_num_events a - 1\<rparr>"
    have b: "m_num_events ?b = length (m_log_events ?b)" using 1(2) True by simp
    have "length (m_log_events a) - m_max_events a = Suc (length (m_log_events a) - 1 - m_max_events a)" using True 1(2) by simp
    then show ?thesis using 1(1) [OF True b] True 1(2) by (subst erase_events.simps) (simp add: min_def)
  next
    case False
    then show ?thesis using 1(2) by (subst erase_events.simps) simp
  qed
qed

lemma drop_twice:
  "drop (length (drop (length xs - m) xs @ ys) - m) (drop (length xs - m) xs @ ys) = drop (length (xs @ ys) - m) (xs @ ys)"
proof -
  have "drop (length xs - m) xs @ ys = drop (length xs - m) (xs @ ys)" by simp
  moreover have "length (drop (length xs - m) xs @ ys) - m + (length xs - m) = length (xs @ ys) - m" by auto
  ultimately show ?thesis by (metis drop_drop)
qed

section \<open>Properties\<close>

text \<open>The log service shows the last events that were logged, at most \<^verbatim>\<open>m_max_events\<close> of them, in order.\<close>

theorem log_keeps_last:
  assumes "m_num_events a = length (m_log_events a)" and "length (m_log_events a) \<le> m_max_events a"
  shows "let b = foldl (\<lambda>a s. addLogString s a) a logged; all = m_log_events a @ logged
    in m_log_events b = drop (length all - m_max_events a) all \<and> m_num_events b = length (m_log_events b) \<and> m_max_events b = m_max_events a"
  using assms
proof (induction logged arbitrary: a)
  case (Cons x logged)
  define b where "b = addLogString x a"
  have b: "m_log_events b = drop (length (m_log_events a) + 1 - m_max_events a) (m_log_events a @ [x])"
    "m_num_events b = length (m_log_events b)" "m_max_events b = m_max_events a"
    using Cons.prems by (auto simp: b_def addLogString_def erase_events_result)
  then have le: "length (m_log_events b) \<le> m_max_events b" using Cons.prems(2) by simp
  have "drop (length (m_log_events b @ logged) - m_max_events a) (m_log_events b @ logged) =
      drop (length (m_log_events a @ x # logged) - m_max_events a) (m_log_events a @ x # logged)"
    using drop_twice [of "m_log_events a @ [x]" "m_max_events a" logged] by (simp add: b(1))
  then show ?case using Cons.IH [OF b(2) le] b(3) by (simp add: Let_def flip: b_def)
qed (simp add: Let_def)

text \<open>The cookie service puts the name and the value of a new cookie on its page as they are, without the encoding that the other pages use.\<close>

theorem cookie_page_unescaped:
  assumes "has_query request ''action''" and "get_query request ''action'' = ''Add Cookie''"
    and "get_query request ''cookie_name'' = name" and "get_query request ''cookie_value'' = val" and "name \<noteq> []" and "val \<noteq> []"
  shows "cookie_action request = (set_cookie name val,
    [Write_text ([LF] @ ''<p>[Added cookie '' @ name @ ''='' @ val @ '']</p>'' @ [LF] @ [LF])])"
  using assms by (simp add: cookie_action_def note_html_def Let_def)

end
