(* ===== verification/Spec2Isabelle.thy ===== *)
theory Spec2Isabelle
  imports Parser_Chunks Tcp_Connection Http_Writer Auth_Props Server_Props Reader_Props Spdy_Props Plugin_Server_Props File_Props File_Scan Stream_Props Scheduler Services
begin

text \<open>
  A verification of pion, a C++ library for HTTP servers and clients. Paths are relative to the
  repository.

  THE PROGRAM. A \<^verbatim>\<open>tcp::server\<close> accepts connections and hands each to the HTTP server
  (\<^verbatim>\<open>src/http_server.cpp\<close>), which attaches a reader (\<^verbatim>\<open>src/http_reader.cpp\<close>) to it. The reader takes what
  the connection delivers into a fixed buffer and drives the incremental parser (\<^verbatim>\<open>src/http_parser.cpp\<close>),
  which builds an \<^verbatim>\<open>http::request\<close> (\<^verbatim>\<open>include/pion/http/message.hpp\<close>). When the parser is done the server
  redirects, authenticates (\<^verbatim>\<open>src/http_auth.cpp\<close>, \<^verbatim>\<open>src/http_basic_auth.cpp\<close>, \<^verbatim>\<open>src/http_cookie_auth.cpp\<close>,
  with the users of \<^verbatim>\<open>include/pion/user.hpp\<close>), chooses the handler with the longest matching resource and calls it.
  The handler answers through a writer (\<^verbatim>\<open>include/pion/http/writer.hpp\<close>), which prepares the response and
  hands buffers to the connection; when the write has finished, the connection is kept or closed. Services are
  loaded from plug-in libraries (\<^verbatim>\<open>src/plugin.cpp\<close>) by \<^verbatim>\<open>src/http_plugin_server.cpp\<close> under the control of a
  configuration file. The SPDY parser (\<^verbatim>\<open>src/spdy_parser.cpp\<close>) is a separate part for captured traffic.

  THE THEORIES, in the order of the code.

  \<^item> \<open>Pion_Prelude\<close>: bytes, C strings, the wrap-around of \<^verbatim>\<open>size_t\<close>, \<^verbatim>\<open>strtol\<close> and the generic lemmas on lists
    and prefixes that the components share.
  \<^item> \<open>Tribool\<close>: \<^verbatim>\<open>include/pion/tribool.hpp\<close>, every operator and overload.
  \<^item> \<open>Algorithm\<close>: \<^verbatim>\<open>src/algorithm.cpp\<close> and the integer conversions of \<^verbatim>\<open>include/pion/algorithm.hpp\<close>;
    base64 and URL round trips, with the reads outside of the decoding table as a fault.
  \<^item> \<open>String_Utils\<close>: \<^verbatim>\<open>src/string_utils.cpp\<close>; \<^verbatim>\<open>replace_all\<close> may run forever and is a partial function.
  \<^item> \<open>Hash_Map\<close>: the case-insensitive multimap of the headers; the locale \<open>string_multimap\<close> is the contract of
    the container, interpreted on the list model.
  \<^item> \<open>Ordered_Map\<close>: \<^verbatim>\<open>std::map\<close> and \<^verbatim>\<open>std::set\<close> on strings, and the search for the longest parent path that
    \<^verbatim>\<open>http::server\<close>, \<^verbatim>\<open>http::auth\<close> and \<^verbatim>\<open>plugin_manager\<close> share, with the locale \<open>resource_search\<close>.
  \<^item> \<open>Http_Message\<close>: \<^verbatim>\<open>http::types\<close>, \<^verbatim>\<open>http::message\<close>, \<^verbatim>\<open>http::request\<close>, \<^verbatim>\<open>http::response\<close>; the framing
    headers of a prepared message, and the cached first line.
  \<^item> \<open>Form_Data\<close>: the static parsers of \<^verbatim>\<open>http::parser\<close> (query strings, multipart data, cookies, forwarded
    addresses) and their round trips.
  \<^item> \<open>Http_Parser\<close>: the parser, one step per byte. \<open>Parser_Turns\<close> describes one turn of its loop,
    \<open>Parser_Props\<close> shows that the cut of the input into buffers does not matter, \<open>Parser_Safety\<close> and
    \<open>Parser_Session\<close> hold the invariant of the buffers and limits over every session of calls, \<open>Parser_Run\<close>
    and \<open>Parser_Chunks\<close> compose sending and parsing of requests, responses and chunked bodies.
  \<^item> \<open>Tcp_Connection\<close>: the state of \<^verbatim>\<open>tcp::connection\<close>.
  \<^item> \<open>Tcp_Server\<close>: \<^verbatim>\<open>src/tcp_server.cpp\<close>, the pool of connections with the references to them, and the life cycle of the server as
    events: a listening server waits for a client and counts its connections, and stopping ends.
  \<^item> \<open>Tcp_Stream\<close>, \<open>Stream_Props\<close>: the stream buffer of \<^verbatim>\<open>include/pion/tcp/stream.hpp\<close>: what is written arrives in order, what is read
    does not depend on the deliveries, bytes can be put back, and the write buffer after a failed write.
  \<^item> \<open>Scheduler\<close>: \<^verbatim>\<open>src/scheduler.cpp\<close>: active users, startup and shutdown, and a server together with its scheduler; the locale
    \<open>counted_users\<close> is what the server relies on.
  \<^item> \<open>Http_Writer\<close>: the writers, refined to an append-only payload.
  \<^item> \<open>Http_Reader\<close>, \<open>Reader_Props\<close>: the readers, the read timer and \<^verbatim>\<open>message::read\<close>: the deliveries of the
    connection are reassembled, and bytes behind a message are kept for the next.
  \<^item> \<open>User_Manager\<close>, \<open>Http_Auth\<close>, \<open>Auth_Props\<close>: users and authentication: the user manager refines a table
    of credentials, and what it takes to be let through.
  \<^item> \<open>Http_Server\<close>, \<open>Server_Props\<close>: dispatch of a request, redirections, restricted resources.
  \<^item> \<open>Plugin\<close>, \<open>Plugin_Props\<close>, \<open>Plugin_Manager\<close>, \<open>Plugin_Server\<close>, \<open>Plugin_Server_Props\<close>: libraries with their
    reference counts, the manager of objects, the server for web services and its configuration files.
  \<^item> \<open>Spdy_Parser\<close>, \<open>Spdy_Props\<close>: the SPDY frame parser and the decompressor.
  \<^item> \<open>Http_Date\<close>: the date text of \<^verbatim>\<open>src/http_types.cpp\<close> with the calendar behind it; different times have different
    texts.
  \<^item> \<open>File_Service\<close>, \<open>File_Transfer\<close>, \<open>File_Safety\<close>, \<open>File_Scan\<close>, \<open>File_Props\<close>: the file service
    (\<^verbatim>\<open>services/FileService.cpp\<close>): what its senders put on the connection and what a client makes of it, the
    invariant of its cache and buffers, the scan of its directory, conditional requests, and the requests that
    leave the directory.
  \<^item> \<open>Services\<close>: the other services that come with the server, and the cache of the log service.

  CONVENTIONS. A class is a record with the members of the code, a method a function that returns the
  record updated. An exception, a read or write outside of a buffer, and a failed assertion are values of a
  sum type (\<open>Inl\<close>) or of an option, so a theorem that gives \<open>Inr\<close> also shows their absence. A
  pointer pair into a buffer is the text between the pointers. Integers whose overflow matters keep their width
  as words, or wrap around explicitly as \<^verbatim>\<open>size_t\<close> does through \<open>szadd\<close>. The types of the model are those of
  64-bit Linux with signed \<^verbatim>\<open>char\<close>. Mutexes make an operation atomic; where the code can lock a mutex that it holds,
  the model has a fault for it. Loops are structural, have a termination proof, or are partial functions
  whose value is \<open>None\<close> when they do not return; there is no fuel.

  PARAMETERS. What is not part of the repository is an argument: the digests of OpenSSL, the
  random number source, zlib, the dynamic loader, the file system, the clock, and what the peer sends. The
  hypotheses about them are in the theorems, and each has a witness with concrete functions.

  NOT MODELLED. The event loop that the worker threads of \<^verbatim>\<open>src/scheduler.cpp\<close> run and the asynchronous operations themselves belong
  to asio: a completed operation is an event of the reader, the writer or the connection. Logging, process
  management, privileges and the programs under \<^verbatim>\<open>utils/\<close> are output and calls to the operating system. The
  floating-point conversions of \<^verbatim>\<open>algorithm.hpp\<close>, the Windows branches, and the SSL handshake are left out.
\<close>

end
